(* ===== verification/Json.thy ===== *)
theory Json
  imports Prelude
begin

text \<open>
  The parsed JSON value (\<open>serde_json::Value\<close>) and the guard primitives that read it:
  \<open>rust/tp-proto/src/lib.rs\<close> and their copies in \<open>rust/tp-relay/src/lib.rs\<close>.

  A JSON number is what \<open>serde_json\<close> keeps of its text: a \<open>u64\<close>, a negative \<open>i64\<close>, or a
  finite double. A finite double is written as mantissa and binary exponent,
  \<open>F64 m e\<close> for \<open>m * 2 ^ e\<close>; NaN and the infinities have no JSON text.
\<close>

section \<open>Finite doubles\<close>

datatype f64 = F64 (f64_mant: int) (f64_expo: int)

text \<open>Comparison by value, on a common exponent.\<close>

definition f64_le :: "f64 \<Rightarrow> f64 \<Rightarrow> bool" where
  "f64_le a b =
    (let k = min (f64_expo a) (f64_expo b) in
     f64_mant a * 2 ^ nat (f64_expo a - k) \<le> f64_mant b * 2 ^ nat (f64_expo b - k))"

definition f64_lt :: "f64 \<Rightarrow> f64 \<Rightarrow> bool" where
  "f64_lt a b \<longleftrightarrow> \<not> f64_le b a"

text \<open>\<open>f.fract() == 0.0\<close>, and the truncation \<open>f as u64\<close>, which saturates.\<close>

definition f64_is_integral :: "f64 \<Rightarrow> bool" where
  "f64_is_integral f \<longleftrightarrow> 0 \<le> f64_expo f \<or> f64_mant f mod 2 ^ nat (- f64_expo f) = 0"

definition f64_trunc :: "f64 \<Rightarrow> int" where
  "f64_trunc f = (if 0 \<le> f64_expo f then f64_mant f * 2 ^ nat (f64_expo f)
     else sgn (f64_mant f) * (\<bar>f64_mant f\<bar> div 2 ^ nat (- f64_expo f)))"

definition f64_as_u64 :: "f64 \<Rightarrow> u64" where
  "f64_as_u64 f = word_of_int (max 0 (min (f64_trunc f) (2 ^ 64 - 1)))"

text \<open>\<open>n as f64\<close>: round to 53 significant bits, ties to even.\<close>

fun bit_count :: "nat \<Rightarrow> nat" where
  "bit_count n = (if n = 0 then 0 else Suc (bit_count (n div 2)))"

declare bit_count.simps [simp del]

definition nat_as_f64 :: "nat \<Rightarrow> f64" where
  "nat_as_f64 n =
    (if n < 2 ^ 53 then F64 (int n) 0
     else let k = bit_count n - 53; q = n div 2 ^ k; r = n mod 2 ^ k; half = 2 ^ (k - 1)
       in F64 (int (if r > half \<or> (r = half \<and> odd q) then Suc q else q)) (int k))"

definition u64_as_f64 :: "u64 \<Rightarrow> f64" where
  "u64_as_f64 w = nat_as_f64 (unat w)"

definition i64_as_f64 :: "int \<Rightarrow> f64" where
  "i64_as_f64 i = (let f = nat_as_f64 (nat \<bar>i\<bar>) in F64 (sgn i * f64_mant f) (f64_expo f))"

section \<open>JSON values\<close>

datatype json_number = PosInt u64 | NegInt int | Float f64

datatype json =
    JNull
  | JBool bool
  | JNumber json_number
  | JString string
  | JArray "json list"
  | JObject "(string \<times> json) list"

type_synonym json_object = "(string \<times> json) list"

fun as_object :: "json \<Rightarrow> json_object option" where
  "as_object (JObject obj) = Some obj"
| "as_object _ = None"

fun as_str :: "json \<Rightarrow> string option" where
  "as_str (JString s) = Some s"
| "as_str _ = None"

fun as_bool :: "json \<Rightarrow> bool option" where
  "as_bool (JBool b) = Some b"
| "as_bool _ = None"

fun as_array :: "json \<Rightarrow> json list option" where
  "as_array (JArray xs) = Some xs"
| "as_array _ = None"

fun as_u64 :: "json \<Rightarrow> u64 option" where
  "as_u64 (JNumber (PosInt n)) = Some n"
| "as_u64 _ = None"

fun as_f64 :: "json \<Rightarrow> f64 option" where
  "as_f64 (JNumber (PosInt n)) = Some (u64_as_f64 n)"
| "as_f64 (JNumber (NegInt i)) = Some (i64_as_f64 i)"
| "as_f64 (JNumber (Float f)) = Some f"
| "as_f64 _ = None"

text \<open>\<open>Value::get\<close>.\<close>

definition json_get :: "json \<Rightarrow> string \<Rightarrow> json option" where
  "json_get v key = Option.bind (as_object v) (\<lambda>obj. map_of obj key)"

section \<open>Guard primitives\<close>

definition req_string :: "json_object \<Rightarrow> string \<Rightarrow> string option" where
  "req_string obj key = Option.bind (map_of obj key) as_str"

definition is_number :: "json \<Rightarrow> f64 option" where
  "is_number v = as_f64 v"

definition req_bool :: "json_object \<Rightarrow> string \<Rightarrow> bool option" where
  "req_bool obj key = Option.bind (map_of obj key) as_bool"

definition opt_string :: "json_object \<Rightarrow> string \<Rightarrow> string option option" where
  "opt_string obj key =
    (case map_of obj key of
       None \<Rightarrow> Some None
     | Some (JString s) \<Rightarrow> Some (Some s)
     | Some _ \<Rightarrow> None)"

definition opt_number :: "json_object \<Rightarrow> string \<Rightarrow> f64 option option" where
  "opt_number obj key =
    (case map_of obj key of
       None \<Rightarrow> Some None
     | Some v \<Rightarrow> map_option Some (is_number v))"

definition opt_bool :: "json_object \<Rightarrow> string \<Rightarrow> bool option option" where
  "opt_bool obj key =
    (case map_of obj key of
       None \<Rightarrow> Some None
     | Some (JBool b) \<Rightarrow> Some (Some b)
     | Some _ \<Rightarrow> None)"

fun collect_options :: "'a option list \<Rightarrow> 'a list option" where
  "collect_options [] = Some []"
| "collect_options (None # xs) = None"
| "collect_options (Some x # xs) = map_option (Cons x) (collect_options xs)"

definition as_string_array :: "json \<Rightarrow> string list option" where
  "as_string_array v = Option.bind (as_array v) (\<lambda>xs. collect_options (map as_str xs))"

text \<open>\<open>tp_proto::is_non_negative_int\<close> admits a double up to and including \<open>u64::MAX as f64\<close>.\<close>

definition proto_is_non_negative_int :: "json \<Rightarrow> u64 option" where
  "proto_is_non_negative_int v =
    (case as_u64 v of
       Some u \<Rightarrow> Some u
     | None \<Rightarrow>
        (case as_f64 v of
           Some f \<Rightarrow>
             if f64_is_integral f \<and> f64_le (F64 0 0) f \<and> f64_le f (u64_as_f64 (- 1))
             then Some (f64_as_u64 f) else None
         | None \<Rightarrow> None))"

text \<open>\<open>tp_relay::is_non_negative_int\<close> is the same guard with a strict upper bound.\<close>

definition relay_is_non_negative_int :: "json \<Rightarrow> u64 option" where
  "relay_is_non_negative_int v =
    (case as_u64 v of
       Some u \<Rightarrow> Some u
     | None \<Rightarrow>
        (case as_f64 v of
           Some f \<Rightarrow>
             if f64_is_integral f \<and> f64_le (F64 0 0) f \<and> f64_lt f (u64_as_f64 (- 1))
             then Some (f64_as_u64 f) else None
         | None \<Rightarrow> None))"

definition is_positive_int :: "json \<Rightarrow> u64 option" where
  "is_positive_int v =
    (case proto_is_non_negative_int v of Some n \<Rightarrow> if 0 < n then Some n else None | None \<Rightarrow> None)"

definition MAX_TERMINAL_DIMENSION :: u64 where
  "MAX_TERMINAL_DIMENSION = 65535"

definition is_terminal_dimension :: "json \<Rightarrow> u64 option" where
  "is_terminal_dimension v =
    (case is_positive_int v of
       Some n \<Rightarrow> if n \<le> MAX_TERMINAL_DIMENSION then Some n else None
     | None \<Rightarrow> None)"

lemmas guard_defs = req_string_def is_number_def req_bool_def opt_string_def opt_number_def
  opt_bool_def

lemma collect_options_map_Some [simp]: "collect_options (map (\<lambda>x. Some (f x)) xs) = Some (map f xs)"
  by (induction xs) auto

lemma u64_max_as_f64: "u64_as_f64 (- 1) = F64 (2 ^ 53) 11"
proof -
  have "bit_count (18446744073709551615 :: nat) = 64"
    by (simp add: bit_count.simps)
  moreover have "unat (- 1 :: u64) = 18446744073709551615"
    by (simp add: unsigned_minus_1_eq_mask mask_eq_exp_minus_1)
  ultimately show ?thesis
    by (simp add: u64_as_f64_def nat_as_f64_def Let_def)
qed

lemma f64_le_linear: "f64_le a b \<or> f64_le b a"
  by (auto simp: f64_le_def Let_def min.commute)

lemma f64_trunc_of_u64_max:
  assumes "f64_le f (u64_as_f64 (- 1))" "f64_le (u64_as_f64 (- 1)) f"
  shows "f64_trunc f = 2 ^ 64"
proof -
  obtain m e where f: "f = F64 m e" by (cases f)
  define k where "k = min e 11"
  have eq: "m * 2 ^ nat (e - k) = 2 ^ 53 * 2 ^ nat (11 - k)"
    using assms by (simp add: f64_le_def Let_def f u64_max_as_f64 k_def min.commute)
  show ?thesis
  proof (cases "0 \<le> e")
    case True
    then have "nat (e - k) + nat k = nat e" "nat (11 - k) + nat k = 11" "0 \<le> k"
      by (auto simp: k_def)
    then have "m * 2 ^ nat e = m * 2 ^ nat (e - k) * 2 ^ nat k"
      by (simp flip: power_add)
    also have "\<dots> = 2 ^ 53 * (2 ^ nat (11 - k) * 2 ^ nat k)"
      using eq by simp
    also have "\<dots> = 2 ^ 64"
      using \<open>nat (11 - k) + nat k = 11\<close> by (simp flip: power_add)
    finally show ?thesis using True by (simp add: f64_trunc_def f)
  next
    case False
    then have "k = e" by (simp add: k_def)
    then have "m = 2 ^ 53 * 2 ^ nat (11 - e)" using eq by simp
    also have "nat (11 - e) = 11 + nat (- e)" using False by simp
    finally have "m = 2 ^ 64 * 2 ^ nat (- e)" by (simp add: power_add)
    then show ?thesis using False by (simp add: f64_trunc_def f)
  qed
qed

section \<open>Properties\<close>

text \<open>The two copies of the non-negative-integer guard agree on every JSON value except a
  double equal to \<open>2 ^ 64\<close>: there the relay's own copy refuses, and the copy in \<open>tp-proto\<close>,
  which reads \<open>seq\<close> and \<open>after\<close> of client messages, accepts and saturates to \<open>u64::MAX\<close>.\<close>

theorem integer_guards_differ_only_at_2_64:
  "proto_is_non_negative_int v = relay_is_non_negative_int v \<or>
   (\<exists>f. as_f64 v = Some f \<and> f64_trunc f = 2 ^ 64 \<and> f64_is_integral f
      \<and> proto_is_non_negative_int v = Some (- 1) \<and> relay_is_non_negative_int v = None)"
proof (cases "proto_is_non_negative_int v = relay_is_non_negative_int v")
  case False
  let ?max = "u64_as_f64 (- 1)"
  from False obtain f where f: "as_u64 v = None" "as_f64 v = Some f" "f64_is_integral f"
      "f64_le (F64 0 0) f" "f64_le f ?max" "f64_le ?max f"
    using f64_le_linear [of _ ?max]
    by (auto simp: proto_is_non_negative_int_def relay_is_non_negative_int_def f64_lt_def
        split: option.splits if_splits)
  then have trunc: "f64_trunc f = 2 ^ 64"
    by (intro f64_trunc_of_u64_max)
  then have "f64_as_u64 f = - 1"
    by (simp add: f64_as_u64_def)
  with f trunc show ?thesis
    by (auto simp: proto_is_non_negative_int_def relay_is_non_negative_int_def f64_lt_def)
qed simp

end
