(* ===== verification/Messages.thy ===== *)
theory Messages
  imports Json
begin

text \<open>
  The two message unions of the relay protocol: client to relay
  (\<open>rust/tp-proto/src/relay_client.rs\<close>) and relay to client
  (\<open>rust/tp-relay/src/messages.rs\<close>), with the hand-written parsers of both and the JSON
  that the derived serializers emit.
\<close>

section \<open>Client to relay\<close>

datatype role = Daemon | Frontend

datatype platform = Ios | Android

datatype interruption_level = Active | TimeSensitive

record push_data =
  pd_sid :: string
  pd_daemon_id :: string
  pd_event :: string

datatype relay_client_message =
    Auth role string string f64 "string option"
      \<comment> \<open>role, daemonId, token, v, frontendId\<close>
  | AuthResume string f64 \<comment> \<open>token, v\<close>
  | Register string string string f64 \<comment> \<open>daemonId, proof, token, v\<close>
  | KeyExchange string role \<comment> \<open>ct, role\<close>
  | Publish string string u64 \<comment> \<open>sid, ct, seq\<close>
  | Subscribe string "u64 option" \<comment> \<open>sid, after\<close>
  | Unsubscribe string \<comment> \<open>sid\<close>
  | Ping "f64 option" \<comment> \<open>ts\<close>
  | Push string string string string "interruption_level option" "push_data option"
      \<comment> \<open>frontendId, sealed, title, body, interruptionLevel, data\<close>
  | PushRegister string string platform \<comment> \<open>frontendId, token, platform\<close>

definition MAX_PUSH_TOKEN_ANDROID :: nat where
  "MAX_PUSH_TOKEN_ANDROID = 1024"

definition IOS_APNS_TOKEN_HEX_LEN :: nat where
  "IOS_APNS_TOKEN_HEX_LEN = 64"

definition is_ios_apns_token :: "string \<Rightarrow> bool" where
  "is_ios_apns_token s \<longleftrightarrow>
    length s = IOS_APNS_TOKEN_HEX_LEN \<and>
    list_all (\<lambda>c. is_ascii_digit c \<or> is_lower_hex_letter c) s"

definition role_from_str :: "string \<Rightarrow> role option" where
  "role_from_str s =
    (if s = ''daemon'' then Some Daemon else if s = ''frontend'' then Some Frontend else None)"

definition platform_from_str :: "string \<Rightarrow> platform option" where
  "platform_from_str s =
    (if s = ''ios'' then Some Ios else if s = ''android'' then Some Android else None)"

fun interruption_parse_opt :: "json option \<Rightarrow> interruption_level option option" where
  "interruption_parse_opt None = Some None"
| "interruption_parse_opt (Some (JString s)) =
    (if s = ''active'' then Some (Some Active)
     else if s = ''time-sensitive'' then Some (Some TimeSensitive) else None)"
| "interruption_parse_opt (Some _) = None"

fun push_data_parse_opt :: "json option \<Rightarrow> push_data option option" where
  "push_data_parse_opt None = Some None"
| "push_data_parse_opt (Some (JObject obj)) =
    Option.bind (req_string obj ''sid'') (\<lambda>sid.
    Option.bind (req_string obj ''daemonId'') (\<lambda>daemon_id.
    Option.bind (req_string obj ''event'') (\<lambda>event.
      Some (Some \<lparr>pd_sid = sid, pd_daemon_id = daemon_id, pd_event = event\<rparr>))))"
| "push_data_parse_opt (Some _) = None"

text \<open>The parser, one definition per arm of its \<open>match\<close>, and the dispatch on \<open>t\<close>.\<close>

definition parse_auth :: "json_object \<Rightarrow> relay_client_message option" where
  "parse_auth obj =
    Option.bind (Option.bind (req_string obj ''role'') role_from_str) (\<lambda>role.
    Option.bind (req_string obj ''daemonId'') (\<lambda>daemon_id.
    Option.bind (req_string obj ''token'') (\<lambda>token.
    Option.bind (Option.bind (map_of obj ''v'') is_number) (\<lambda>v.
    Option.bind (opt_string obj ''frontendId'') (\<lambda>frontend_id.
      Some (Auth role daemon_id token v frontend_id))))))"

definition parse_auth_resume :: "json_object \<Rightarrow> relay_client_message option" where
  "parse_auth_resume obj =
    Option.bind (req_string obj ''token'') (\<lambda>token.
    Option.bind (Option.bind (map_of obj ''v'') is_number) (\<lambda>v.
      Some (AuthResume token v)))"

definition parse_register :: "json_object \<Rightarrow> relay_client_message option" where
  "parse_register obj =
    Option.bind (req_string obj ''daemonId'') (\<lambda>daemon_id.
    Option.bind (req_string obj ''proof'') (\<lambda>proof.
    Option.bind (req_string obj ''token'') (\<lambda>token.
    Option.bind (Option.bind (map_of obj ''v'') is_number) (\<lambda>v.
      Some (Register daemon_id proof token v)))))"

definition parse_kx :: "json_object \<Rightarrow> relay_client_message option" where
  "parse_kx obj =
    Option.bind (req_string obj ''ct'') (\<lambda>ct.
    Option.bind (Option.bind (req_string obj ''role'') role_from_str) (\<lambda>role.
      Some (KeyExchange ct role)))"

definition parse_pub :: "json_object \<Rightarrow> relay_client_message option" where
  "parse_pub obj =
    Option.bind (req_string obj ''sid'') (\<lambda>sid.
    Option.bind (req_string obj ''ct'') (\<lambda>ct.
    Option.bind (Option.bind (map_of obj ''seq'') proto_is_non_negative_int) (\<lambda>seq.
      Some (Publish sid ct seq))))"

definition parse_sub :: "json_object \<Rightarrow> relay_client_message option" where
  "parse_sub obj =
    Option.bind (req_string obj ''sid'') (\<lambda>sid.
      (case map_of obj ''after'' of
         None \<Rightarrow> Some (Subscribe sid None)
       | Some v \<Rightarrow> map_option (\<lambda>n. Subscribe sid (Some n)) (proto_is_non_negative_int v)))"

definition parse_push :: "json_object \<Rightarrow> relay_client_message option" where
  "parse_push obj =
    Option.bind (req_string obj ''frontendId'') (\<lambda>frontend_id.
    Option.bind (req_string obj ''sealed'') (\<lambda>sealed.
    Option.bind (req_string obj ''title'') (\<lambda>title.
    Option.bind (req_string obj ''body'') (\<lambda>body.
    Option.bind (interruption_parse_opt (map_of obj ''interruptionLevel'')) (\<lambda>level.
    Option.bind (push_data_parse_opt (map_of obj ''data'')) (\<lambda>data.
      Some (Push frontend_id sealed title body level data)))))))"

definition push_token_ok :: "platform \<Rightarrow> string \<Rightarrow> bool" where
  "push_token_ok platform token =
    (case platform of
       Ios \<Rightarrow> is_ios_apns_token token
     | Android \<Rightarrow> length token \<le> MAX_PUSH_TOKEN_ANDROID)"

definition parse_push_register :: "json_object \<Rightarrow> relay_client_message option" where
  "parse_push_register obj =
    Option.bind (req_string obj ''frontendId'') (\<lambda>frontend_id.
    Option.bind (Option.bind (req_string obj ''platform'') platform_from_str) (\<lambda>platform.
    Option.bind (req_string obj ''token'') (\<lambda>token.
      if push_token_ok platform token then Some (PushRegister frontend_id token platform)
      else None)))"

definition parse_relay_client_message :: "json \<Rightarrow> relay_client_message option" where
  "parse_relay_client_message raw =
    Option.bind (as_object raw) (\<lambda>obj.
    Option.bind (req_string obj ''t'') (\<lambda>t.
      if t = ''relay.auth'' then parse_auth obj
      else if t = ''relay.auth.resume'' then parse_auth_resume obj
      else if t = ''relay.register'' then parse_register obj
      else if t = ''relay.kx'' then parse_kx obj
      else if t = ''relay.pub'' then parse_pub obj
      else if t = ''relay.sub'' then parse_sub obj
      else if t = ''relay.unsub'' then map_option Unsubscribe (req_string obj ''sid'')
      else if t = ''relay.ping'' then map_option Ping (opt_number obj ''ts'')
      else if t = ''relay.push'' then parse_push obj
      else if t = ''relay.push.register'' then parse_push_register obj
      else None))"

text \<open>The serializers: \<open>t\<close> first, the fields in declaration order, \<open>None\<close> fields skipped.\<close>

definition opt_field :: "string \<Rightarrow> ('a \<Rightarrow> json) \<Rightarrow> 'a option \<Rightarrow> json_object" where
  "opt_field key f x = (case x of None \<Rightarrow> [] | Some v \<Rightarrow> [(key, f v)])"

definition json_f64 :: "f64 \<Rightarrow> json" where
  "json_f64 f = JNumber (Float f)"

definition json_u64 :: "u64 \<Rightarrow> json" where
  "json_u64 n = JNumber (PosInt n)"

fun role_json :: "role \<Rightarrow> json" where
  "role_json Daemon = JString ''daemon''"
| "role_json Frontend = JString ''frontend''"

fun platform_json :: "platform \<Rightarrow> json" where
  "platform_json Ios = JString ''ios''"
| "platform_json Android = JString ''android''"

fun interruption_json :: "interruption_level \<Rightarrow> json" where
  "interruption_json Active = JString ''active''"
| "interruption_json TimeSensitive = JString ''time-sensitive''"

definition push_data_json :: "push_data \<Rightarrow> json" where
  "push_data_json d = JObject [(''sid'', JString (pd_sid d)),
     (''daemonId'', JString (pd_daemon_id d)), (''event'', JString (pd_event d))]"

fun client_to_json :: "relay_client_message \<Rightarrow> json" where
  "client_to_json (Auth role daemon_id token v frontend_id) =
    JObject ([(''t'', JString ''relay.auth''), (''role'', role_json role),
      (''daemonId'', JString daemon_id), (''token'', JString token), (''v'', json_f64 v)]
      @ opt_field ''frontendId'' JString frontend_id)"
| "client_to_json (AuthResume token v) =
    JObject [(''t'', JString ''relay.auth.resume''), (''token'', JString token), (''v'', json_f64 v)]"
| "client_to_json (Register daemon_id proof token v) =
    JObject [(''t'', JString ''relay.register''), (''daemonId'', JString daemon_id),
      (''proof'', JString proof), (''token'', JString token), (''v'', json_f64 v)]"
| "client_to_json (KeyExchange ct role) =
    JObject [(''t'', JString ''relay.kx''), (''ct'', JString ct), (''role'', role_json role)]"
| "client_to_json (Publish sid ct seq) =
    JObject [(''t'', JString ''relay.pub''), (''sid'', JString sid), (''ct'', JString ct),
      (''seq'', json_u64 seq)]"
| "client_to_json (Subscribe sid after) =
    JObject ([(''t'', JString ''relay.sub''), (''sid'', JString sid)]
      @ opt_field ''after'' json_u64 after)"
| "client_to_json (Unsubscribe sid) =
    JObject [(''t'', JString ''relay.unsub''), (''sid'', JString sid)]"
| "client_to_json (Ping ts) =
    JObject ([(''t'', JString ''relay.ping'')] @ opt_field ''ts'' json_f64 ts)"
| "client_to_json (Push frontend_id sealed title body level data) =
    JObject ([(''t'', JString ''relay.push''), (''frontendId'', JString frontend_id),
      (''sealed'', JString sealed), (''title'', JString title), (''body'', JString body)]
      @ opt_field ''interruptionLevel'' interruption_json level
      @ opt_field ''data'' push_data_json data)"
| "client_to_json (PushRegister frontend_id token platform) =
    JObject [(''t'', JString ''relay.push.register''), (''frontendId'', JString frontend_id),
      (''token'', JString token), (''platform'', platform_json platform)]"

text \<open>What the parser demands beyond the types: a push token of the platform's format.\<close>

fun client_message_ok :: "relay_client_message \<Rightarrow> bool" where
  "client_message_ok (PushRegister frontend_id token platform) = push_token_ok platform token"
| "client_message_ok _ = True"

section \<open>Relay to client\<close>

record auth_ok =
  ao_daemon_id :: string
  ao_resume_token :: "string option"
  ao_resume_expires_at :: "f64 option"
  ao_resumed :: "bool option"

record frame =
  fr_sid :: string
  fr_ct :: string
  fr_seq :: u64
  fr_from :: role
  fr_frontend_id :: "string option"

record kx_frame =
  kf_ct :: string
  kf_from :: role

record presence =
  pr_daemon_id :: string
  pr_online :: bool
  pr_sessions :: "string list"
  pr_last_seen :: f64

record relay_err =
  re_e :: string
  re_m :: "string option"
  re_frontend_id :: "string option"

record notification =
  no_title :: string
  no_body :: string
  no_data :: "push_data option"

record push_token =
  pt_frontend_id :: string
  pt_sealed :: string
  pt_platform :: platform

datatype relay_server_message =
    SAuthOk auth_ok
  | SAuthErr string
  | SRegisterOk string
  | SRegisterErr string
  | SFrame frame
  | SKeyExchangeFrame kx_frame
  | SPresence presence
  | SPong "f64 option"
  | SErr relay_err
  | SNotification notification
  | SPushToken push_token

definition parse_role :: "json \<Rightarrow> role option" where
  "parse_role v = Option.bind (as_str v) role_from_str"

definition parse_platform :: "json \<Rightarrow> platform option" where
  "parse_platform v = Option.bind (as_str v) platform_from_str"

definition parse_auth_ok :: "json_object \<Rightarrow> relay_server_message option" where
  "parse_auth_ok obj =
    Option.bind (req_string obj ''daemonId'') (\<lambda>daemon_id.
    Option.bind (opt_string obj ''resumeToken'') (\<lambda>resume_token.
    Option.bind (opt_number obj ''resumeExpiresAt'') (\<lambda>resume_expires_at.
    Option.bind (opt_bool obj ''resumed'') (\<lambda>resumed.
      if resumed = Some True \<and> (resume_token = None \<or> resume_expires_at = None) then None
      else Some (SAuthOk \<lparr>ao_daemon_id = daemon_id, ao_resume_token = resume_token,
             ao_resume_expires_at = resume_expires_at, ao_resumed = resumed\<rparr>)))))"

definition parse_frame :: "json_object \<Rightarrow> relay_server_message option" where
  "parse_frame obj =
    Option.bind (req_string obj ''sid'') (\<lambda>sid.
    Option.bind (req_string obj ''ct'') (\<lambda>ct.
    Option.bind (Option.bind (map_of obj ''seq'') relay_is_non_negative_int) (\<lambda>seq.
    Option.bind (Option.bind (map_of obj ''from'') parse_role) (\<lambda>from.
    Option.bind (opt_string obj ''frontendId'') (\<lambda>frontend_id.
      Some (SFrame \<lparr>fr_sid = sid, fr_ct = ct, fr_seq = seq, fr_from = from,
        fr_frontend_id = frontend_id\<rparr>))))))"

definition parse_presence :: "json_object \<Rightarrow> relay_server_message option" where
  "parse_presence obj =
    Option.bind (req_string obj ''daemonId'') (\<lambda>daemon_id.
    Option.bind (req_bool obj ''online'') (\<lambda>online.
    Option.bind (Option.bind (map_of obj ''sessions'') as_string_array) (\<lambda>sessions.
    Option.bind (Option.bind (map_of obj ''lastSeen'') is_number) (\<lambda>last_seen.
      Some (SPresence \<lparr>pr_daemon_id = daemon_id, pr_online = online, pr_sessions = sessions,
        pr_last_seen = last_seen\<rparr>)))))"

definition parse_kx_frame :: "json_object \<Rightarrow> relay_server_message option" where
  "parse_kx_frame obj =
    Option.bind (req_string obj ''ct'') (\<lambda>ct.
    Option.bind (Option.bind (map_of obj ''from'') parse_role) (\<lambda>from.
      Some (SKeyExchangeFrame \<lparr>kf_ct = ct, kf_from = from\<rparr>)))"

definition parse_err :: "json_object \<Rightarrow> relay_server_message option" where
  "parse_err obj =
    Option.bind (req_string obj ''e'') (\<lambda>e.
    Option.bind (opt_string obj ''m'') (\<lambda>m.
    Option.bind (opt_string obj ''frontendId'') (\<lambda>frontend_id.
      Some (SErr \<lparr>re_e = e, re_m = m, re_frontend_id = frontend_id\<rparr>))))"

definition parse_notification :: "json_object \<Rightarrow> relay_server_message option" where
  "parse_notification obj =
    Option.bind (req_string obj ''title'') (\<lambda>title.
    Option.bind (req_string obj ''body'') (\<lambda>body.
    Option.bind (push_data_parse_opt (map_of obj ''data'')) (\<lambda>data.
      Some (SNotification \<lparr>no_title = title, no_body = body, no_data = data\<rparr>))))"

definition parse_push_token :: "json_object \<Rightarrow> relay_server_message option" where
  "parse_push_token obj =
    Option.bind (req_string obj ''frontendId'') (\<lambda>frontend_id.
    Option.bind (req_string obj ''sealed'') (\<lambda>sealed.
    Option.bind (Option.bind (map_of obj ''platform'') parse_platform) (\<lambda>platform.
      Some (SPushToken \<lparr>pt_frontend_id = frontend_id, pt_sealed = sealed, pt_platform = platform\<rparr>))))"

definition parse_relay_server_message :: "json \<Rightarrow> relay_server_message option" where
  "parse_relay_server_message raw =
    Option.bind (as_object raw) (\<lambda>obj.
    Option.bind (req_string obj ''t'') (\<lambda>t.
      if t = ''relay.auth.ok'' then parse_auth_ok obj
      else if t = ''relay.auth.err'' then map_option SAuthErr (req_string obj ''e'')
      else if t = ''relay.register.ok'' then map_option SRegisterOk (req_string obj ''daemonId'')
      else if t = ''relay.register.err'' then map_option SRegisterErr (req_string obj ''e'')
      else if t = ''relay.frame'' then parse_frame obj
      else if t = ''relay.kx.frame'' then parse_kx_frame obj
      else if t = ''relay.presence'' then parse_presence obj
      else if t = ''relay.pong'' then map_option SPong (opt_number obj ''ts'')
      else if t = ''relay.err'' then parse_err obj
      else if t = ''relay.notification'' then parse_notification obj
      else if t = ''relay.push.token'' then parse_push_token obj
      else None))"

fun server_to_json :: "relay_server_message \<Rightarrow> json" where
  "server_to_json (SAuthOk a) =
    JObject ([(''t'', JString ''relay.auth.ok''), (''daemonId'', JString (ao_daemon_id a))]
      @ opt_field ''resumeToken'' JString (ao_resume_token a)
      @ opt_field ''resumeExpiresAt'' json_f64 (ao_resume_expires_at a)
      @ opt_field ''resumed'' JBool (ao_resumed a))"
| "server_to_json (SAuthErr e) =
    JObject [(''t'', JString ''relay.auth.err''), (''e'', JString e)]"
| "server_to_json (SRegisterOk d) =
    JObject [(''t'', JString ''relay.register.ok''), (''daemonId'', JString d)]"
| "server_to_json (SRegisterErr e) =
    JObject [(''t'', JString ''relay.register.err''), (''e'', JString e)]"
| "server_to_json (SFrame f) =
    JObject ([(''t'', JString ''relay.frame''), (''sid'', JString (fr_sid f)),
      (''ct'', JString (fr_ct f)), (''seq'', json_u64 (fr_seq f)), (''from'', role_json (fr_from f))]
      @ opt_field ''frontendId'' JString (fr_frontend_id f))"
| "server_to_json (SKeyExchangeFrame k) =
    JObject [(''t'', JString ''relay.kx.frame''), (''ct'', JString (kf_ct k)),
      (''from'', role_json (kf_from k))]"
| "server_to_json (SPresence p) =
    JObject [(''t'', JString ''relay.presence''), (''daemonId'', JString (pr_daemon_id p)),
      (''online'', JBool (pr_online p)), (''sessions'', JArray (map JString (pr_sessions p))),
      (''lastSeen'', json_f64 (pr_last_seen p))]"
| "server_to_json (SPong ts) =
    JObject ([(''t'', JString ''relay.pong'')] @ opt_field ''ts'' json_f64 ts)"
| "server_to_json (SErr e) =
    JObject ([(''t'', JString ''relay.err''), (''e'', JString (re_e e))]
      @ opt_field ''m'' JString (re_m e) @ opt_field ''frontendId'' JString (re_frontend_id e))"
| "server_to_json (SNotification n) =
    JObject ([(''t'', JString ''relay.notification''), (''title'', JString (no_title n)),
      (''body'', JString (no_body n))] @ opt_field ''data'' push_data_json (no_data n))"
| "server_to_json (SPushToken p) =
    JObject [(''t'', JString ''relay.push.token''), (''frontendId'', JString (pt_frontend_id p)),
      (''sealed'', JString (pt_sealed p)), (''platform'', platform_json (pt_platform p))]"

text \<open>What the parser demands beyond the types: a resumed session names its next token.\<close>

fun server_message_ok :: "relay_server_message \<Rightarrow> bool" where
  "server_message_ok (SAuthOk a) \<longleftrightarrow>
    (ao_resumed a = Some True \<longrightarrow> ao_resume_token a \<noteq> None \<and> ao_resume_expires_at a \<noteq> None)"
| "server_message_ok _ \<longleftrightarrow> True"

section \<open>Lemmas\<close>

lemma as_str_role_json [simp]: "Option.bind (as_str (role_json r)) role_from_str = Some r"
  by (cases r) (simp_all add: role_from_str_def)

lemma as_str_platform_json [simp]:
  "Option.bind (as_str (platform_json p)) platform_from_str = Some p"
  by (cases p) (simp_all add: platform_from_str_def)

lemma parse_role_json [simp]: "parse_role (role_json r) = Some r"
  by (simp add: parse_role_def)

lemma parse_platform_json [simp]: "parse_platform (platform_json r) = Some r"
  by (simp add: parse_platform_def)

lemma interruption_json_roundtrip [simp]:
  "interruption_parse_opt (Some (interruption_json l)) = Some (Some l)"
  by (cases l) simp_all

lemma push_data_json_roundtrip [simp]: "push_data_parse_opt (Some (push_data_json d)) = Some (Some d)"
  by (simp add: push_data_json_def req_string_def)

lemma json_number_reads [simp]:
  "as_f64 (json_f64 f) = Some f"
  "is_number (json_f64 f) = Some f"
  "proto_is_non_negative_int (json_u64 n) = Some n"
  "relay_is_non_negative_int (json_u64 n) = Some n"
  by (simp_all add: is_number_def json_f64_def json_u64_def proto_is_non_negative_int_def
      relay_is_non_negative_int_def)

lemma as_string_array_json [simp]: "as_string_array (JArray (map JString xs)) = Some xs"
  by (simp add: as_string_array_def comp_def)

lemmas client_parse_defs = parse_relay_client_message_def parse_auth_def parse_auth_resume_def
  parse_register_def parse_kx_def parse_pub_def parse_sub_def parse_push_def parse_push_register_def

lemmas server_parse_defs = parse_relay_server_message_def parse_auth_ok_def parse_frame_def
  parse_kx_frame_def parse_presence_def parse_err_def parse_notification_def parse_push_token_def

section \<open>Properties\<close>

text \<open>Every client message that carries a well-formed push token survives the wire: the parser
  reads back exactly the message the serializer wrote, optional fields included.\<close>

theorem client_message_roundtrip:
  assumes "client_message_ok m"
  shows "parse_relay_client_message (client_to_json m) = Some m"
  using assms
  by (cases m) (auto simp: client_parse_defs guard_defs opt_field_def bind_assoc split: option.splits)

theorem client_message_roundtrip_witness:
  "parse_relay_client_message (client_to_json (PushRegister ''f1'' ''tok'' Android)) =
     Some (PushRegister ''f1'' ''tok'' Android)"
  by (rule client_message_roundtrip) (simp add: push_token_ok_def MAX_PUSH_TOKEN_ANDROID_def)

text \<open>Every server message survives the wire in the same sense, provided a message that claims
  a resumed session carries the new token and its expiry.\<close>

theorem server_message_roundtrip:
  assumes "server_message_ok m"
  shows "parse_relay_server_message (server_to_json m) = Some m"
  using assms
  by (cases m)
    (auto simp: server_parse_defs guard_defs opt_field_def split: option.splits
      intro!: auth_ok.equality frame.equality kx_frame.equality presence.equality
        relay_err.equality notification.equality push_token.equality)

theorem server_message_roundtrip_witness:
  "parse_relay_server_message (server_to_json (SAuthOk \<lparr>ao_daemon_id = ''d'',
     ao_resume_token = Some ''t'', ao_resume_expires_at = Some (F64 9 0), ao_resumed = Some True\<rparr>)) =
   Some (SAuthOk \<lparr>ao_daemon_id = ''d'', ao_resume_token = Some ''t'',
     ao_resume_expires_at = Some (F64 9 0), ao_resumed = Some True\<rparr>)"
  by (rule server_message_roundtrip) simp

end
