(* ===== verification/Recent_Frames.thy ===== *)
theory Recent_Frames
  imports Messages
begin

text \<open>
  \<open>rust/tp-relay/src/ring.rs\<close>: the cache of recent ciphertext frames per daemon and session,
  bounded per key (\<open>cache_size\<close>) and per daemon (\<open>max_keys_per_daemon\<close>, oldest key evicted).
  The locale \<open>replay_cache\<close> is the contract that the routing layer relies on.
\<close>

section \<open>State and operations\<close>

definition DEFAULT_CACHE_SIZE :: nat where
  "DEFAULT_CACHE_SIZE = 10"

definition DEFAULT_MAX_RECENT_FRAME_KEYS_PER_DAEMON :: nat where
  "DEFAULT_MAX_RECENT_FRAME_KEYS_PER_DAEMON = 256"

record recent_frames =
  rf_buffers :: "(string, frame list) hash_map"
  rf_cache_size :: nat
  rf_max_keys_per_daemon :: nat
  rf_key_insertion_order :: "string list"

definition rf_with_cache_and_key_cap :: "nat \<Rightarrow> nat \<Rightarrow> recent_frames" where
  "rf_with_cache_and_key_cap cache_size max_keys_per_daemon =
    \<lparr>rf_buffers = hm_empty, rf_cache_size = cache_size,
     rf_max_keys_per_daemon = max_keys_per_daemon, rf_key_insertion_order = []\<rparr>"

definition rf_with_cache_size :: "nat \<Rightarrow> recent_frames" where
  "rf_with_cache_size cache_size =
    rf_with_cache_and_key_cap cache_size DEFAULT_MAX_RECENT_FRAME_KEYS_PER_DAEMON"

definition rf_key :: "string \<Rightarrow> string \<Rightarrow> string" where
  "rf_key daemon_id sid = daemon_id @ '':'' @ sid"

definition rf_prefix :: "string \<Rightarrow> string" where
  "rf_prefix daemon_id = daemon_id @ '':''"

text \<open>
  The eviction loop of \<open>push\<close>: it walks \<open>key_insertion_order\<close> from the oldest key, and
  removes keys of this daemon until \<open>evict_count\<close> of them are gone. The index \<open>i\<close> of the
  source is the split point between the keys already passed and \<open>order\<close>.
\<close>

fun evict_keys :: "string \<Rightarrow> nat \<Rightarrow> string list \<Rightarrow> (string, frame list) hash_map \<Rightarrow>
    string list \<times> (string, frame list) hash_map" where
  "evict_keys prefix 0 order bufs = (order, bufs)"
| "evict_keys prefix n [] bufs = ([], bufs)"
| "evict_keys prefix (Suc n) (k # order) bufs =
    (if starts_with k prefix then evict_keys prefix n order (hm_remove k bufs)
     else (let (order', bufs') = evict_keys prefix (Suc n) order bufs in (k # order', bufs')))"

definition daemon_key_count :: "(string, frame list) hash_map \<Rightarrow> string \<Rightarrow> nat" where
  "daemon_key_count bufs prefix = length (filter (\<lambda>k. starts_with k prefix) (hm_keys bufs))"

definition rf_push :: "string \<Rightarrow> frame \<Rightarrow> recent_frames \<Rightarrow> recent_frames" where
  "rf_push daemon_id fr rf =
    (let key = rf_key daemon_id (fr_sid fr);
         is_new = \<not> hm_contains (rf_buffers rf) key;
         (order, bufs) =
           (if is_new \<and> rf_max_keys_per_daemon rf > 0 then
              (let prefix = rf_prefix daemon_id;
                   cnt = daemon_key_count (rf_buffers rf) prefix;
                   (order1, bufs1) =
                     (if cnt \<ge> rf_max_keys_per_daemon rf
                      then evict_keys prefix (cnt + 1 - rf_max_keys_per_daemon rf)
                             (rf_key_insertion_order rf) (rf_buffers rf)
                      else (rf_key_insertion_order rf, rf_buffers rf))
               in (order1 @ [key], bufs1))
            else (rf_key_insertion_order rf, rf_buffers rf));
         ring = (case hm_get bufs key of None \<Rightarrow> [] | Some r \<Rightarrow> r) @ [fr]
     in rf\<lparr>rf_buffers := hm_insert key (trim_front (rf_cache_size rf) ring) bufs,
           rf_key_insertion_order := order\<rparr>)"

definition replay_after :: "recent_frames \<Rightarrow> string \<Rightarrow> string \<Rightarrow> u64 \<Rightarrow> frame list" where
  "replay_after rf daemon_id sid after =
    (case hm_get (rf_buffers rf) (rf_key daemon_id sid) of
       None \<Rightarrow> []
     | Some ring \<Rightarrow> filter (\<lambda>f. fr_seq f > after) ring)"

definition purge_daemon :: "string \<Rightarrow> recent_frames \<Rightarrow> recent_frames" where
  "purge_daemon daemon_id rf =
    (let prefix = rf_prefix daemon_id in
     rf\<lparr>rf_buffers := hm_retain (\<lambda>k _. \<not> starts_with k prefix) (rf_buffers rf),
        rf_key_insertion_order := filter (\<lambda>k. \<not> starts_with k prefix) (rf_key_insertion_order rf)\<rparr>)"

definition key_count :: "recent_frames \<Rightarrow> nat" where
  "key_count rf = length (rf_buffers rf)"

section \<open>Operation sequences and the contract of a replay cache\<close>

datatype rf_op = RPush string frame | RPurge string

fun rf_step :: "rf_op \<Rightarrow> recent_frames \<Rightarrow> recent_frames" where
  "rf_step (RPush d f) rf = rf_push d f rf"
| "rf_step (RPurge d) rf = purge_daemon d rf"

definition rf_run :: "rf_op list \<Rightarrow> recent_frames \<Rightarrow> recent_frames" where
  "rf_run ops rf = fold rf_step ops rf"

text \<open>The ring of a session, empty when the key is absent.\<close>

definition rf_ring :: "recent_frames \<Rightarrow> string \<Rightarrow> string \<Rightarrow> frame list" where
  "rf_ring rf d sid = (case hm_get (rf_buffers rf) (rf_key d sid) of None \<Rightarrow> [] | Some r \<Rightarrow> r)"

locale replay_cache =
  fixes push :: "string \<Rightarrow> frame \<Rightarrow> 'c \<Rightarrow> 'c"
    and purge :: "string \<Rightarrow> 'c \<Rightarrow> 'c"
    and ring :: "'c \<Rightarrow> string \<Rightarrow> string \<Rightarrow> frame list"
    and cap :: "'c \<Rightarrow> nat"
    and slot :: "string \<Rightarrow> string \<Rightarrow> string"
    and ok :: "'c \<Rightarrow> bool"
  assumes ring_push_same: "ring (push d f c) d (fr_sid f) = lastn (cap c) (ring c d (fr_sid f) @ [f])"
    and ring_slot: "slot d s = slot d' s' \<Longrightarrow> ring c d s = ring c d' s'"
    and ring_push_other: "slot d (fr_sid f) \<noteq> slot d' s' \<Longrightarrow>
      ring (push d f c) d' s' = ring c d' s' \<or> ring (push d f c) d' s' = []"
    and ring_purge: "ok c \<Longrightarrow> ring (purge d c) d' s' = ring c d' s' \<or> ring (purge d c) d' s' = []"
    and cap_push: "cap (push d f c) = cap c"
    and cap_purge: "cap (purge d c) = cap c"
    and ok_push: "ok c \<Longrightarrow> ok (push d f c)"
    and ok_purge: "ok c \<Longrightarrow> ok (purge d c)"
begin

fun step :: "rf_op \<Rightarrow> 'c \<Rightarrow> 'c" where
  "step (RPush d f) c = push d f c"
| "step (RPurge d) c = purge d c"

lemma ring_step_sound:
  assumes "ok c" "g \<in> set (ring (step x c) d s)"
  shows "g \<in> set (ring c d s) \<or> (\<exists>d'. x = RPush d' g \<and> slot d' (fr_sid g) = slot d s)"
proof (cases x)
  case (RPush d' f)
  show ?thesis
  proof (cases "slot d' (fr_sid f) = slot d s")
    case True
    then have "ring (step x c) d s = lastn (cap c) (ring c d s @ [f])"
      using RPush ring_push_same [of d' f c] ring_slot [OF True] by simp
    with assms(2) set_lastn [of "cap c" "ring c d s @ [f]"] True RPush show ?thesis by auto
  next
    case False
    from ring_push_other [OF False, of c] assms(2) RPush show ?thesis by auto
  qed
next
  case (RPurge d')
  with ring_purge [OF assms(1), of d' d s] assms(2) show ?thesis by auto
qed

theorem history_sound:
  assumes "ok c" "\<And>d s. ring c d s = []" "g \<in> set (ring (fold step ops c) d s)"
  shows "\<exists>d'. RPush d' g \<in> set ops \<and> slot d' (fr_sid g) = slot d s"
proof -
  have "ok c' \<Longrightarrow> g \<in> set (ring (fold step ops c') d s) \<Longrightarrow>
      g \<in> set (ring c' d s) \<or> (\<exists>d'. RPush d' g \<in> set ops \<and> slot d' (fr_sid g) = slot d s)" for c'
  proof (induction ops arbitrary: c')
    case (Cons x ops)
    have "ok (step x c')"
      using Cons.prems(1) by (cases x) (auto intro: ok_push ok_purge)
    with Cons.IH [of "step x c'"] Cons.prems ring_step_sound [of c' g x d s] show ?case
      by auto
  qed simp
  with assms show ?thesis by fastforce
qed

theorem newest_is_kept:
  assumes "0 < cap c"
  shows "ring (push d f c) d (fr_sid f) \<noteq> [] \<and> last (ring (push d f c) d (fr_sid f)) = f"
  using assms by (simp add: ring_push_same lastn_def last_drop)

end

section \<open>The ring buffer is a replay cache\<close>

lemma evict_keys_get:
  "evict_keys p n order bufs = (order', bufs') \<Longrightarrow>
    map_of bufs' k = map_of bufs k \<or> (starts_with k p \<and> map_of bufs' k = None)"
  by (induction p n order bufs arbitrary: order' bufs' rule: evict_keys.induct)
    (fastforce split: if_splits prod.splits)+

lemma evict_keys_ok:
  "evict_keys p n order bufs = (order', bufs') \<Longrightarrow> hm_ok bufs \<Longrightarrow> hm_ok bufs'"
  by (induction p n order bufs arbitrary: order' bufs' rule: evict_keys.induct)
    (auto split: if_splits prod.splits)

lemma evict_keys_order:
  assumes "evict_keys p n order bufs = (order', bufs')" "distinct order"
    and "fst ` set bufs = A \<union> set order" "A \<inter> set order = {}"
  shows "distinct order' \<and> set order' \<subseteq> set order \<and> fst ` set bufs' = A \<union> set order'
    \<and> length (filter (\<lambda>k. starts_with k p) order') = length (filter (\<lambda>k. starts_with k p) order) - n
    \<and> (\<forall>k \<in> set order - set order'. starts_with k p)"
  using assms
proof (induction p n order bufs arbitrary: order' bufs' A rule: evict_keys.induct)
  case (3 p n k order bufs)
  show ?case
  proof (cases "starts_with k p")
    case True
    have "fst ` set (hm_remove k bufs) = A \<union> set order"
      using 3(4-6) by (auto simp: AList.delete_keys [unfolded set_map [symmetric]] image_iff
          simp flip: set_map)
    with 3(1) [OF True, of order' bufs' A] 3(3-6) True show ?thesis by auto
  next
    case False
    obtain o1 b1 where rec: "evict_keys p (Suc n) order bufs = (o1, b1)" by fastforce
    with 3(3) False have res: "order' = k # o1" "bufs' = b1" by auto
    from 3(2) [OF False rec, of "insert k A"] 3(4-6) res False show ?thesis by auto
  qed
qed auto

text \<open>The contents of the cache: distinct keys, each ring within the depth.\<close>

definition rf_ok :: "recent_frames \<Rightarrow> bool" where
  "rf_ok rf \<longleftrightarrow> hm_ok (rf_buffers rf)"

text \<open>The state \<open>push\<close> leaves after making room for the key.\<close>

definition rf_room :: "string \<Rightarrow> string \<Rightarrow> recent_frames \<Rightarrow> string list \<times> (string, frame list) hash_map" where
  "rf_room daemon_id key rf =
    (if \<not> hm_contains (rf_buffers rf) key \<and> rf_max_keys_per_daemon rf > 0 then
       (let prefix = rf_prefix daemon_id;
            cnt = daemon_key_count (rf_buffers rf) prefix;
            (order1, bufs1) =
              (if cnt \<ge> rf_max_keys_per_daemon rf
               then evict_keys prefix (cnt + 1 - rf_max_keys_per_daemon rf)
                      (rf_key_insertion_order rf) (rf_buffers rf)
               else (rf_key_insertion_order rf, rf_buffers rf))
        in (order1 @ [key], bufs1))
     else (rf_key_insertion_order rf, rf_buffers rf))"

lemma rf_push_eq:
  "rf_push d f rf = (let key = rf_key d (fr_sid f); (order, bufs) = rf_room d key rf in
     rf\<lparr>rf_buffers := hm_insert key
          (lastn (rf_cache_size rf) ((case hm_get bufs key of None \<Rightarrow> [] | Some r \<Rightarrow> r) @ [f])) bufs,
        rf_key_insertion_order := order\<rparr>)"
  unfolding rf_push_def rf_room_def trim_front_eq Let_def by (simp add: case_prod_unfold)

lemma rf_room_get:
  assumes "rf_room d key rf = (order, bufs)"
  shows "map_of bufs k = map_of (rf_buffers rf) k \<or>
    (k \<noteq> key \<or> map_of (rf_buffers rf) k = None) \<and> starts_with k (rf_prefix d) \<and> map_of bufs k = None"
proof -
  have "map_of bufs k = map_of (rf_buffers rf) k \<or>
      map_of (rf_buffers rf) key = None \<and> starts_with k (rf_prefix d) \<and> map_of bufs k = None"
    using assms evict_keys_get [of "rf_prefix d" _ "rf_key_insertion_order rf" "rf_buffers rf" _ bufs k]
    by (auto simp: rf_room_def Let_def split: if_splits prod.splits)
  then show ?thesis by auto
qed

lemma rf_room_key: "rf_room d key rf = (order, bufs) \<Longrightarrow> map_of bufs key = map_of (rf_buffers rf) key"
  using rf_room_get [of d key rf order bufs key] by auto

lemma rf_room_ok: "rf_room d key rf = (order, bufs) \<Longrightarrow> hm_ok (rf_buffers rf) \<Longrightarrow> hm_ok bufs"
  using evict_keys_ok
  by (fastforce simp: rf_room_def Let_def split: if_splits prod.splits)

lemma rf_push_frame [simp]:
  "rf_cache_size (rf_push d f rf) = rf_cache_size rf"
  "rf_max_keys_per_daemon (rf_push d f rf) = rf_max_keys_per_daemon rf"
  by (simp_all add: rf_push_eq Let_def case_prod_unfold)

lemma rf_ring_push_same:
  "rf_ring (rf_push d f rf) d (fr_sid f) = lastn (rf_cache_size rf) (rf_ring rf d (fr_sid f) @ [f])"
  by (cases "rf_room d (rf_key d (fr_sid f)) rf")
    (simp add: rf_push_eq rf_ring_def Let_def rf_room_key)

lemma rf_ring_push_other:
  assumes "rf_key d (fr_sid f) \<noteq> rf_key d' s'"
  shows "rf_ring (rf_push d f rf) d' s' = rf_ring rf d' s' \<or>
    starts_with (rf_key d' s') (rf_prefix d) \<and> rf_ring (rf_push d f rf) d' s' = []"
  using assms rf_room_get [of d "rf_key d (fr_sid f)" rf _ _ "rf_key d' s'"]
  by (cases "rf_room d (rf_key d (fr_sid f)) rf") (auto simp: rf_push_eq rf_ring_def Let_def)

lemma rf_ring_purge:
  "rf_ok rf \<Longrightarrow> rf_ring (purge_daemon d rf) d' s' =
    (if starts_with (rf_key d' s') (rf_prefix d) then [] else rf_ring rf d' s')"
  by (auto simp: rf_ring_def purge_daemon_def Let_def hm_get_retain rf_ok_def split: option.splits)

lemma rf_ok_push: "rf_ok rf \<Longrightarrow> rf_ok (rf_push d f rf)"
  by (cases "rf_room d (rf_key d (fr_sid f)) rf")
    (simp add: rf_push_eq Let_def rf_ok_def rf_room_ok)

lemma rf_ok_purge: "rf_ok rf \<Longrightarrow> rf_ok (purge_daemon d rf)"
  by (simp add: purge_daemon_def Let_def rf_ok_def)

interpretation rf: replay_cache rf_push purge_daemon rf_ring rf_cache_size rf_key rf_ok
proof unfold_locales
  fix d d' s s' :: string and f :: frame and c :: recent_frames
  show "rf_ring (rf_push d f c) d (fr_sid f) = lastn (rf_cache_size c) (rf_ring c d (fr_sid f) @ [f])"
    by (rule rf_ring_push_same)
  show "rf_key d s = rf_key d' s' \<Longrightarrow> rf_ring c d s = rf_ring c d' s'"
    by (simp add: rf_ring_def)
  show "rf_key d (fr_sid f) \<noteq> rf_key d' s' \<Longrightarrow>
      rf_ring (rf_push d f c) d' s' = rf_ring c d' s' \<or> rf_ring (rf_push d f c) d' s' = []"
    using rf_ring_push_other by blast
  show "rf_ok c \<Longrightarrow> rf_ring (purge_daemon d c) d' s' = rf_ring c d' s' \<or> rf_ring (purge_daemon d c) d' s' = []"
    by (simp add: rf_ring_purge)
  show "rf_cache_size (purge_daemon d c) = rf_cache_size c"
    by (simp add: purge_daemon_def Let_def)
qed (auto intro: rf_ok_push rf_ok_purge)

lemma replay_after_ring: "replay_after rf d s a = filter (\<lambda>f. a < fr_seq f) (rf_ring rf d s)"
  by (simp add: replay_after_def rf_ring_def split: option.splits)

lemma rf_run_step: "rf_run ops rf = fold (replay_cache.step rf_push purge_daemon) ops rf"
proof -
  have "rf_step = replay_cache.step rf_push purge_daemon"
  proof (intro ext)
    fix x c
    show "rf_step x c = replay_cache.step rf_push purge_daemon x c"
      by (cases x) auto
  qed
  then show ?thesis by (simp add: rf_run_def)
qed

section \<open>Keys without a colon in the daemon id\<close>

definition no_colon :: "string \<Rightarrow> bool" where
  "no_colon d \<longleftrightarrow> CHR '':'' \<notin> set d"

lemma colon_split:
  "no_colon d \<Longrightarrow> no_colon d' \<Longrightarrow> d @ CHR '':'' # s = d' @ CHR '':'' # s' \<longleftrightarrow> d = d' \<and> s = s'"
proof (induction d arbitrary: d')
  case Nil
  then show ?case by (cases d') (auto simp: no_colon_def)
next
  case (Cons c d)
  then show ?case by (cases d') (auto simp: no_colon_def)
qed

lemma rf_key_inj: "no_colon d \<Longrightarrow> no_colon d' \<Longrightarrow> rf_key d s = rf_key d' s' \<longleftrightarrow> d = d' \<and> s = s'"
  by (simp add: rf_key_def colon_split)

lemma rf_key_prefix:
  "no_colon d \<Longrightarrow> no_colon d' \<Longrightarrow> starts_with (rf_key d' s) (rf_prefix d) \<longleftrightarrow> d = d'"
  using colon_split [of d' d s] by (fastforce simp: starts_with_iff rf_key_def rf_prefix_def)

fun op_daemon :: "rf_op \<Rightarrow> string" where
  "op_daemon (RPush d f) = d"
| "op_daemon (RPurge d) = d"

text \<open>The bounds, with what the code keeps true between the key log and the buffers.\<close>

definition key_load :: "recent_frames \<Rightarrow> string \<Rightarrow> nat" where
  "key_load rf d = length (filter (\<lambda>k. starts_with k (rf_prefix d)) (rf_key_insertion_order rf))"

definition rf_bounded :: "recent_frames \<Rightarrow> bool" where
  "rf_bounded rf \<longleftrightarrow> rf_ok rf
    \<and> (\<forall>k r. hm_get (rf_buffers rf) k = Some r \<longrightarrow> length r \<le> rf_cache_size rf)
    \<and> (0 < rf_max_keys_per_daemon rf \<longrightarrow>
        distinct (rf_key_insertion_order rf)
        \<and> fst ` set (rf_buffers rf) = set (rf_key_insertion_order rf)
        \<and> (\<forall>k \<in> set (rf_key_insertion_order rf). \<exists>d s. no_colon d \<and> k = rf_key d s)
        \<and> (\<forall>d. no_colon d \<longrightarrow> key_load rf d \<le> rf_max_keys_per_daemon rf))"

lemma daemon_key_count_load:
  assumes "hm_ok (rf_buffers rf)" "distinct (rf_key_insertion_order rf)"
    and "fst ` set (rf_buffers rf) = set (rf_key_insertion_order rf)"
  shows "daemon_key_count (rf_buffers rf) (rf_prefix d) = key_load rf d"
proof -
  have "distinct (hm_keys (rf_buffers rf))" using assms(1) by (simp add: hm_ok_def)
  then have "daemon_key_count (rf_buffers rf) (rf_prefix d) =
      card {k \<in> fst ` set (rf_buffers rf). starts_with k (rf_prefix d)}"
    unfolding daemon_key_count_def using distinct_card [OF distinct_filter] by fastforce
  also have "\<dots> = key_load rf d"
    using assms(2,3) by (simp add: key_load_def flip: distinct_card)
  finally show ?thesis .
qed

lemma rf_room_bounded:
  assumes inv: "rf_bounded rf" and nc: "no_colon d" and mk: "0 < rf_max_keys_per_daemon rf"
    and new: "hm_get (rf_buffers rf) (rf_key d sid) = None"
    and room: "rf_room d (rf_key d sid) rf = (order, bufs)"
  shows "distinct order \<and> insert (rf_key d sid) (fst ` set bufs) = set order
    \<and> (\<forall>k \<in> set order. \<exists>d s. no_colon d \<and> k = rf_key d s)
    \<and> (\<forall>d'. no_colon d' \<longrightarrow>
         length (filter (\<lambda>k. starts_with k (rf_prefix d')) order) \<le> rf_max_keys_per_daemon rf)"
proof -
  let ?key = "rf_key d sid" and ?o = "rf_key_insertion_order rf" and ?b = "rf_buffers rf"
  let ?mk = "rf_max_keys_per_daemon rf" and ?p = "rf_prefix d"
  have log: "distinct ?o" "fst ` set ?b = set ?o" "hm_ok ?b"
    and keys: "\<forall>k \<in> set ?o. \<exists>d s. no_colon d \<and> k = rf_key d s"
    and load: "\<forall>d. no_colon d \<longrightarrow> key_load rf d \<le> ?mk"
    using inv mk by (auto simp: rf_bounded_def rf_ok_def)
  let ?n = "if key_load rf d \<ge> ?mk then key_load rf d + 1 - ?mk else 0"
  obtain o1 b1 where ev: "evict_keys ?p ?n ?o ?b = (o1, b1)" by fastforce
  have res: "order = o1 @ [?key]" "bufs = b1"
    using room new mk ev daemon_key_count_load [OF log(3,1,2), of d]
    by (auto simp: rf_room_def Let_def split: if_splits)
  from evict_keys_order [OF ev log(1), of "{}"] log(2)
  have o1: "distinct o1" "set o1 \<subseteq> set ?o" "fst ` set b1 = set o1"
      "length (filter (\<lambda>k. starts_with k ?p) o1) = key_load rf d - ?n"
      "\<forall>k \<in> set ?o - set o1. starts_with k ?p"
    by (auto simp: key_load_def)
  have fresh: "?key \<notin> set o1"
    using new log(2) o1(2) by (auto simp: map_of_eq_None_iff)
  have "length (filter (\<lambda>k. starts_with k (rf_prefix d')) (o1 @ [?key])) \<le> ?mk" if "no_colon d'" for d'
  proof (cases "d' = d")
    case True
    then show ?thesis using o1(4) mk load nc by (auto split: if_splits)
  next
    case False
    have "length (filter (\<lambda>k. starts_with k (rf_prefix d')) o1) \<le> key_load rf d'"
      using o1(1,2) log(1) unfolding key_load_def
      by (simp flip: distinct_card) (auto intro: card_mono)
    also have "\<dots> \<le> ?mk" using load that by blast
    finally show ?thesis using rf_key_prefix [OF that nc] False by simp
  qed
  moreover have "\<forall>k \<in> set (o1 @ [?key]). \<exists>d s. no_colon d \<and> k = rf_key d s"
    using keys o1(2) nc by auto
  ultimately show ?thesis
    using o1(1,3) fresh by (simp add: res)
qed

lemma rf_bounded_push:
  assumes inv: "rf_bounded rf" and nc: "no_colon d"
  shows "rf_bounded (rf_push d f rf)"
proof -
  let ?key = "rf_key d (fr_sid f)"
  obtain order bufs where room: "rf_room d ?key rf = (order, bufs)" by fastforce
  have rings: "length r \<le> rf_cache_size rf" if "hm_get (rf_buffers (rf_push d f rf)) k = Some r" for k r
    using that inv rf_room_get [OF room, of k] lastn_length
    by (auto simp: rf_push_eq room rf_bounded_def Let_def split: if_splits)
  have log: "0 < rf_max_keys_per_daemon rf \<longrightarrow> distinct order
      \<and> fst ` set (rf_buffers (rf_push d f rf)) = set order
      \<and> (\<forall>k \<in> set order. \<exists>d s. no_colon d \<and> k = rf_key d s)
      \<and> (\<forall>d'. no_colon d' \<longrightarrow>
         length (filter (\<lambda>k. starts_with k (rf_prefix d')) order) \<le> rf_max_keys_per_daemon rf)"
  proof (cases "hm_get (rf_buffers rf) ?key")
    case None
    with rf_room_bounded [OF inv nc _ None room] show ?thesis
      by (simp add: rf_push_eq room Let_def AList.dom_update)
  next
    case (Some r)
    then have "?key \<in> fst ` set (rf_buffers rf)"
      by (metis domI dom_map_of_conv_image_fst)
    with Some room inv show ?thesis
      by (auto simp: rf_push_eq rf_room_def Let_def AList.dom_update rf_bounded_def key_load_def)
  qed
  show ?thesis
    using rings log rf_ok_push [of rf d f] inv
    by (auto simp: rf_bounded_def key_load_def rf_push_eq room Let_def)
qed

lemma rf_bounded_purge:
  assumes "rf_bounded rf"
  shows "rf_bounded (purge_daemon d rf)"
proof -
  have len: "length (filter P (filter Q xs)) \<le> length (filter P xs)" for P Q and xs :: "string list"
    by (induction xs) auto
  have "fst ` set (hm_retain (\<lambda>k _. \<not> starts_with k p) m) = {k \<in> fst ` set m. \<not> starts_with k p}"
    for p and m :: "(string, frame list) hash_map"
    by (force simp: hm_retain_def)
  with assms len show ?thesis
    by (fastforce simp: rf_bounded_def purge_daemon_def Let_def rf_ok_def key_load_def hm_get_retain
        intro: order_trans split: option.splits if_splits)
qed

lemma rf_bounded_run:
  "rf_bounded rf \<Longrightarrow> (\<And>x. x \<in> set ops \<Longrightarrow> no_colon (op_daemon x)) \<Longrightarrow> rf_bounded (rf_run ops rf)"
proof (induction ops arbitrary: rf)
  case (Cons x ops)
  have "rf_bounded (rf_step x rf)"
    using Cons.prems(1) Cons.prems(2) [of x]
    by (cases x) (auto intro: rf_bounded_push rf_bounded_purge)
  with Cons show ?case by (simp add: rf_run_def)
qed (simp add: rf_run_def)

lemma rf_bounded_init: "rf_bounded (rf_with_cache_and_key_cap cs mk)"
  by (simp add: rf_bounded_def rf_ok_def rf_with_cache_and_key_cap_def key_load_def)

lemma rf_run_params [simp]:
  "rf_cache_size (rf_run ops rf) = rf_cache_size rf"
  "rf_max_keys_per_daemon (rf_run ops rf) = rf_max_keys_per_daemon rf"
proof -
  have "rf_cache_size (rf_step x rf) = rf_cache_size rf \<and>
      rf_max_keys_per_daemon (rf_step x rf) = rf_max_keys_per_daemon rf" for x rf
    by (cases x) (simp_all add: purge_daemon_def Let_def)
  then show "rf_cache_size (rf_run ops rf) = rf_cache_size rf"
      "rf_max_keys_per_daemon (rf_run ops rf) = rf_max_keys_per_daemon rf"
    unfolding rf_run_def by (induction ops arbitrary: rf) auto
qed

section \<open>The specification: what was published since the last purge\<close>

fun published :: "rf_op list \<Rightarrow> string \<Rightarrow> string \<Rightarrow> frame list" where
  "published [] d s = []"
| "published (x # ops) d s =
    (case x of
       RPurge d' \<Rightarrow> if d' = d then [] else published ops d s
     | RPush d' f \<Rightarrow> published ops d s @ (if d' = d \<and> fr_sid f = s then [f] else []))"

text \<open>\<open>published\<close> reads a sequence newest first.\<close>

definition sids_of :: "rf_op list \<Rightarrow> string \<Rightarrow> string set" where
  "sids_of ops d = {fr_sid f |f. RPush d f \<in> set ops}"

lemma finite_sids_of: "finite (sids_of ops d)"
proof -
  have "sids_of ops d \<subseteq> (\<lambda>x. case x of RPush d f \<Rightarrow> fr_sid f | RPurge d \<Rightarrow> []) ` set ops"
    by (force simp: sids_of_def)
  then show ?thesis by (rule finite_subset) simp
qed

lemma rf_run_snoc [simp]: "rf_run (ops @ [x]) rf = rf_step x (rf_run ops rf)"
  by (simp add: rf_run_def)

lemma rf_push_keys:
  assumes "hm_get (rf_buffers (rf_push d f rf)) k \<noteq> None"
  shows "k = rf_key d (fr_sid f) \<or> hm_get (rf_buffers rf) k \<noteq> None"
proof -
  obtain order bufs where room: "rf_room d (rf_key d (fr_sid f)) rf = (order, bufs)" by fastforce
  with assms rf_room_get [OF room, of k] show ?thesis
    by (auto simp: rf_push_eq Let_def split: if_splits)
qed

lemma rf_purge_keys:
  "hm_get (rf_buffers (purge_daemon d rf)) k \<noteq> None \<Longrightarrow> rf_ok rf \<Longrightarrow> hm_get (rf_buffers rf) k \<noteq> None"
  by (auto simp: purge_daemon_def Let_def hm_get_retain rf_ok_def split: option.splits)

definition keys_from :: "rf_op list \<Rightarrow> string set" where
  "keys_from ops = {rf_key d (fr_sid f) |d f. RPush d f \<in> set ops}"

lemma rf_ok_run: "rf_ok rf \<Longrightarrow> rf_ok (rf_run ops rf)"
proof (induction ops rule: rev_induct)
  case (snoc x ops)
  then show ?case by (cases x) (simp_all add: rf_ok_push rf_ok_purge)
qed (simp add: rf_run_def)

lemma rf_run_keys:
  "rf_ok rf \<Longrightarrow> rf_buffers rf = [] \<Longrightarrow> hm_get (rf_buffers (rf_run ops rf)) k \<noteq> None \<Longrightarrow> k \<in> keys_from ops"
proof (induction ops rule: rev_induct)
  case Nil
  then show ?case by (simp add: rf_run_def)
next
  case (snoc x ops)
  have mono: "keys_from ops \<subseteq> keys_from (ops @ [x])" by (auto simp: keys_from_def)
  have ok: "rf_ok (rf_run ops rf)" using snoc.prems(1) by (rule rf_ok_run)
  show ?case
  proof (cases x)
    case (RPush d f)
    then have "rf_key d (fr_sid f) \<in> keys_from (ops @ [x])" by (auto simp: keys_from_def)
    with snoc.prems RPush rf_push_keys [of d f "rf_run ops rf" k] snoc.IH mono show ?thesis by auto
  next
    case (RPurge d)
    with snoc.prems rf_purge_keys [OF _ ok, of d k] snoc.IH mono show ?thesis by auto
  qed
qed

lemma rf_room_no_evict:
  assumes "rf_bounded rf" "rf_max_keys_per_daemon rf = 0 \<or> key_load rf d < rf_max_keys_per_daemon rf"
    and "rf_room d key rf = (order, bufs)"
  shows "bufs = rf_buffers rf"
  using assms daemon_key_count_load [of rf d]
  by (auto simp: rf_room_def Let_def rf_bounded_def rf_ok_def split: if_splits)

lemma key_load_new_key:
  assumes inv: "rf_bounded rf" and mk: "0 < rf_max_keys_per_daemon rf" and nc: "no_colon d"
    and keys: "\<And>k. hm_get (rf_buffers rf) k \<noteq> None \<Longrightarrow> k \<in> keys_from ops"
    and all_nc: "\<And>x. x \<in> set ops \<Longrightarrow> no_colon (op_daemon x)"
    and new: "hm_get (rf_buffers rf) (rf_key d sid) = None"
    and sid: "sid \<in> S" "sids_of ops d \<subseteq> S" "finite S"
  shows "key_load rf d < card S"
proof -
  let ?K = "{k \<in> set (rf_key_insertion_order rf). starts_with k (rf_prefix d)}"
  have log: "distinct (rf_key_insertion_order rf)"
      "fst ` set (rf_buffers rf) = set (rf_key_insertion_order rf)"
    using inv mk by (auto simp: rf_bounded_def)
  have "k \<in> rf_key d ` (S - {sid})" if "k \<in> ?K" for k
  proof -
    have "hm_get (rf_buffers rf) k \<noteq> None"
      using that log(2) by (auto simp: map_of_eq_None_iff)
    then obtain d' f where k: "RPush d' f \<in> set ops" "k = rf_key d' (fr_sid f)"
      using keys [of k] unfolding keys_from_def by blast
    have "no_colon d'" using all_nc [OF k(1)] by simp
    then have "d' = d" using that k(2) rf_key_prefix [OF nc] by auto
    then have "fr_sid f \<in> S" "fr_sid f \<noteq> sid"
      using k sid(2) new \<open>hm_get (rf_buffers rf) k \<noteq> None\<close> by (auto simp: sids_of_def)
    with k(2) \<open>d' = d\<close> show ?thesis by blast
  qed
  then have "card ?K \<le> card (rf_key d ` (S - {sid}))"
    using sid(3) by (intro card_mono) auto
  also have "\<dots> \<le> card (S - {sid})" using sid(3) by (intro card_image_le) auto
  also have "\<dots> < card S" using sid(1,3) by (intro psubset_card_mono) auto
  finally show ?thesis
    using distinct_card [OF distinct_filter [OF log(1)]] by (simp add: key_load_def)
qed

lemma rf_ring_push_other_kept:
  assumes "rf_bounded rf" "no_colon d" "no_colon d'" "d \<noteq> d' \<or> fr_sid f \<noteq> s"
    and room: "hm_get (rf_buffers rf) (rf_key d' (fr_sid f)) = None \<Longrightarrow>
      rf_max_keys_per_daemon rf = 0 \<or> key_load rf d' < rf_max_keys_per_daemon rf"
  shows "rf_ring (rf_push d' f rf) d s = rf_ring rf d s"
proof -
  let ?key = "rf_key d' (fr_sid f)"
  obtain order bufs where r: "rf_room d' ?key rf = (order, bufs)" by fastforce
  have "bufs = rf_buffers rf"
  proof (cases "hm_get (rf_buffers rf) ?key")
    case None
    from rf_room_no_evict [OF assms(1) room [OF None] r] show ?thesis .
  next
    case Some
    with r show ?thesis by (simp add: rf_room_def)
  qed
  moreover have "?key \<noteq> rf_key d s" using assms(2-4) by (auto simp: rf_key_inj)
  ultimately show ?thesis by (simp add: rf_push_eq r rf_ring_def Let_def)
qed

lemma ring_refines_published:
  assumes "\<And>x. x \<in> set ops \<Longrightarrow> no_colon (op_daemon x)" "no_colon d"
    and "mk = 0 \<or> (\<forall>d. card (sids_of ops d) \<le> mk)"
  shows "rf_ring (rf_run ops (rf_with_cache_and_key_cap cs mk)) d s = lastn cs (published (rev ops) d s)"
  using assms
proof (induction ops rule: rev_induct)
  case Nil
  then show ?case by (simp add: rf_run_def rf_ring_def rf_with_cache_and_key_cap_def lastn_def)
next
  case (snoc x ops)
  let ?init = "rf_with_cache_and_key_cap cs mk"
  let ?rf = "rf_run ops ?init"
  have params: "rf_cache_size ?rf = cs" "rf_max_keys_per_daemon ?rf = mk"
    by (simp_all add: rf_with_cache_and_key_cap_def)
  have inv: "rf_bounded ?rf"
    using snoc.prems(1) by (intro rf_bounded_run rf_bounded_init) auto
  have "card (sids_of ops d) \<le> card (sids_of (ops @ [x]) d)" for d
    by (rule card_mono [OF finite_sids_of]) (auto simp: sids_of_def)
  with snoc.prems(3) have "mk = 0 \<or> (\<forall>d. card (sids_of ops d) \<le> mk)"
    by (meson order_trans)
  then have IH: "rf_ring ?rf d s = lastn cs (published (rev ops) d s)"
    using snoc.IH snoc.prems(1,2) by simp
  show ?case
  proof (cases x)
    case (RPurge d')
    with IH inv rf_key_prefix [of d' d s] snoc.prems(1) [of x] snoc.prems(2) show ?thesis
      by (auto simp: rf_ring_purge rf_bounded_def lastn_def)
  next
    case (RPush d' f)
    show ?thesis
    proof (cases "d' = d \<and> fr_sid f = s")
      case True
      with RPush IH params rf_ring_push_same [of d f ?rf] show ?thesis by simp
    next
      case False
      have nc': "no_colon d'" using snoc.prems(1) [of x] RPush by simp
      have "mk = 0 \<or> key_load ?rf d' < mk"
        if new: "hm_get (rf_buffers ?rf) (rf_key d' (fr_sid f)) = None"
      proof (cases "mk = 0")
        case False
        have keys: "k \<in> keys_from ops" if "hm_get (rf_buffers ?rf) k \<noteq> None" for k
          by (rule rf_run_keys [OF _ _ that]) (simp_all add: rf_with_cache_and_key_cap_def rf_ok_def)
        have "key_load ?rf d' < card (sids_of (ops @ [x]) d')"
          using inv params False nc' keys new snoc.prems(1) RPush
          by (intro key_load_new_key [where ops = ops and sid = "fr_sid f"] finite_sids_of)
            (auto simp: sids_of_def)
        with snoc.prems(3) False show ?thesis by (meson order_less_le_trans)
      qed simp
      with rf_ring_push_other_kept [OF inv snoc.prems(2) nc', of f s] False params
      have "rf_ring (rf_push d' f ?rf) d s = rf_ring ?rf d s" by auto
      with RPush IH False show ?thesis by auto
    qed
  qed
qed

section \<open>Properties\<close>

text \<open>C8: As long as no daemon uses more sessions than the key cap allows (or the cap is off),
  \<open>replay_after\<close> returns exactly the frames with a greater sequence number among the last
  \<open>cache_size\<close> frames published for that daemon and session since its last purge, in publishing
  order (daemon ids without a colon).\<close>

theorem replay_refines_published:
  assumes "\<forall>x \<in> set ops. no_colon (op_daemon x)" "no_colon d"
    and "mk = 0 \<or> (\<forall>d. card (sids_of ops d) \<le> mk)"
  shows "replay_after (rf_run ops (rf_with_cache_and_key_cap cs mk)) d s a =
    filter (\<lambda>f. a < fr_seq f) (lastn cs (published (rev ops) d s))"
  using ring_refines_published [of ops d mk cs s] assms by (auto simp: replay_after_ring)

definition demo_frame :: "string \<Rightarrow> u64 \<Rightarrow> frame" where
  "demo_frame sid n = \<lparr>fr_sid = sid, fr_ct = ''ct'', fr_seq = n, fr_from = Daemon, fr_frontend_id = None\<rparr>"

definition demo_pushes :: "rf_op list" where
  "demo_pushes = [RPush ''d'' (demo_frame ''s'' 1), RPush ''d'' (demo_frame ''s'' 2),
     RPush ''e'' (demo_frame ''s'' 3), RPush ''d'' (demo_frame ''s'' 4)]"

theorem replay_refines_published_witness:
  "replay_after (rf_run demo_pushes (rf_with_cache_and_key_cap 2 0)) ''d'' ''s'' 2 =
    [demo_frame ''s'' 4]"
proof -
  have "replay_after (rf_run demo_pushes (rf_with_cache_and_key_cap 2 0)) ''d'' ''s'' 2 =
    filter (\<lambda>f. 2 < fr_seq f) (lastn 2 (published (rev demo_pushes) ''d'' ''s''))"
    by (rule replay_refines_published) (simp_all add: demo_pushes_def no_colon_def)
  then show ?thesis by (simp add: demo_pushes_def demo_frame_def lastn_def)
qed

text \<open>Whatever is pushed and purged, in any order, no ring is longer than \<open>cache_size\<close> and no
  daemon holds more than \<open>max_keys_per_daemon\<close> sessions in the cache (ids without a colon).\<close>

theorem replay_cache_is_bounded:
  assumes "\<forall>x \<in> set ops. no_colon (op_daemon x)"
  shows "(\<forall>d s a. length (replay_after (rf_run ops (rf_with_cache_and_key_cap cs mk)) d s a) \<le> cs)
    \<and> (0 < mk \<longrightarrow> (\<forall>d. no_colon d \<longrightarrow>
        daemon_key_count (rf_buffers (rf_run ops (rf_with_cache_and_key_cap cs mk))) (rf_prefix d) \<le> mk))"
proof -
  let ?rf = "rf_run ops (rf_with_cache_and_key_cap cs mk)"
  have inv: "rf_bounded ?rf"
    using assms by (intro rf_bounded_run rf_bounded_init) auto
  have params: "rf_cache_size ?rf = cs" "rf_max_keys_per_daemon ?rf = mk"
    by (simp_all add: rf_with_cache_and_key_cap_def)
  have "length (replay_after ?rf d s a) \<le> cs" for d s a
  proof -
    have "length (rf_ring ?rf d s) \<le> cs"
      using inv params by (auto simp: rf_ring_def rf_bounded_def split: option.splits)
    then show ?thesis
      unfolding replay_after_ring by (rule order_trans [OF length_filter_le])
  qed
  moreover have "daemon_key_count (rf_buffers ?rf) (rf_prefix d) \<le> mk" if "0 < mk" "no_colon d" for d
    using inv params that daemon_key_count_load [of ?rf d] by (auto simp: rf_bounded_def rf_ok_def)
  ultimately show ?thesis by blast
qed

theorem replay_cache_is_bounded_witness:
  "(\<forall>d s a. length (replay_after (rf_run demo_pushes (rf_with_cache_and_key_cap 2 1)) d s a) \<le> 2)
    \<and> daemon_key_count (rf_buffers (rf_run demo_pushes (rf_with_cache_and_key_cap 2 1))) (rf_prefix ''d'') \<le> 1"
proof -
  have "\<forall>x \<in> set demo_pushes. no_colon (op_daemon x)" "no_colon ''d''"
    by (simp_all add: demo_pushes_def no_colon_def)
  with replay_cache_is_bounded [of demo_pushes 2 1] show ?thesis by simp
qed

text \<open>A frame that a replay returns was really published, on the requested session and by the
  requested daemon, and is newer than the given sequence number: no frame of another daemon leaks,
  provided daemon ids contain no colon.\<close>

theorem replayed_frames_are_genuine:
  assumes "\<forall>x \<in> set ops. no_colon (op_daemon x)" "no_colon d"
    and "g \<in> set (replay_after (rf_run ops (rf_with_cache_and_key_cap cs mk)) d s a)"
  shows "RPush d g \<in> set ops \<and> fr_sid g = s \<and> a < fr_seq g"
proof -
  let ?init = "rf_with_cache_and_key_cap cs mk"
  have g: "g \<in> set (rf_ring (rf_run ops ?init) d s)" "a < fr_seq g"
    using assms(3) by (auto simp: replay_after_ring)
  have empty: "rf_ring ?init d s = []" "rf_ok ?init" for d s
    by (simp_all add: rf_ring_def rf_ok_def rf_with_cache_and_key_cap_def)
  obtain d' where d': "RPush d' g \<in> set ops" "rf_key d' (fr_sid g) = rf_key d s"
    using rf.history_sound [OF empty(2) empty(1), of g ops d s] g(1) by (auto simp: rf_run_step)
  moreover have "no_colon d'" using assms(1) d'(1) by force
  ultimately show ?thesis using assms(2) g(2) by (auto simp: rf_key_inj)
qed

theorem replayed_frames_are_genuine_witness:
  "RPush ''d'' (demo_frame ''s'' 4) \<in> set [RPush ''d'' (demo_frame ''s'' 4)]
    \<and> fr_sid (demo_frame ''s'' 4) = ''s'' \<and> 2 < fr_seq (demo_frame ''s'' 4)"
proof (rule replayed_frames_are_genuine [where cs = 2 and mk = 1 and d = "''d''"])
  show "demo_frame ''s'' 4 \<in> set (replay_after (rf_run [RPush ''d'' (demo_frame ''s'' 4)]
      (rf_with_cache_and_key_cap 2 1)) ''d'' ''s'' 2)"
    by (simp add: demo_frame_def rf_run_def rf_push_def rf_with_cache_and_key_cap_def
        rf_key_def replay_after_def Let_def daemon_key_count_def)
qed (simp_all add: no_colon_def)

text \<open>With a colon in a daemon id two sessions share one cache key, so a frame that daemon
  \<open>a\<close> publishes on session \<open>b:c\<close> is replayed to a subscriber of session \<open>c\<close> of daemon \<open>a:b\<close>,
  and evicting daemon \<open>a\<close> drops the frames of daemon \<open>a:b\<close>.\<close>

theorem colon_ids_share_a_ring:
  "replay_after (rf_push ''a'' (demo_frame ''b:c'' 7) (rf_with_cache_size DEFAULT_CACHE_SIZE)) ''a:b'' ''c'' 0
     = [demo_frame ''b:c'' 7]
   \<and> replay_after (purge_daemon ''a'' (rf_push ''a:b'' (demo_frame ''c'' 7)
        (rf_with_cache_size DEFAULT_CACHE_SIZE))) ''a:b'' ''c'' 0 = []"
  by (simp add: demo_frame_def rf_push_def rf_with_cache_size_def rf_with_cache_and_key_cap_def
      rf_key_def replay_after_def Let_def daemon_key_count_def DEFAULT_CACHE_SIZE_def
      DEFAULT_MAX_RECENT_FRAME_KEYS_PER_DAEMON_def purge_daemon_def hm_retain_def rf_prefix_def
      starts_with_def)

end
