(* ===== verification/Registry.thy ===== *)
theory Registry
  imports Prelude
begin

text \<open>
  \<open>rust/tp-relay/src/registry.rs\<close>: per-daemon state, registrations and the token map, with
  every operation that changes them. \<open>registry_step\<close> has one rule per operation the relay
  calls; \<open>registry_inv\<close> is what the three maps keep true of each other.
\<close>

section \<open>State\<close>

definition MAX_SESSIONS_PER_DAEMON :: nat where
  "MAX_SESSIONS_PER_DAEMON = 256"

definition DEFAULT_MAX_REGISTRATIONS :: nat where
  "DEFAULT_MAX_REGISTRATIONS = 50000"

record registration =
  rg_token :: string
  rg_proof :: "string option"

record daemon_state =
  ds_online :: bool
  ds_sessions :: "string list"
  ds_last_seen :: u64
  ds_attached :: "(string, u32) hash_map"
  ds_registration_token :: "string option"

record registry =
  daemon_states :: "(string, daemon_state) hash_map"
  registrations :: "(string, registration) hash_map"
  valid_tokens :: "(string, string) hash_map"
  max_registrations :: nat

section \<open>Operations on one daemon's state\<close>

definition seed_offline :: "u64 \<Rightarrow> daemon_state" where
  "seed_offline now_ms = \<lparr>ds_online = False, ds_sessions = [], ds_last_seen = now_ms,
     ds_attached = hm_empty, ds_registration_token = None\<rparr>"

text \<open>\<open>IndexSet::insert\<close> appends an absent element and keeps the place of a present one.\<close>

definition index_insert :: "'a \<Rightarrow> 'a list \<Rightarrow> 'a list" where
  "index_insert x xs = (if x \<in> set xs then xs else xs @ [x])"

definition add_session :: "string \<Rightarrow> daemon_state \<Rightarrow> daemon_state" where
  "add_session sid st =
    st\<lparr>ds_sessions := trim_front MAX_SESSIONS_PER_DAEMON (index_insert sid (ds_sessions st))\<rparr>"

definition attach :: "string \<Rightarrow> daemon_state \<Rightarrow> daemon_state" where
  "attach sid st =
    st\<lparr>ds_attached := hm_modify sid (\<lambda>count. saturating_add count 1)
         (hm_or_insert sid 0 (ds_attached st))\<rparr>"

definition detach :: "string \<Rightarrow> daemon_state \<Rightarrow> daemon_state" where
  "detach sid st =
    (case hm_get (ds_attached st) sid of
       Some count \<Rightarrow>
         if count \<le> 1 then st\<lparr>ds_attached := hm_remove sid (ds_attached st)\<rparr>
         else st\<lparr>ds_attached := hm_insert sid (count - 1) (ds_attached st)\<rparr>
     | None \<Rightarrow> st)"

section \<open>Operations of the registry\<close>

definition with_max_registrations :: "nat \<Rightarrow> registry" where
  "with_max_registrations m = \<lparr>daemon_states = hm_empty, registrations = hm_empty,
     valid_tokens = hm_empty, max_registrations = m\<rparr>"

definition modify_state :: "string \<Rightarrow> (daemon_state \<Rightarrow> daemon_state) \<Rightarrow> registry \<Rightarrow> registry" where
  "modify_state d f r = r\<lparr>daemon_states := hm_modify d f (daemon_states r)\<rparr>"

definition seed_state :: "string \<Rightarrow> u64 \<Rightarrow> registry \<Rightarrow> registry" where
  "seed_state d now_ms r = r\<lparr>daemon_states := hm_or_insert d (seed_offline now_ms) (daemon_states r)\<rparr>"

definition upsert_daemon_state :: "string \<Rightarrow> bool \<Rightarrow> string option \<Rightarrow> u64 \<Rightarrow> registry \<Rightarrow> registry" where
  "upsert_daemon_state daemon_id is_daemon reg_token now_ms r =
    (if is_daemon then
       modify_state daemon_id
         (\<lambda>st. st\<lparr>ds_online := True, ds_last_seen := now_ms,
            ds_registration_token :=
              (case reg_token of
                 Some tok \<Rightarrow> (if ds_registration_token st = None then Some tok
                              else ds_registration_token st)
               | None \<Rightarrow> ds_registration_token st)\<rparr>)
         (seed_state daemon_id now_ms r)
     else seed_state daemon_id now_ms r)"

definition registry_handle_register ::
  "string \<Rightarrow> string \<Rightarrow> string \<Rightarrow> u64 \<Rightarrow> registry \<Rightarrow> string + registry" where
  "registry_handle_register daemon_id token proof now_ms r =
    (if \<not> hm_contains (registrations r) daemon_id \<and> max_registrations r > 0
        \<and> length (registrations r) \<ge> max_registrations r
     then Inl ''Relay registration capacity reached''
     else if (case hm_get (registrations r) daemon_id of
                Some existing \<Rightarrow> (case rg_proof existing of Some p \<Rightarrow> p \<noteq> proof | None \<Rightarrow> False)
              | None \<Rightarrow> False)
     then Inl ''Daemon ID already registered with different credentials''
     else
       let r1 = (case hm_get (registrations r) daemon_id of
                   Some existing \<Rightarrow>
                     if rg_token existing \<noteq> token then
                       modify_state daemon_id (\<lambda>st. st\<lparr>ds_registration_token := Some token\<rparr>)
                         (r\<lparr>valid_tokens := hm_remove (rg_token existing) (valid_tokens r)\<rparr>)
                     else r
                 | None \<Rightarrow> r);
           r2 = r1\<lparr>valid_tokens := hm_insert token daemon_id (valid_tokens r1),
                   registrations := hm_insert daemon_id
                     \<lparr>rg_token = token, rg_proof = Some proof\<rparr> (registrations r1)\<rparr>;
           r3 = seed_state daemon_id now_ms r2
       in Inr (modify_state daemon_id
            (\<lambda>st. if ds_registration_token st = None
                  then st\<lparr>ds_registration_token := Some token\<rparr> else st) r3))"

definition registry_handle_auth :: "string \<Rightarrow> string \<Rightarrow> bool \<Rightarrow> u64 \<Rightarrow> registry \<Rightarrow> string + registry" where
  "registry_handle_auth daemon_id token is_daemon now_ms r =
    (if hm_get (valid_tokens r) token = Some daemon_id then
       let r1 = upsert_daemon_state daemon_id is_daemon
                  (if is_daemon then Some token else None) now_ms r
       in Inr (if is_daemon \<and> \<not> hm_contains (registrations r1) daemon_id
               then r1\<lparr>registrations := hm_insert daemon_id
                      \<lparr>rg_token = token, rg_proof = None\<rparr> (registrations r1)\<rparr>
               else r1)
     else Inl ''Invalid token or daemon ID'')"

definition registry_handle_auth_resume :: "string \<Rightarrow> bool \<Rightarrow> u64 \<Rightarrow> registry \<Rightarrow> string + registry" where
  "registry_handle_auth_resume daemon_id is_daemon now_ms r =
    (if \<not> hm_contains (registrations r) daemon_id then Inl ''Daemon no longer registered''
     else Inr (upsert_daemon_state daemon_id is_daemon None now_ms r))"

definition daemon_disconnect :: "string \<Rightarrow> u64 \<Rightarrow> registry \<Rightarrow> registry" where
  "daemon_disconnect daemon_id now_ms r =
    modify_state daemon_id (\<lambda>st. st\<lparr>ds_online := False, ds_last_seen := now_ms\<rparr>) r"

definition frontend_disconnect :: "string \<Rightarrow> string list \<Rightarrow> registry \<Rightarrow> registry" where
  "frontend_disconnect daemon_id subscriptions r =
    modify_state daemon_id (fold detach subscriptions) r"

definition daemon_pub :: "string \<Rightarrow> string \<Rightarrow> u64 \<Rightarrow> registry \<Rightarrow> registry" where
  "daemon_pub daemon_id sid now_ms r =
    modify_state daemon_id (\<lambda>st. (add_session sid st)\<lparr>ds_last_seen := now_ms\<rparr>) r"

definition daemon_ping :: "string \<Rightarrow> u64 \<Rightarrow> registry \<Rightarrow> registry" where
  "daemon_ping daemon_id now_ms r = modify_state daemon_id (\<lambda>st. st\<lparr>ds_last_seen := now_ms\<rparr>) r"

definition evict_daemon :: "string \<Rightarrow> registry \<Rightarrow> registry" where
  "evict_daemon daemon_id r =
    (let tokens = (case hm_get (daemon_states r) daemon_id of
                     Some st \<Rightarrow> (case ds_registration_token st of
                                  Some tok \<Rightarrow> hm_remove tok (valid_tokens r)
                                | None \<Rightarrow> valid_tokens r)
                   | None \<Rightarrow> valid_tokens r)
     in r\<lparr>valid_tokens := tokens,
          registrations := hm_remove daemon_id (registrations r),
          daemon_states := hm_remove daemon_id (daemon_states r)\<rparr>)"

record stale_check_result =
  newly_offline :: "string list"
  evicted :: "string list"

definition is_stale :: "u64 \<Rightarrow> u64 \<Rightarrow> daemon_state \<Rightarrow> bool" where
  "is_stale now_ms stale_timeout_ms st \<longleftrightarrow>
    ds_online st \<and> saturating_sub now_ms (ds_last_seen st) > stale_timeout_ms"

definition is_evictable :: "u64 \<Rightarrow> u64 \<Rightarrow> daemon_state \<Rightarrow> bool" where
  "is_evictable now_ms offline_evict_ms st \<longleftrightarrow>
    \<not> ds_online st \<and> saturating_sub now_ms (ds_last_seen st) > offline_evict_ms"

definition check_stale_daemons ::
  "u64 \<Rightarrow> u64 \<Rightarrow> u64 \<Rightarrow> registry \<Rightarrow> stale_check_result \<times> registry" where
  "check_stale_daemons now_ms stale_timeout_ms offline_evict_ms r =
    (let newly = map fst (filter (\<lambda>(d, st). is_stale now_ms stale_timeout_ms st) (daemon_states r));
         states1 = map (\<lambda>(d, st). (d, if is_stale now_ms stale_timeout_ms st
                                     then st\<lparr>ds_online := False\<rparr> else st)) (daemon_states r);
         gone = map fst (filter (\<lambda>(d, st). is_evictable now_ms offline_evict_ms st) states1);
         r2 = fold evict_daemon gone (r\<lparr>daemon_states := states1\<rparr>)
     in (\<lparr>newly_offline = newly, evicted = gone\<rparr>, r2))"

section \<open>Lookups after each operation\<close>

lemma registry_sel_modify [simp]:
  "registrations (modify_state d f r) = registrations r"
  "valid_tokens (modify_state d f r) = valid_tokens r"
  "max_registrations (modify_state d f r) = max_registrations r"
  "map_of (daemon_states (modify_state d f r)) =
     (map_of (daemon_states r))(d := map_option f (map_of (daemon_states r) d))"
  by (simp_all add: modify_state_def)

lemma registry_sel_seed [simp]:
  "registrations (seed_state d n r) = registrations r"
  "valid_tokens (seed_state d n r) = valid_tokens r"
  "max_registrations (seed_state d n r) = max_registrations r"
  "map_of (daemon_states (seed_state d n r)) = (map_of (daemon_states r))
     (d := Some (case map_of (daemon_states r) d of None \<Rightarrow> seed_offline n | Some st \<Rightarrow> st))"
  by (simp_all add: seed_state_def)

lemma hm_ok_states [simp]:
  "hm_ok (daemon_states r) \<Longrightarrow> hm_ok (daemon_states (modify_state d f r))"
  "hm_ok (daemon_states r) \<Longrightarrow> hm_ok (daemon_states (seed_state d n r))"
  by (simp_all add: modify_state_def seed_state_def)

lemma upsert_sel [simp]:
  "registrations (upsert_daemon_state d b t n r) = registrations r"
  "valid_tokens (upsert_daemon_state d b t n r) = valid_tokens r"
  "max_registrations (upsert_daemon_state d b t n r) = max_registrations r"
  by (simp_all add: upsert_daemon_state_def)

section \<open>The invariant\<close>

definition state_ok :: "daemon_state \<Rightarrow> bool" where
  "state_ok st \<longleftrightarrow> distinct (ds_sessions st) \<and> length (ds_sessions st) \<le> MAX_SESSIONS_PER_DAEMON
     \<and> hm_ok (ds_attached st) \<and> (\<forall>sid. hm_get (ds_attached st) sid \<noteq> Some 0)"

definition registry_inv :: "registry \<Rightarrow> bool" where
  "registry_inv r \<longleftrightarrow>
     hm_ok (daemon_states r) \<and> hm_ok (registrations r) \<and> hm_ok (valid_tokens r)
   \<and> (\<forall>d. hm_contains (daemon_states r) d \<longleftrightarrow> hm_contains (registrations r) d)
   \<and> (\<forall>d st g. hm_get (daemon_states r) d = Some st \<longrightarrow> hm_get (registrations r) d = Some g
        \<longrightarrow> ds_registration_token st = Some (rg_token g))
   \<and> (\<forall>t d. hm_get (valid_tokens r) t = Some d
        \<longrightarrow> (\<exists>g. hm_get (registrations r) d = Some g \<and> rg_token g = t))
   \<and> (\<forall>d g. hm_get (registrations r) d = Some g \<longrightarrow> rg_proof g \<noteq> None)
   \<and> (max_registrations r > 0 \<longrightarrow> length (registrations r) \<le> max_registrations r)
   \<and> (\<forall>d st. hm_get (daemon_states r) d = Some st \<longrightarrow> state_ok st)"

lemma state_ok_seed [simp]: "state_ok (seed_offline n)"
  by (simp add: state_ok_def seed_offline_def)

lemma state_ok_update [simp]:
  "state_ok (st\<lparr>ds_online := b\<rparr>) = state_ok st"
  "state_ok (st\<lparr>ds_last_seen := n\<rparr>) = state_ok st"
  "state_ok (st\<lparr>ds_registration_token := t\<rparr>) = state_ok st"
  by (simp_all add: state_ok_def)

lemma state_ok_add_session: "state_ok st \<Longrightarrow> state_ok (add_session sid st)"
  using lastn_length [of MAX_SESSIONS_PER_DAEMON]
  by (auto simp: state_ok_def add_session_def trim_front_eq index_insert_def lastn_def)

lemma saturating_succ_nonzero: "saturating_add (c :: u32) 1 \<noteq> 0"
proof -
  have "0 < unat (saturating_add c 1)" by (simp add: unat_saturating_add)
  then show ?thesis by auto
qed

lemma state_ok_attach: "state_ok st \<Longrightarrow> state_ok (attach sid st)"
  by (auto simp: state_ok_def attach_def saturating_succ_nonzero split: option.splits)

lemma state_ok_detach: "state_ok st \<Longrightarrow> state_ok (detach sid st)"
proof -
  assume ok: "state_ok st"
  have "count - 1 \<noteq> 0" if "\<not> count \<le> 1" for count :: u32
    using that by auto
  with ok show ?thesis
    by (auto simp: state_ok_def detach_def split: option.splits)
qed

lemma detach_frame [simp]:
  "ds_registration_token (detach sid st) = ds_registration_token st"
  "ds_online (detach sid st) = ds_online st"
  "ds_last_seen (detach sid st) = ds_last_seen st"
  "ds_sessions (detach sid st) = ds_sessions st"
  by (simp_all add: detach_def split: option.splits)

lemma fold_detach:
  "state_ok st \<Longrightarrow> state_ok (fold detach sids st)"
  "ds_registration_token (fold detach sids st) = ds_registration_token st"
  by (induction sids arbitrary: st) (auto simp: state_ok_detach)

text \<open>An update of one daemon's state that keeps its token keeps the invariant.\<close>

lemma registry_inv_modify:
  assumes "registry_inv r"
    and "\<And>st. state_ok st \<Longrightarrow> state_ok (f st)"
    and "\<And>st. ds_registration_token (f st) = ds_registration_token st"
  shows "registry_inv (modify_state d f r)"
  using assms by (auto simp: registry_inv_def split: if_splits)

lemma registry_inv_seed_known:
  assumes "registry_inv r" "hm_contains (registrations r) d"
  shows "registry_inv (seed_state d n r)"
proof -
  have "hm_contains (daemon_states r) d"
    using assms by (simp add: registry_inv_def)
  then have "seed_state d n r = r"
    by (auto simp: seed_state_def hm_or_insert_def)
  with assms show ?thesis by simp
qed

lemma registry_inv_valid:
  "registry_inv r \<Longrightarrow> hm_get (valid_tokens r) t = Some d \<Longrightarrow>
    \<exists>g. hm_get (registrations r) d = Some g \<and> rg_token g = t"
  unfolding registry_inv_def by blast

lemma registry_inv_registered:
  "registry_inv r \<Longrightarrow> hm_get (registrations r) d = Some g \<Longrightarrow>
    \<exists>st. hm_get (daemon_states r) d = Some st \<and> ds_registration_token st = Some (rg_token g) \<and> state_ok st"
  unfolding registry_inv_def by (metis not_None_eq)

lemma registry_inv_length:
  "registry_inv r \<Longrightarrow> max_registrations r > 0 \<Longrightarrow> length (registrations r) \<le> max_registrations r"
  unfolding registry_inv_def by blast

lemma registry_inv_dom:
  "registry_inv r \<Longrightarrow> hm_contains (daemon_states r) d \<longleftrightarrow> hm_contains (registrations r) d"
  unfolding registry_inv_def by blast

lemma registry_inv_unregistered:
  "registry_inv r \<Longrightarrow> hm_get (registrations r) d = None \<Longrightarrow> hm_get (daemon_states r) d = None"
  unfolding registry_inv_def by metis

section \<open>Every operation keeps the invariant\<close>

lemma registry_inv_upsert:
  assumes inv: "registry_inv r" and reg: "hm_get (registrations r) d = Some g"
  shows "registry_inv (upsert_daemon_state d b t n r)"
proof -
  obtain st where st: "hm_get (daemon_states r) d = Some st"
      "ds_registration_token st = Some (rg_token g)" "state_ok st"
    using registry_inv_registered [OF inv reg] by blast
  then have "seed_state d n r = r"
    by (simp add: seed_state_def hm_or_insert_def)
  moreover have "registry_inv (modify_state d (\<lambda>st. st\<lparr>ds_online := True, ds_last_seen := n,
      ds_registration_token := tk st\<rparr>) r)" if "tk st = ds_registration_token st" for tk
    using inv st that by (auto simp: registry_inv_def split: if_splits)
  ultimately show ?thesis
    using inv st(2) by (auto simp: upsert_daemon_state_def split: option.splits)
qed

lemma registry_inv_auth:
  assumes inv: "registry_inv r" and auth: "registry_handle_auth d t b n r = Inr r'"
  shows "registry_inv r'" "r' = upsert_daemon_state d b (if b then Some t else None) n r"
proof -
  from auth have "hm_get (valid_tokens r) t = Some d"
    by (simp add: registry_handle_auth_def split: if_splits)
  then obtain g where g: "hm_get (registrations r) d = Some g"
    using registry_inv_valid [OF inv] by blast
  with auth show r': "r' = upsert_daemon_state d b (if b then Some t else None) n r"
    by (simp add: registry_handle_auth_def Let_def split: if_splits)
  show "registry_inv r'" unfolding r' by (rule registry_inv_upsert [OF inv g])
qed

lemma registry_inv_auth_resume:
  "registry_inv r \<Longrightarrow> registry_handle_auth_resume d b n r = Inr r' \<Longrightarrow> registry_inv r'"
  by (auto simp: registry_handle_auth_resume_def intro: registry_inv_upsert split: if_splits)

lemma register_ok_sel:
  assumes "registry_handle_register d t p n r = Inr r'"
  shows "registrations r' = hm_insert d \<lparr>rg_token = t, rg_proof = Some p\<rparr> (registrations r)"
    and "max_registrations r' = max_registrations r"
    and "map_of (valid_tokens r') =
      (case hm_get (registrations r) d of
         Some g \<Rightarrow> if rg_token g \<noteq> t then (map_of (valid_tokens r))(rg_token g := None)
                   else map_of (valid_tokens r)
       | None \<Rightarrow> map_of (valid_tokens r))(t \<mapsto> d)"
    and "d' \<noteq> d \<Longrightarrow> hm_get (daemon_states r') d' = hm_get (daemon_states r) d'"
    and "hm_ok (daemon_states r) \<Longrightarrow> hm_ok (daemon_states r')"
    and "hm_ok (valid_tokens r) \<Longrightarrow> hm_ok (valid_tokens r')"
  using assms
  by (auto simp: registry_handle_register_def Let_def split: if_splits option.splits)

lemma register_ok_state:
  assumes "registry_inv r" "registry_handle_register d t p n r = Inr r'"
  shows "\<exists>st. hm_get (daemon_states r') d = Some st \<and> ds_registration_token st = Some t \<and> state_ok st"
proof (cases "hm_get (registrations r) d")
  case None
  with assms(1) have "hm_get (daemon_states r) d = None"
    by (rule registry_inv_unregistered)
  with None assms(2) show ?thesis
    by (auto simp: registry_handle_register_def Let_def seed_offline_def state_ok_def
        split: if_splits option.splits)
next
  case (Some g)
  then obtain st where "hm_get (daemon_states r) d = Some st"
      "ds_registration_token st = Some (rg_token g)" "state_ok st"
    using registry_inv_registered [OF assms(1)] by blast
  with Some assms(2) show ?thesis
    by (auto simp: registry_handle_register_def Let_def split: if_splits option.splits)
qed

lemma register_ok_guard:
  assumes "registry_handle_register d t p n r = Inr r'"
  shows "hm_contains (registrations r) d \<or> max_registrations r = 0
      \<or> length (registrations r) < max_registrations r"
    and "hm_get (registrations r) d = Some g \<Longrightarrow> rg_proof g = None \<or> rg_proof g = Some p"
  using assms by (auto simp: registry_handle_register_def split: if_splits option.splits)

lemma registry_inv_register:
  assumes inv: "registry_inv r" and reg: "registry_handle_register d t p n r = Inr r'"
  shows "registry_inv r'"
proof -
  note sel = register_ok_sel [OF reg]
  have len: "max_registrations r' > 0 \<longrightarrow> length (registrations r') \<le> max_registrations r'"
    using registry_inv_length [OF inv] register_ok_guard(1) [OF reg]
    unfolding sel(1,2) length_hm_insert by (auto split: if_splits)
  have dom: "hm_contains (daemon_states r') d' \<longleftrightarrow> hm_contains (registrations r') d'" for d'
    using registry_inv_dom [OF inv] register_ok_state [OF inv reg] sel(4) [of d']
    by (cases "d' = d") (auto simp: sel(1))
  have tok: "ds_registration_token st = Some (rg_token g)"
    if "hm_get (daemon_states r') d' = Some st" "hm_get (registrations r') d' = Some g" for d' st g
    using that inv register_ok_state [OF inv reg] sel(4) [of d']
    by (cases "d' = d") (auto simp: registry_inv_def sel(1))
  have valid: "\<exists>g. hm_get (registrations r') d' = Some g \<and> rg_token g = t'"
    if "hm_get (valid_tokens r') t' = Some d'" for t' d'
  proof (cases "t' = t")
    case True
    with that sel(1,3) show ?thesis by (auto split: option.splits if_splits)
  next
    case False
    with that have old: "hm_get (valid_tokens r) t' = Some d'"
      and live: "hm_get (registrations r) d = Some g \<Longrightarrow> rg_token g \<noteq> t \<Longrightarrow> t' \<noteq> rg_token g" for g
      by (auto simp: sel(3) split: option.splits if_splits)
    then obtain g where g: "hm_get (registrations r) d' = Some g" "rg_token g = t'"
      using registry_inv_valid [OF inv] by blast
    with live [of g] False have "d' \<noteq> d" by auto
    with g show ?thesis by (simp add: sel(1))
  qed
  have proofs: "rg_proof g \<noteq> None" if "hm_get (registrations r') d' = Some g" for d' g
    using that inv by (auto simp: registry_inv_def sel(1) split: if_splits)
  have states: "state_ok st" if "hm_get (daemon_states r') d' = Some st" for d' st
    using that inv register_ok_state [OF inv reg] sel(4) [of d']
    by (cases "d' = d") (auto simp: registry_inv_def)
  have oks: "hm_ok (daemon_states r')" "hm_ok (registrations r')" "hm_ok (valid_tokens r')"
    using inv sel(5,6) by (simp_all add: registry_inv_def sel(1))
  show ?thesis
    unfolding registry_inv_def using len dom tok valid proofs states oks by blast
qed

lemma evict_sel [simp]:
  "registrations (evict_daemon d r) = hm_remove d (registrations r)"
  "daemon_states (evict_daemon d r) = hm_remove d (daemon_states r)"
  "max_registrations (evict_daemon d r) = max_registrations r"
  by (simp_all add: evict_daemon_def Let_def)

lemma evict_valid_tokens:
  assumes "registry_inv r"
  shows "hm_get (valid_tokens (evict_daemon d r)) t = Some d' \<longleftrightarrow>
    hm_get (valid_tokens r) t = Some d' \<and>
    (\<forall>g. hm_get (registrations r) d = Some g \<longrightarrow> rg_token g \<noteq> t)"
proof (cases "hm_get (registrations r) d")
  case None
  with assms have "hm_get (daemon_states r) d = None"
    by (rule registry_inv_unregistered)
  with None show ?thesis by (simp add: evict_daemon_def)
next
  case (Some g)
  then obtain st where "hm_get (daemon_states r) d = Some st"
      "ds_registration_token st = Some (rg_token g)"
    using registry_inv_registered [OF assms] by blast
  with Some show ?thesis by (auto simp: evict_daemon_def)
qed

lemma registry_inv_evict:
  assumes inv: "registry_inv r"
  shows "registry_inv (evict_daemon d r)"
proof -
  have ok: "hm_ok (valid_tokens (evict_daemon d r))"
    using inv by (simp add: registry_inv_def evict_daemon_def Let_def split: option.splits)
  have valid: "\<exists>g. hm_get (hm_remove d (registrations r)) d' = Some g \<and> rg_token g = t"
    if "hm_get (valid_tokens (evict_daemon d r)) t = Some d'" for t d'
  proof -
    from that inv have "hm_get (valid_tokens r) t = Some d'"
        "\<forall>g. hm_get (registrations r) d = Some g \<longrightarrow> rg_token g \<noteq> t"
      by (simp_all add: evict_valid_tokens)
    with registry_inv_valid [OF inv] show ?thesis by fastforce
  qed
  have len: "max_registrations r > 0 \<longrightarrow> length (hm_remove d (registrations r)) \<le> max_registrations r"
    using inv AList.length_delete_le [of d "registrations r"] by (auto simp: registry_inv_def)
  show ?thesis
    using inv ok valid len by (auto simp: registry_inv_def)
qed

definition mark_stale :: "u64 \<Rightarrow> u64 \<Rightarrow> daemon_state \<Rightarrow> daemon_state" where
  "mark_stale now timeout st = (if is_stale now timeout st then st\<lparr>ds_online := False\<rparr> else st)"

lemma mark_stale_frame [simp]:
  "ds_last_seen (mark_stale now t st) = ds_last_seen st"
  "ds_registration_token (mark_stale now t st) = ds_registration_token st"
  "state_ok (mark_stale now t st) = state_ok st"
  by (simp_all add: mark_stale_def)

definition mark_all :: "u64 \<Rightarrow> u64 \<Rightarrow> registry \<Rightarrow> registry" where
  "mark_all now t r = r\<lparr>daemon_states := map (\<lambda>(d, st). (d, mark_stale now t st)) (daemon_states r)\<rparr>"

lemma mark_all_sel [simp]:
  "registrations (mark_all now t r) = registrations r"
  "valid_tokens (mark_all now t r) = valid_tokens r"
  "max_registrations (mark_all now t r) = max_registrations r"
  "map_of (daemon_states (mark_all now t r)) = map_option (mark_stale now t) \<circ> map_of (daemon_states r)"
  "hm_ok (daemon_states (mark_all now t r)) = hm_ok (daemon_states r)"
  by (simp_all add: mark_all_def map_of_map, simp add: hm_ok_def comp_def case_prod_unfold)

lemma registry_inv_mark_all: "registry_inv r \<Longrightarrow> registry_inv (mark_all now t r)"
  by (fastforce simp: registry_inv_def)

lemma check_stale_eq:
  "check_stale_daemons now t e r =
    (let gone = map fst (filter (\<lambda>(d, st). is_evictable now e st) (daemon_states (mark_all now t r)))
     in (\<lparr>newly_offline = map fst (filter (\<lambda>(d, st). is_stale now t st) (daemon_states r)),
          evicted = gone\<rparr>, fold evict_daemon gone (mark_all now t r)))"
  by (simp add: check_stale_daemons_def mark_all_def mark_stale_def Let_def case_prod_unfold)

lemma registry_inv_evicts: "registry_inv r \<Longrightarrow> registry_inv (fold evict_daemon ds r)"
  by (induction ds arbitrary: r) (auto intro: registry_inv_evict)

lemma registry_inv_stale: "registry_inv r \<Longrightarrow> registry_inv (snd (check_stale_daemons now t e r))"
  by (simp add: check_stale_eq Let_def registry_inv_evicts registry_inv_mark_all)

section \<open>The registry as a transition system\<close>

inductive registry_step :: "registry \<Rightarrow> registry \<Rightarrow> bool" where
  register: "registry_handle_register d t p now r = Inr r' \<Longrightarrow> registry_step r r'"
| auth: "registry_handle_auth d t b now r = Inr r' \<Longrightarrow> registry_step r r'"
| auth_resume: "registry_handle_auth_resume d b now r = Inr r' \<Longrightarrow> registry_step r r'"
| disconnect: "registry_step r (daemon_disconnect d now r)"
| frontend_leaves: "registry_step r (frontend_disconnect d sids r)"
| publish: "registry_step r (daemon_pub d sid now r)"
| ping: "registry_step r (daemon_ping d now r)"
| subscribe: "registry_step r (modify_state d (attach sid) r)"
| unsubscribe: "registry_step r (modify_state d (detach sid) r)"
| sweep: "registry_step r (snd (check_stale_daemons now timeout evict_after r))"

lemma registry_inv_small:
  assumes "registry_inv r"
  shows "registry_inv (daemon_disconnect d now r)" "registry_inv (frontend_disconnect d sids r)"
    "registry_inv (daemon_pub d sid now r)" "registry_inv (daemon_ping d now r)"
    "registry_inv (modify_state d (attach sid) r)" "registry_inv (modify_state d (detach sid) r)"
proof -
  show "registry_inv (daemon_disconnect d now r)" "registry_inv (daemon_ping d now r)"
    unfolding daemon_disconnect_def daemon_ping_def
    using assms by (auto intro!: registry_inv_modify)
  show "registry_inv (frontend_disconnect d sids r)"
    unfolding frontend_disconnect_def
    using assms by (auto intro!: registry_inv_modify fold_detach)
  show "registry_inv (daemon_pub d sid now r)"
    unfolding daemon_pub_def
    using assms by (auto intro!: registry_inv_modify state_ok_add_session) (simp add: add_session_def)
  show "registry_inv (modify_state d (attach sid) r)" "registry_inv (modify_state d (detach sid) r)"
    using assms by (auto intro!: registry_inv_modify state_ok_attach state_ok_detach)
      (simp add: attach_def)
qed

lemma registry_step_inv: "registry_step r r' \<Longrightarrow> registry_inv r \<Longrightarrow> registry_inv r'"
  by (induction rule: registry_step.induct)
    (auto intro: registry_inv_register registry_inv_auth registry_inv_auth_resume
      registry_inv_small registry_inv_stale)

interpretation registry_sys: step_system "\<lambda>r. \<exists>m. r = with_max_registrations m" registry_step registry_inv
proof unfold_locales
  show "\<exists>m. r = with_max_registrations m \<Longrightarrow> registry_inv r" for r
    by (auto simp: registry_inv_def with_max_registrations_def)
qed (rule registry_step_inv)

lemma registry_reachable_inv: "registry_step\<^sup>*\<^sup>* (with_max_registrations m) r \<Longrightarrow> registry_inv r"
  using registry_sys.reachable_inv by blast

section \<open>What single steps do\<close>

lemma fold_evict_registrations:
  "hm_get (registrations (fold evict_daemon ds r)) d = (if d \<in> set ds then None else hm_get (registrations r) d)"
  by (induction ds arbitrary: r) auto

lemma fold_evict_states:
  "hm_get (daemon_states (fold evict_daemon ds r)) d = (if d \<in> set ds then None else hm_get (daemon_states r) d)"
  by (induction ds arbitrary: r) auto

lemma registrations_after_step:
  assumes "registry_step r r'" "hm_get (registrations r) d = Some g" "rg_proof g = Some p"
    and "hm_get (registrations r') d = Some g'"
  shows "rg_proof g' = Some p"
  using assms
proof (induction rule: registry_step.induct)
  case (register d' t' p' now r r')
  from register(2-4) register_ok_sel(1) [OF register(1)] register_ok_guard(2) [OF register(1), of g]
  show ?case by (cases "d = d'") auto
next
  case (auth d' t b now r r')
  then show ?case
    by (auto simp: registry_handle_auth_def Let_def split: if_splits)
next
  case (auth_resume d' b now r r')
  then show ?case by (auto simp: registry_handle_auth_resume_def split: if_splits)
next
  case (sweep r now timeout evict_after)
  then show ?case
    by (auto simp: check_stale_eq Let_def fold_evict_registrations split: if_splits)
qed (auto simp: daemon_disconnect_def frontend_disconnect_def daemon_pub_def daemon_ping_def)

lemma no_token_no_auth:
  "hm_get (valid_tokens r) t \<noteq> Some d \<Longrightarrow> registry_handle_auth d t b now r = Inl ''Invalid token or daemon ID''"
  by (simp add: registry_handle_auth_def)

lemma evictable_mark_stale:
  "is_evictable now e (mark_stale now t st) \<longleftrightarrow>
    (ds_online st \<longrightarrow> unat (ds_last_seen st) + unat t < unat now)
    \<and> unat (ds_last_seen st) + unat e < unat now"
  by (auto simp: is_stale_def is_evictable_def mark_stale_def saturating_sub_less_iff)

lemma saturating_add_u32_one:
  assumes "c \<noteq> (- 1 :: u32)"
  shows "saturating_add c 1 = c + 1" "c \<noteq> 0 \<Longrightarrow> 1 < c + 1"
proof -
  have "unat c \<noteq> unat (- 1 :: u32)" using assms by (simp flip: word_unat_eq_iff)
  then have lt: "unat c + 1 < 2 ^ 32"
    using unsigned_less [where ?'a = nat, of c] by (simp add: unsigned_minus_1_eq_mask mask_eq_exp_minus_1)
  then show "saturating_add c 1 = c + 1" by (simp add: saturating_add_def)
  from lt have "unat (c + 1) = unat c + 1" by (simp add: unat_word_ariths)
  then show "1 < c + 1" if "c \<noteq> 0" using that
    by (simp add: word_less_nat_alt unat_gt_0)
qed

section \<open>Properties\<close>

text \<open>C9: In every state the registry can reach, the three maps agree: the number of registrations
  respects the cap, exactly the registered daemons have a state, every valid token is the current
  token of the daemon it names, no registration lacks a proof (the token-only seeding of
  \<open>handle_auth\<close> is never needed), and each session list is duplicate-free and within 256 entries.\<close>

theorem registry_maps_agree:
  assumes "registry_step\<^sup>*\<^sup>* (with_max_registrations m) r"
  shows "(max_registrations r > 0 \<longrightarrow> length (registrations r) \<le> max_registrations r)
    \<and> (\<forall>d. hm_contains (daemon_states r) d \<longleftrightarrow> hm_contains (registrations r) d)
    \<and> (\<forall>t d. hm_get (valid_tokens r) t = Some d
         \<longrightarrow> (\<exists>g. hm_get (registrations r) d = Some g \<and> rg_token g = t))
    \<and> (\<forall>d g. hm_get (registrations r) d = Some g \<longrightarrow> rg_proof g \<noteq> None)
    \<and> (\<forall>d st. hm_get (daemon_states r) d = Some st \<longrightarrow> distinct (ds_sessions st)
         \<and> length (ds_sessions st) \<le> 256)"
  using registry_reachable_inv [OF assms]
  unfolding registry_inv_def state_ok_def MAX_SESSIONS_PER_DAEMON_def by blast

text \<open>A registry with one daemon, for the witnesses.\<close>

definition demo_registry :: registry where
  "demo_registry = \<lparr>
     daemon_states = [(''d'', \<lparr>ds_online = False, ds_sessions = [], ds_last_seen = 5,
        ds_attached = [], ds_registration_token = Some ''t''\<rparr>)],
     registrations = [(''d'', \<lparr>rg_token = ''t'', rg_proof = Some ''p''\<rparr>)],
     valid_tokens = [(''t'', ''d'')], max_registrations = 3\<rparr>"

lemma demo_registered:
  "registry_handle_register ''d'' ''t'' ''p'' 5 (with_max_registrations 3) = Inr demo_registry"
  by (simp add: registry_handle_register_def with_max_registrations_def demo_registry_def
      seed_state_def modify_state_def hm_or_insert_def hm_modify_def seed_offline_def)

lemma demo_reachable: "registry_step\<^sup>*\<^sup>* (with_max_registrations 3) demo_registry"
  using registry_step.register [OF demo_registered] by blast

theorem registry_maps_agree_witness:
  "length (registrations demo_registry) \<le> max_registrations demo_registry
    \<and> (\<forall>d. hm_contains (daemon_states demo_registry) d \<longleftrightarrow> hm_contains (registrations demo_registry) d)
    \<and> (\<exists>g. hm_get (registrations demo_registry) ''d'' = Some g \<and> rg_token g = ''t'' \<and> rg_proof g \<noteq> None)
    \<and> (\<exists>st. hm_get (daemon_states demo_registry) ''d'' = Some st \<and> distinct (ds_sessions st))"
  using registry_maps_agree [OF demo_reachable] by (auto simp: demo_registry_def)

text \<open>C12: Token rotation: right after a successful registration the daemon id authenticates with
  the new token and with no other, in particular not with the token of an earlier registration.\<close>

theorem only_the_latest_token_authenticates:
  assumes "registry_step\<^sup>*\<^sup>* (with_max_registrations m) r"
    and "registry_handle_register d t p now r = Inr r'"
  shows "(\<exists>r''. registry_handle_auth d t b later r' = Inr r'')
    \<and> (\<forall>t'. t' \<noteq> t \<longrightarrow> registry_handle_auth d t' b later r' = Inl ''Invalid token or daemon ID'')"
proof -
  have inv: "registry_inv r'"
    using registry_inv_register [OF registry_reachable_inv [OF assms(1)] assms(2)] .
  note sel = register_ok_sel(1,3) [OF assms(2)]
  have "hm_get (valid_tokens r') t = Some d" by (simp add: sel(2))
  moreover have "hm_get (valid_tokens r') t' \<noteq> Some d" if "t' \<noteq> t" for t'
    using registry_inv_valid [OF inv, of t' d] that by (auto simp: sel(1))
  ultimately show ?thesis
    by (auto simp: registry_handle_auth_def Let_def)
qed

theorem only_the_latest_token_authenticates_witness:
  "(\<exists>r''. registry_handle_auth ''d'' ''t'' True 6 demo_registry = Inr r'')
    \<and> registry_handle_auth ''d'' ''old'' True 6 demo_registry = Inl ''Invalid token or daemon ID''"
  using only_the_latest_token_authenticates [OF rtranclp.rtrancl_refl demo_registered, of True 6] by simp

text \<open>A daemon id cannot be taken over: once it is registered with a proof, and for as long as
  it stays registered, whatever else happens, a registration of that id with any other proof is
  refused.\<close>

theorem registered_id_keeps_its_proof:
  assumes "hm_get (registrations r) d = Some g" "rg_proof g = Some p"
    and "(\<lambda>a b. registry_step a b \<and> hm_contains (registrations b) d)\<^sup>*\<^sup>* r r'"
    and "p' \<noteq> p"
  shows "registry_handle_register d t p' now r' =
    Inl ''Daemon ID already registered with different credentials''"
proof -
  from assms(3,1,2) have "\<exists>g'. hm_get (registrations r') d = Some g' \<and> rg_proof g' = Some p"
  proof (induction rule: rtranclp_induct)
    case (step b c)
    then obtain g1 g2 where "hm_get (registrations b) d = Some g1" "rg_proof g1 = Some p"
        "hm_get (registrations c) d = Some g2" by auto
    with registrations_after_step [of b c d g1 p g2] step(2) show ?case by blast
  qed auto
  with assms(4) show ?thesis by (auto simp: registry_handle_register_def)
qed

theorem registered_id_keeps_its_proof_witness:
  "registry_handle_register ''d'' ''t2'' ''stolen'' 9 demo_registry =
    Inl ''Daemon ID already registered with different credentials''"
proof (rule registered_id_keeps_its_proof [where p = "''p''"])
  show "hm_get (registrations demo_registry) ''d'' = Some \<lparr>rg_token = ''t'', rg_proof = Some ''p''\<rparr>"
    by (simp add: demo_registry_def)
qed simp_all

text \<open>The sweep is exact. It reports as newly offline the daemons that were online and silent
  for more than the stale timeout, evicts the ones that are offline (or just went) and silent for
  more than the eviction time, and leaves every other daemon's state as it was except for its
  online flag; no \<open>last_seen\<close> is touched.\<close>

theorem sweep_is_exact:
  assumes "registry_step\<^sup>*\<^sup>* (with_max_registrations m) r"
    and "check_stale_daemons now timeout evict_after r = (res, r')"
  shows "set (newly_offline res) = {d. \<exists>st. hm_get (daemon_states r) d = Some st \<and> ds_online st
        \<and> unat (ds_last_seen st) + unat timeout < unat now}
    \<and> set (evicted res) = {d. \<exists>st. hm_get (daemon_states r) d = Some st
        \<and> (ds_online st \<longrightarrow> unat (ds_last_seen st) + unat timeout < unat now)
        \<and> unat (ds_last_seen st) + unat evict_after < unat now}
    \<and> (\<forall>d. hm_get (daemon_states r') d = (if d \<in> set (evicted res) then None
        else map_option (\<lambda>st. st\<lparr>ds_online := ds_online st \<and> d \<notin> set (newly_offline res)\<rparr>)
          (hm_get (daemon_states r) d)))"
proof -
  have ok: "hm_ok (daemon_states r)" "hm_ok (daemon_states (mark_all now timeout r))"
    using registry_reachable_inv [OF assms(1)] by (simp_all add: registry_inv_def)
  let ?gone = "map fst (filter (\<lambda>(d, st). is_evictable now evict_after st) (daemon_states (mark_all now timeout r)))"
  have res: "newly_offline res = map fst (filter (\<lambda>(d, st). is_stale now timeout st) (daemon_states r))"
      "evicted res = ?gone" "r' = fold evict_daemon ?gone (mark_all now timeout r)"
    using assms(2) by (auto simp: check_stale_eq Let_def)
  have sets: "set (newly_offline res) = {d. \<exists>st. hm_get (daemon_states r) d = Some st \<and> is_stale now timeout st}"
      "set (evicted res) = {d. \<exists>st. hm_get (daemon_states (mark_all now timeout r)) d = Some st
          \<and> is_evictable now evict_after st}"
    unfolding res using hm_filter_keys [OF ok(1)] hm_filter_keys [OF ok(2)] by blast+
  have newly: "set (newly_offline res) = {d. \<exists>st. hm_get (daemon_states r) d = Some st \<and> ds_online st
        \<and> unat (ds_last_seen st) + unat timeout < unat now}"
    by (simp add: sets(1) is_stale_def saturating_sub_less_iff)
  moreover have "set (evicted res) = {d. \<exists>st. hm_get (daemon_states r) d = Some st
        \<and> (ds_online st \<longrightarrow> unat (ds_last_seen st) + unat timeout < unat now)
        \<and> unat (ds_last_seen st) + unat evict_after < unat now}"
    unfolding sets(2)
    by (auto simp: evictable_mark_stale split: option.splits)
  moreover have "hm_get (daemon_states r') d = (if d \<in> set (evicted res) then None
        else map_option (\<lambda>st. st\<lparr>ds_online := ds_online st \<and> d \<notin> set (newly_offline res)\<rparr>)
          (hm_get (daemon_states r) d))" for d
  proof -
    have "hm_get (daemon_states r') d = (if d \<in> set (evicted res) then None
        else map_option (mark_stale now timeout) (hm_get (daemon_states r) d))"
      by (simp add: res(3) fold_evict_states res(2))
    also have "map_option (mark_stale now timeout) (hm_get (daemon_states r) d) =
        map_option (\<lambda>st. st\<lparr>ds_online := ds_online st \<and> d \<notin> set (newly_offline res)\<rparr>)
          (hm_get (daemon_states r) d)"
      by (cases "hm_get (daemon_states r) d") (auto simp: sets(1) mark_stale_def is_stale_def)
    finally show ?thesis .
  qed
  ultimately show ?thesis by blast
qed

theorem sweep_is_exact_witness:
  "set (newly_offline \<lparr>newly_offline = [], evicted = [''d'']\<rparr>) =
      {d. \<exists>st. hm_get (daemon_states demo_registry) d = Some st \<and> ds_online st
        \<and> unat (ds_last_seen st) + unat (90 :: u64) < unat (200 :: u64)}
    \<and> set (evicted \<lparr>newly_offline = [], evicted = [''d'']\<rparr>) =
      {d. \<exists>st. hm_get (daemon_states demo_registry) d = Some st
        \<and> (ds_online st \<longrightarrow> unat (ds_last_seen st) + unat (90 :: u64) < unat (200 :: u64))
        \<and> unat (ds_last_seen st) + unat (100 :: u64) < unat (200 :: u64)}
    \<and> (\<forall>d. hm_get (daemon_states (with_max_registrations 3)) d =
        (if d \<in> set (evicted \<lparr>newly_offline = [], evicted = [''d'']\<rparr>) then None
         else map_option (\<lambda>st. st\<lparr>ds_online := ds_online st
             \<and> d \<notin> set (newly_offline \<lparr>newly_offline = [], evicted = [''d'']\<rparr>)\<rparr>)
           (hm_get (daemon_states demo_registry) d)))"
  by (rule sweep_is_exact [OF demo_reachable])
    (simp add: check_stale_daemons_def demo_registry_def is_stale_def is_evictable_def
      saturating_sub_def evict_daemon_def with_max_registrations_def)

text \<open>Eviction locks a daemon out completely: after a sweep that evicts it, neither any token,
  old or new, nor a resume succeeds for its id until it registers again.\<close>

theorem evicted_daemon_is_locked_out:
  assumes "registry_step\<^sup>*\<^sup>* (with_max_registrations m) r"
    and "check_stale_daemons now timeout evict_after r = (res, r')" "d \<in> set (evicted res)"
  shows "registry_handle_auth d t b later r' = Inl ''Invalid token or daemon ID''
    \<and> registry_handle_auth_resume d b later r' = Inl ''Daemon no longer registered''"
proof -
  have r': "r' = snd (check_stale_daemons now timeout evict_after r)" by (simp add: assms(2))
  have inv: "registry_inv r'"
    unfolding r' by (rule registry_inv_stale [OF registry_reachable_inv [OF assms(1)]])
  have gone: "hm_get (registrations r') d = None"
    using assms(2,3) by (auto simp: check_stale_eq Let_def fold_evict_registrations)
  then have "hm_get (valid_tokens r') t \<noteq> Some d"
    using registry_inv_valid [OF inv] by fastforce
  with gone show ?thesis
    by (simp add: no_token_no_auth registry_handle_auth_resume_def)
qed

theorem evicted_daemon_is_locked_out_witness:
  "registry_handle_auth ''d'' ''t'' True 300 (with_max_registrations 3) = Inl ''Invalid token or daemon ID''
    \<and> registry_handle_auth_resume ''d'' True 300 (with_max_registrations 3) = Inl ''Daemon no longer registered''"
  by (rule evicted_daemon_is_locked_out [OF demo_reachable,
        where now = 200 and timeout = 90 and evict_after = 100
          and res = "\<lparr>newly_offline = [], evicted = [''d'']\<rparr>"])
    (simp_all add: check_stale_daemons_def demo_registry_def is_stale_def is_evictable_def
      saturating_sub_def evict_daemon_def with_max_registrations_def)

text \<open>The subscription counts: attaching and then detaching a session restores every count,
  unless the \<open>u32\<close> counter was already saturated, in which case the pair loses one.\<close>

theorem attach_then_detach:
  assumes "state_ok st"
  shows "hm_get (ds_attached (detach sid (attach sid st))) s =
    (if s = sid \<and> hm_get (ds_attached st) sid = Some (- 1) then Some (- 2)
     else hm_get (ds_attached st) s)"
proof (cases "hm_get (ds_attached st) sid")
  case None
  then show ?thesis by (simp add: attach_def detach_def saturating_add_def)
next
  case (Some c)
  with assms have "c \<noteq> 0" by (auto simp: state_ok_def)
  show ?thesis
  proof (cases "c = - 1")
    case True
    have "\<not> (- 1 :: u32) \<le> 1" "saturating_add (- 1 :: u32) 1 = - 1"
      by (simp_all add: saturating_add_def word_le_nat_alt unsigned_minus_1_eq_mask mask_eq_exp_minus_1)
    with Some True show ?thesis by (simp add: attach_def detach_def)
  next
    case False
    with Some saturating_add_u32_one [OF False] \<open>c \<noteq> 0\<close> show ?thesis
      by (auto simp: attach_def detach_def)
  qed
qed

theorem attach_then_detach_witness:
  "hm_get (ds_attached (detach ''s'' (attach ''s''
      \<lparr>ds_online = True, ds_sessions = [''s''], ds_last_seen = 5,
       ds_attached = [(''s'', 2)], ds_registration_token = None\<rparr>))) ''s'' =
    (if ''s'' = ''s'' \<and> hm_get (ds_attached \<lparr>ds_online = True, ds_sessions = [''s''], ds_last_seen = 5,
       ds_attached = [(''s'', 2)], ds_registration_token = None\<rparr>) ''s'' = Some (- 1) then Some (- 2)
     else hm_get (ds_attached \<lparr>ds_online = True, ds_sessions = [''s''], ds_last_seen = 5,
       ds_attached = [(''s'', 2)], ds_registration_token = None\<rparr>) ''s'')"
  by (rule attach_then_detach) (simp add: state_ok_def hm_ok_def MAX_SESSIONS_PER_DAEMON_def)

end
