(* ===== verification/Relay_Core.thy ===== *)
theory Relay_Core
  imports Recent_Frames Registry
begin

text \<open>
  The relay's shared state and its synchronous routing (\<open>tp-relay/src/server.rs\<close>, \<open>rate.rs\<close>).
  Everything here runs under the one \<open>RelayCore\<close> mutex, so each function is one atomic step; the
  messages to deliver once the lock is released come back as actions.

  \<^item> An \<open>Arc<Limiter>\<close> is a \<open>limiter\<close>: its identity, which tells shared limiters from distinct ones,
    and its quota. The \<open>governor\<close> crate decides admission, so a check's answer is an argument of
    the code that asks (theory \<open>Relay_Conn\<close>). \<open>rc_next_limiter\<close> is the allocator.
  \<^item> A connection's channels belong to \<open>Relay_Conn\<close>; here a connection is its handle's other fields.
\<close>

section \<open>State\<close>

type_synonym conn_id = u64

definition DEFAULT_OUTBOX_CAP :: nat where
  "DEFAULT_OUTBOX_CAP = 512"

definition MAX_SUBSCRIPTIONS_PER_CLIENT :: nat where
  "MAX_SUBSCRIPTIONS_PER_CLIENT = 256"

record limiter =
  lim_id :: nat
  lim_cells :: u32

definition limiter_per_second :: "nat \<Rightarrow> u32 \<Rightarrow> limiter" where
  "limiter_per_second fresh per_second = \<lparr>lim_id = fresh, lim_cells = max per_second 1\<rparr>"

record auth_state =
  as_role :: role
  as_daemon_id :: string
  as_frontend_id :: "string option"
  as_subscriptions :: "string hash_set"

record conn_handle =
  ch_client_limiter :: limiter
  ch_group_limiter :: "limiter option"
  ch_auth :: "auth_state option"
  ch_preauth_count :: u32

definition conn_handle_new :: "nat \<Rightarrow> u32 \<Rightarrow> conn_handle" where
  "conn_handle_new fresh per_client_rate =
    \<lparr>ch_client_limiter = limiter_per_second fresh per_client_rate, ch_group_limiter = None,
     ch_auth = None, ch_preauth_count = 0\<rparr>"

record relay_core =
  rc_registry :: registry
  rc_recent :: recent_frames
  rc_groups :: "(string, conn_id hash_set) hash_map"
  rc_conns :: "(conn_id, conn_handle) hash_map"
  rc_group_limiters :: "(string, limiter) hash_map"
  rc_rate_per_client :: u32
  rc_rate_per_daemon :: u32
  rc_next_limiter :: nat

definition core_new :: "recent_frames \<Rightarrow> u32 \<Rightarrow> u32 \<Rightarrow> nat \<Rightarrow> relay_core" where
  "core_new recent rate_per_client rate_per_daemon max_regs =
    \<lparr>rc_registry = with_max_registrations max_regs, rc_recent = recent, rc_groups = hm_empty,
     rc_conns = hm_empty, rc_group_limiters = hm_empty, rc_rate_per_client = rate_per_client,
     rc_rate_per_daemon = rate_per_daemon, rc_next_limiter = 0\<rparr>"

datatype action =
    ASend conn_id relay_server_message
  | AClose conn_id u16 string

section \<open>Groups and limiters\<close>

definition group_limiter_for :: "string \<Rightarrow> relay_core \<Rightarrow> limiter \<times> relay_core" where
  "group_limiter_for daemon_id core =
    (case hm_get (rc_group_limiters core) daemon_id of
       Some l \<Rightarrow> (l, core)
     | None \<Rightarrow>
         let l = limiter_per_second (rc_next_limiter core) (rc_rate_per_daemon core)
         in (l, core\<lparr>rc_group_limiters := hm_insert daemon_id l (rc_group_limiters core),
                    rc_next_limiter := rc_next_limiter core + 1\<rparr>))"

definition add_to_group :: "string \<Rightarrow> conn_id \<Rightarrow> relay_core \<Rightarrow> relay_core" where
  "add_to_group daemon_id conn core =
    core\<lparr>rc_groups := hm_modify daemon_id (hs_insert conn) (hm_or_insert daemon_id [] (rc_groups core))\<rparr>"

definition remove_from_group :: "string \<Rightarrow> conn_id \<Rightarrow> relay_core \<Rightarrow> relay_core" where
  "remove_from_group daemon_id conn core =
    (case hm_get (rc_groups core) daemon_id of
       None \<Rightarrow> core
     | Some members \<Rightarrow>
         let members' = hs_remove conn members in
         if members' = [] then
           core\<lparr>rc_groups := hm_remove daemon_id (rc_groups core),
                rc_group_limiters := hm_remove daemon_id (rc_group_limiters core)\<rparr>
         else core\<lparr>rc_groups := hm_insert daemon_id members' (rc_groups core)\<rparr>)"

text \<open>\<open>core.conns.get(c).and_then(|h| h.auth.as_ref())\<close>, and an update of a live connection.\<close>

definition conn_auth :: "relay_core \<Rightarrow> conn_id \<Rightarrow> auth_state option" where
  "conn_auth core c = (case hm_get (rc_conns core) c of Some h \<Rightarrow> ch_auth h | None \<Rightarrow> None)"

definition modify_auth :: "conn_id \<Rightarrow> (auth_state \<Rightarrow> auth_state) \<Rightarrow> relay_core \<Rightarrow> relay_core" where
  "modify_auth c f core =
    core\<lparr>rc_conns := hm_modify c (\<lambda>h. h\<lparr>ch_auth := map_option f (ch_auth h)\<rparr>) (rc_conns core)\<rparr>"

definition group_of :: "relay_core \<Rightarrow> string \<Rightarrow> conn_id list" where
  "group_of core daemon_id = (case hm_get (rc_groups core) daemon_id of Some g \<Rightarrow> g | None \<Rightarrow> [])"

section \<open>Routing\<close>

definition frame_payload :: "frame \<Rightarrow> frame" where
  "frame_payload f =
    \<lparr>fr_sid = fr_sid f, fr_ct = fr_ct f, fr_seq = fr_seq f, fr_from = fr_from f,
     fr_frontend_id = (if fr_from f = Daemon then None else fr_frontend_id f)\<rparr>"

definition published_frame :: "auth_state \<Rightarrow> string \<Rightarrow> string \<Rightarrow> u64 \<Rightarrow> frame" where
  "published_frame client sid ct seq =
    \<lparr>fr_sid = sid, fr_ct = ct, fr_seq = seq, fr_from = as_role client,
     fr_frontend_id = (if as_role client = Daemon then None else as_frontend_id client)\<rparr>"

definition route_publish ::
  "relay_core \<Rightarrow> conn_id \<Rightarrow> auth_state \<Rightarrow> string \<Rightarrow> string \<Rightarrow> u64 \<Rightarrow> u64 \<Rightarrow> action list \<times> relay_core" where
  "route_publish core sender client sid ct seq now =
    (let daemon_id = as_daemon_id client;
         core = (if as_role client = Daemon
                 then core\<lparr>rc_registry := daemon_pub daemon_id sid now (rc_registry core)\<rparr> else core);
         frame = published_frame client sid ct seq;
         core = core\<lparr>rc_recent := rf_push daemon_id frame (rc_recent core)\<rparr>
     in (case hm_get (rc_groups core) daemon_id of
           None \<Rightarrow> ([], core)
         | Some members \<Rightarrow>
             let targets = filter (\<lambda>peer. peer \<noteq> sender \<and>
                   (case conn_auth core peer of Some a \<Rightarrow> sid \<in> set (as_subscriptions a) | None \<Rightarrow> False)) members
             in (map (\<lambda>peer. ASend peer (SFrame (frame_payload frame))) targets, core)))"

definition route_key_exchange :: "relay_core \<Rightarrow> conn_id \<Rightarrow> auth_state \<Rightarrow> string \<Rightarrow> action list" where
  "route_key_exchange core sender client ct =
    (case hm_get (rc_groups core) (as_daemon_id client) of
       None \<Rightarrow> []
     | Some members \<Rightarrow>
         let targets = filter (\<lambda>peer. peer \<noteq> sender \<and>
               (case conn_auth core peer of Some a \<Rightarrow> as_role a \<noteq> as_role client | None \<Rightarrow> False)) members
         in map (\<lambda>peer. ASend peer (SKeyExchangeFrame \<lparr>kf_ct = ct, kf_from = as_role client\<rparr>)) targets)"

definition relay_error :: "string \<Rightarrow> string option \<Rightarrow> string option \<Rightarrow> relay_server_message" where
  "relay_error e m fid = SErr \<lparr>re_e = e, re_m = m, re_frontend_id = fid\<rparr>"

definition route_subscribe :: "relay_core \<Rightarrow> conn_id \<Rightarrow> string \<Rightarrow> u64 option \<Rightarrow> action list \<times> relay_core" where
  "route_subscribe core sender sid after =
    (case conn_auth core sender of
       None \<Rightarrow> ([], core)
     | Some a \<Rightarrow>
         if length (as_subscriptions a) \<ge> MAX_SUBSCRIPTIONS_PER_CLIENT
         then ([ASend sender (relay_error ''TOO_MANY_SUBS''
                  (Some (''Max '' @ show_nat MAX_SUBSCRIPTIONS_PER_CLIENT @ '' subscriptions per client'')) None)], core)
         else
           let freshly_inserted = (sid \<notin> set (as_subscriptions a));
               core = modify_auth sender (\<lambda>a. a\<lparr>as_subscriptions := hs_insert sid (as_subscriptions a)\<rparr>) core;
               core = (if as_role a = Frontend \<and> freshly_inserted
                       then core\<lparr>rc_registry := modify_state (as_daemon_id a) (attach sid) (rc_registry core)\<rparr>
                       else core);
               actions = (case after of
                            Some n \<Rightarrow> map (\<lambda>cached. ASend sender (SFrame (frame_payload cached)))
                                        (replay_after (rc_recent core) (as_daemon_id a) sid n)
                          | None \<Rightarrow> [])
           in (actions, core))"

definition route_unsubscribe :: "relay_core \<Rightarrow> conn_id \<Rightarrow> string \<Rightarrow> relay_core" where
  "route_unsubscribe core sender sid =
    (case conn_auth core sender of
       None \<Rightarrow> core
     | Some a \<Rightarrow>
         let core = modify_auth sender (\<lambda>a. a\<lparr>as_subscriptions := hs_remove sid (as_subscriptions a)\<rparr>) core
         in if as_role a = Frontend
            then core\<lparr>rc_registry := modify_state (as_daemon_id a) (detach sid) (rc_registry core)\<rparr>
            else core)"

definition route_ping ::
  "relay_core \<Rightarrow> conn_id \<Rightarrow> auth_state \<Rightarrow> f64 option \<Rightarrow> u64 \<Rightarrow> action list \<times> relay_core" where
  "route_ping core sender client ts now =
    (let core = (if as_role client = Daemon
                 then core\<lparr>rc_registry := daemon_ping (as_daemon_id client) now (rc_registry core)\<rparr> else core)
     in ([ASend sender (SPong ts)], core))"

definition presence_actions :: "relay_core \<Rightarrow> string \<Rightarrow> action list" where
  "presence_actions core daemon_id =
    (case hm_get (daemon_states (rc_registry core)) daemon_id of
       None \<Rightarrow> []
     | Some state \<Rightarrow>
         let presence = SPresence \<lparr>pr_daemon_id = daemon_id, pr_online = ds_online state, pr_sessions = [],
               pr_last_seen = u64_as_f64 (ds_last_seen state)\<rparr>
         in (case hm_get (rc_groups core) daemon_id of
               None \<Rightarrow> []
             | Some members \<Rightarrow>
                 map (\<lambda>peer. ASend peer presence)
                   (filter (\<lambda>peer. case conn_auth core peer of Some a \<Rightarrow> as_role a = Frontend | None \<Rightarrow> False) members)))"

definition register_authed_conn :: "relay_core \<Rightarrow> conn_id \<Rightarrow> auth_state \<Rightarrow> relay_core" where
  "register_authed_conn core conn auth =
    (let daemon_id = as_daemon_id auth;
         (group_limiter, core) = group_limiter_for daemon_id core;
         core = add_to_group daemon_id conn core
     in core\<lparr>rc_conns := hm_modify conn
          (\<lambda>h. h\<lparr>ch_auth := Some auth, ch_group_limiter := Some group_limiter\<rparr>) (rc_conns core)\<rparr>)"

definition handle_close :: "relay_core \<Rightarrow> conn_id \<Rightarrow> u64 \<Rightarrow> string option \<times> relay_core" where
  "handle_close core conn now =
    (case hm_get (rc_conns core) conn of
       None \<Rightarrow> (None, core)
     | Some handle \<Rightarrow>
         let core = core\<lparr>rc_conns := hm_remove conn (rc_conns core)\<rparr> in
         (case ch_auth handle of
            None \<Rightarrow> (None, core)
          | Some auth \<Rightarrow>
              let core = (if as_role auth = Frontend
                          then core\<lparr>rc_registry := frontend_disconnect (as_daemon_id auth)
                                     (as_subscriptions auth) (rc_registry core)\<rparr> else core);
                  core = remove_from_group (as_daemon_id auth) conn core
              in if as_role auth = Daemon
                 then (Some (as_daemon_id auth),
                       core\<lparr>rc_registry := daemon_disconnect (as_daemon_id auth) now (rc_registry core)\<rparr>)
                 else (None, core)))"

text \<open>The registration of a fresh socket in \<open>connection_loop\<close>.\<close>

definition open_conn :: "conn_id \<Rightarrow> relay_core \<Rightarrow> relay_core" where
  "open_conn conn core =
    core\<lparr>rc_conns := hm_insert conn (conn_handle_new (rc_next_limiter core) (rc_rate_per_client core)) (rc_conns core),
         rc_next_limiter := rc_next_limiter core + 1\<rparr>"

section \<open>The invariant\<close>

text \<open>What holds of an identity, of the group and limiter tables, and of every authenticated
  connection against them.\<close>

definition auth_wf :: "auth_state \<Rightarrow> bool" where
  "auth_wf a \<longleftrightarrow> distinct (as_subscriptions a) \<and> length (as_subscriptions a) \<le> MAX_SUBSCRIPTIONS_PER_CLIENT
     \<and> (as_role a = Frontend \<longrightarrow> (\<exists>f. as_frontend_id a = Some f \<and> f \<noteq> []))"

definition tables_ok :: "relay_core \<Rightarrow> bool" where
  "tables_ok core \<longleftrightarrow> hm_ok (rc_conns core) \<and> hm_ok (rc_groups core) \<and> hm_ok (rc_group_limiters core)
     \<and> (\<forall>d. hm_get (rc_groups core) d = None \<longleftrightarrow> hm_get (rc_group_limiters core) d = None)
     \<and> (\<forall>d g. hm_get (rc_groups core) d = Some g \<longrightarrow> g \<noteq> [] \<and> distinct g)
     \<and> (\<forall>d l. hm_get (rc_group_limiters core) d = Some l \<longrightarrow> lim_id l < rc_next_limiter core)
     \<and> (\<forall>d d' l l'. hm_get (rc_group_limiters core) d = Some l \<longrightarrow> hm_get (rc_group_limiters core) d' = Some l'
          \<longrightarrow> lim_id l = lim_id l' \<longrightarrow> d = d')"

definition conn_ok :: "relay_core \<Rightarrow> conn_id \<Rightarrow> conn_handle \<Rightarrow> auth_state \<Rightarrow> bool" where
  "conn_ok core c h a \<longleftrightarrow> auth_wf a \<and> c \<in> set (group_of core (as_daemon_id a))
     \<and> ch_group_limiter h = hm_get (rc_group_limiters core) (as_daemon_id a)"

definition core_inv :: "relay_core \<Rightarrow> bool" where
  "core_inv core \<longleftrightarrow> registry_inv (rc_registry core) \<and> tables_ok core
     \<and> (\<forall>c h a. hm_get (rc_conns core) c = Some h \<longrightarrow> ch_auth h = Some a \<longrightarrow> conn_ok core c h a)"

lemma tables_okI:
  assumes "hm_ok (rc_conns core)" "hm_ok (rc_groups core)" "hm_ok (rc_group_limiters core)"
    and "\<And>d. hm_get (rc_groups core) d = None \<longleftrightarrow> hm_get (rc_group_limiters core) d = None"
    and "\<And>d g. hm_get (rc_groups core) d = Some g \<Longrightarrow> g \<noteq> [] \<and> distinct g"
    and "\<And>d l. hm_get (rc_group_limiters core) d = Some l \<Longrightarrow> lim_id l < rc_next_limiter core"
    and "\<And>d d' l l'. hm_get (rc_group_limiters core) d = Some l \<Longrightarrow> hm_get (rc_group_limiters core) d' = Some l'
          \<Longrightarrow> lim_id l = lim_id l' \<Longrightarrow> d = d'"
  shows "tables_ok core"
  unfolding tables_ok_def
  by (intro conjI allI impI, rule assms(1), rule assms(2), rule assms(3), rule assms(4),
      erule assms(5) [THEN conjunct1], erule assms(5) [THEN conjunct2], erule assms(6),
      erule (2) assms(7))

lemma tables_okD:
  assumes "tables_ok core"
  shows "hm_ok (rc_conns core)" "hm_ok (rc_groups core)" "hm_ok (rc_group_limiters core)"
    and "hm_get (rc_groups core) d = None \<longleftrightarrow> hm_get (rc_group_limiters core) d = None"
    and "hm_get (rc_groups core) d = Some g \<Longrightarrow> g \<noteq> [] \<and> distinct g"
    and "hm_get (rc_group_limiters core) d = Some l \<Longrightarrow> lim_id l < rc_next_limiter core"
    and "hm_get (rc_group_limiters core) d = Some l \<Longrightarrow> hm_get (rc_group_limiters core) d' = Some l'
          \<Longrightarrow> lim_id l = lim_id l' \<Longrightarrow> d = d'"
  using assms unfolding tables_ok_def by simp_all

lemma core_inv_new: "core_inv (core_new recent rpc rpd m)"
  using registry_reachable_inv [of m] by (simp add: core_inv_def core_new_def tables_ok_def)

lemma core_invD:
  assumes "core_inv core"
  shows "registry_inv (rc_registry core)" "tables_ok core"
    "hm_get (rc_conns core) c = Some h \<Longrightarrow> ch_auth h = Some a \<Longrightarrow> conn_ok core c h a"
  using assms by (simp_all add: core_inv_def)

text \<open>The registry and the replay cache can change under the rest.\<close>

lemma core_inv_registry: "core_inv core \<Longrightarrow> registry_inv r \<Longrightarrow> core_inv (core\<lparr>rc_registry := r\<rparr>)"
  by (simp add: core_inv_def tables_ok_def conn_ok_def group_of_def)

lemma core_inv_recent: "core_inv (core\<lparr>rc_recent := rf\<rparr>) = core_inv core"
  by (simp add: core_inv_def tables_ok_def conn_ok_def group_of_def)

lemma conn_auth_update [simp]:
  "conn_auth (core\<lparr>rc_registry := r\<rparr>) c = conn_auth core c"
  "conn_auth (core\<lparr>rc_recent := rf\<rparr>) c = conn_auth core c"
  "conn_auth (core\<lparr>rc_groups := gs\<rparr>) c = conn_auth core c"
  by (simp_all add: conn_auth_def)

lemma conn_auth_modify:
  "conn_auth (modify_auth c f core) c' = (if c' = c then map_option f (conn_auth core c) else conn_auth core c')"
  by (auto simp: conn_auth_def modify_auth_def split: option.splits)

lemma core_inv_modify_auth:
  assumes "core_inv core" "\<And>a. conn_auth core c = Some a \<Longrightarrow> auth_wf a \<Longrightarrow> auth_wf (f a)" "\<And>a. as_daemon_id (f a) = as_daemon_id a"
  shows "core_inv (modify_auth c f core)"
proof -
  have "conn_ok (modify_auth c f core) c' h a"
    if got: "hm_get (rc_conns (modify_auth c f core)) c' = Some h" "ch_auth h = Some a" for c' h a
  proof (cases "c' = c")
    case True
    then obtain h0 a0 where h0: "hm_get (rc_conns core) c = Some h0" "ch_auth h0 = Some a0"
        "h = h0\<lparr>ch_auth := Some (f a0)\<rparr>" "a = f a0"
      using got by (auto simp: modify_auth_def)
    moreover have "conn_ok core c h0 a0" using core_invD(3) [OF assms(1) h0(1,2)] .
    ultimately show ?thesis
      using assms(2,3) True by (auto simp: conn_ok_def modify_auth_def group_of_def conn_auth_def)
  next
    case False
    then have "hm_get (rc_conns core) c' = Some h" using got(1) by (simp add: modify_auth_def)
    with core_invD(3) [OF assms(1) this got(2)] show ?thesis by (simp add: conn_ok_def modify_auth_def group_of_def)
  qed
  moreover have "tables_ok (modify_auth c f core)" "registry_inv (rc_registry (modify_auth c f core))"
    using core_invD(1,2) [OF assms(1)] by (simp_all add: tables_ok_def modify_auth_def)
  ultimately show ?thesis by (simp add: core_inv_def)
qed

lemma core_inv_publish:
  assumes "core_inv core" "route_publish core sender client sid ct seq now = (acts, core')"
  shows "core_inv core'"
proof -
  have "registry_inv (daemon_pub d sid now (rc_registry core))" for d
    using core_invD(1) [OF assms(1)] state_ok_add_session
    by (auto simp: daemon_pub_def add_session_def intro!: registry_inv_modify)
  with assms show ?thesis
    by (auto simp: route_publish_def Let_def core_inv_recent core_inv_registry split: if_splits option.splits)
qed

lemma core_inv_subscribe:
  assumes "core_inv core" "route_subscribe core sender sid after = (acts, core')"
  shows "core_inv core'"
proof (cases "conn_auth core sender")
  case (Some a)
  let ?sub = "\<lambda>a. a\<lparr>as_subscriptions := hs_insert sid (as_subscriptions a)\<rparr>"
  have sub: "core_inv (modify_auth sender ?sub core)" if "length (as_subscriptions a) < MAX_SUBSCRIPTIONS_PER_CLIENT"
    using that Some by (intro core_inv_modify_auth assms(1)) (auto simp: auth_wf_def length_hs_insert)
  have reg: "registry_inv (modify_state d (attach sid) (rc_registry core))" for d
    using core_invD(1) [OF assms(1)]
    by (intro registry_inv_modify state_ok_attach) (auto simp: attach_def)
  have "rc_registry (modify_auth sender ?sub core) = rc_registry core" by (simp add: modify_auth_def)
  with sub reg assms Some show ?thesis
    by (auto simp: route_subscribe_def Let_def not_le intro!: core_inv_registry split: if_splits)
qed (use assms in \<open>simp add: route_subscribe_def\<close>)

lemma core_inv_unsubscribe:
  assumes "core_inv core"
  shows "core_inv (route_unsubscribe core sender sid)"
proof (cases "conn_auth core sender")
  case (Some a)
  let ?unsub = "\<lambda>a. a\<lparr>as_subscriptions := hs_remove sid (as_subscriptions a)\<rparr>"
  have "core_inv (modify_auth sender ?unsub core)"
    by (intro core_inv_modify_auth assms) (auto simp: auth_wf_def distinct_removeAll intro: le_trans [OF length_removeAll_less_eq])
  moreover have "registry_inv (modify_state d (detach sid) (rc_registry core))" for d
    using core_invD(1) [OF assms] by (intro registry_inv_modify state_ok_detach) auto
  moreover have "rc_registry (modify_auth sender ?unsub core) = rc_registry core" by (simp add: modify_auth_def)
  ultimately show ?thesis using Some
    by (auto simp: route_unsubscribe_def Let_def intro: core_inv_registry)
qed (use assms in \<open>simp add: route_unsubscribe_def\<close>)

lemma core_inv_ping:
  assumes "core_inv core" "route_ping core sender client ts now = (acts, core')"
  shows "core_inv core'"
proof -
  have "registry_inv (daemon_ping d now (rc_registry core))" for d
    using core_invD(1) [OF assms(1)] by (auto simp: daemon_ping_def intro!: registry_inv_modify)
  with assms show ?thesis by (auto simp: route_ping_def Let_def core_inv_registry)
qed

lemma core_inv_open: "core_inv core \<Longrightarrow> core_inv (open_conn c core)"
  by (fastforce simp: core_inv_def open_conn_def tables_ok_def conn_ok_def group_of_def conn_handle_new_def less_Suc_eq)

text \<open>Registration of an authenticated connection: the tables afterwards.\<close>

lemma register_authed_tables:
  fixes core conn auth
  defines "core' \<equiv> register_authed_conn core conn auth" and "d \<equiv> as_daemon_id auth"
  shows "rc_registry core' = rc_registry core" "rc_recent core' = rc_recent core"
    "group_of core' e = (if e = d then hs_insert conn (group_of core d) else group_of core e)"
    "map_of (rc_groups core') = (map_of (rc_groups core))(d \<mapsto> hs_insert conn (group_of core d))"
    "map_of (rc_group_limiters core') = (map_of (rc_group_limiters core))
       (d \<mapsto> (case hm_get (rc_group_limiters core) d of Some l \<Rightarrow> l
           | None \<Rightarrow> limiter_per_second (rc_next_limiter core) (rc_rate_per_daemon core)))"
    "map_of (rc_conns core') = (map_of (rc_conns core))
       (conn := map_option (\<lambda>h. h\<lparr>ch_auth := Some auth, ch_group_limiter := hm_get (rc_group_limiters core') d\<rparr>)
          (hm_get (rc_conns core) conn))"
    "rc_next_limiter core' = rc_next_limiter core + (if hm_contains (rc_group_limiters core) d then 0 else 1)"
  by (auto simp: core'_def d_def register_authed_conn_def group_limiter_for_def add_to_group_def group_of_def
      Let_def fun_eq_iff split: option.splits)

lemma register_authed_ok:
  "hm_ok (rc_conns core) \<Longrightarrow> hm_ok (rc_conns (register_authed_conn core c a))"
  "hm_ok (rc_groups core) \<Longrightarrow> hm_ok (rc_groups (register_authed_conn core c a))"
  "hm_ok (rc_group_limiters core) \<Longrightarrow> hm_ok (rc_group_limiters (register_authed_conn core c a))"
  by (auto simp: register_authed_conn_def group_limiter_for_def add_to_group_def Let_def split: option.splits)

lemma group_of_distinct: "tables_ok core \<Longrightarrow> distinct (group_of core d)"
  by (auto simp: tables_ok_def group_of_def split: option.splits)

lemma tables_ok_member:
  assumes "tables_ok core" "c \<in> set (group_of core d)"
  shows "hm_get (rc_groups core) d \<noteq> None" "hm_get (rc_group_limiters core) d \<noteq> None"
proof -
  show "hm_get (rc_groups core) d \<noteq> None" using assms(2) by (cases "hm_get (rc_groups core) d") (auto simp: group_of_def)
  with tables_okD(4) [OF assms(1)] show "hm_get (rc_group_limiters core) d \<noteq> None" by simp
qed

lemma core_inv_register_authed:
  assumes inv: "core_inv core" and wf: "auth_wf auth"
  shows "core_inv (register_authed_conn core conn auth)"
proof -
  let ?core = "register_authed_conn core conn auth" and ?d = "as_daemon_id auth"
  note sel = register_authed_tables [of core conn auth]
  have t: "tables_ok core" by (rule core_invD(2) [OF inv])
  have "tables_ok ?core"
    unfolding tables_ok_def
  proof (intro conjI allI impI)
    fix d d' l l'
    assume "hm_get (rc_group_limiters ?core) d = Some l" "hm_get (rc_group_limiters ?core) d' = Some l'" "lim_id l = lim_id l'"
    with t show "d = d'"
      by (fastforce simp: tables_ok_def sel limiter_per_second_def split: if_splits option.splits)
  next
    fix d l assume "hm_get (rc_group_limiters ?core) d = Some l"
    with t show "lim_id l < rc_next_limiter ?core"
      by (fastforce simp: tables_ok_def sel limiter_per_second_def split: if_splits option.splits)
  qed (use t group_of_distinct [OF t] in \<open>auto simp: tables_ok_def sel register_authed_ok split: if_splits\<close>)
  moreover have "conn_ok ?core c h a" if got: "hm_get (rc_conns ?core) c = Some h" "ch_auth h = Some a" for c h a
  proof (cases "c = conn")
    case True
    then obtain h0 where "h = h0\<lparr>ch_auth := Some auth, ch_group_limiter := hm_get (rc_group_limiters ?core) ?d\<rparr>"
      using got(1) unfolding sel(6) by auto
    then have "a = auth" "ch_group_limiter h = hm_get (rc_group_limiters ?core) ?d" using got(2) by simp_all
    moreover have "conn \<in> set (group_of ?core ?d)" by (simp add: sel(3))
    ultimately show ?thesis using wf True by (simp only: conn_ok_def)
  next
    case False
    then have old: "hm_get (rc_conns core) c = Some h" using got(1) by (simp add: sel)
    then have "conn_ok core c h a" by (rule core_invD(3) [OF inv _ got(2)])
    moreover from this have "hm_get (rc_group_limiters core) (as_daemon_id a) \<noteq> None"
      using tables_ok_member(2) [OF t, of c "as_daemon_id a"] by (simp add: conn_ok_def)
    ultimately show ?thesis by (auto simp: conn_ok_def sel)
  qed
  moreover have "registry_inv (rc_registry ?core)" using core_invD(1) [OF inv] by (simp add: sel(1))
  ultimately show ?thesis unfolding core_inv_def by blast
qed

text \<open>Teardown: what is removed and what stays.\<close>

lemma remove_from_group_tables:
  fixes core conn d
  defines "core' \<equiv> remove_from_group d conn core"
  shows "rc_registry core' = rc_registry core" "rc_recent core' = rc_recent core"
    "rc_conns core' = rc_conns core" "rc_next_limiter core' = rc_next_limiter core"
    "group_of core' e = (if e = d then hs_remove conn (group_of core d) else group_of core e)"
    "e \<noteq> d \<Longrightarrow> hm_get (rc_groups core') e = hm_get (rc_groups core) e"
    "e \<noteq> d \<Longrightarrow> hm_get (rc_group_limiters core') e = hm_get (rc_group_limiters core) e"
    "hs_remove conn (group_of core d) \<noteq> [] \<Longrightarrow> rc_group_limiters core' = rc_group_limiters core"
    "hm_contains (rc_groups core) d \<Longrightarrow> hm_get (rc_groups core') d =
       (if hs_remove conn (group_of core d) = [] then None else Some (hs_remove conn (group_of core d)))"
    "hm_contains (rc_groups core) d \<Longrightarrow> hm_get (rc_group_limiters core') d =
       (if hs_remove conn (group_of core d) = [] then None else hm_get (rc_group_limiters core) d)"
    "hm_get (rc_groups core) d = None \<Longrightarrow> core' = core"
  by (auto simp: core'_def remove_from_group_def group_of_def Let_def split: option.splits)

lemma remove_from_group_ok:
  "hm_ok (rc_groups core) \<Longrightarrow> hm_ok (rc_groups (remove_from_group d c core))"
  "hm_ok (rc_group_limiters core) \<Longrightarrow> hm_ok (rc_group_limiters (remove_from_group d c core))"
  by (auto simp: remove_from_group_def Let_def split: option.splits)

lemma remove_from_group_limiters:
  "hm_get (rc_group_limiters (remove_from_group d c core)) e = Some l \<Longrightarrow> hm_get (rc_group_limiters core) e = Some l"
  by (auto simp: remove_from_group_def Let_def split: option.splits if_splits)

lemma tables_ok_remove:
  assumes t: "tables_ok core"
  shows "tables_ok (remove_from_group d c core)"
proof (cases "hm_get (rc_groups core) d")
  case (Some g)
  note sel = remove_from_group_tables [where d = d and conn = c and core = core]
  have "hm_get (rc_group_limiters core) d \<noteq> None" using tables_okD(4) [OF t, of d] Some by auto
  then have "hm_get (rc_groups (remove_from_group d c core)) e = None \<longleftrightarrow>
      hm_get (rc_group_limiters (remove_from_group d c core)) e = None" for e
    using t Some sel(6,7,9,10) by (cases "e = d") (auto simp: tables_ok_def)
  moreover have "g' \<noteq> [] \<and> distinct g'" if "hm_get (rc_groups (remove_from_group d c core)) e = Some g'" for e g'
    using that t Some group_of_distinct [OF t, of d] sel(6,9)
    by (cases "e = d") (auto simp: tables_ok_def distinct_removeAll split: if_splits)
  moreover have "lim_id l < rc_next_limiter core"
    if "hm_get (rc_group_limiters (remove_from_group d c core)) e = Some l" for e l
    using t remove_from_group_limiters [OF that] by (simp add: tables_ok_def)
  moreover have "e = e'" if "hm_get (rc_group_limiters (remove_from_group d c core)) e = Some l"
      "hm_get (rc_group_limiters (remove_from_group d c core)) e' = Some l'" "lim_id l = lim_id l'" for e e' l l'
    by (rule tables_okD(7) [OF t remove_from_group_limiters [OF that(1)] remove_from_group_limiters [OF that(2)] that(3)])
  ultimately show ?thesis
    using remove_from_group_ok tables_okD [OF t] by (intro tables_okI) (auto simp: sel(3,4))
qed (use assms in \<open>simp add: remove_from_group_def\<close>)

lemma conn_ok_remove:
  assumes "tables_ok core" "conn_ok core c h a" "c \<noteq> conn"
  shows "conn_ok (remove_from_group d conn core) c h a"
proof (cases "as_daemon_id a = d")
  case True
  have mem: "c \<in> set (group_of core d)" using assms(2) True by (simp add: conn_ok_def)
  then have "hm_contains (rc_groups core) d" by (rule tables_ok_member(1) [OF assms(1)])
  moreover have "hs_remove conn (group_of core d) \<noteq> []" using mem assms(3) by (auto simp: removeAll_filter_not_eq filter_empty_conv)
  ultimately show ?thesis
    using assms(2,3) True by (simp add: conn_ok_def remove_from_group_tables)
qed (use assms(2) in \<open>simp add: conn_ok_def remove_from_group_tables\<close>)

lemma core_inv_close:
  assumes inv: "core_inv core" and close: "handle_close core conn now = (res, core')"
  shows "core_inv core'"
proof (cases "hm_get (rc_conns core) conn")
  case (Some h)
  let ?drop = "core\<lparr>rc_conns := hm_remove conn (rc_conns core)\<rparr>"
  have drop: "core_inv ?drop" and other: "\<And>c. c \<noteq> conn \<or> hm_get (rc_conns ?drop) c = None"
    using inv by (auto simp: core_inv_def tables_ok_def conn_ok_def group_of_def)
  show ?thesis
  proof (cases "ch_auth h")
    case (Some a)
    have removed: "core_inv (remove_from_group d conn c0)"
      if c0: "core_inv c0" "rc_conns c0 = rc_conns ?drop" for c0 d
    proof -
      have "conn_ok (remove_from_group d conn c0) c h' a'"
        if "hm_get (rc_conns c0) c = Some h'" "ch_auth h' = Some a'" for c h' a'
        using that c0 core_invD(2,3) [OF c0(1)] other [of c] by (intro conn_ok_remove) auto
      with c0(1) show ?thesis
        by (simp add: core_inv_def tables_ok_remove remove_from_group_tables)
    qed
    have reg: "registry_inv (frontend_disconnect d subs (rc_registry core))"
        "registry_inv (daemon_disconnect d now (rc_registry core))" for d subs
      using core_invD(1) [OF inv] fold_detach
      by (auto simp: frontend_disconnect_def daemon_disconnect_def intro!: registry_inv_modify)
    have "core_inv (?drop\<lparr>rc_registry := frontend_disconnect d subs (rc_registry core)\<rparr>)" for d subs
      using core_inv_registry [OF drop reg(1)] .
    with removed drop reg(2) close \<open>hm_get (rc_conns core) conn = Some h\<close> Some show ?thesis
      by (cases "as_role a")
        (auto simp: handle_close_def Let_def remove_from_group_tables intro!: core_inv_registry)
  qed (use drop close \<open>hm_get (rc_conns core) conn = Some h\<close> in \<open>simp add: handle_close_def\<close>)
qed (use assms in \<open>simp add: handle_close_def\<close>)

section \<open>Properties\<close>

lemma frame_payload_published [simp]:
  "frame_payload (published_frame client sid ct seq) = published_frame client sid ct seq"
  by (simp add: frame_payload_def published_frame_def)

lemma conn_auth_in_group:
  assumes "core_inv core" "conn_auth core p = Some a"
  shows "p \<in> set (group_of core (as_daemon_id a))" "auth_wf a"
  using assms core_invD(3) [OF assms(1), of p _ a] by (auto simp: conn_auth_def conn_ok_def split: option.splits)

lemma route_publish_eq:
  "route_publish core sender client sid ct seq now =
    (map (\<lambda>p. ASend p (SFrame (published_frame client sid ct seq)))
       (filter (\<lambda>p. p \<noteq> sender \<and> (case conn_auth core p of Some a \<Rightarrow> sid \<in> set (as_subscriptions a) | None \<Rightarrow> False))
         (group_of core (as_daemon_id client))),
     core\<lparr>rc_registry := (if as_role client = Daemon then daemon_pub (as_daemon_id client) sid now (rc_registry core)
                         else rc_registry core),
          rc_recent := rf_push (as_daemon_id client) (published_frame client sid ct seq) (rc_recent core)\<rparr>)"
  by (simp add: route_publish_def Let_def group_of_def split: option.splits)

text \<open>C2: A published frame reaches each of the daemon's subscribers exactly once. Of the connections
  authenticated to the publisher's daemon, exactly those that subscribed to the session get the
  frame, once each, and the sender never does. What is sent is one copy of the cached frame to each
  subscribed member of the daemon's group and nothing else; so if every member of the group is still
  authenticated to this daemon, nobody of another daemon gets anything.\<close>

theorem publish_reaches_each_subscriber_once:
  fixes core client sid ct seq
  assumes "core_inv core" "route_publish core sender client sid ct seq now = (acts, core')"
  defines "d \<equiv> as_daemon_id client" and "f \<equiv> published_frame client sid ct seq"
  shows "(\<forall>p a. conn_auth core p = Some a \<longrightarrow> as_daemon_id a = d \<longrightarrow>
      count_list acts (ASend p (SFrame f)) = (if p \<noteq> sender \<and> sid \<in> set (as_subscriptions a) then 1 else 0))
    \<and> distinct acts \<and> set acts = (\<lambda>p. ASend p (SFrame f)) ` {p \<in> set (group_of core d). p \<noteq> sender
        \<and> (\<exists>a. conn_auth core p = Some a \<and> sid \<in> set (as_subscriptions a))}
    \<and> ((\<forall>p \<in> set (group_of core d). \<forall>a. conn_auth core p = Some a \<longrightarrow> as_daemon_id a = d) \<longrightarrow>
        (\<forall>p m. ASend p m \<in> set acts \<longrightarrow> (\<exists>a. conn_auth core p = Some a \<and> as_daemon_id a = d)))
    \<and> rc_recent core' = rf_push d f (rc_recent core)
    \<and> rc_conns core' = rc_conns core \<and> rc_groups core' = rc_groups core"
proof -
  let ?P = "\<lambda>p. p \<noteq> sender \<and> (case conn_auth core p of Some a \<Rightarrow> sid \<in> set (as_subscriptions a) | None \<Rightarrow> False)"
  have acts: "acts = map (\<lambda>p. ASend p (SFrame f)) (filter ?P (group_of core d))"
    and core': "rc_recent core' = rf_push d f (rc_recent core)" "rc_conns core' = rc_conns core"
      "rc_groups core' = rc_groups core"
    using assms(2) by (auto simp: route_publish_eq d_def f_def)
  have inj: "count_list (map (\<lambda>p. ASend p (SFrame f)) xs) (ASend p (SFrame f)) = count_list xs p" for xs p
    by (induction xs) auto
  have group: "distinct (group_of core d)" by (rule group_of_distinct [OF core_invD(2) [OF assms(1)]])
  have "count_list (filter ?P (group_of core d)) p = (if p \<noteq> sender \<and> sid \<in> set (as_subscriptions a) then 1 else 0)"
    if "conn_auth core p = Some a" "as_daemon_id a = d" for p a
  proof -
    have "p \<in> set (group_of core d)" using conn_auth_in_group(1) [OF assms(1) that(1)] that(2) by simp
    with group show ?thesis using that(1) by (auto simp: count_list_distinct)
  qed
  moreover have "distinct acts" using group by (auto simp: acts distinct_map inj_on_def)
  moreover have "?P p \<longleftrightarrow> p \<noteq> sender \<and> (\<exists>a. conn_auth core p = Some a \<and> sid \<in> set (as_subscriptions a))" for p
    by (auto split: option.splits)
  ultimately show ?thesis by (auto simp: acts inj core')
qed

text \<open>A daemon and one of its frontends, connected.\<close>

definition demo_daemon :: auth_state where
  "demo_daemon = \<lparr>as_role = Daemon, as_daemon_id = ''d'', as_frontend_id = None, as_subscriptions = []\<rparr>"

definition demo_frontend :: "string list \<Rightarrow> auth_state" where
  "demo_frontend subs = \<lparr>as_role = Frontend, as_daemon_id = ''d'', as_frontend_id = Some ''f'', as_subscriptions = subs\<rparr>"

definition demo_core :: "string list \<Rightarrow> relay_core" where
  "demo_core subs = register_authed_conn (register_authed_conn (open_conn 2 (open_conn 1
     ((core_new (rf_with_cache_size 10) 500 5000 3)\<lparr>rc_registry := demo_registry\<rparr>))) 1 demo_daemon) 2 (demo_frontend subs)"

lemma demo_core_inv:
  assumes "distinct subs" "length subs \<le> 256"
  shows "core_inv (demo_core subs)"
proof -
  have "auth_wf demo_daemon" "auth_wf (demo_frontend subs)"
    using assms by (simp_all add: auth_wf_def demo_daemon_def demo_frontend_def MAX_SUBSCRIPTIONS_PER_CLIENT_def)
  then show ?thesis
    unfolding demo_core_def
    by (intro core_inv_register_authed core_inv_open core_inv_registry core_inv_new registry_reachable_inv [OF demo_reachable])
qed

lemma demo_core_auth:
  "conn_auth (demo_core subs) 1 = Some demo_daemon" "conn_auth (demo_core subs) 2 = Some (demo_frontend subs)"
  "rc_recent (demo_core subs) = rf_with_cache_size 10" "rc_registry (demo_core subs) = demo_registry"
  by (simp_all add: conn_auth_def demo_core_def register_authed_tables open_conn_def core_new_def conn_handle_new_def)

theorem publish_reaches_each_subscriber_once_witness:
  "count_list (fst (route_publish (demo_core [''s'']) 1 demo_daemon ''s'' ''ct'' 3 9))
      (ASend 2 (SFrame (published_frame demo_daemon ''s'' ''ct'' 3))) = 1
    \<and> rc_recent (snd (route_publish (demo_core [''s'']) 1 demo_daemon ''s'' ''ct'' 3 9)) =
        rf_push ''d'' (published_frame demo_daemon ''s'' ''ct'' 3) (rf_with_cache_size 10)"
proof -
  let ?pub = "route_publish (demo_core [''s'']) 1 demo_daemon ''s'' ''ct'' 3 9"
  have ids: "as_daemon_id demo_daemon = ''d''" "as_daemon_id (demo_frontend [''s'']) = ''d''"
      "as_subscriptions (demo_frontend [''s'']) = [''s'']"
    by (simp_all add: demo_daemon_def demo_frontend_def)
  have "route_publish (demo_core [''s'']) 1 demo_daemon ''s'' ''ct'' 3 9 = (fst ?pub, snd ?pub)" by simp
  note once = publish_reaches_each_subscriber_once [OF demo_core_inv this]
  have "count_list (fst ?pub) (ASend 2 (SFrame (published_frame demo_daemon ''s'' ''ct'' 3))) = 1"
    using once [THEN conjunct1, rule_format, OF _ _ demo_core_auth(2)] by (simp add: ids)
  moreover have "rc_recent (snd ?pub) = rf_push ''d'' (published_frame demo_daemon ''s'' ''ct'' 3) (rf_with_cache_size 10)"
    using once by (simp add: ids demo_core_auth)
  ultimately show ?thesis by simp
qed

text \<open>What \<open>route_subscribe\<close> does for a connection below the subscription cap, and what a publish does for a
  connection that is subscribed.\<close>

lemma subscribe_replays:
  assumes "conn_auth core c = Some a" "length (as_subscriptions a) < MAX_SUBSCRIPTIONS_PER_CLIENT"
    and "route_subscribe core c sid (Some cursor) = (acts, core1)"
  shows "acts = map (\<lambda>f. ASend c (SFrame (frame_payload f))) (replay_after (rc_recent core) (as_daemon_id a) sid cursor)"
    "conn_auth core1 c = Some (a\<lparr>as_subscriptions := hs_insert sid (as_subscriptions a)\<rparr>)"
  using assms by (auto simp: route_subscribe_def Let_def modify_auth_def conn_auth_modify not_le [symmetric] split: if_splits)
    (auto simp: conn_auth_def split: option.splits)

lemma publish_reaches:
  assumes "core_inv core" "conn_auth core c = Some a" "sid \<in> set (as_subscriptions a)" "sender \<noteq> c"
    and "as_daemon_id client = as_daemon_id a"
  shows "ASend c (SFrame (published_frame client sid ct seq)) \<in> set (fst (route_publish core sender client sid ct seq now))"
  using conn_auth_in_group(1) [OF assms(1,2)] assms(2-5) by (auto simp: route_publish_eq)

text \<open>The attached count is not a count of subscriptions: an \<open>unsub\<close> for a session that the
  frontend never subscribed to removes nothing from its subscription set, yet takes one from the
  daemon's count for that session, and with it the entry of another frontend that is attached.\<close>

theorem unsubscribe_detaches_without_subscription:
  assumes "conn_auth core c = Some a" "as_role a = Frontend" "sid \<notin> set (as_subscriptions a)"
    and "hm_get (daemon_states (rc_registry core)) (as_daemon_id a) = Some st"
    and "hm_get (ds_attached st) sid = Some 1"
  shows "conn_auth (route_unsubscribe core c sid) c = conn_auth core c
    \<and> (\<exists>st'. hm_get (daemon_states (rc_registry (route_unsubscribe core c sid))) (as_daemon_id a) = Some st'
        \<and> hm_get (ds_attached st') sid = None)"
  using assms
  by (simp add: route_unsubscribe_def Let_def conn_auth_modify removeAll_id modify_auth_def detach_def)
    (simp add: conn_auth_def split: option.splits)

theorem unsubscribe_detaches_without_subscription_witness:
  "conn_auth (route_unsubscribe ((demo_core [])\<lparr>rc_registry := modify_state ''d'' (attach ''s'') demo_registry\<rparr>) 2 ''s'') 2
      = conn_auth ((demo_core [])\<lparr>rc_registry := modify_state ''d'' (attach ''s'') demo_registry\<rparr>) 2
    \<and> (\<exists>st'. hm_get (daemon_states (rc_registry (route_unsubscribe
          ((demo_core [])\<lparr>rc_registry := modify_state ''d'' (attach ''s'') demo_registry\<rparr>) 2 ''s''))) ''d'' = Some st'
        \<and> hm_get (ds_attached st') ''s'' = None)"
  using unsubscribe_detaches_without_subscription
    [where core = "(demo_core [])\<lparr>rc_registry := modify_state ''d'' (attach ''s'') demo_registry\<rparr>"
      and c = 2 and a = "demo_frontend []" and sid = "''s''"]
  by (simp add: demo_core_auth demo_frontend_def demo_registry_def attach_def saturating_add_def)

text \<open>Closing one of two sockets of the same daemon, as when a daemon reconnected before its old
  socket was torn down, marks the daemon offline although the other socket stays authenticated and
  in the group; its pings refresh \<open>last_seen\<close> but never bring it back online.\<close>

theorem closing_old_socket_marks_daemon_offline:
  assumes "core_inv core" "conn_auth core old = Some a" "conn_auth core new = Some b" "old \<noteq> new"
    and "as_role a = Daemon" "as_role b = Daemon" "as_daemon_id b = as_daemon_id a"
    and "hm_contains (daemon_states (rc_registry core)) (as_daemon_id a)"
    and "handle_close core old now = (res, core')" "route_ping core' new b ts later = (acts, core'')"
  shows "conn_auth core'' new = Some b \<and> new \<in> set (group_of core'' (as_daemon_id b))
    \<and> (\<exists>st. hm_get (daemon_states (rc_registry core'')) (as_daemon_id b) = Some st
        \<and> \<not> ds_online st \<and> ds_last_seen st = later)"
proof -
  let ?d = "as_daemon_id a"
  obtain h where h: "hm_get (rc_conns core) old = Some h" "ch_auth h = Some a"
    using assms(2) by (auto simp: conn_auth_def split: option.splits)
  let ?core = "remove_from_group ?d old (core\<lparr>rc_conns := hm_remove old (rc_conns core)\<rparr>)"
  have core': "core' = ?core\<lparr>rc_registry := daemon_disconnect ?d now (rc_registry core)\<rparr>"
    using assms(5,9) h by (simp add: handle_close_def Let_def remove_from_group_tables)
  have core'': "core'' = core'\<lparr>rc_registry := daemon_ping ?d later (rc_registry core')\<rparr>"
    using assms(6,7,10) by (simp add: route_ping_def)
  have group: "group_of (c0\<lparr>rc_registry := r\<rparr>) d = group_of c0 d" "group_of (c0\<lparr>rc_conns := cs\<rparr>) d = group_of c0 d"
    for c0 r cs d by (simp_all add: group_of_def)
  have "new \<in> set (group_of core'' (as_daemon_id b))"
    using conn_auth_in_group(1) [OF assms(1,3)] assms(4,7)
    by (simp add: core'' core' group remove_from_group_tables)
  moreover have "conn_auth core'' new = Some b"
    using assms(3,4) by (simp add: core'' core' conn_auth_def remove_from_group_tables)
  ultimately show ?thesis
    using assms(7,8) by (auto simp: core'' core' daemon_ping_def daemon_disconnect_def)
qed

theorem closing_old_socket_marks_daemon_offline_witness:
  "\<exists>core'' st. route_ping (snd (handle_close (register_authed_conn (open_conn 3 (demo_core [])) 3 demo_daemon) 1 50)) 3
        demo_daemon None 60 = ([ASend 3 (SPong None)], core'')
    \<and> conn_auth core'' 3 = Some demo_daemon
    \<and> hm_get (daemon_states (rc_registry core'')) ''d'' = Some st \<and> \<not> ds_online st"
proof -
  let ?core = "register_authed_conn (open_conn 3 (demo_core [])) 3 demo_daemon"
  have inv: "core_inv ?core"
    by (intro core_inv_register_authed core_inv_open demo_core_inv)
      (simp_all add: auth_wf_def demo_daemon_def MAX_SUBSCRIPTIONS_PER_CLIENT_def)
  have auth: "conn_auth ?core 1 = Some demo_daemon" "conn_auth ?core 3 = Some demo_daemon"
    using demo_core_auth(1) [of "[]"] by (simp_all add: conn_auth_def register_authed_tables open_conn_def)
  have reg: "hm_contains (daemon_states (rc_registry ?core)) (as_daemon_id demo_daemon)"
    by (simp add: register_authed_tables open_conn_def demo_core_auth demo_registry_def demo_daemon_def)
  have close: "handle_close ?core 1 50 = (fst (handle_close ?core 1 50), snd (handle_close ?core 1 50))" by simp
  obtain core'' where ping: "route_ping (snd (handle_close ?core 1 50)) 3 demo_daemon None 60 = ([ASend 3 (SPong None)], core'')"
    by (simp add: route_ping_def)
  have role: "as_role demo_daemon = Daemon" "as_daemon_id demo_daemon = ''d''" by (simp_all add: demo_daemon_def)
  from closing_old_socket_marks_daemon_offline [OF inv auth _ role(1) role(1) refl reg close ping] ping
  show ?thesis by (auto simp: role)
qed

text \<open>A group can outlive its members. A connection that authenticates again for another daemon
  stays in its first daemon's group, also after it has closed; and authenticating a connection that
  was already torn down puts it in a group from which no close removes it.\<close>

theorem groups_keep_dead_members:
  assumes "core_inv core"
  shows "(\<forall>c a b now. conn_auth core c = Some a \<longrightarrow> as_daemon_id b \<noteq> as_daemon_id a \<longrightarrow>
      hm_get (rc_conns (snd (handle_close (register_authed_conn core c b) c now))) c = None
      \<and> c \<in> set (group_of (snd (handle_close (register_authed_conn core c b) c now)) (as_daemon_id a)))
    \<and> (\<forall>c b now. hm_get (rc_conns core) c = None \<longrightarrow>
      c \<in> set (group_of (register_authed_conn core c b) (as_daemon_id b))
      \<and> handle_close (register_authed_conn core c b) c now = (None, register_authed_conn core c b))"
proof -
  have "hm_get (rc_conns (snd (handle_close (register_authed_conn core c b) c now))) c = None
      \<and> c \<in> set (group_of (snd (handle_close (register_authed_conn core c b) c now)) (as_daemon_id a))"
    if a: "conn_auth core c = Some a" "as_daemon_id b \<noteq> as_daemon_id a" for c a b now
  proof -
    obtain h where "hm_get (rc_conns core) c = Some h" using a(1) by (auto simp: conn_auth_def split: option.splits)
    moreover have "c \<in> set (group_of core (as_daemon_id a))" by (rule conn_auth_in_group(1) [OF assms a(1)])
    moreover have group: "group_of (c0\<lparr>rc_registry := r\<rparr>) d = group_of c0 d" "group_of (c0\<lparr>rc_conns := cs\<rparr>) d = group_of c0 d"
      for c0 r cs d by (simp_all add: group_of_def)
    ultimately show ?thesis using a(2)
      by (auto simp: handle_close_def Let_def register_authed_tables remove_from_group_tables)
  qed
  then show ?thesis by (auto simp: handle_close_def register_authed_tables)
qed

theorem groups_keep_dead_members_witness:
  "2 \<in> set (group_of (snd (handle_close (register_authed_conn (demo_core []) 2
        (demo_daemon\<lparr>as_daemon_id := ''e''\<rparr>)) 2 9)) ''d'')
    \<and> 7 \<in> set (group_of (register_authed_conn (demo_core []) 7 demo_daemon) ''d'')"
proof -
  have "hm_get (rc_conns (demo_core [])) 7 = None"
    by (simp add: demo_core_def register_authed_tables open_conn_def core_new_def)
  moreover have "as_daemon_id (demo_daemon\<lparr>as_daemon_id := ''e''\<rparr>) \<noteq> as_daemon_id (demo_frontend [])"
      "as_daemon_id (demo_frontend []) = ''d''" "as_daemon_id demo_daemon = ''d''"
    by (simp_all add: demo_frontend_def demo_daemon_def)
  moreover note groups_keep_dead_members [OF demo_core_inv [of "[]"]] demo_core_auth(2) [of "[]"]
  ultimately show ?thesis by (metis list.size(3) distinct.simps(1) zero_le)
qed

end
