(* ===== verification/Bytes.thy ===== *)
theory Bytes
  imports Prelude
begin

text \<open>
  Big-endian integers, \<open>as_bytes\<close> and UTF-8 validation: the byte-level operations of the
  Rust standard library that the frame codec and the resume token use.
\<close>

section \<open>Big-endian integers\<close>

fun be_bytes :: "nat \<Rightarrow> nat \<Rightarrow> u8 list" where
  "be_bytes 0 n = []"
| "be_bytes (Suc k) n = be_bytes k (n div 256) @ [word_of_nat n]"

definition be_nat :: "u8 list \<Rightarrow> nat" where
  "be_nat bs = foldl (\<lambda>a b. a * 256 + unat b) 0 bs"

text \<open>\<open>u32::to_be_bytes\<close>, \<open>u64::to_be_bytes\<close> and their inverses.\<close>

definition u32_to_be_bytes :: "u32 \<Rightarrow> u8 list" where
  "u32_to_be_bytes w = be_bytes 4 (unat w)"

definition u32_from_be_bytes :: "u8 list \<Rightarrow> u32" where
  "u32_from_be_bytes bs = word_of_nat (be_nat bs)"

definition u64_to_be_bytes :: "u64 \<Rightarrow> u8 list" where
  "u64_to_be_bytes w = be_bytes 8 (unat w)"

definition u64_from_be_bytes :: "u8 list \<Rightarrow> u64" where
  "u64_from_be_bytes bs = word_of_nat (be_nat bs)"

lemma be_bytes_numeral [simp]:
  "be_bytes (numeral k) n = be_bytes (pred_numeral k) (n div 256) @ [word_of_nat n]"
  by (subst numeral_eq_Suc) (rule be_bytes.simps(2))

lemma length_be_bytes [simp]: "length (be_bytes k n) = k"
  by (induction k arbitrary: n) auto

lemma be_nat_snoc [simp]: "be_nat (bs @ [b]) = be_nat bs * 256 + unat b"
  by (simp add: be_nat_def)

lemma be_nat_Nil [simp]: "be_nat [] = 0"
  by (simp add: be_nat_def)

lemma be_nat_be_bytes: "be_nat (be_bytes k n) = n mod 256 ^ k"
proof (induction k arbitrary: n)
  case (Suc k)
  have "unat (word_of_nat n :: u8) = n mod 256"
    by (simp add: unsigned_of_nat take_bit_eq_mod)
  moreover have "n mod (256 * 256 ^ k) = 256 * (n div 256 mod 256 ^ k) + n mod 256"
    by (rule mod_mult2_eq)
  ultimately show ?case
    using Suc by simp
qed simp

lemma be_bytes_be_nat: "length bs = k \<Longrightarrow> be_bytes k (be_nat bs) = bs"
proof (induction k arbitrary: bs)
  case (Suc k)
  then obtain xs b where bs: "bs = xs @ [b]" "length xs = k"
    by (metis length_Suc_conv_rev)
  have "unat b < 256" using unsigned_less [where ?'a = nat, of b] by simp
  moreover have "word_of_nat (be_nat xs * 256 + unat b) = b"
  proof -
    have zero: "(256 :: u8) = 0" by (simp add: word_eq_iff_unsigned)
    have "word_of_nat (be_nat xs * 256 + unat b) = (word_of_nat (be_nat xs) :: u8) * 256 + b" by simp
    also have "\<dots> = b" by (simp only: zero mult_zero_right add_0_left)
    finally show ?thesis .
  qed
  ultimately show ?case using Suc.IH [OF bs(2)] by (simp add: bs(1))
qed simp

lemma length_u32_to_be_bytes [simp]: "length (u32_to_be_bytes w) = 4"
  by (simp add: u32_to_be_bytes_def)

lemma length_u64_to_be_bytes [simp]: "length (u64_to_be_bytes w) = 8"
  by (simp add: u64_to_be_bytes_def)

lemma u32_be_roundtrip [simp]: "u32_from_be_bytes (u32_to_be_bytes w) = w"
proof -
  have "unat w < 2 ^ LENGTH(32)"
    by (rule unsigned_less)
  then have "unat w mod 256 ^ 4 = unat w" by simp
  then show ?thesis
    unfolding u32_from_be_bytes_def u32_to_be_bytes_def be_nat_be_bytes by simp
qed

lemma u64_be_roundtrip [simp]: "u64_from_be_bytes (u64_to_be_bytes w) = w"
proof -
  have "unat w < 2 ^ LENGTH(64)"
    by (rule unsigned_less)
  then have "unat w mod 256 ^ 8 = unat w" by simp
  then show ?thesis
    unfolding u64_from_be_bytes_def u64_to_be_bytes_def be_nat_be_bytes by simp
qed

lemma unat_word_of_nat_u32: "n < 2 ^ 32 \<Longrightarrow> unat (word_of_nat n :: u32) = n"
  by (simp add: unsigned_of_nat take_bit_eq_mod)

lemma be_nat_less: "be_nat bs < 256 ^ length bs"
proof (induction bs rule: rev_induct)
  case (snoc b bs)
  moreover have "unat b < 256" using unsigned_less [where ?'a = nat, of b] by simp
  ultimately show ?case by simp
qed simp

lemma u32_from_to_be_bytes: "length bs = 4 \<Longrightarrow> u32_to_be_bytes (u32_from_be_bytes bs) = bs"
  using be_nat_less [of bs]
  by (simp add: u32_to_be_bytes_def u32_from_be_bytes_def unsigned_of_nat take_bit_eq_mod
      be_bytes_be_nat del: be_bytes_numeral)

lemma u64_from_to_be_bytes: "length bs = 8 \<Longrightarrow> u64_to_be_bytes (u64_from_be_bytes bs) = bs"
  using be_nat_less [of bs]
  by (simp add: u64_to_be_bytes_def u64_from_be_bytes_def unsigned_of_nat take_bit_eq_mod
      be_bytes_be_nat del: be_bytes_numeral)

section \<open>Strings as bytes\<close>

definition as_bytes :: "string \<Rightarrow> u8 list" where
  "as_bytes s = map (\<lambda>c. word_of_nat (of_char c)) s"

definition bytes_to_string :: "u8 list \<Rightarrow> string" where
  "bytes_to_string bs = map (\<lambda>b. char_of (unat b)) bs"

lemma length_as_bytes [simp]: "length (as_bytes s) = length s"
  by (simp add: as_bytes_def)

lemma bytes_to_string_as_bytes [simp]: "bytes_to_string (as_bytes s) = s"
proof -
  have "char_of (unat (word_of_nat (of_char c) :: u8)) = c" for c
  proof -
    have "(of_char c :: nat) < 256" by (rule nat_of_char_less_256)
    then have "unat (word_of_nat (of_char c) :: u8) = (of_char c :: nat)"
      by (simp add: unsigned_of_nat take_bit_eq_mod)
    then show ?thesis by simp
  qed
  then show ?thesis
    by (simp add: bytes_to_string_def as_bytes_def comp_def)
qed

lemma as_bytes_bytes_to_string [simp]: "as_bytes (bytes_to_string bs) = bs"
proof -
  have "word_of_nat (of_char (char_of (unat b) :: char)) = b" for b :: u8
    using unsigned_less [where ?'a = nat, of b] by (simp add: of_char_of take_bit_eq_mod)
  then show ?thesis by (simp add: as_bytes_def bytes_to_string_def comp_def)
qed

text \<open>
  \<open>std::str::from_utf8\<close>: the well-formed byte sequences of the Unicode standard
  (its table 3-7), no overlong forms, no surrogates, nothing above U+10FFFF.
\<close>

definition utf8_cont :: "u8 \<Rightarrow> bool" where
  "utf8_cont b \<longleftrightarrow> 128 \<le> b \<and> b \<le> 191"

fun utf8_valid :: "u8 list \<Rightarrow> bool" where
  "utf8_valid [] = True"
| "utf8_valid (b # bs) =
    (if b \<le> 127 then utf8_valid bs
     else if 194 \<le> b \<and> b \<le> 223 then
       (case bs of c1 # cs \<Rightarrow> utf8_cont c1 \<and> utf8_valid cs | _ \<Rightarrow> False)
     else if 224 \<le> b \<and> b \<le> 239 then
       (case bs of c1 # c2 # cs \<Rightarrow>
          (if b = 224 then 160 \<le> c1 \<and> c1 \<le> 191
           else if b = 237 then 128 \<le> c1 \<and> c1 \<le> 159 else utf8_cont c1)
          \<and> utf8_cont c2 \<and> utf8_valid cs
        | _ \<Rightarrow> False)
     else if 240 \<le> b \<and> b \<le> 244 then
       (case bs of c1 # c2 # c3 # cs \<Rightarrow>
          (if b = 240 then 144 \<le> c1 \<and> c1 \<le> 191
           else if b = 244 then 128 \<le> c1 \<and> c1 \<le> 143 else utf8_cont c1)
          \<and> utf8_cont c2 \<and> utf8_cont c3 \<and> utf8_valid cs
        | _ \<Rightarrow> False)
     else False)"

definition from_utf8 :: "u8 list \<Rightarrow> string option" where
  "from_utf8 bs = (if utf8_valid bs then Some (bytes_to_string bs) else None)"

text \<open>The invariant of Rust's \<open>String\<close> type.\<close>

definition rust_string :: "string \<Rightarrow> bool" where
  "rust_string s \<longleftrightarrow> utf8_valid (as_bytes s)"

lemma from_utf8_as_bytes [simp]: "rust_string s \<Longrightarrow> from_utf8 (as_bytes s) = Some s"
  by (simp add: rust_string_def from_utf8_def)

lemma utf8_valid_ascii: "(\<And>b. b \<in> set bs \<Longrightarrow> b \<le> 127) \<Longrightarrow> utf8_valid bs"
  by (induction bs) auto

end
