(* ===== verification/Frame_Codec.thy ===== *)
theory Frame_Codec
  imports Bytes
begin

text \<open>
  \<open>rust/tp-core/src/codec.rs\<close>: the length-prefixed frame codec (\<open>encode_frame\<close>, the
  incremental \<open>FrameDecoder\<close>), and the two wrappers of \<open>rust/tp-relay/src/lib.rs\<close>.
  The locale \<open>chunk_decoder\<close> states what a reader of a byte stream relies on; it gives
  that the way the transport cuts the stream into chunks does not matter.
\<close>

section \<open>Data and operations\<close>

datatype tp_error =
    Frame_error string
  | Codec_error string
  | InvalidInput_error string
  | Crypto_error string
  | Pairing_error string

fun show_tp_error :: "tp_error \<Rightarrow> string" where
  "show_tp_error (Frame_error m) = ''frame error: '' @ m"
| "show_tp_error (Codec_error m) = ''codec error: '' @ m"
| "show_tp_error (InvalidInput_error m) = ''invalid input: '' @ m"
| "show_tp_error (Crypto_error m) = ''crypto error: '' @ m"
| "show_tp_error (Pairing_error m) = ''pairing error: '' @ m"

definition HEADER_SIZE :: nat where
  "HEADER_SIZE = 8"

definition MAX_FRAME_SIZE :: nat where
  "MAX_FRAME_SIZE = 64 * 1024 * 1024"

record decoded_frame =
  df_json :: "u8 list"
  df_binary :: "u8 list option"

definition encode_frame :: "u8 list \<Rightarrow> u8 list option \<Rightarrow> u8 list" where
  "encode_frame json binary =
    (let bin_len = (case binary of None \<Rightarrow> 0 | Some b \<Rightarrow> length b) in
     u32_to_be_bytes (word_of_nat (length json)) @
     u32_to_be_bytes (word_of_nat bin_len) @
     json @
     (case binary of Some b \<Rightarrow> if bin_len > 0 then b else [] | None \<Rightarrow> []))"

record frame_decoder =
  fd_buf :: "u8 list"

definition decoder_new :: frame_decoder where
  "decoder_new = \<lparr>fd_buf = []\<rparr>"

text \<open>
  The \<open>while\<close> loop of \<open>FrameDecoder::decode\<close>. The loop variable \<open>offset\<close> is represented
  by the unread suffix \<open>buf[offset..]\<close>; the loop ends with that suffix and the frames.
\<close>

function decode_loop :: "u8 list \<Rightarrow> decoded_frame list \<Rightarrow> tp_error + (decoded_frame list \<times> u8 list)" where
  "decode_loop rest results =
    (if HEADER_SIZE \<le> length rest then
       let json_len = unat (u32_from_be_bytes (take 4 rest));
           bin_len = unat (u32_from_be_bytes (take 4 (drop 4 rest)))
       in if json_len + bin_len > MAX_FRAME_SIZE then
            Inl (Frame_error (''Frame too large: '' @ show_nat (json_len + bin_len) @
                 '' bytes exceeds max '' @ show_nat MAX_FRAME_SIZE))
          else let total_len = HEADER_SIZE + json_len + bin_len in
            if length rest < total_len then Inr (results, rest)
            else
              let json = take json_len (drop HEADER_SIZE rest);
                  binary = (if bin_len > 0 then Some (take bin_len (drop (HEADER_SIZE + json_len) rest))
                            else None)
              in decode_loop (drop total_len rest)
                   (results @ [\<lparr>df_json = json, df_binary = binary\<rparr>])
     else Inr (results, rest))"
  by pat_completeness auto
termination
  by (relation "measure (\<lambda>(rest, results). length rest)") (auto simp: HEADER_SIZE_def)

declare decode_loop.simps [simp del]

definition decoder_decode ::
  "frame_decoder \<Rightarrow> u8 list \<Rightarrow> (tp_error + decoded_frame list) \<times> frame_decoder" where
  "decoder_decode d chunk =
    (let b = fd_buf d @ chunk in
     case decode_loop b [] of
       Inl e \<Rightarrow> (Inl e, d\<lparr>fd_buf := b\<rparr>)
     | Inr (results, rest) \<Rightarrow> (Inr results, d\<lparr>fd_buf := rest\<rparr>))"

definition decoder_reset :: "frame_decoder \<Rightarrow> frame_decoder" where
  "decoder_reset d = d\<lparr>fd_buf := []\<rparr>"

definition encode_relay_frame :: "u8 list \<Rightarrow> u8 list" where
  "encode_relay_frame json = encode_frame json None"

definition decode_relay_frames :: "u8 list \<Rightarrow> tp_error + decoded_frame list" where
  "decode_relay_frames chunk = fst (decoder_decode decoder_new chunk)"

section \<open>Feeding a decoder\<close>

text \<open>A connection feeds the decoder one chunk after another and stops at the first error.\<close>

fun feed_all :: "('s \<Rightarrow> 'b list \<Rightarrow> ('e + 'f list) \<times> 's) \<Rightarrow> 's \<Rightarrow> 'b list list \<Rightarrow> ('e + 'f list) \<times> 's" where
  "feed_all feed s [] = (Inr [], s)"
| "feed_all feed s (c # cs) =
    (case feed s c of
       (Inl e, s') \<Rightarrow> (Inl e, s')
     | (Inr fs, s') \<Rightarrow>
         (case feed_all feed s' cs of
            (Inl e, s'') \<Rightarrow> (Inl e, s'')
          | (Inr fs', s'') \<Rightarrow> (Inr (fs @ fs'), s'')))"

locale chunk_decoder =
  fixes feed :: "'s \<Rightarrow> 'b list \<Rightarrow> ('e + 'f list) \<times> 's"
    and start :: 's
    and encode :: "'f \<Rightarrow> 'b list"
    and good :: "'f \<Rightarrow> bool"
  assumes feed_nil: "feed start [] = (Inr [], start)"
    and feed_join: "feed s c = (Inr fs, s') \<Longrightarrow> feed s' c' = (Inr fs', s'')
      \<Longrightarrow> feed s (c @ c') = (Inr (fs @ fs'), s'')"
    and feed_join_error: "feed s c = (Inr fs, s') \<Longrightarrow> feed s' c' = (Inl e, s'')
      \<Longrightarrow> fst (feed s (c @ c')) = Inl e"
    and feed_error_extends: "feed s c = (Inl e, s') \<Longrightarrow> fst (feed s (c @ c')) = Inl e"
    and feed_encode: "good f \<Longrightarrow> feed start (encode f) = (Inr [f], start)"
begin

lemma feed_all_concat:
  assumes "cs \<noteq> []"
  shows "(case feed_all feed s cs of
      (Inl e, s') \<Rightarrow> fst (feed s (concat cs)) = Inl e
    | (Inr fs, s') \<Rightarrow> feed s (concat cs) = (Inr fs, s'))"
  using assms
proof (induction cs arbitrary: s)
  case (Cons c cs)
  obtain r s1 where c: "feed s c = (r, s1)" by fastforce
  show ?case
  proof (cases r)
    case (Inl e)
    with c show ?thesis using feed_error_extends [of s c e s1 "concat cs"] by simp
  next
    case (Inr fs)
    note first = c [unfolded Inr]
    show ?thesis
    proof (cases cs)
      case Nil
      with first show ?thesis by simp
    next
      case (Cons c2 cs2)
      obtain r2 s2 where rest: "feed_all feed s1 cs = (r2, s2)" by fastforce
      have ih: "case feed_all feed s1 cs of
          (Inl e, s') \<Rightarrow> fst (feed s1 (concat cs)) = Inl e
        | (Inr fs, s') \<Rightarrow> feed s1 (concat cs) = (Inr fs, s')"
        using Cons.IH [of s1] Cons by simp
      show ?thesis
      proof (cases r2)
        case (Inl e)
        with ih rest obtain s3 where "feed s1 (concat cs) = (Inl e, s3)"
          by (cases "feed s1 (concat cs)") auto
        from feed_join_error [OF first this] show ?thesis
          using first rest Inl by simp
      next
        case (Inr fs')
        with ih rest have "feed s1 (concat cs) = (Inr fs', s2)" by simp
        from feed_join [OF first this] show ?thesis
          using first rest Inr by simp
      qed
    qed
  qed
qed simp

lemma feed_frames:
  "list_all good fs \<Longrightarrow> feed start (concat (map encode fs)) = (Inr fs, start)"
proof (induction fs)
  case Nil
  then show ?case by (simp add: feed_nil)
next
  case (Cons f fs)
  then have "feed start (encode f) = (Inr [f], start)"
    by (simp add: feed_encode)
  from feed_join [OF this] Cons show ?case by simp
qed

theorem any_chunking_delivers:
  assumes "list_all good fs" "cs \<noteq> []" "concat cs = concat (map encode fs)"
  shows "feed_all feed start cs = (Inr fs, start)"
proof -
  have whole: "feed start (concat cs) = (Inr fs, start)"
    using feed_frames [OF assms(1)] assms(3) by simp
  have "case feed_all feed start cs of
      (Inl e, s') \<Rightarrow> fst (feed start (concat cs)) = Inl e
    | (Inr fs, s') \<Rightarrow> feed start (concat cs) = (Inr fs, s')"
    by (rule feed_all_concat [OF assms(2)])
  with whole show ?thesis
    by (cases "feed_all feed start cs") (auto split: sum.splits)
qed

end

section \<open>The frame decoder is a chunk decoder\<close>

text \<open>The frames the codec can carry: those its own size guard lets through.\<close>

definition frame_fits :: "decoded_frame \<Rightarrow> bool" where
  "frame_fits f \<longleftrightarrow>
    length (df_json f) + (case df_binary f of None \<Rightarrow> 0 | Some b \<Rightarrow> length b) \<le> MAX_FRAME_SIZE
    \<and> df_binary f \<noteq> Some []"

definition encode_decoded :: "decoded_frame \<Rightarrow> u8 list" where
  "encode_decoded f = encode_frame (df_json f) (df_binary f)"

text \<open>One turn of the loop, as the proofs use it: an error, no complete frame, or a frame.\<close>

definition hdr_json :: "u8 list \<Rightarrow> nat" where
  "hdr_json rest = unat (u32_from_be_bytes (take 4 rest))"

definition hdr_bin :: "u8 list \<Rightarrow> nat" where
  "hdr_bin rest = unat (u32_from_be_bytes (take 4 (drop 4 rest)))"

definition too_large :: "nat \<Rightarrow> tp_error" where
  "too_large n = Frame_error (''Frame too large: '' @ show_nat n @ '' bytes exceeds max '' @
     show_nat MAX_FRAME_SIZE)"

definition frame_at :: "u8 list \<Rightarrow> decoded_frame" where
  "frame_at rest = \<lparr>df_json = take (hdr_json rest) (drop HEADER_SIZE rest),
     df_binary = (if hdr_bin rest > 0
       then Some (take (hdr_bin rest) (drop (HEADER_SIZE + hdr_json rest) rest)) else None)\<rparr>"

definition frame_step :: "u8 list \<Rightarrow> tp_error + (decoded_frame \<times> u8 list) option" where
  "frame_step rest =
    (if length rest < HEADER_SIZE then Inr None
     else if hdr_json rest + hdr_bin rest > MAX_FRAME_SIZE
       then Inl (too_large (hdr_json rest + hdr_bin rest))
     else if length rest < HEADER_SIZE + hdr_json rest + hdr_bin rest then Inr None
     else Inr (Some (frame_at rest, drop (HEADER_SIZE + hdr_json rest + hdr_bin rest) rest)))"

lemma decode_loop_step:
  "decode_loop rest acc = (case frame_step rest of
      Inl e \<Rightarrow> Inl e
    | Inr None \<Rightarrow> Inr (acc, rest)
    | Inr (Some (f, r)) \<Rightarrow> decode_loop r (acc @ [f]))"
  by (subst decode_loop.simps)
    (simp add: frame_step_def frame_at_def too_large_def hdr_json_def hdr_bin_def Let_def)

lemma hdr_append:
  assumes "\<not> length b < HEADER_SIZE"
  shows "hdr_json (b @ c) = hdr_json b" "hdr_bin (b @ c) = hdr_bin b"
  using assms by (simp_all add: hdr_json_def hdr_bin_def HEADER_SIZE_def)

lemma frame_step_SomeE:
  assumes "frame_step b = Inr (Some (f, r))"
  obtains "HEADER_SIZE \<le> length b" "hdr_json b + hdr_bin b \<le> MAX_FRAME_SIZE"
    "HEADER_SIZE + hdr_json b + hdr_bin b \<le> length b"
    "f = frame_at b" "r = drop (HEADER_SIZE + hdr_json b + hdr_bin b) b"
  using assms that by (simp add: frame_step_def not_less split: if_split_asm)

lemma frame_step_ErrE:
  assumes "frame_step b = Inl e"
  obtains "HEADER_SIZE \<le> length b" "MAX_FRAME_SIZE < hdr_json b + hdr_bin b"
    "e = too_large (hdr_json b + hdr_bin b)"
  using assms that by (simp add: frame_step_def not_less split: if_split_asm)

lemma frame_step_shorter: "frame_step b = Inr (Some (f, r)) \<Longrightarrow> length r < length b"
  by (erule frame_step_SomeE) (simp add: HEADER_SIZE_def)

lemma frame_step_append:
  assumes "frame_step b = Inr (Some (f, r))"
  shows "frame_step (b @ c) = Inr (Some (f, r @ c))"
  using assms
proof (rule frame_step_SomeE)
  assume len: "HEADER_SIZE \<le> length b" "HEADER_SIZE + hdr_json b + hdr_bin b \<le> length b"
    and rest: "hdr_json b + hdr_bin b \<le> MAX_FRAME_SIZE" "f = frame_at b"
      "r = drop (HEADER_SIZE + hdr_json b + hdr_bin b) b"
  have "frame_at (b @ c) = frame_at b"
    using len by (simp add: frame_at_def hdr_append)
  with len rest show ?thesis
    by (simp add: frame_step_def hdr_append)
qed

lemma frame_step_append_error: "frame_step b = Inl e \<Longrightarrow> frame_step (b @ c) = Inl e"
  by (erule frame_step_ErrE) (simp add: frame_step_def hdr_append)

lemma decode_loop_acc:
  "decode_loop rest acc = map_sum id (\<lambda>(fs, r). (acc @ fs, r)) (decode_loop rest [])"
proof (induction rest arbitrary: acc rule: measure_induct_rule [of length])
  case (less rest)
  show ?case
  proof (cases "\<exists>f r. frame_step rest = Inr (Some (f, r))")
    case True
    then obtain f r where step: "frame_step rest = Inr (Some (f, r))" by blast
    have eq: "decode_loop r xs = map_sum id (\<lambda>(fs, r). (xs @ fs, r)) (decode_loop r [])" for xs
      by (rule less) (rule frame_step_shorter [OF step])
    have "decode_loop rest zs = decode_loop r (zs @ [f])" for zs
      using step by (subst decode_loop_step) simp
    then show ?thesis
      using eq [of "acc @ [f]"] eq [of "[f]"]
      by (simp add: sum.map_comp comp_def case_prod_unfold id_def)
  next
    case False
    then show ?thesis
      by (subst (1 2) decode_loop_step) (auto split: sum.splits option.splits)
  qed
qed

lemma decode_loop_append:
  assumes "decode_loop b [] = Inr (fs, r)"
  shows "decode_loop (b @ c) [] = map_sum id (\<lambda>(gs, q). (fs @ gs, q)) (decode_loop (r @ c) [])"
  using assms
proof (induction b arbitrary: fs rule: measure_induct_rule [of length])
  case (less b)
  show ?case
  proof (cases "\<exists>f b'. frame_step b = Inr (Some (f, b'))")
    case True
    then obtain f b' where step: "frame_step b = Inr (Some (f, b'))" by blast
    then have "decode_loop b [] = decode_loop b' [f]"
      by (subst decode_loop_step) simp
    with less.prems obtain gs where gs: "decode_loop b' [] = Inr (gs, r)" "fs = f # gs"
      by (subst (asm) decode_loop_acc) (cases "decode_loop b' []"; auto)
    have "decode_loop (b @ c) [] = decode_loop (b' @ c) [f]"
      using frame_step_append [OF step] by (subst decode_loop_step) simp
    also have "\<dots> = map_sum id (\<lambda>(gs, q). (f # gs, q)) (decode_loop (b' @ c) [])"
      by (subst decode_loop_acc) simp
    also have "decode_loop (b' @ c) [] = map_sum id (\<lambda>(hs, q). (gs @ hs, q)) (decode_loop (r @ c) [])"
      using less.IH [OF frame_step_shorter [OF step] gs(1)] .
    finally show ?thesis
      using gs(2) by (simp add: sum.map_comp comp_def case_prod_unfold id_def)
  next
    case False
    with less.prems have "fs = []" "r = b"
      by (subst (asm) decode_loop_step, auto split: sum.splits option.splits)+
    then show ?thesis
      by (simp add: case_prod_unfold sum.map_id0 id_def [symmetric])
  qed
qed

lemma decode_loop_append_error:
  "decode_loop b acc = Inl e \<Longrightarrow> decode_loop (b @ c) acc = Inl e"
proof (induction b arbitrary: acc rule: measure_induct_rule [of length])
  case (less b)
  show ?case
  proof (cases "\<exists>f b'. frame_step b = Inr (Some (f, b'))")
    case True
    then obtain f b' where step: "frame_step b = Inr (Some (f, b'))" by blast
    with less.prems have "decode_loop b' (acc @ [f]) = Inl e"
      by (subst (asm) decode_loop_step) simp
    from less.IH [OF frame_step_shorter [OF step] this] show ?thesis
      using frame_step_append [OF step] by (subst decode_loop_step) simp
  next
    case False
    with less.prems have "frame_step b = Inl e"
      by (subst (asm) decode_loop_step) (auto split: sum.splits option.splits)
    then show ?thesis
      using frame_step_append_error by (subst decode_loop_step) simp
  qed
qed

lemma frame_step_encode:
  assumes "frame_fits f"
  shows "frame_step (encode_decoded f @ c) = Inr (Some (f, c))"
proof -
  obtain j b where f: "f = \<lparr>df_json = j, df_binary = b\<rparr>" by (cases f)
  let ?n = "case b of None \<Rightarrow> 0 | Some x \<Rightarrow> length x"
  have size: "length j + ?n \<le> MAX_FRAME_SIZE" "b \<noteq> Some []"
    using assms by (auto simp: frame_fits_def f)
  have word: "unat (word_of_nat (length j) :: u32) = length j" "unat (word_of_nat ?n :: u32) = ?n"
    using size(1) by (auto intro!: unat_word_of_nat_u32 simp: MAX_FRAME_SIZE_def)
  have enc: "encode_decoded f = u32_to_be_bytes (word_of_nat (length j)) @
      u32_to_be_bytes (word_of_nat ?n) @ j @ (case b of None \<Rightarrow> [] | Some x \<Rightarrow> x)"
    by (auto simp: encode_decoded_def encode_frame_def f Let_def split: option.splits)
  have hdr: "hdr_json (encode_decoded f @ c) = length j" "hdr_bin (encode_decoded f @ c) = ?n"
    using word unfolding enc by (simp_all add: hdr_json_def hdr_bin_def)
  have len: "length (encode_decoded f @ c) = HEADER_SIZE + length j + ?n + length c"
    unfolding enc by (simp add: HEADER_SIZE_def split: option.splits)
  have "frame_at (encode_decoded f @ c) = f"
    using size(2) unfolding frame_at_def hdr unfolding enc
    by (cases b) (auto simp: f HEADER_SIZE_def)
  moreover have "drop (HEADER_SIZE + length j + ?n) (encode_decoded f @ c) = c"
    unfolding enc by (cases b) (auto simp: HEADER_SIZE_def)
  ultimately show ?thesis
    using size(1) len by (simp add: frame_step_def hdr)
qed

interpretation frame_decoder_chunks:
  chunk_decoder decoder_decode decoder_new encode_decoded frame_fits
proof unfold_locales
  show "decoder_decode decoder_new [] = (Inr [], decoder_new)"
    by (simp add: decoder_decode_def decoder_new_def decode_loop.simps HEADER_SIZE_def)
next
  fix s s' s'' :: frame_decoder and c c' :: "u8 list" and fs fs' :: "decoded_frame list"
  assume "decoder_decode s c = (Inr fs, s')" "decoder_decode s' c' = (Inr fs', s'')"
  then show "decoder_decode s (c @ c') = (Inr (fs @ fs'), s'')"
    using decode_loop_append [of "fd_buf s @ c" fs "fd_buf s'" c']
    by (auto simp: decoder_decode_def Let_def split: sum.splits prod.splits)
next
  fix s s' s'' :: frame_decoder and c c' :: "u8 list" and fs :: "decoded_frame list" and e
  assume "decoder_decode s c = (Inr fs, s')" "decoder_decode s' c' = (Inl e, s'')"
  then show "fst (decoder_decode s (c @ c')) = Inl e"
    using decode_loop_append [of "fd_buf s @ c" fs "fd_buf s'" c']
    by (auto simp: decoder_decode_def Let_def split: sum.splits prod.splits)
next
  fix s s' :: frame_decoder and c c' :: "u8 list" and e
  assume "decoder_decode s c = (Inl e, s')"
  then show "fst (decoder_decode s (c @ c')) = Inl e"
    using decode_loop_append_error [of "fd_buf s @ c" "[]" e c']
    by (auto simp: decoder_decode_def Let_def split: sum.splits prod.splits)
next
  fix f
  assume "frame_fits f"
  from frame_step_encode [OF this, of "[]"]
  have "decode_loop (encode_decoded f) [] = Inr ([f], [])"
    by (subst decode_loop_step) (simp add: decode_loop.simps HEADER_SIZE_def)
  then show "decoder_decode decoder_new (encode_decoded f) = (Inr [f], decoder_new)"
    by (simp add: decoder_decode_def decoder_new_def)
qed

section \<open>Properties\<close>

text \<open>C5: Whatever the transport does to the boundaries of the chunks, a decoder that reads the
  encodings of a list of frames (each within the 64 MiB bound) returns exactly those frames, in
  order, and keeps no bytes back.\<close>

theorem frames_survive_any_chunking:
  assumes "list_all frame_fits fs" and "chunks \<noteq> []"
    and "concat chunks = concat (map (\<lambda>f. encode_frame (df_json f) (df_binary f)) fs)"
  shows "feed_all decoder_decode decoder_new chunks = (Inr fs, decoder_new)"
  using frame_decoder_chunks.any_chunking_delivers [OF assms(1,2)] assms(3)
  by (simp add: encode_decoded_def [abs_def])

theorem frames_survive_any_chunking_witness:
  "feed_all decoder_decode decoder_new
     [[0, 0, 0, 2, 0, 0, 0], [1, 123], [125, 7, 0, 0, 0, 0], [0, 0, 0, 0]] =
   (Inr [\<lparr>df_json = [123, 125], df_binary = Some [7]\<rparr>, \<lparr>df_json = [], df_binary = None\<rparr>], decoder_new)"
  by (rule frames_survive_any_chunking)
    (simp_all add: frame_fits_def MAX_FRAME_SIZE_def encode_frame_def u32_to_be_bytes_def)

text \<open>A header that announces more than 64 MiB is refused before any body byte is waited for,
  and the refusal is permanent: the decoder does not skip the offending frame, so every later call
  fails with the same error, whatever bytes follow.\<close>

theorem oversized_header_is_sticky:
  assumes "HEADER_SIZE \<le> length (fd_buf d @ chunk)"
    and "MAX_FRAME_SIZE < hdr_json (fd_buf d @ chunk) + hdr_bin (fd_buf d @ chunk)"
  shows "\<exists>e d'. decoder_decode d chunk = (Inl e, d') \<and> fd_buf d' = fd_buf d @ chunk
    \<and> (\<forall>later. decoder_decode d' later = (Inl e, d'\<lparr>fd_buf := fd_buf d' @ later\<rparr>))"
proof -
  let ?b = "fd_buf d @ chunk"
  let ?e = "too_large (hdr_json ?b + hdr_bin ?b)"
  have step: "frame_step ?b = Inl ?e"
    using assms by (simp add: frame_step_def)
  have "decode_loop (?b @ later) [] = Inl ?e" for later
    using frame_step_append_error [OF step] by (subst decode_loop_step) simp
  from this [of "[]"] this show ?thesis
    by (simp add: decoder_decode_def Let_def)
qed

theorem oversized_header_is_sticky_witness:
  "\<exists>e d'. decoder_decode decoder_new [255, 255, 255, 255, 0, 0, 0, 0] = (Inl e, d')
    \<and> fd_buf d' = fd_buf decoder_new @ [255, 255, 255, 255, 0, 0, 0, 0]
    \<and> (\<forall>later. decoder_decode d' later = (Inl e, d'\<lparr>fd_buf := fd_buf d' @ later\<rparr>))"
  by (rule oversized_header_is_sticky)
    (simp_all add: decoder_new_def HEADER_SIZE_def MAX_FRAME_SIZE_def hdr_json_def hdr_bin_def
      u32_from_be_bytes_def be_nat_def)

end
