(* ===== verification/Crypto.thy ===== *)
theory Crypto
  imports Bytes Frame_Codec
begin

text \<open>
  The end-to-end encryption layer (\<open>tp-core/src/crypto.rs\<close>): key derivation, the pairing
  confirmation tag, the sealed-blob format, the key exchange and the per-session ratchet.

  The primitives come from third-party crates (\<open>blake2\<close>, \<open>chacha20poly1305\<close>, \<open>x25519-dalek\<close>,
  \<open>base64\<close>, \<open>hex\<close>); they are the fields of \<open>crypto_api\<close>, an argument of every definition that
  calls one. What the code relies on is stated as predicates (\<open>aead_lawful\<close>, \<open>b64_lawful\<close>, ...),
  each a documented property of the crate, and \<open>demo_api\<close> shows that they can hold together.
  A fixed-size array \<open>[u8; n]\<close> is a byte list, with its length as a side condition where a
  result depends on it.
\<close>

section \<open>The primitives\<close>

record crypto_api =
  hash32 :: "u8 list \<Rightarrow> u8 list"
  hash64 :: "u8 list \<Rightarrow> u8 list"
  mac32 :: "u8 list \<Rightarrow> u8 list \<Rightarrow> u8 list"
  xchacha_encrypt :: "u8 list \<Rightarrow> u8 list \<Rightarrow> u8 list \<Rightarrow> u8 list \<Rightarrow> string + u8 list"
  xchacha_decrypt :: "u8 list \<Rightarrow> u8 list \<Rightarrow> u8 list \<Rightarrow> u8 list \<Rightarrow> string + u8 list"
  b64_std_enc :: "u8 list \<Rightarrow> string"
  b64_std_dec :: "string \<Rightarrow> string + u8 list"
  b64_url_enc :: "u8 list \<Rightarrow> string"
  b64_url_dec :: "string \<Rightarrow> string + u8 list"
  x25519 :: "u8 list \<Rightarrow> u8 list \<Rightarrow> u8 list"
  x25519_base :: "u8 list \<Rightarrow> u8 list"
  hex_encode :: "u8 list \<Rightarrow> string"
  hex_decode :: "string \<Rightarrow> string + u8 list"

definition NPUB_BYTES :: nat where
  "NPUB_BYTES = 24"

definition KEY_BYTES :: nat where
  "KEY_BYTES = 32"

definition POLY1305_TAG_BYTES :: nat where
  "POLY1305_TAG_BYTES = 16"

text \<open>
  The AEAD: key, nonce, associated data and message in this order; a decryption under the same
  three returns the message, and a ciphertext is the message's length plus the 16-byte tag.
\<close>

definition aead_lawful :: "crypto_api \<Rightarrow> bool" where
  "aead_lawful api \<longleftrightarrow>
     (\<forall>k n a m c. length k = 32 \<longrightarrow> length n = 24 \<longrightarrow> xchacha_encrypt api k n a m = Inr c
        \<longrightarrow> length c = length m + 16 \<and> xchacha_decrypt api k n a c = Inr m)"

definition b64_lawful :: "crypto_api \<Rightarrow> bool" where
  "b64_lawful api \<longleftrightarrow> (\<forall>bs. b64_std_dec api (b64_std_enc api bs) = Inr bs)"

text \<open>\<open>URL_SAFE_NO_PAD\<close> has no dot in its alphabet and accepts canonical encodings only.\<close>

definition b64url_lawful :: "crypto_api \<Rightarrow> bool" where
  "b64url_lawful api \<longleftrightarrow>
     b64_url_enc api [] = [] \<and>
     (\<forall>bs. b64_url_dec api (b64_url_enc api bs) = Inr bs \<and> CHR ''.'' \<notin> set (b64_url_enc api bs))
     \<and> (\<forall>s bs. b64_url_dec api s = Inr bs \<longrightarrow> b64_url_enc api bs = s)"

definition mac_lawful :: "crypto_api \<Rightarrow> bool" where
  "mac_lawful api \<longleftrightarrow> (\<forall>k bs. length (mac32 api k bs) = 32)"

definition hash_lawful :: "crypto_api \<Rightarrow> bool" where
  "hash_lawful api \<longleftrightarrow> (\<forall>bs. length (hash32 api bs) = 32 \<and> length (hash64 api bs) = 64)"

definition dh_lawful :: "crypto_api \<Rightarrow> bool" where
  "dh_lawful api \<longleftrightarrow> (\<forall>a b. x25519 api a (x25519_base api b) = x25519 api b (x25519_base api a))"

section \<open>Key derivation\<close>

definition generic_hash_32 :: "crypto_api \<Rightarrow> u8 list \<Rightarrow> u8 list" where
  "generic_hash_32 api input = hash32 api input"

definition derive_blake2b :: "crypto_api \<Rightarrow> u8 list \<Rightarrow> string \<Rightarrow> u8 list" where
  "derive_blake2b api secret domain = generic_hash_32 api (secret @ as_bytes domain)"

definition derive_relay_token :: "crypto_api \<Rightarrow> u8 list \<Rightarrow> string" where
  "derive_relay_token api ps = hex_encode api (derive_blake2b api ps ''relay-auth'')"

definition derive_kx_key :: "crypto_api \<Rightarrow> u8 list \<Rightarrow> u8 list" where
  "derive_kx_key api ps = derive_blake2b api ps ''kx-envelope''"

definition derive_push_seal_key :: "crypto_api \<Rightarrow> u8 list \<Rightarrow> u8 list" where
  "derive_push_seal_key api secret = derive_blake2b api secret ''relay-push-seal''"

definition derive_registration_proof :: "crypto_api \<Rightarrow> u8 list \<Rightarrow> string" where
  "derive_registration_proof api ps = hex_encode api (derive_blake2b api ps ''relay-register'')"

section \<open>The pairing confirmation tag\<close>

datatype ordering = Less | Equal | Greater

fun compare_bytes :: "u8 list \<Rightarrow> u8 list \<Rightarrow> ordering" where
  "compare_bytes [] [] = Equal"
| "compare_bytes [] (_ # _) = Less"
| "compare_bytes (_ # _) [] = Greater"
| "compare_bytes (a # as) (b # bs) =
    (if a < b then Less else if b < a then Greater else compare_bytes as bs)"

definition PCT_DOMAIN :: "u8 list" where
  "PCT_DOMAIN = as_bytes ''tp-pairing-confirm'' @ [1]"

definition LEGACY_PAIRING_ID_DOMAIN :: "u8 list" where
  "LEGACY_PAIRING_ID_DOMAIN = as_bytes ''tp-pairing-id-legacy'' @ [1]"

definition push_len_prefixed :: "u8 list \<Rightarrow> u8 list \<Rightarrow> u8 list" where
  "push_len_prefixed buf bytes = buf @ [word_of_nat (length bytes)] @ bytes"

definition pct_input ::
  "u8 list \<Rightarrow> string \<Rightarrow> string \<Rightarrow> u8 list \<Rightarrow> u8 list \<Rightarrow> u8 list \<Rightarrow> u8 list \<Rightarrow> u8 list" where
  "pct_input pairing_id daemon_id hostname daemon_pub_key frontend_pub_key tx rx =
    (let did = as_bytes daemon_id;
         host = as_bytes hostname;
         (k_sort0, k_sort1) = (if compare_bytes tx rx \<noteq> Greater then (tx, rx) else (rx, tx));
         input = PCT_DOMAIN @ pairing_id;
         input = push_len_prefixed input (take (min (length did) 255) did);
         input = push_len_prefixed input (take (min (length host) 255) host)
     in input @ daemon_pub_key @ frontend_pub_key @ k_sort0 @ k_sort1)"

definition derive_pairing_confirmation_tag ::
  "crypto_api \<Rightarrow> u8 list \<Rightarrow> string \<Rightarrow> string \<Rightarrow> u8 list \<Rightarrow> u8 list \<Rightarrow> u8 list \<Rightarrow> u8 list \<Rightarrow> u8 list" where
  "derive_pairing_confirmation_tag api pairing_id daemon_id hostname daemon_pub_key frontend_pub_key tx rx =
    generic_hash_32 api (pct_input pairing_id daemon_id hostname daemon_pub_key frontend_pub_key tx rx)"

definition format_uuid :: "crypto_api \<Rightarrow> u8 list \<Rightarrow> string" where
  "format_uuid api raw =
    (let h = hex_encode api raw
     in take 8 h @ ''-'' @ take 4 (drop 8 h) @ ''-'' @ take 4 (drop 12 h) @ ''-''
        @ take 4 (drop 16 h) @ ''-'' @ take 12 (drop 20 h))"

unbundle bit_operations_syntax

definition derive_legacy_pairing_id :: "crypto_api \<Rightarrow> string \<Rightarrow> string" where
  "derive_legacy_pairing_id api daemon_id =
    (let digest = generic_hash_32 api (LEGACY_PAIRING_ID_DOMAIN @ as_bytes daemon_id);
         raw = take 16 digest;
         raw = raw[6 := ((raw ! 6) AND 0x0F) OR 0x80];
         raw = raw[8 := ((raw ! 8) AND 0x3F) OR 0x80]
     in format_uuid api raw)"

section \<open>Sealed blobs\<close>

definition aead_cipher :: "u8 list \<Rightarrow> tp_error + u8 list" where
  "aead_cipher key =
    (if length key \<noteq> KEY_BYTES
     then Inl (InvalidInput_error (''AEAD key must be 32 bytes, got '' @ show_nat (length key)))
     else Inr key)"

definition aead_encrypt ::
  "crypto_api \<Rightarrow> u8 list \<Rightarrow> u8 list option \<Rightarrow> u8 list \<Rightarrow> u8 list \<Rightarrow> tp_error + u8 list" where
  "aead_encrypt api plaintext aad nonce key =
    (if length nonce \<noteq> NPUB_BYTES
     then Inl (InvalidInput_error (''nonce must be 24 bytes, got '' @ show_nat (length nonce)))
     else case aead_cipher key of
         Inl e \<Rightarrow> Inl e
       | Inr cipher \<Rightarrow>
           (case xchacha_encrypt api cipher nonce (case aad of Some a \<Rightarrow> a | None \<Rightarrow> []) plaintext of
              Inl e \<Rightarrow> Inl (Crypto_error (''aead encrypt failed: '' @ e))
            | Inr ct \<Rightarrow> Inr ct))"

definition aead_decrypt ::
  "crypto_api \<Rightarrow> u8 list \<Rightarrow> u8 list option \<Rightarrow> u8 list \<Rightarrow> u8 list \<Rightarrow> tp_error + u8 list" where
  "aead_decrypt api ciphertext aad nonce key =
    (if length nonce \<noteq> NPUB_BYTES
     then Inl (InvalidInput_error (''nonce must be 24 bytes, got '' @ show_nat (length nonce)))
     else case aead_cipher key of
         Inl e \<Rightarrow> Inl e
       | Inr cipher \<Rightarrow>
           (case xchacha_decrypt api cipher nonce (case aad of Some a \<Rightarrow> a | None \<Rightarrow> []) ciphertext of
              Inl _ \<Rightarrow> Inl (Crypto_error ''aead authentication failed'')
            | Inr m \<Rightarrow> Inr m))"

definition b64_decode :: "crypto_api \<Rightarrow> string \<Rightarrow> tp_error + u8 list" where
  "b64_decode api s =
    (case b64_std_dec api s of
       Inl e \<Rightarrow> Inl (Crypto_error (''base64 decode failed: '' @ e))
     | Inr bs \<Rightarrow> Inr bs)"

definition seal_blob :: "crypto_api \<Rightarrow> u8 list \<Rightarrow> u8 list \<Rightarrow> u8 list \<Rightarrow> tp_error + string" where
  "seal_blob api plaintext key nonce =
    (case aead_encrypt api plaintext None nonce key of
       Inl e \<Rightarrow> Inl e
     | Inr ct \<Rightarrow> Inr (b64_std_enc api (nonce @ ct)))"

definition open_blob :: "crypto_api \<Rightarrow> string \<Rightarrow> u8 list \<Rightarrow> tp_error + u8 list" where
  "open_blob api encoded key =
    (case b64_decode api encoded of
       Inl e \<Rightarrow> Inl e
     | Inr combined \<Rightarrow>
         if length combined < NPUB_BYTES + POLY1305_TAG_BYTES
         then Inl (Crypto_error ''sealed blob shorter than nonce + tag'')
         else aead_decrypt api (drop NPUB_BYTES combined) None (take NPUB_BYTES combined) key)"

definition seal_with_aad ::
  "crypto_api \<Rightarrow> u8 list \<Rightarrow> u8 list \<Rightarrow> u8 list \<Rightarrow> u8 list \<Rightarrow> tp_error + string" where
  "seal_with_aad api plaintext key aad nonce =
    (case aead_encrypt api plaintext (Some aad) nonce key of
       Inl e \<Rightarrow> Inl e
     | Inr ct \<Rightarrow> Inr (b64_std_enc api (nonce @ ct)))"

definition open_with_aad :: "crypto_api \<Rightarrow> string \<Rightarrow> u8 list \<Rightarrow> u8 list \<Rightarrow> tp_error + u8 list" where
  "open_with_aad api encoded key aad =
    (case b64_decode api encoded of
       Inl e \<Rightarrow> Inl e
     | Inr combined \<Rightarrow>
         if length combined < NPUB_BYTES + POLY1305_TAG_BYTES
         then Inl (Crypto_error ''sealed blob shorter than nonce + tag'')
         else aead_decrypt api (drop NPUB_BYTES combined) (Some aad) (take NPUB_BYTES combined) key)"

section \<open>Key exchange and ratchet\<close>

record kx_key_pair =
  public_key :: "u8 list"
  secret_key :: "u8 list"

record session_keys =
  sk_rx :: "u8 list"
  sk_tx :: "u8 list"

definition kx_seed_keypair :: "crypto_api \<Rightarrow> u8 list \<Rightarrow> tp_error + kx_key_pair" where
  "kx_seed_keypair api seed =
    (if length seed \<noteq> 32
     then Inl (InvalidInput_error (''kx seed must be 32 bytes, got '' @ show_nat (length seed)))
     else let sk = generic_hash_32 api seed
          in Inr \<lparr>public_key = x25519_base api sk, secret_key = sk\<rparr>)"

definition kx_kdf :: "crypto_api \<Rightarrow> u8 list \<Rightarrow> u8 list \<Rightarrow> u8 list \<Rightarrow> u8 list" where
  "kx_kdf api shared client_pk server_pk = hash64 api (shared @ client_pk @ server_pk)"

definition x25519_shared :: "crypto_api \<Rightarrow> u8 list \<Rightarrow> u8 list \<Rightarrow> u8 list" where
  "x25519_shared api sk peer_pk = x25519 api sk peer_pk"

definition kx_server_session_keys :: "crypto_api \<Rightarrow> u8 list \<Rightarrow> u8 list \<Rightarrow> u8 list \<Rightarrow> session_keys" where
  "kx_server_session_keys api pk sk peer_pk =
    (let shared = x25519_shared api sk peer_pk;
         keys = kx_kdf api shared peer_pk pk
     in \<lparr>sk_rx = take 32 (drop 32 keys), sk_tx = take 32 keys\<rparr>)"

definition kx_client_session_keys :: "crypto_api \<Rightarrow> u8 list \<Rightarrow> u8 list \<Rightarrow> u8 list \<Rightarrow> session_keys" where
  "kx_client_session_keys api pk sk peer_pk =
    (let shared = x25519_shared api sk peer_pk;
         keys = kx_kdf api shared pk peer_pk
     in \<lparr>sk_rx = take 32 keys, sk_tx = take 32 (drop 32 keys)\<rparr>)"

definition ratchet_session_keys :: "crypto_api \<Rightarrow> session_keys \<Rightarrow> string \<Rightarrow> bool \<Rightarrow> session_keys" where
  "ratchet_session_keys api base sid is_daemon =
    (let sid_bytes = as_bytes sid;
         tx_le_rx = compare_bytes (sk_tx base) (sk_rx base) \<noteq> Greater;
         (key_a, key_b) = (if tx_le_rx then (sk_tx base, sk_rx base) else (sk_rx base, sk_tx base));
         k_a = generic_hash_32 api (key_a @ sid_bytes @ as_bytes ''a'');
         k_b = generic_hash_32 api (key_b @ sid_bytes @ as_bytes ''b'')
     in if is_daemon then \<lparr>sk_rx = k_b, sk_tx = k_a\<rparr>
        else \<lparr>sk_rx = k_a, sk_tx = k_b\<rparr>)"

section \<open>Lemmas\<close>

lemma compare_bytes_swap:
  "compare_bytes b a = (case compare_bytes a b of Less \<Rightarrow> Greater | Equal \<Rightarrow> Equal | Greater \<Rightarrow> Less)"
  by (induction a b rule: compare_bytes.induct) (auto split: ordering.splits)

lemma compare_bytes_Equal: "compare_bytes a b = Equal \<Longrightarrow> a = b"
  by (induction a b rule: compare_bytes.induct) (auto split: if_splits)

text \<open>Both peers sort the two session keys the same way, whichever is whose.\<close>

lemma sort_keys_swap:
  "(if compare_bytes a b \<noteq> Greater then (a, b) else (b, a)) =
   (if compare_bytes b a \<noteq> Greater then (b, a) else (a, b))"
proof (cases "compare_bytes a b")
  case Equal
  then have "a = b" by (rule compare_bytes_Equal)
  then show ?thesis by simp
qed (auto simp: compare_bytes_swap [of b a])

lemma seal_blob_ok:
  assumes "seal_blob api m k n = Inr s"
  obtains c where "length k = 32" "length n = 24" "xchacha_encrypt api k n [] m = Inr c"
    "s = b64_std_enc api (n @ c)"
  using assms
  by (auto simp: seal_blob_def aead_encrypt_def aead_cipher_def KEY_BYTES_def NPUB_BYTES_def
      split: if_splits sum.splits)

lemma seal_with_aad_ok:
  assumes "seal_with_aad api m k a n = Inr s"
  obtains c where "length k = 32" "length n = 24" "xchacha_encrypt api k n a m = Inr c"
    "s = b64_std_enc api (n @ c)"
  using assms
  by (auto simp: seal_with_aad_def aead_encrypt_def aead_cipher_def KEY_BYTES_def NPUB_BYTES_def
      split: if_splits sum.splits)

lemmas open_defs = b64_decode_def aead_decrypt_def aead_cipher_def KEY_BYTES_def NPUB_BYTES_def
  POLY1305_TAG_BYTES_def

lemma open_seal_blob:
  assumes "aead_lawful api" "b64_lawful api" "seal_blob api m k n = Inr s"
  shows "open_blob api s k = Inr m"
  using seal_blob_ok [OF assms(3)]
proof cases
  case (1 c)
  with assms(1) have "length c = length m + 16" "xchacha_decrypt api k n [] c = Inr m"
    unfolding aead_lawful_def by blast+
  moreover have "b64_std_dec api s = Inr (n @ c)"
    using assms(2) 1(4) by (simp add: b64_lawful_def)
  ultimately show ?thesis
    using 1(1,2) by (simp add: open_blob_def open_defs)
qed

lemma open_seal_with_aad:
  assumes "aead_lawful api" "b64_lawful api" "seal_with_aad api m k a n = Inr s"
  shows "open_with_aad api s k a = Inr m"
  using seal_with_aad_ok [OF assms(3)]
proof cases
  case (1 c)
  with assms(1) have "length c = length m + 16" "xchacha_decrypt api k n a c = Inr m"
    unfolding aead_lawful_def by blast+
  moreover have "b64_std_dec api s = Inr (n @ c)"
    using assms(2) 1(4) by (simp add: b64_lawful_def)
  ultimately show ?thesis
    using 1(1,2) by (simp add: open_with_aad_def open_defs)
qed

lemma kx_keys_mirror:
  assumes "dh_lawful api"
  shows "kx_client_session_keys api (x25519_base api f) f (x25519_base api d) =
    \<lparr>sk_rx = sk_tx (kx_server_session_keys api (x25519_base api d) d (x25519_base api f)),
     sk_tx = sk_rx (kx_server_session_keys api (x25519_base api d) d (x25519_base api f))\<rparr>"
  using assms
  by (simp add: kx_client_session_keys_def kx_server_session_keys_def x25519_shared_def dh_lawful_def Let_def)

lemma ratchet_mirror:
  "ratchet_session_keys api \<lparr>sk_rx = a, sk_tx = b\<rparr> sid False =
    \<lparr>sk_rx = sk_tx (ratchet_session_keys api \<lparr>sk_rx = b, sk_tx = a\<rparr> sid True),
     sk_tx = sk_rx (ratchet_session_keys api \<lparr>sk_rx = b, sk_tx = a\<rparr> sid True)\<rparr>"
proof -
  obtain p q where "(if compare_bytes a b \<noteq> Greater then (a, b) else (b, a)) = (p, q)"
    by (meson surj_pair)
  then show ?thesis
    by (simp only: ratchet_session_keys_def session_keys.simps Let_def sort_keys_swap [of b a]
        prod.case if_True if_False simp_thms)
qed

lemma pct_swap:
  "derive_pairing_confirmation_tag api pid did host dpk fpk a b =
   derive_pairing_confirmation_tag api pid did host dpk fpk b a"
  using sort_keys_swap [of a b]
  by (simp add: derive_pairing_confirmation_tag_def pct_input_def)

lemma kx_seed_ok:
  "kx_seed_keypair api seed = Inr kp \<Longrightarrow>
    public_key kp = x25519_base api (secret_key kp) \<and> secret_key kp = hash32 api seed"
  by (auto simp: kx_seed_keypair_def generic_hash_32_def Let_def split: if_splits)

lemma append_eq_len:
  "length a = length b \<Longrightarrow> a @ xs = b @ ys \<longleftrightarrow> a = b \<and> xs = ys"
  by simp

lemma len_byte_inj:
  "n \<le> 255 \<Longrightarrow> m \<le> 255 \<Longrightarrow> (word_of_nat n :: u8) = word_of_nat m \<longleftrightarrow> n = m"
  by (simp add: word_of_nat_eq_iff take_bit_eq_mod)

lemma as_bytes_inj [simp]: "as_bytes a = as_bytes b \<longleftrightarrow> a = b"
  using bytes_to_string_as_bytes by metis

lemma len_prefixed_inj:
  assumes "length a \<le> 255" "length b \<le> 255"
  shows "word_of_nat (length a) # as_bytes a @ xs = (word_of_nat (length b) :: u8) # as_bytes b @ ys
    \<longleftrightarrow> a = b \<and> xs = ys"
proof
  assume eq: "word_of_nat (length a) # as_bytes a @ xs = (word_of_nat (length b) :: u8) # as_bytes b @ ys"
  then have "length a = length b" using len_byte_inj [OF assms] by simp
  with eq show "a = b \<and> xs = ys" by (simp add: append_eq_len)
qed simp

lemma pct_input_eq:
  assumes "length pid = 16" "length did \<le> 255" "length host \<le> 255"
  shows "pct_input pid did host dpk fpk tx rx = PCT_DOMAIN @ pid @ word_of_nat (length did) # as_bytes did
    @ word_of_nat (length host) # as_bytes host @ dpk @ fpk
    @ (if compare_bytes tx rx \<noteq> Greater then tx @ rx else rx @ tx)"
  using assms by (simp add: pct_input_def push_len_prefixed_def Let_def)

lemma sort_append_swap:
  "(if compare_bytes a b \<noteq> Greater then a @ b else b @ a) =
   (if compare_bytes b a \<noteq> Greater then b @ a else a @ b)"
proof -
  have "(\<lambda>(x, y). x @ y) (if compare_bytes a b \<noteq> Greater then (a, b) else (b, a)) =
      (\<lambda>(x, y). x @ y) (if compare_bytes b a \<noteq> Greater then (b, a) else (a, b))"
    by (simp only: sort_keys_swap [of a b])
  then show ?thesis by (simp only: if_distrib prod.case)
qed

lemma sorted_keys_set:
  assumes "length tx = 32" "length rx = 32" "length tx' = 32" "length rx' = 32"
  shows "(if compare_bytes tx rx \<noteq> Greater then tx @ rx else rx @ tx) =
      (if compare_bytes tx' rx' \<noteq> Greater then tx' @ rx' else rx' @ tx') \<longleftrightarrow> {tx, rx} = {tx', rx'}"
proof
  assume "(if compare_bytes tx rx \<noteq> Greater then tx @ rx else rx @ tx) =
      (if compare_bytes tx' rx' \<noteq> Greater then tx' @ rx' else rx' @ tx')"
  with assms show "{tx, rx} = {tx', rx'}" by (auto simp: append_eq_len split: if_splits)
next
  assume "{tx, rx} = {tx', rx'}"
  then consider "tx = tx' \<and> rx = rx'" | "tx = rx' \<and> rx = tx'" by (auto simp: doubleton_eq_iff)
  then show "(if compare_bytes tx rx \<noteq> Greater then tx @ rx else rx @ tx) =
      (if compare_bytes tx' rx' \<noteq> Greater then tx' @ rx' else rx' @ tx')"
    by cases (simp_all only: sort_append_swap [of rx' tx'])
qed

section \<open>Properties\<close>

text \<open>C1: End-to-end delivery. A daemon and a frontend that exchanged public keys hold mirrored
  session keys, directly after the exchange and after the ratchet of any session, so what one side
  seals with its sending key the other opens with its receiving key; and both compute the same
  pairing confirmation tag.\<close>

theorem end_to_end_delivery:
  assumes "aead_lawful api" "b64_lawful api" "dh_lawful api"
    and "kx_seed_keypair api seed_d = Inr d" "kx_seed_keypair api seed_f = Inr f"
    and "dk = kx_server_session_keys api (public_key d) (secret_key d) (public_key f)"
    and "fk = kx_client_session_keys api (public_key f) (secret_key f) (public_key d)"
    and "(ks, ks') \<in> {(dk, fk), (fk, dk),
        (ratchet_session_keys api dk sid True, ratchet_session_keys api fk sid False),
        (ratchet_session_keys api fk sid False, ratchet_session_keys api dk sid True)}"
    and "seal_blob api msg (sk_tx ks) nonce = Inr blob"
  shows "open_blob api blob (sk_rx ks') = Inr msg
    \<and> derive_pairing_confirmation_tag api pid did host (public_key d) (public_key f) (sk_tx dk) (sk_rx dk)
      = derive_pairing_confirmation_tag api pid did host (public_key d) (public_key f) (sk_tx fk) (sk_rx fk)"
proof -
  have fk: "fk = \<lparr>sk_rx = sk_tx dk, sk_tx = sk_rx dk\<rparr>"
    using kx_seed_ok [OF assms(4)] kx_seed_ok [OF assms(5)] assms(6,7)
      kx_keys_mirror [OF assms(3), of "secret_key f" "secret_key d"] by simp
  have "ratchet_session_keys api fk sid False =
      \<lparr>sk_rx = sk_tx (ratchet_session_keys api dk sid True),
       sk_tx = sk_rx (ratchet_session_keys api dk sid True)\<rparr>"
    using ratchet_mirror [of api "sk_tx dk" "sk_rx dk" sid] by (cases dk) (simp add: fk)
  with assms(8) fk have "sk_tx ks = sk_rx ks'" by auto
  with open_seal_blob [OF assms(1,2,9)] pct_swap [of api pid did host _ _ "sk_tx dk"]
  show ?thesis by (simp add: fk)
qed

text \<open>The confirmation tag commits to the whole pairing: two tags agree only if pairing id,
  daemon id, hostname, both public keys and the pair of session keys agree, or else the hash
  collides on the two inputs. The length prefixes leave no ambiguity.\<close>

theorem confirmation_tag_binds_identity:
  assumes "length pid = 16" "length did \<le> 255" "length host \<le> 255" "length dpk = 32" "length fpk = 32"
    and "length tx = 32" "length rx = 32"
    and "length pid' = 16" "length did' \<le> 255" "length host' \<le> 255" "length dpk' = 32" "length fpk' = 32"
    and "length tx' = 32" "length rx' = 32"
  shows "derive_pairing_confirmation_tag api pid did host dpk fpk tx rx =
      derive_pairing_confirmation_tag api pid' did' host' dpk' fpk' tx' rx' \<longleftrightarrow>
    (pid = pid' \<and> did = did' \<and> host = host' \<and> dpk = dpk' \<and> fpk = fpk' \<and> {tx, rx} = {tx', rx'}) \<or>
    (pct_input pid did host dpk fpk tx rx \<noteq> pct_input pid' did' host' dpk' fpk' tx' rx' \<and>
     hash32 api (pct_input pid did host dpk fpk tx rx) = hash32 api (pct_input pid' did' host' dpk' fpk' tx' rx'))"
proof -
  have "pct_input pid did host dpk fpk tx rx = pct_input pid' did' host' dpk' fpk' tx' rx' \<longleftrightarrow>
      pid = pid' \<and> did = did' \<and> host = host' \<and> dpk = dpk' \<and> fpk = fpk' \<and> {tx, rx} = {tx', rx'}"
    unfolding pct_input_eq [OF assms(1-3)] pct_input_eq [OF assms(8-10)]
    by (simp only: same_append_eq append_eq_len [of pid pid'] append_eq_len [of dpk dpk']
        append_eq_len [of fpk fpk'] assms(1,4,5,8,11,12) len_prefixed_inj [OF assms(2,9)]
        len_prefixed_inj [OF assms(3,10)] sorted_keys_set [OF assms(6,7,13,14)])
  then show ?thesis
    by (auto simp: derive_pairing_confirmation_tag_def generic_hash_32_def)
qed

section \<open>A concrete instance of the primitives\<close>

text \<open>
  Lawful stand-ins for the primitives, to evaluate the model on: base16 letters for both base64
  forms, a cipher that appends a key-dependent tag, and bytewise exclusive-or for the key exchange.
\<close>

definition demo_enc :: "u8 list \<Rightarrow> string" where
  "demo_enc bs = concat (map (\<lambda>b. [char_of (97 + unat b div 16), char_of (97 + unat b mod 16)]) bs)"

fun demo_dec :: "string \<Rightarrow> string + u8 list" where
  "demo_dec [] = Inr []"
| "demo_dec [c] = Inl ''odd length''"
| "demo_dec (c # d # cs) =
    (if 97 \<le> (of_char c :: nat) \<and> (of_char c :: nat) < 113 \<and> 97 \<le> (of_char d :: nat) \<and> (of_char d :: nat) < 113
     then case demo_dec cs of
         Inl e \<Rightarrow> Inl e
       | Inr bs \<Rightarrow> Inr (word_of_nat ((of_char c - 97) * 16 + (of_char d - 97)) # bs)
     else Inl ''bad character'')"

definition demo_tag :: "u8 list \<Rightarrow> u8 list" where
  "demo_tag k = take 16 (k @ replicate 16 0)"

definition demo_api :: crypto_api where
  "demo_api = \<lparr>
     hash32 = (\<lambda>bs. take 32 (rev bs @ replicate 32 7)), hash64 = (\<lambda>bs. take 64 (rev bs @ replicate 64 7)),
     mac32 = (\<lambda>k bs. take 32 (k @ rev bs @ replicate 32 7)),
     xchacha_encrypt = (\<lambda>k n a m. Inr (m @ demo_tag k)),
     xchacha_decrypt = (\<lambda>k n a c. if length c \<ge> 16 \<and> drop (length c - 16) c = demo_tag k
        then Inr (take (length c - 16) c) else Inl ''aead::Error''),
     b64_std_enc = demo_enc, b64_std_dec = demo_dec, b64_url_enc = demo_enc, b64_url_dec = demo_dec,
     x25519 = (\<lambda>a b. map2 (XOR) a b), x25519_base = (\<lambda>a. a), hex_encode = demo_enc, hex_decode = demo_dec\<rparr>"

lemma demo_enc_Nil: "demo_enc [] = []"
  by (simp add: demo_enc_def)

lemma demo_dec_enc: "demo_dec (demo_enc bs) = Inr bs"
proof (induction bs)
  case (Cons b bs)
  have "unat b < 256" using unsigned_less [where ?'a = nat, of b] by simp
  then have "97 + unat b div 16 < 113" "97 + unat b mod 16 < 113" "97 + unat b div 16 < 256" by auto
  moreover have "unat b div 16 * 16 + unat b mod 16 = unat b" by simp
  ultimately show ?case using Cons
    by (simp add: demo_enc_def of_char_of take_bit_eq_mod)
qed (simp add: demo_enc_def)

lemma demo_enc_dec: "demo_dec s = Inr bs \<Longrightarrow> demo_enc bs = s"
proof (induction s arbitrary: bs rule: demo_dec.induct)
  case (3 c d cs)
  then obtain bs' where bs': "demo_dec cs = Inr bs'"
      "bs = word_of_nat ((of_char c - 97) * 16 + (of_char d - 97)) # bs'"
    and range: "97 \<le> (of_char c :: nat)" "(of_char c :: nat) < 113" "97 \<le> (of_char d :: nat)" "(of_char d :: nat) < 113"
    by (auto split: if_splits sum.splits)
  let ?n = "(of_char c - 97) * 16 + (of_char d - 97) :: nat"
  have split: "(x * 16 + y) div 16 = x" "(x * 16 + y) mod 16 = y" if "y < 16" for x y :: nat
    using that by auto
  have n: "?n < 256" "?n div 16 = of_char c - 97" "?n mod 16 = of_char d - 97"
    using range split [of "of_char d - 97" "of_char c - 97"] by auto
  have small: "unat (word_of_nat k :: u8) = k" if "k < 256" for k
    using that by (simp add: unsigned_of_nat take_bit_eq_mod)
  have "demo_enc bs = char_of (97 + ?n div 16) # char_of (97 + ?n mod 16) # demo_enc bs'"
    unfolding bs'(2) demo_enc_def by (simp only: list.map concat.simps append.simps small [OF n(1)])
  with n range 3(1) bs' show ?case by simp
qed (auto simp: demo_enc_def)

lemma demo_enc_no_dot: "CHR ''.'' \<notin> set (demo_enc bs)"
proof -
  have "CHR ''.'' \<noteq> char_of (97 + n)" if "n < 16" for n :: nat
  proof
    assume "CHR ''.'' = char_of (97 + n)"
    then have "of_char CHR ''.'' = (of_char (char_of (97 + n)) :: nat)" by simp
    with that show False by (simp add: of_char_of take_bit_eq_mod)
  qed
  moreover have "unat b div 16 < 16" "unat b mod 16 < 16" for b :: u8
    using unsigned_less [where ?'a = nat, of b] by auto
  ultimately show ?thesis by (auto simp: demo_enc_def)
qed

lemma demo_api_lawful:
  "aead_lawful demo_api" "b64_lawful demo_api" "b64url_lawful demo_api" "mac_lawful demo_api"
  "hash_lawful demo_api" 
proof -
  have "length (demo_tag k) = 16" for k by (simp add: demo_tag_def)
  then show "aead_lawful demo_api" by (auto simp: aead_lawful_def demo_api_def)
qed (auto simp: b64_lawful_def b64url_lawful_def mac_lawful_def hash_lawful_def
    demo_api_def demo_dec_enc demo_enc_dec demo_enc_no_dot demo_enc_Nil)

lemma demo_api_dh: "dh_lawful demo_api"
proof -
  have "map2 (XOR) a b = map2 (XOR) b a" for a b :: "u8 list"
    by (induction a arbitrary: b) (auto simp: zip_Cons1 xor.commute split: list.splits)
  then show ?thesis by (simp add: dh_lawful_def demo_api_def)
qed

definition demo_dk :: session_keys where
  "demo_dk = kx_server_session_keys demo_api (replicate 32 1) (replicate 32 1) (replicate 32 2)"

definition demo_fk :: session_keys where
  "demo_fk = kx_client_session_keys demo_api (replicate 32 2) (replicate 32 2) (replicate 32 1)"

theorem end_to_end_delivery_witness:
  "open_blob demo_api (demo_enc (replicate 24 5 @ [104, 105] @ demo_tag (sk_tx demo_dk))) (sk_rx demo_fk)
      = Inr [104, 105]
    \<and> derive_pairing_confirmation_tag demo_api (replicate 16 9) ''d'' ''h'' (replicate 32 1) (replicate 32 2)
        (sk_tx demo_dk) (sk_rx demo_dk)
      = derive_pairing_confirmation_tag demo_api (replicate 16 9) ''d'' ''h'' (replicate 32 1) (replicate 32 2)
        (sk_tx demo_fk) (sk_rx demo_fk)"
  using end_to_end_delivery [OF demo_api_lawful(1,2) demo_api_dh,
      of "replicate 32 1" "\<lparr>public_key = replicate 32 1, secret_key = replicate 32 1\<rparr>"
        "replicate 32 2" "\<lparr>public_key = replicate 32 2, secret_key = replicate 32 2\<rparr>"
        demo_dk demo_fk demo_dk demo_fk "''s''" "[104, 105]" "replicate 24 5"
        "demo_enc (replicate 24 5 @ [104, 105] @ demo_tag (sk_tx demo_dk))"
        "replicate 16 9" "''d''" "''h''"]
  by (simp add: kx_seed_keypair_def generic_hash_32_def demo_api_def demo_dk_def demo_fk_def
      seal_blob_def aead_encrypt_def aead_cipher_def KEY_BYTES_def NPUB_BYTES_def
      kx_server_session_keys_def kx_kdf_def Let_def)

theorem confirmation_tag_binds_identity_witness:
  "derive_pairing_confirmation_tag demo_api (replicate 16 9) ''d1'' ''h'' (replicate 32 1) (replicate 32 2)
      (replicate 32 3) (replicate 32 4)
    = derive_pairing_confirmation_tag demo_api (replicate 16 9) ''d'' ''1h'' (replicate 32 1) (replicate 32 2)
      (replicate 32 4) (replicate 32 3) \<longleftrightarrow>
    ((replicate 16 9 :: u8 list) = replicate 16 9 \<and> ''d1'' = ''d'' \<and> ''h'' = ''1h''
      \<and> (replicate 32 1 :: u8 list) = replicate 32 1 \<and> (replicate 32 2 :: u8 list) = replicate 32 2
      \<and> {replicate 32 3, replicate 32 4 :: u8 list} = {replicate 32 4, replicate 32 3}) \<or>
    (pct_input (replicate 16 9) ''d1'' ''h'' (replicate 32 1) (replicate 32 2) (replicate 32 3) (replicate 32 4)
      \<noteq> pct_input (replicate 16 9) ''d'' ''1h'' (replicate 32 1) (replicate 32 2) (replicate 32 4) (replicate 32 3)
     \<and> hash32 demo_api (pct_input (replicate 16 9) ''d1'' ''h'' (replicate 32 1) (replicate 32 2) (replicate 32 3) (replicate 32 4))
      = hash32 demo_api (pct_input (replicate 16 9) ''d'' ''1h'' (replicate 32 1) (replicate 32 2) (replicate 32 4) (replicate 32 3)))"
  by (rule confirmation_tag_binds_identity) simp_all

end
