(* ===== verification/Resume_Token.thy ===== *)
theory Resume_Token
  imports Crypto
begin

text \<open>
  Resume tokens (\<open>tp-relay/src/resume_token.rs\<close>): the binary payload codec, and issuing and
  verifying the wire form \<open>base64url(payload).base64url(mac)\<close>. The keyed hash and base64url are
  primitives of \<open>crypto_api\<close>. \<open>now_ms + ttl_ms\<close> is \<open>u64\<close> addition of a release build, which wraps.
\<close>

section \<open>Payload codec\<close>

definition RT_VERSION :: u8 where
  "RT_VERSION = 2"

definition SECRET_MIN_BYTES :: nat where
  "SECRET_MIN_BYTES = 32"

definition DEFAULT_TTL_MS :: u64 where
  "DEFAULT_TTL_MS = 60 * 60000"

definition ROLE_DAEMON :: u8 where
  "ROLE_DAEMON = 0"

definition ROLE_FRONTEND :: u8 where
  "ROLE_FRONTEND = 1"

datatype resume_payload =
    RDaemon (rp_daemon_id: string) (rp_expires_at: u64)
  | RFrontend (rp_daemon_id: string) (rp_frontend_id: string) (rp_expires_at: u64)

definition lp_string :: "string \<Rightarrow> u8 list" where
  "lp_string s = u32_to_be_bytes (word_of_nat (length (as_bytes s))) @ as_bytes s"

definition encode_payload :: "resume_payload \<Rightarrow> u8 list" where
  "encode_payload p =
    (let (role_byte, daemon_id, frontend_id_str, expires_at) =
           (case p of
              RDaemon d e \<Rightarrow> (ROLE_DAEMON, d, '''', e)
            | RFrontend d f e \<Rightarrow> (ROLE_FRONTEND, d, f, e))
     in [RT_VERSION] @ [role_byte] @ lp_string daemon_id @ lp_string frontend_id_str
        @ u64_to_be_bytes expires_at)"

definition read_lp_string :: "u8 list \<Rightarrow> nat \<Rightarrow> (string \<times> nat) option" where
  "read_lp_string b offset =
    (if offset + 4 > length b then None
     else let len = unat (u32_from_be_bytes (take 4 (drop offset b)));
              start = offset + 4;
              end' = start + len
          in if end' > length b then None
             else case from_utf8 (take len (drop start b)) of
                 None \<Rightarrow> None
               | Some s \<Rightarrow> Some (s, end'))"

definition decode_payload :: "u8 list \<Rightarrow> resume_payload option" where
  "decode_payload b =
    (if length b < 1 then None
     else let version = b ! 0 in
     if version \<noteq> RT_VERSION then None
     else if length b < 2 then None
     else let role_byte = b ! 1 in
     case read_lp_string b 2 of
       None \<Rightarrow> None
     | Some (daemon_id, cur) \<Rightarrow>
         (case read_lp_string b cur of
            None \<Rightarrow> None
          | Some (frontend_id_str, cur) \<Rightarrow>
              if cur + 8 \<noteq> length b then None
              else let expires_at = u64_from_be_bytes (take 8 (drop cur b)) in
                if role_byte = ROLE_DAEMON then Some (RDaemon daemon_id expires_at)
                else if role_byte = ROLE_FRONTEND then Some (RFrontend daemon_id frontend_id_str expires_at)
                else None))"

section \<open>The signer\<close>

record resume_token_signer =
  rs_key :: "u8 list"
  rs_ephemeral :: bool
  rs_ttl_ms :: u64

text \<open>The random bytes of \<open>OsRng\<close> are an argument.\<close>

definition resolve_key :: "u8 list option \<Rightarrow> u8 list \<Rightarrow> u8 list \<times> bool" where
  "resolve_key provided random =
    (case provided of
       Some bytes \<Rightarrow> if length bytes \<ge> SECRET_MIN_BYTES then (take 32 bytes, False) else (random, True)
     | None \<Rightarrow> (random, True))"

definition signer_new :: "u8 list option \<Rightarrow> u64 option \<Rightarrow> u8 list \<Rightarrow> resume_token_signer" where
  "signer_new secret ttl_ms random =
    (let (key, ephemeral) = resolve_key secret random
     in \<lparr>rs_key = key, rs_ephemeral = ephemeral,
         rs_ttl_ms = (case ttl_ms of Some t \<Rightarrow> t | None \<Rightarrow> DEFAULT_TTL_MS)\<rparr>)"

text \<open>The value of \<open>TP_RELAY_RESUME_SECRET\<close>, empty if unset, is an argument.\<close>

definition signer_from_env :: "string \<Rightarrow> u8 list \<Rightarrow> resume_token_signer" where
  "signer_from_env env_val random =
    (let secret = (if length env_val \<ge> SECRET_MIN_BYTES then Some (as_bytes env_val) else None);
         (key, ephemeral) = resolve_key secret random
     in \<lparr>rs_key = key, rs_ephemeral = ephemeral, rs_ttl_ms = DEFAULT_TTL_MS\<rparr>)"

fun with_expiry :: "resume_payload \<Rightarrow> u64 \<Rightarrow> resume_payload" where
  "with_expiry (RDaemon d _) e = RDaemon d e"
| "with_expiry (RFrontend d f _) e = RFrontend d f e"

definition issue ::
  "crypto_api \<Rightarrow> resume_token_signer \<Rightarrow> resume_payload \<Rightarrow> u64 \<Rightarrow> u64 option \<Rightarrow> string \<times> u64" where
  "issue api sg payload now_ms expires_at_override =
    (let expires_at = (case expires_at_override of Some e \<Rightarrow> e | None \<Rightarrow> now_ms + rs_ttl_ms sg);
         body = encode_payload (with_expiry payload expires_at);
         mac = mac32 api (rs_key sg) body
     in (b64_url_enc api body @ ''.'' @ b64_url_enc api mac, expires_at))"

text \<open>\<open>str::rfind\<close>.\<close>

definition rfind :: "char \<Rightarrow> string \<Rightarrow> nat option" where
  "rfind c s = (if c \<in> set s then Some (length s - 1 - length (takeWhile (\<lambda>x. x \<noteq> c) (rev s))) else None)"

definition verify :: "crypto_api \<Rightarrow> resume_token_signer \<Rightarrow> string \<Rightarrow> u64 \<Rightarrow> resume_payload option" where
  "verify api sg token now_ms =
    (case rfind (CHR ''.'') token of
       None \<Rightarrow> None
     | Some dot \<Rightarrow>
         if dot = 0 then None
         else
           (case (b64_url_dec api (take dot token), b64_url_dec api (drop (dot + 1) token)) of
              (Inr body, Inr sig) \<Rightarrow>
                let expected = mac32 api (rs_key sg) body in
                if length sig \<noteq> length expected then None
                else if sig \<noteq> expected then None
                else
                  (case decode_payload body of
                     None \<Rightarrow> None
                   | Some payload \<Rightarrow>
                       if rp_expires_at payload \<le> now_ms then None
                       else if rp_daemon_id payload = [] then None
                       else (case payload of
                               RFrontend _ frontend_id _ \<Rightarrow> if frontend_id = [] then None else Some payload
                             | RDaemon _ _ \<Rightarrow> Some payload))
            | _ \<Rightarrow> None))"

section \<open>Lemmas on the codec\<close>

definition lp_ok :: "string \<Rightarrow> bool" where
  "lp_ok s \<longleftrightarrow> rust_string s \<and> length s < 2 ^ 32"

fun payload_ok :: "resume_payload \<Rightarrow> bool" where
  "payload_ok (RDaemon d e) = lp_ok d"
| "payload_ok (RFrontend d f e) = (lp_ok d \<and> lp_ok f)"

lemma read_lp_string_at:
  assumes "lp_ok s"
  shows "read_lp_string (pre @ lp_string s @ post) (length pre) = Some (s, length pre + 4 + length s)"
  using assms
  by (simp add: read_lp_string_def lp_string_def lp_ok_def Let_def unat_word_of_nat_u32)

lemma read_lp_string_inv:
  assumes "read_lp_string b off = Some (s, off')"
  shows "off' = off + 4 + length s \<and> off' \<le> length b \<and> take (4 + length s) (drop off b) = lp_string s"
proof -
  let ?len = "unat (u32_from_be_bytes (take 4 (drop off b)))"
  have b: "off + 4 + ?len \<le> length b" "off' = off + 4 + ?len"
      "utf8_valid (take ?len (drop (off + 4) b))" "s = bytes_to_string (take ?len (drop (off + 4) b))"
    using assms by (auto simp: read_lp_string_def Let_def from_utf8_def split: if_splits option.splits)
  then have len: "length s = ?len" by (simp add: bytes_to_string_def)
  have "u32_to_be_bytes (word_of_nat (length s)) = take 4 (drop off b)"
    using b(1) by (simp add: len u32_from_to_be_bytes)
  moreover have "as_bytes s = take (length s) (drop 4 (drop off b))"
    unfolding len drop_drop by (simp add: b(4) add.commute)
  ultimately show ?thesis
    using b(1,2) by (simp add: lp_string_def len take_add)
qed

lemma decode_encode_payload:
  assumes "payload_ok p"
  shows "decode_payload (encode_payload p) = Some p"
proof -
  have read: "decode_payload ([RT_VERSION, r] @ lp_string d @ lp_string f @ u64_to_be_bytes e) =
      (if r = ROLE_DAEMON then Some (RDaemon d e) else if r = ROLE_FRONTEND then Some (RFrontend d f e) else None)"
    if "lp_ok d" "lp_ok f" for r d f e
  proof -
    have "read_lp_string ([RT_VERSION, r] @ lp_string d @ lp_string f @ u64_to_be_bytes e) 2 =
        Some (d, 2 + 4 + length d)"
      using read_lp_string_at [OF that(1), of "[RT_VERSION, r]" "lp_string f @ u64_to_be_bytes e"]
      by (simp add: numeral_2_eq_2)
    moreover have "read_lp_string ([RT_VERSION, r] @ lp_string d @ lp_string f @ u64_to_be_bytes e) (2 + 4 + length d) =
        Some (f, 2 + 4 + length d + 4 + length f)"
      using read_lp_string_at [OF that(2), of "[RT_VERSION, r] @ lp_string d" "u64_to_be_bytes e"]
      by (simp add: lp_string_def)
    moreover have "drop (10 + length d + length f) ([RT_VERSION, r] @ lp_string d @ lp_string f @ u64_to_be_bytes e) =
        u64_to_be_bytes e"
      by (simp add: lp_string_def drop_Cons')
    ultimately show ?thesis
      by (simp add: decode_payload_def Let_def lp_string_def)
  qed
  have "lp_ok ''''" by (simp add: lp_ok_def rust_string_def as_bytes_def)
  with assms read show ?thesis
    by (cases p) (auto simp: encode_payload_def ROLE_DAEMON_def ROLE_FRONTEND_def)
qed

lemma decode_payload_inv:
  assumes "decode_payload b = Some p"
  shows "\<exists>r f. b = [RT_VERSION, r] @ lp_string (rp_daemon_id p) @ lp_string f @ u64_to_be_bytes (rp_expires_at p)
    \<and> (case p of RDaemon _ _ \<Rightarrow> r = ROLE_DAEMON | RFrontend _ f' _ \<Rightarrow> r = ROLE_FRONTEND \<and> f' = f)"
proof -
  obtain d c1 f c2 where r: "read_lp_string b 2 = Some (d, c1)" "read_lp_string b c1 = Some (f, c2)"
    and b: "2 \<le> length b" "b ! 0 = RT_VERSION" "c2 + 8 = length b"
    and p: "p = RDaemon d (u64_from_be_bytes (take 8 (drop c2 b))) \<and> b ! 1 = ROLE_DAEMON
       \<or> p = RFrontend d f (u64_from_be_bytes (take 8 (drop c2 b))) \<and> b ! 1 = ROLE_FRONTEND"
    using assms by (auto simp: decode_payload_def Let_def split: if_splits option.splits)
  note i = read_lp_string_inv [OF r(1)] read_lp_string_inv [OF r(2)]
  have "b = take 2 b @ take (4 + length d) (drop 2 b) @ take (4 + length f) (drop c1 b) @ drop c2 b"
    using i by (metis append_take_drop_id drop_drop add.commute add.left_commute)
  moreover have "take 2 b = [RT_VERSION, b ! 1]"
    using b(1,2) by (cases b; cases "tl b") (auto simp: numeral_2_eq_2)
  moreover have "u64_to_be_bytes (rp_expires_at p) = drop c2 b"
    using p b(3) by (auto simp: u64_from_to_be_bytes)
  ultimately show ?thesis
    using p i by (intro exI [of _ "b ! 1"] exI [of _ f]) auto
qed

lemma rfind_last:
  assumes "c \<notin> set b"
  shows "rfind c (a @ [c] @ b) = Some (length a)"
proof -
  have "takeWhile (\<lambda>x. x \<noteq> c) (rev b @ c # rev a) = rev b"
    using assms by (subst takeWhile_append2) auto
  then show ?thesis by (simp add: rfind_def)
qed

lemma rfind_Some:
  assumes "rfind c s = Some n"
  shows "s = take n s @ [c] @ drop (n + 1) s" "c \<notin> set (drop (n + 1) s)"
proof -
  from assms have "c \<in> set s" by (auto simp: rfind_def split: if_splits)
  then obtain a b where s: "s = a @ c # b" "c \<notin> set b" by (metis split_list_last)
  with assms rfind_last [OF s(2), of a] show "s = take n s @ [c] @ drop (n + 1) s" "c \<notin> set (drop (n + 1) s)"
    by auto
qed

lemma b64url_nonempty: "b64url_lawful api \<Longrightarrow> bs \<noteq> [] \<Longrightarrow> b64_url_enc api bs \<noteq> []"
  unfolding b64url_lawful_def by (metis sum.inject(2))

lemma encode_payload_nonempty: "encode_payload p \<noteq> []"
  by (cases p) (simp_all add: encode_payload_def)

text \<open>\<open>verify\<close> on a token in wire form, in one equation.\<close>

lemma verify_wire:
  assumes "b64url_lawful api" "body \<noteq> []"
  shows "verify api sg (b64_url_enc api body @ CHR ''.'' # b64_url_enc api sig) now =
    (if sig \<noteq> mac32 api (rs_key sg) body then None
     else case decode_payload body of
         None \<Rightarrow> None
       | Some p \<Rightarrow> if rp_expires_at p \<le> now \<or> rp_daemon_id p = [] \<or> (\<exists>d e. p = RFrontend d [] e)
           then None else Some p)"
proof -
  have "rfind (CHR ''.'') (b64_url_enc api body @ CHR ''.'' # b64_url_enc api sig) = Some (length (b64_url_enc api body))"
    using assms(1) rfind_last [of "CHR ''.''" "b64_url_enc api sig" "b64_url_enc api body"]
    by (simp add: b64url_lawful_def)
  moreover have "b64_url_dec api (b64_url_enc api bs) = Inr bs" for bs
    using assms(1) by (simp add: b64url_lawful_def)
  ultimately show ?thesis
    using b64url_nonempty [OF assms]
    by (auto simp: verify_def Let_def split: option.splits resume_payload.splits)
qed

lemma verify_issue:
  assumes "b64url_lawful api" "payload_ok p" "rp_daemon_id p \<noteq> []" "\<forall>d e. p \<noteq> RFrontend d [] e"
    and "issue api sg p now override = (token, expires)"
  shows "expires = (case override of Some e \<Rightarrow> e | None \<Rightarrow> now + rs_ttl_ms sg)
    \<and> verify api sg token later = (if later < expires then Some (with_expiry p expires) else None)"
proof -
  let ?body = "encode_payload (with_expiry p expires)"
  have e: "expires = (case override of Some e \<Rightarrow> e | None \<Rightarrow> now + rs_ttl_ms sg)"
    and t: "token = b64_url_enc api ?body @ ''.'' @ b64_url_enc api (mac32 api (rs_key sg) ?body)"
    using assms(5) by (auto simp: issue_def Let_def)
  have "payload_ok (with_expiry p expires)" using assms(2) by (cases p) auto
  with decode_encode_payload have d: "decode_payload ?body = Some (with_expiry p expires)" by blast
  have "rp_expires_at (with_expiry p expires) = expires" "rp_daemon_id (with_expiry p expires) \<noteq> []"
      "\<forall>d e. with_expiry p expires \<noteq> RFrontend d [] e"
    using assms(3,4) by (cases p; auto)+
  with e d show ?thesis
    by (simp add: t verify_wire [OF assms(1) encode_payload_nonempty] not_le [symmetric])
qed

section \<open>Properties\<close>

text \<open>C17: A resume token verifies, to exactly the identity it was issued for, strictly before its
  expiry and never from then on; the expiry is the override or the issue time plus the TTL in
  \<open>u64\<close> arithmetic.\<close>

theorem issued_token_verifies_until_expiry:
  assumes "b64url_lawful api" "payload_ok p" "rp_daemon_id p \<noteq> []" "\<forall>d e. p \<noteq> RFrontend d [] e"
    and "issue api sg p now override = (token, expires)"
  shows "expires = (case override of Some e \<Rightarrow> e | None \<Rightarrow> now + rs_ttl_ms sg)
    \<and> verify api sg token later = (if later < expires then Some (with_expiry p expires) else None)"
  using verify_issue [OF assms] .

theorem issued_token_verifies_until_expiry_witness:
  "(1005 :: u64) = (case None of Some e \<Rightarrow> e | None \<Rightarrow> 1000 + rs_ttl_ms (signer_new None (Some 5) [1, 2]))
    \<and> verify demo_api (signer_new None (Some 5) [1, 2])
        (fst (issue demo_api (signer_new None (Some 5) [1, 2]) (RFrontend ''d'' ''f'' 0) 1000 None)) 1004
      = (if 1004 < (1005 :: u64) then Some (with_expiry (RFrontend ''d'' ''f'' 0) 1005) else None)"
proof (rule issued_token_verifies_until_expiry [OF demo_api_lawful(3)])
  show "payload_ok (RFrontend ''d'' ''f'' 0)"
    by (simp add: lp_ok_def rust_string_def as_bytes_def)
  show "issue demo_api (signer_new None (Some 5) [1, 2]) (RFrontend ''d'' ''f'' 0) 1000 None =
      (fst (issue demo_api (signer_new None (Some 5) [1, 2]) (RFrontend ''d'' ''f'' 0) 1000 None), 1005)"
    by (simp add: issue_def Let_def signer_new_def resolve_key_def)
qed simp_all

text \<open>Whatever string a client presents, if it is accepted then it is the wire form of a body
  carrying this signer's MAC, it has not expired, and it names a daemon; a frontend token is
  moreover byte for byte the one \<open>issue\<close> produces for the identity it yields.\<close>

theorem accepted_tokens_are_signed:
  assumes "b64url_lawful api" "verify api sg token now = Some p"
  shows "(\<exists>body. token = b64_url_enc api body @ ''.'' @ b64_url_enc api (mac32 api (rs_key sg) body)
      \<and> decode_payload body = Some p)
    \<and> now < rp_expires_at p \<and> rp_daemon_id p \<noteq> []
    \<and> (\<forall>d f e. p = RFrontend d f e \<longrightarrow>
        f \<noteq> [] \<and> token = fst (issue api sg p now (Some (rp_expires_at p))))"
proof -
  obtain dot body sig where dot: "rfind (CHR ''.'') token = Some dot" "dot \<noteq> 0"
    and dec: "b64_url_dec api (take dot token) = Inr body" "b64_url_dec api (drop (dot + 1) token) = Inr sig"
    using assms(2) by (auto simp: verify_def split: option.splits if_splits sum.splits)
  have enc: "b64_url_enc api body = take dot token" "b64_url_enc api sig = drop (dot + 1) token"
    using assms(1) dec by (auto simp: b64url_lawful_def)
  have tok: "token = b64_url_enc api body @ ''.'' @ b64_url_enc api sig"
    using rfind_Some(1) [OF dot(1)] by (simp add: enc)
  have "body \<noteq> []" using enc(1) dot(2) assms(1) tok by (auto simp: b64url_lawful_def)
  then have v: "sig = mac32 api (rs_key sg) body" "decode_payload body = Some p" "now < rp_expires_at p"
      "rp_daemon_id p \<noteq> []" "\<forall>d e. p \<noteq> RFrontend d [] e"
    using assms(2) verify_wire [OF assms(1), of body sg sig now]
    by (auto simp: tok split: if_splits option.splits)
  moreover have "body = encode_payload p" if "p = RFrontend d f e" for d f e
    using decode_payload_inv [OF v(2)] that by (auto simp: encode_payload_def)
  ultimately show ?thesis
    using tok by (auto simp: issue_def Let_def)
qed

theorem accepted_tokens_are_signed_witness:
  "\<exists>body. fst (issue demo_api (signer_new None None [1]) (RFrontend ''d'' ''f'' 0) 1000 (Some 2000)) =
        b64_url_enc demo_api body @ ''.'' @ b64_url_enc demo_api (mac32 demo_api (rs_key (signer_new None None [1])) body)
      \<and> decode_payload body = Some (RFrontend ''d'' ''f'' 2000)"
proof -
  have "payload_ok (RFrontend ''d'' ''f'' 2000)"
    by (simp add: lp_ok_def rust_string_def as_bytes_def)
  then have "verify demo_api (signer_new None None [1])
      (fst (issue demo_api (signer_new None None [1]) (RFrontend ''d'' ''f'' 0) 1000 (Some 2000))) 1000 =
      Some (RFrontend ''d'' ''f'' 2000)"
    by (simp add: issue_def Let_def verify_wire [OF demo_api_lawful(3) encode_payload_nonempty]
        decode_encode_payload)
  from accepted_tokens_are_signed [OF demo_api_lawful(3) this] show ?thesis by blast
qed

end
