(* ===== verification/Handshake.thy ===== *)
theory Handshake
  imports Messages Registry Resume_Token
begin

text \<open>
  The handshake handlers (\<open>tp-relay/src/handshake.rs\<close>): registration, authentication, resumption
  and the merged \<open>relay.hello\<close>, over the registry and the token signer. Each returns the reply and
  the registry it leaves; the reply's \<open>resumeExpiresAt\<close> is the expiry cast to a double.
\<close>

section \<open>The handlers\<close>

definition build_resume_payload :: "string \<Rightarrow> bool \<Rightarrow> string option \<Rightarrow> resume_payload" where
  "build_resume_payload daemon_id is_daemon frontend_id =
    (if is_daemon then RDaemon daemon_id 0
     else RFrontend daemon_id (case frontend_id of Some f \<Rightarrow> f | None \<Rightarrow> '''') 0)"

definition handle_register ::
  "string \<Rightarrow> string \<Rightarrow> string \<Rightarrow> u64 \<Rightarrow> registry \<Rightarrow> relay_server_message \<times> registry" where
  "handle_register daemon_id token proof now_ms r =
    (case registry_handle_register daemon_id token proof now_ms r of
       Inr r' \<Rightarrow> (SRegisterOk daemon_id, r')
     | Inl reason \<Rightarrow> (SRegisterErr reason, r))"

definition auth_ok_reply ::
  "crypto_api \<Rightarrow> resume_token_signer \<Rightarrow> resume_payload \<Rightarrow> u64 \<Rightarrow> bool \<Rightarrow> relay_server_message" where
  "auth_ok_reply api sg payload now_ms resumed =
    (let (resume_token, expires_at) = issue api sg payload now_ms None
     in SAuthOk \<lparr>ao_daemon_id = rp_daemon_id payload, ao_resume_token = Some resume_token,
          ao_resume_expires_at = Some (u64_as_f64 expires_at), ao_resumed = Some resumed\<rparr>)"

definition handle_auth ::
  "crypto_api \<Rightarrow> string \<Rightarrow> string \<Rightarrow> bool \<Rightarrow> string option \<Rightarrow> u64 \<Rightarrow> registry \<Rightarrow> resume_token_signer
    \<Rightarrow> relay_server_message \<times> registry" where
  "handle_auth api daemon_id token is_daemon frontend_id now_ms r sg =
    (if \<not> is_daemon \<and> (frontend_id = None \<or> frontend_id = Some '''')
     then (SAuthErr ''frontendId is required for role=frontend'', r)
     else case registry_handle_auth daemon_id token is_daemon now_ms r of
         Inr r' \<Rightarrow> (auth_ok_reply api sg (build_resume_payload daemon_id is_daemon frontend_id) now_ms False, r')
       | Inl reason \<Rightarrow> (SAuthErr reason, r))"

fun rp_is_daemon :: "resume_payload \<Rightarrow> bool" where
  "rp_is_daemon (RDaemon _ _) = True"
| "rp_is_daemon (RFrontend _ _ _) = False"

fun rp_frontend_opt :: "resume_payload \<Rightarrow> string option" where
  "rp_frontend_opt (RDaemon _ _) = None"
| "rp_frontend_opt (RFrontend _ f _) = Some f"

definition handle_auth_resume ::
  "crypto_api \<Rightarrow> string \<Rightarrow> u64 \<Rightarrow> registry \<Rightarrow> resume_token_signer
    \<Rightarrow> (relay_server_message \<times> resume_payload option) \<times> registry" where
  "handle_auth_resume api token now_ms r sg =
    (case verify api sg token now_ms of
       None \<Rightarrow> ((SAuthErr ''Resume token invalid or expired'', None), r)
     | Some payload \<Rightarrow>
         (case registry_handle_auth_resume (rp_daemon_id payload) (rp_is_daemon payload) now_ms r of
            Inl reason \<Rightarrow> ((SAuthErr reason, None), r)
          | Inr r' \<Rightarrow>
              ((auth_ok_reply api sg (build_resume_payload (rp_daemon_id payload) (rp_is_daemon payload)
                  (rp_frontend_opt payload)) now_ms True, Some payload), r')))"

text \<open>
  \<open>handle_hello\<close> also counts version mismatches in a global \<open>AtomicU64\<close>; \<open>show_f64\<close> renders the
  double \<open>v\<close> for the error text.
\<close>

definition handle_hello ::
  "crypto_api \<Rightarrow> (f64 \<Rightarrow> string) \<Rightarrow> string \<Rightarrow> string \<Rightarrow> string option \<Rightarrow> bool \<Rightarrow> string option \<Rightarrow> f64 \<Rightarrow> u64
    \<Rightarrow> registry \<Rightarrow> resume_token_signer \<Rightarrow> u64 \<Rightarrow> (relay_server_message \<times> registry) \<times> u64" where
  "handle_hello api show_f64 daemon_id token proof is_daemon frontend_id v now_ms r sg mismatches =
    (if f64_lt v (F64 2 0)
     then ((SAuthErr (''relay.hello requires v>=2 (got '' @ show_f64 v @ '')''), r), mismatches + 1)
     else if \<not> is_daemon \<and> (frontend_id = None \<or> frontend_id = Some '''')
     then ((SAuthErr ''frontendId is required for role=frontend'', r), mismatches)
     else
       (case (case proof of
                Some p \<Rightarrow> registry_handle_register daemon_id token p now_ms r
              | None \<Rightarrow> Inr r) of
          Inl reason \<Rightarrow> ((SAuthErr reason, r), mismatches)
        | Inr r1 \<Rightarrow>
            (case registry_handle_auth daemon_id token is_daemon now_ms r1 of
               Inl reason \<Rightarrow> ((SAuthErr reason, r1), mismatches)
             | Inr r2 \<Rightarrow>
                 ((auth_ok_reply api sg (build_resume_payload daemon_id is_daemon frontend_id) now_ms False, r2),
                  mismatches))))"

section \<open>Lemmas\<close>

lemma handle_auth_ok:
  assumes "handle_auth api d t b fid now r sg = (SAuthOk ok, r')"
  shows "registry_handle_auth d t b now r = Inr r'"
    "\<not> b \<Longrightarrow> \<exists>f. fid = Some f \<and> f \<noteq> []"
    "ao_resume_token ok = Some (fst (issue api sg (build_resume_payload d b fid) now None))"
    "ao_daemon_id ok = d"
  using assms
  by (auto simp: handle_auth_def auth_ok_reply_def build_resume_payload_def issue_def Let_def
      split: if_splits sum.splits option.splits)

lemma auth_resume_none:
  "fst (handle_auth_resume api t now r sg) = (m, None) \<Longrightarrow> snd (handle_auth_resume api t now r sg) = r"
  by (auto simp: handle_auth_resume_def split: option.splits sum.splits)

section \<open>Properties\<close>

text \<open>C18: Resumption restores the identity that authenticated and nothing more. The token in an
  \<open>auth.ok\<close> reply, presented to any later registry, succeeds exactly if it has not expired and the
  daemon id is still registered, and then yields the same daemon id, role and frontend id; on
  failure the registry is unchanged.\<close>

theorem resume_restores_identity:
  assumes "b64url_lawful api" "handle_auth api d t is_daemon fid now r sg = (SAuthOk ok, r1)"
    and "lp_ok d" "d \<noteq> []" "\<forall>f. fid = Some f \<longrightarrow> lp_ok f"
    and "ao_resume_token ok = Some token"
    and "handle_auth_resume api token later r2 sg = ((reply, who), r3)"
  shows "who = (if later < now + rs_ttl_ms sg \<and> hm_contains (registrations r2) d
      then Some (with_expiry (build_resume_payload d is_daemon fid) (now + rs_ttl_ms sg)) else None)
    \<and> (\<forall>p. who = Some p \<longrightarrow> rp_daemon_id p = d \<and> rp_is_daemon p = is_daemon
        \<and> rp_frontend_opt p = (if is_daemon then None else fid)
        \<and> (\<exists>ok'. reply = SAuthOk ok' \<and> ao_daemon_id ok' = d))
    \<and> (who = None \<longrightarrow> r3 = r2 \<and> (\<exists>e. reply = SAuthErr e))"
proof -
  note ok = handle_auth_ok [OF assms(2)]
  let ?p = "build_resume_payload d is_daemon fid"
  have p: "payload_ok ?p" "rp_daemon_id ?p = d" "\<forall>d e. ?p \<noteq> RFrontend d [] e"
      "rp_is_daemon ?p = is_daemon" "rp_frontend_opt ?p = (if is_daemon then None else fid)"
    using ok(2) assms(3,5) by (auto simp: build_resume_payload_def)
  have "rp_daemon_id (with_expiry ?p e) = d" "rp_is_daemon (with_expiry ?p e) = is_daemon"
      "rp_frontend_opt (with_expiry ?p e) = (if is_daemon then None else fid)" for e
    using p by (cases ?p; simp)+
  moreover have "verify api sg token later =
      (if later < now + rs_ttl_ms sg then Some (with_expiry ?p (now + rs_ttl_ms sg)) else None)"
    using verify_issue [OF assms(1) p(1) _ p(3), of sg now None token] assms(4,6) ok(3) p(2)
    by (auto simp: issue_def Let_def)
  ultimately show ?thesis
    using assms(7)
    by (auto simp: handle_auth_resume_def registry_handle_auth_resume_def auth_ok_reply_def
        build_resume_payload_def Let_def split: if_splits prod.splits)
qed

theorem resume_restores_identity_witness:
  "\<exists>reply r3. handle_auth_resume demo_api
      (fst (issue demo_api (signer_new None (Some 5) [1]) (RFrontend ''d'' ''f'' 0) 1000 None)) 1004
      demo_registry (signer_new None (Some 5) [1]) = ((reply, Some (RFrontend ''d'' ''f'' 1005)), r3)"
proof -
  let ?sg = "signer_new None (Some 5) [1]"
  let ?tok = "fst (issue demo_api ?sg (RFrontend ''d'' ''f'' 0) 1000 None)"
  obtain reply who r3 where res: "handle_auth_resume demo_api ?tok 1004 demo_registry ?sg = ((reply, who), r3)"
    by (metis prod.exhaust)
  have ok: "handle_auth demo_api ''d'' ''t'' False (Some ''f'') 1000 demo_registry ?sg =
      (SAuthOk \<lparr>ao_daemon_id = ''d'', ao_resume_token = Some ?tok,
         ao_resume_expires_at = Some (u64_as_f64 1005), ao_resumed = Some False\<rparr>, demo_registry)"
    by (simp add: handle_auth_def registry_handle_auth_def auth_ok_reply_def build_resume_payload_def
        issue_def Let_def signer_new_def resolve_key_def upsert_daemon_state_def seed_state_def
        hm_or_insert_def demo_registry_def)
  have lp: "lp_ok ''d''" "\<forall>f. Some ''f'' = Some f \<longrightarrow> lp_ok f"
    by (simp_all add: lp_ok_def rust_string_def as_bytes_def)
  have "who = Some (RFrontend ''d'' ''f'' 1005)"
    using resume_restores_identity [OF demo_api_lawful(3) ok lp(1) _ lp(2) _ res]
    by (simp add: signer_new_def resolve_key_def demo_registry_def build_resume_payload_def)
  with res show ?thesis by blast
qed

end
