(* ===== verification/Push_Seal.thy ===== *)
theory Push_Seal
  imports Crypto
begin

text \<open>
  The push-token sealer (\<open>tp-relay/src/push_seal.rs\<close>): sealing a device token under a versioned
  key so that a daemon can hold it without reading it, and unsealing it again, also one key
  rotation later. The key cache behind its mutex is part of the sealer's state; environment
  variables (empty if unset) and random bytes are arguments.
\<close>

section \<open>Data and operations\<close>

definition BLOB_PREFIX :: string where
  "BLOB_PREFIX = ''tpps1.''"

definition SECRET_MIN_CHARS :: nat where
  "SECRET_MIN_CHARS = 32"

definition DEFAULT_VERSION :: u32 where
  "DEFAULT_VERSION = 1"

datatype unseal_result = UnsealOk string | Legacy | ParseError | UnsealFailed

record push_sealer =
  ps_current_secret :: "u8 list"
  ps_prev_secret :: "u8 list option"
  ps_version :: u32
  ps_ephemeral :: bool
  ps_key_cache :: "(u32, u8 list) hash_map"

definition sealer_version :: "u32 option \<Rightarrow> string \<Rightarrow> u32" where
  "sealer_version version env_version =
    (case version of
       Some v \<Rightarrow> if v > 0 then v else DEFAULT_VERSION
     | None \<Rightarrow>
         if env_version = [] then DEFAULT_VERSION
         else case parse_uint (2 ^ 32 - 1) env_version of
             Some n \<Rightarrow> if word_of_nat n > (0 :: u32) then word_of_nat n else DEFAULT_VERSION
           | None \<Rightarrow> DEFAULT_VERSION)"

definition sealer_new ::
  "string option \<Rightarrow> string option \<Rightarrow> u32 option \<Rightarrow> string \<Rightarrow> string \<Rightarrow> string \<Rightarrow> u8 list \<Rightarrow> push_sealer" where
  "sealer_new secret secret_prev version env_secret env_prev env_version random =
    (let provided = (case secret of Some s \<Rightarrow> s | None \<Rightarrow> env_secret);
         (current_secret, ephemeral) =
           (if length provided \<ge> SECRET_MIN_CHARS then (as_bytes provided, False) else (random, True));
         raw = (case secret_prev of
                  Some s \<Rightarrow> Some s
                | None \<Rightarrow> if env_prev = [] then None else Some env_prev);
         prev_secret = (case raw of
                          Some s \<Rightarrow> if length s \<ge> SECRET_MIN_CHARS then Some (as_bytes s) else None
                        | None \<Rightarrow> None)
     in \<lparr>ps_current_secret = current_secret, ps_prev_secret = prev_secret,
         ps_version = sealer_version version env_version, ps_ephemeral = ephemeral,
         ps_key_cache = hm_empty\<rparr>)"

definition blob_prefix :: "u32 \<Rightarrow> string" where
  "blob_prefix version = BLOB_PREFIX @ show_nat (unat version)"

definition raw_secret :: "push_sealer \<Rightarrow> u32 \<Rightarrow> u8 list option" where
  "raw_secret ps version =
    (if version = ps_version ps then Some (ps_current_secret ps)
     else if version = ps_version ps - 1 \<and> ps_version ps > 0 \<and> ps_prev_secret ps \<noteq> None
     then ps_prev_secret ps
     else None)"

definition get_key :: "crypto_api \<Rightarrow> push_sealer \<Rightarrow> u32 \<Rightarrow> u8 list option \<times> push_sealer" where
  "get_key api ps version =
    (case hm_get (ps_key_cache ps) version of
       Some key \<Rightarrow> (Some key, ps)
     | None \<Rightarrow>
         (case raw_secret ps version of
            None \<Rightarrow> (None, ps)
          | Some raw \<Rightarrow>
              let key = derive_push_seal_key api raw
              in (Some key, ps\<lparr>ps_key_cache := hm_insert version key (ps_key_cache ps)\<rparr>)))"

definition ps_seal :: "crypto_api \<Rightarrow> push_sealer \<Rightarrow> string \<Rightarrow> u8 list \<Rightarrow> (string + string) \<times> push_sealer" where
  "ps_seal api ps token nonce =
    (case get_key api ps (ps_version ps) of
       (None, ps') \<Rightarrow> (Inl ''PushSealer: could not derive current key'', ps')
     | (Some key, ps') \<Rightarrow>
         let prefix = blob_prefix (ps_version ps) in
         (case seal_with_aad api (as_bytes token) key (as_bytes prefix) nonce of
            Inl e \<Rightarrow> (Inl (''PushSealer: seal_with_aad failed: '' @ show_tp_error e), ps')
          | Inr b64 \<Rightarrow> (Inr (prefix @ ''.'' @ b64), ps')))"

definition ps_unseal :: "crypto_api \<Rightarrow> push_sealer \<Rightarrow> string \<Rightarrow> unseal_result \<times> push_sealer" where
  "ps_unseal api ps blob =
    (if \<not> starts_with blob BLOB_PREFIX then (Legacy, ps)
     else let after_magic = drop (length BLOB_PREFIX) blob in
       if CHR ''.'' \<notin> set after_magic then (ParseError, ps)
       else let version_str = takeWhile (\<lambda>c. c \<noteq> CHR ''.'') after_magic;
                b64 = drop (length version_str + 1) after_magic in
       (case parse_uint (2 ^ 32 - 1) version_str of
          None \<Rightarrow> (ParseError, ps)
        | Some n \<Rightarrow>
            let version = word_of_nat n :: u32 in
            if show_nat (unat version) \<noteq> version_str then (ParseError, ps)
            else (case get_key api ps version of
                    (None, ps') \<Rightarrow> (UnsealFailed, ps')
                  | (Some key, ps') \<Rightarrow>
                      (case open_with_aad api b64 key (as_bytes (blob_prefix version)) of
                         Inl _ \<Rightarrow> (UnsealFailed, ps')
                       | Inr plaintext \<Rightarrow>
                           (case from_utf8 plaintext of
                              Some token \<Rightarrow> (UnsealOk token, ps')
                            | None \<Rightarrow> (UnsealFailed, ps'))))))"

section \<open>The key cache\<close>

text \<open>Every cached key is the one the configured secrets derive.\<close>

definition cache_ok :: "crypto_api \<Rightarrow> push_sealer \<Rightarrow> bool" where
  "cache_ok api ps \<longleftrightarrow> (\<forall>v key. hm_get (ps_key_cache ps) v = Some key \<longrightarrow>
     map_option (derive_push_seal_key api) (raw_secret ps v) = Some key)"

lemma raw_secret_cache [simp]: "raw_secret (ps\<lparr>ps_key_cache := c\<rparr>) v = raw_secret ps v"
  by (simp add: raw_secret_def)

lemma cache_ok_new: "cache_ok api (sealer_new s sp v es ep ev rnd)"
  by (simp add: cache_ok_def sealer_new_def Let_def split: prod.splits)

lemma get_key_eq:
  "cache_ok api ps \<Longrightarrow> fst (get_key api ps v) = map_option (derive_push_seal_key api) (raw_secret ps v)"
  by (cases "hm_get (ps_key_cache ps) v"; cases "raw_secret ps v")
    (force simp: get_key_def cache_ok_def Let_def)+

lemma get_key_keeps:
  assumes "cache_ok api ps"
  shows "cache_ok api (snd (get_key api ps v))" "raw_secret (snd (get_key api ps v)) = raw_secret ps"
    "ps_version (snd (get_key api ps v)) = ps_version ps"
  using assms
  by (auto simp: get_key_def cache_ok_def Let_def fun_eq_iff split: option.splits if_splits)

lemma snd_ps_seal: "snd (ps_seal api ps tok n) = snd (get_key api ps (ps_version ps))"
  by (simp add: ps_seal_def Let_def split: prod.splits option.splits sum.splits)

lemma get_key_keeps':
  assumes "cache_ok api ps" "get_key api ps v = (k, ps')"
  shows "cache_ok api ps'" "raw_secret ps' = raw_secret ps" "ps_version ps' = ps_version ps"
  using get_key_keeps [OF assms(1), of v] by (simp_all add: assms(2))

text \<open>Sealing and unsealing keep the cache right and never change the configuration.\<close>

lemma ps_unseal_keeps:
  assumes "cache_ok api ps"
  shows "cache_ok api (snd (ps_unseal api ps blob)) \<and> raw_secret (snd (ps_unseal api ps blob)) = raw_secret ps
    \<and> ps_version (snd (ps_unseal api ps blob)) = ps_version ps"
proof -
  let ?vs = "takeWhile (\<lambda>c. c \<noteq> CHR ''.'') (drop (length BLOB_PREFIX) blob)"
  obtain k ps' where g: "get_key api ps (word_of_nat (the (parse_uint (2 ^ 32 - 1) ?vs))) = (k, ps')"
    by (metis prod.exhaust)
  note keeps = get_key_keeps' [OF assms g]
  show ?thesis
    unfolding ps_unseal_def Let_def
    using g keeps assms by (cases "parse_uint (2 ^ 32 - 1) ?vs") (simp_all split: option.splits sum.splits)
qed

lemma unseal_wire_key:
  "fst (ps_unseal api ps (blob_prefix v @ CHR ''.'' # b64)) =
    (case fst (get_key api ps v) of
       None \<Rightarrow> UnsealFailed
     | Some key \<Rightarrow>
         (case open_with_aad api b64 key (as_bytes (blob_prefix v)) of
            Inl _ \<Rightarrow> UnsealFailed
          | Inr plaintext \<Rightarrow> (case from_utf8 plaintext of Some t \<Rightarrow> UnsealOk t | None \<Rightarrow> UnsealFailed)))"
proof -
  have nodot: "CHR ''.'' \<notin> set (show_nat (unat v))"
    using show_nat_set [of "CHR ''.''" "unat v"] by (auto simp: is_ascii_digit_def)
  have "takeWhile (\<lambda>c. c \<noteq> CHR ''.'') (show_nat (unat v) @ CHR ''.'' # b64) = show_nat (unat v)"
    using nodot by (subst takeWhile_append2) auto
  moreover have "parse_uint (2 ^ 32 - 1) (show_nat (unat v)) = Some (unat v)"
    using unsigned_less [where ?'a = nat, of v] by (intro parse_uint_show_nat) simp
  ultimately show ?thesis
    by (cases "get_key api ps v") (simp add: ps_unseal_def blob_prefix_def starts_with_def Let_def BLOB_PREFIX_def
        split: option.splits sum.splits)
qed

text \<open>A blob that has the prefix but not the canonical form is the only parse error.\<close>

lemma not_parse_error:
  assumes "starts_with blob BLOB_PREFIX" "fst (ps_unseal api ps blob) \<noteq> ParseError"
  shows "\<exists>v b64. blob = blob_prefix v @ CHR ''.'' # b64"
proof -
  obtain rest where blob: "blob = BLOB_PREFIX @ rest" using assms(1) starts_with_iff by auto
  let ?vs = "takeWhile (\<lambda>c. c \<noteq> CHR ''.'') rest"
  have "CHR ''.'' \<in> set rest" and "\<exists>v :: u32. show_nat (unat v) = ?vs"
    using assms by (auto simp: ps_unseal_def blob Let_def split: if_splits option.splits)
  moreover from this(1) obtain a b where "rest = a @ CHR ''.'' # b" "CHR ''.'' \<notin> set a"
    by (metis split_list_first)
  moreover from this have "?vs = a" by (auto simp: takeWhile_tail)
  ultimately show ?thesis by (metis blob blob_prefix_def append.assoc)
qed

lemma ps_seal_ok:
  assumes "cache_ok api ps" "ps_seal api ps token nonce = (Inr blob, ps')"
  shows "\<exists>b64. blob = blob_prefix (ps_version ps) @ CHR ''.'' # b64
    \<and> seal_with_aad api (as_bytes token) (derive_push_seal_key api (ps_current_secret ps))
        (as_bytes (blob_prefix (ps_version ps))) nonce = Inr b64"
proof -
  obtain ps'' where "get_key api ps (ps_version ps) = (Some (derive_push_seal_key api (ps_current_secret ps)), ps'')"
    using get_key_eq [OF assms(1), of "ps_version ps"]
    by (cases "get_key api ps (ps_version ps)") (auto simp: raw_secret_def)
  with assms(2) show ?thesis
    by (auto simp: ps_seal_def Let_def split: sum.splits)
qed

section \<open>Runs of a sealer\<close>

inductive sealer_step :: "crypto_api \<Rightarrow> push_sealer \<Rightarrow> push_sealer \<Rightarrow> bool" for api where
  seal: "sealer_step api ps (snd (ps_seal api ps token nonce))"
| unseal: "sealer_step api ps (snd (ps_unseal api ps blob))"

lemma sealer_current:
  "raw_secret ps = raw_secret ps0 \<Longrightarrow> ps_version ps = ps_version ps0 \<Longrightarrow> ps_current_secret ps = ps_current_secret ps0"
  by (metis option.inject raw_secret_def)

interpretation sealer_sys: step_system "\<lambda>ps. ps = ps0 \<and> ps_key_cache ps0 = hm_empty" "sealer_step api"
    "\<lambda>ps. cache_ok api ps \<and> raw_secret ps = raw_secret ps0 \<and> ps_version ps = ps_version ps0" for api ps0
proof
  show "\<And>s t. sealer_step api s t \<Longrightarrow>
      cache_ok api s \<and> raw_secret s = raw_secret ps0 \<and> ps_version s = ps_version ps0 \<Longrightarrow>
      cache_ok api t \<and> raw_secret t = raw_secret ps0 \<and> ps_version t = ps_version ps0"
    by (auto elim!: sealer_step.cases simp: snd_ps_seal get_key_keeps ps_unseal_keeps)
qed (auto simp: cache_ok_def)

section \<open>Properties\<close>

text \<open>C22: A sealed push token outlives one key rotation. Whatever was sealed and unsealed before, a
  blob opens to the token again at a sealer with the same secret and version (also after a
  restart), and at the next one, whose previous secret is the old current one and whose version is
  one higher; at a sealer of any other version it is refused.\<close>

theorem sealed_token_survives_one_rotation:
  assumes "aead_lawful api" "b64_lawful api" "rust_string token"
    and "ps_key_cache old0 = hm_empty" "(sealer_step api)\<^sup>*\<^sup>* old0 old"
    and "ps_seal api old token nonce = (Inr blob, old')"
    and "ps_key_cache new0 = hm_empty" "(sealer_step api)\<^sup>*\<^sup>* new0 new"
  shows "(ps_current_secret new0 = ps_current_secret old0 \<and> ps_version new0 = ps_version old0 \<longrightarrow>
      fst (ps_unseal api new blob) = UnsealOk token)
    \<and> (ps_prev_secret new0 = Some (ps_current_secret old0) \<and> ps_version new0 = ps_version old0 + 1
        \<and> ps_version new0 \<noteq> 0 \<longrightarrow> fst (ps_unseal api new blob) = UnsealOk token)
    \<and> (ps_version new0 \<noteq> ps_version old0 \<and> ps_version new0 \<noteq> ps_version old0 + 1 \<longrightarrow>
        fst (ps_unseal api new blob) = UnsealFailed)"
proof -
  have old: "cache_ok api old" "raw_secret old = raw_secret old0" "ps_version old = ps_version old0"
    using sealer_sys.reachable_inv [OF _ assms(5)] assms(4) by auto
  have new: "cache_ok api new" "raw_secret new = raw_secret new0"
    using sealer_sys.reachable_inv [OF _ assms(8)] assms(7) by auto
  let ?p = "blob_prefix (ps_version old0)" and ?key = "derive_push_seal_key api (ps_current_secret old0)"
  obtain b64 where b64: "blob = ?p @ CHR ''.'' # b64"
      "seal_with_aad api (as_bytes token) ?key (as_bytes ?p) nonce = Inr b64"
    using ps_seal_ok [OF old(1) assms(6)] sealer_current [OF old(2,3)] by (auto simp: old(3))
  have opens: "open_with_aad api b64 ?key (as_bytes ?p) = Inr (as_bytes token)"
    by (rule open_seal_with_aad [OF assms(1,2) b64(2)])
  have "ps_version old0 \<noteq> ps_version new0 - 1" if "ps_version new0 \<noteq> ps_version old0 + 1"
    using that by (metis diff_add_cancel)
  then show ?thesis
    using opens assms(3) by (auto simp: b64(1) unseal_wire_key get_key_eq [OF new(1)] new(2) raw_secret_def
        word_gt_0)
qed

text \<open>What \<open>unseal\<close> answers is decided by the blob's form: \<open>Legacy\<close> exactly without the
  \<open>tpps1.\<close> prefix, \<open>ParseError\<close> exactly for a blob with the prefix that is not
  \<open>tpps1.<version>.<rest>\<close> with the version in canonical decimal within \<open>u32\<close>.\<close>

theorem unseal_classifies_blobs:
  "(fst (ps_unseal api ps blob) = Legacy \<longleftrightarrow> \<not> starts_with blob BLOB_PREFIX)
    \<and> (fst (ps_unseal api ps blob) = ParseError \<longleftrightarrow>
        starts_with blob BLOB_PREFIX \<and> \<not> (\<exists>v b64. blob = blob_prefix v @ CHR ''.'' # b64))"
proof -
  have "fst (ps_unseal api ps blob) \<noteq> Legacy" if "starts_with blob BLOB_PREFIX"
    using that by (auto simp: ps_unseal_def Let_def split: option.splits prod.splits sum.splits)
  moreover have "fst (ps_unseal api ps blob) \<noteq> ParseError" if "blob = blob_prefix v @ CHR ''.'' # b64" for v b64
    unfolding that unseal_wire_key by (simp split: option.splits sum.splits)
  moreover have "fst (ps_unseal api ps blob) = Legacy" if "\<not> starts_with blob BLOB_PREFIX"
    using that by (simp add: ps_unseal_def)
  ultimately show ?thesis using not_parse_error [of blob api ps] by (metis unseal_result.distinct(7))
qed

definition demo_sealer :: "string \<Rightarrow> string option \<Rightarrow> u32 \<Rightarrow> push_sealer" where
  "demo_sealer secret prev v = sealer_new (Some (replicate 32 (hd secret))) prev (Some v) [] [] [] []"

lemma demo_sealer_cache: "ps_key_cache (demo_sealer s p v) = []"
  by (simp add: demo_sealer_def sealer_new_def Let_def split: prod.splits)

lemma demo_seals: "\<exists>blob. fst (ps_seal demo_api (demo_sealer s p 7) token (replicate 24 1)) = Inr blob"
  by (simp add: ps_seal_def get_key_def demo_sealer_cache raw_secret_def derive_push_seal_key_def derive_blake2b_def
      generic_hash_32_def seal_with_aad_def aead_encrypt_def aead_cipher_def KEY_BYTES_def NPUB_BYTES_def
      demo_api_def Let_def)

theorem sealed_token_survives_one_rotation_witness:
  "\<exists>blob. fst (ps_seal demo_api (demo_sealer ''a'' None 7) ''tok'' (replicate 24 1)) = Inr blob
    \<and> fst (ps_unseal demo_api (demo_sealer ''b'' (Some (replicate 32 CHR ''a'')) 8) blob) = UnsealOk ''tok''"
proof -
  let ?old = "demo_sealer ''a'' None 7" and ?new = "demo_sealer ''b'' (Some (replicate 32 CHR ''a'')) 8"
  note cache = demo_sealer_cache
  have config: "ps_prev_secret ?new = Some (ps_current_secret ?old)" "ps_version ?new = ps_version ?old + 1"
      "ps_version ?new \<noteq> 0"
    by (simp_all add: demo_sealer_def sealer_new_def sealer_version_def SECRET_MIN_CHARS_def Let_def)
  obtain blob old' where seal: "ps_seal demo_api ?old ''tok'' (replicate 24 1) = (Inr blob, old')"
    using demo_seals by (metis prod.collapse)
  have "rust_string ''tok''" by (simp add: rust_string_def as_bytes_def)
  from sealed_token_survives_one_rotation [OF demo_api_lawful(1,2) this cache rtranclp.rtrancl_refl seal cache
      rtranclp.rtrancl_refl, of "''b''" "Some (replicate 32 CHR ''a'')" 8]
  have "fst (ps_unseal demo_api ?new blob) = UnsealOk ''tok''" using config by blast
  with seal show ?thesis by auto
qed

end
