(* ===== verification/Push_Service.thy ===== *)
theory Push_Service
  imports Messages
begin

text \<open>
  The push orchestrator (\<open>tp-relay/src/push.rs\<close>): WebSocket priority, deduplication and rate
  limiting around one APNs request. A call locks the tables for its guard phase, releases them
  for the network request and locks them again to commit on success; the two critical sections
  are \<open>push_guard\<close> and \<open>push_commit\<close>, and the outcome of the request is an argument. The clock is
  the argument \<open>now\<close>, read once per call. Calls overlap in the relay (\<open>Relay_Conn\<close>); \<open>send_or_deliver\<close> is a call
  on its own.
\<close>

section \<open>Data and operations\<close>

datatype delivery_result = Ws | Push_delivered | RateLimited | Deduped | Delivery_error | DeadToken

record push_request =
  pq_frontend_id :: string
  pq_daemon_id :: string
  pq_token :: string
  pq_title :: string
  pq_body :: string
  pq_is_frontend_connected :: bool
  pq_interruption_level :: "string option"
  pq_data :: "push_data option"

record rate_limit_entry =
  rl_count :: u64
  rl_window_start :: u64

record push_inner =
  dedup_seen :: "(string, u64) hash_map"
  rate_limits :: "(string, rate_limit_entry) hash_map"

definition push_inner_new :: push_inner where
  "push_inner_new = \<lparr>dedup_seen = hm_empty, rate_limits = hm_empty\<rparr>"

record push_config =
  pc_rate_limit_per_minute :: u64
  pc_dedup_window_ms :: u64
  pc_rate_limit_window_ms :: u64
  pc_has_apns :: bool

definition default_push_config :: push_config where
  "default_push_config = \<lparr>pc_rate_limit_per_minute = 5, pc_dedup_window_ms = 60000,
     pc_rate_limit_window_ms = 60000, pc_has_apns = False\<rparr>"

record apns_payload =
  ap_device_token :: string
  ap_title :: string
  ap_body :: string
  ap_interruption_level :: "string option"
  ap_data :: "(string, string) hash_map option"

datatype apns_delivery_result = ApnsOk | ApnsErr (dead_token: bool) (apns_reason: string)

definition rate_limit_key :: "push_request \<Rightarrow> string" where
  "rate_limit_key req = pq_daemon_id req @ '':'' @ pq_frontend_id req"

definition dedup_key :: "push_request \<Rightarrow> push_data \<Rightarrow> string" where
  "dedup_key req data = pq_frontend_id req @ '':'' @ pd_sid data @ '':'' @ pd_event data"

text \<open>The guard phase: an early result, or \<open>None\<close> to go on to APNs.\<close>

definition push_guard :: "push_config \<Rightarrow> push_request \<Rightarrow> u64 \<Rightarrow> push_inner \<Rightarrow> delivery_result option \<times> push_inner" where
  "push_guard cfg req now inner =
    (if (case pq_data req of
           Some data \<Rightarrow>
             (case hm_get (dedup_seen inner) (dedup_key req data) of
                Some seen_at \<Rightarrow> saturating_sub now seen_at < pc_dedup_window_ms cfg
              | None \<Rightarrow> False)
         | None \<Rightarrow> False)
     then (Some Deduped, inner)
     else
       let inner = inner\<lparr>rate_limits := hm_modify (rate_limit_key req)
             (\<lambda>rl. if saturating_sub now (rl_window_start rl) \<ge> pc_rate_limit_window_ms cfg
                   then rl\<lparr>rl_count := 0, rl_window_start := now\<rparr> else rl) (rate_limits inner)\<rparr>;
           over_limit = (case hm_get (rate_limits inner) (rate_limit_key req) of
                           Some rl \<Rightarrow> rl_count rl \<ge> pc_rate_limit_per_minute cfg
                         | None \<Rightarrow> False)
       in if over_limit then (Some RateLimited, inner)
          else if \<not> pc_has_apns cfg then (Some Delivery_error, inner)
          else (None, inner))"

definition push_commit :: "push_request \<Rightarrow> u64 \<Rightarrow> push_inner \<Rightarrow> push_inner" where
  "push_commit req now inner =
    (let inner = (case pq_data req of
                    Some data \<Rightarrow> inner\<lparr>dedup_seen := hm_insert (dedup_key req data) now (dedup_seen inner)\<rparr>
                  | None \<Rightarrow> inner)
     in inner\<lparr>rate_limits := hm_modify (rate_limit_key req) (\<lambda>rl. rl\<lparr>rl_count := rl_count rl + 1\<rparr>)
          (hm_or_insert (rate_limit_key req) \<lparr>rl_count = 0, rl_window_start = now\<rparr> (rate_limits inner))\<rparr>)"

definition apns_payload_of :: "push_request \<Rightarrow> apns_payload" where
  "apns_payload_of req =
    \<lparr>ap_device_token = pq_token req, ap_title = pq_title req, ap_body = pq_body req,
     ap_interruption_level = pq_interruption_level req,
     ap_data = map_option (\<lambda>data. hm_insert ''event'' (pd_event data)
        (hm_insert ''daemonId'' (pd_daemon_id data) (hm_insert ''sid'' (pd_sid data) hm_empty))) (pq_data req)\<rparr>"

text \<open>
  The two critical sections of a call and what lies between them: \<open>send_begin\<close> answers at once or asks APNs,
  and \<open>send_end\<close>, with the clock reading of the first section, commits what APNs accepted.
\<close>

datatype push_phase = Answered delivery_result | Calling apns_payload

definition send_begin :: "push_config \<Rightarrow> push_request \<Rightarrow> u64 \<Rightarrow> push_inner \<Rightarrow> push_phase \<times> push_inner" where
  "send_begin cfg req now inner =
    (if pq_is_frontend_connected req then (Answered Ws, inner)
     else case push_guard cfg req now inner of
         (Some early, inner) \<Rightarrow> (Answered early, inner)
       | (None, inner) \<Rightarrow> (Calling (apns_payload_of req), inner))"

definition send_end :: "push_request \<Rightarrow> u64 \<Rightarrow> apns_delivery_result \<Rightarrow> push_inner \<Rightarrow> delivery_result \<times> push_inner" where
  "send_end req now answer inner =
    (case answer of
       ApnsErr dead reason \<Rightarrow> (if dead then DeadToken else Delivery_error, inner)
     | ApnsOk \<Rightarrow> (Push_delivered, push_commit req now inner))"

text \<open>A whole call that no other call overlaps; \<open>apns\<close> is the answer of the APNs client.\<close>

definition send_or_deliver ::
  "push_config \<Rightarrow> (apns_payload \<Rightarrow> apns_delivery_result) \<Rightarrow> push_request \<Rightarrow> u64 \<Rightarrow> push_inner
    \<Rightarrow> delivery_result \<times> push_inner" where
  "send_or_deliver cfg apns req now inner =
    (case send_begin cfg req now inner of
       (Answered result, inner) \<Rightarrow> (result, inner)
     | (Calling payload, inner) \<Rightarrow> send_end req now (apns payload) inner)"

lemma send_or_deliver_eq:
  "send_or_deliver cfg apns req now inner =
    (if pq_is_frontend_connected req then (Ws, inner)
     else case push_guard cfg req now inner of
         (Some early, inner) \<Rightarrow> (early, inner)
       | (None, inner) \<Rightarrow>
           (case apns (apns_payload_of req) of
              ApnsErr dead reason \<Rightarrow> (if dead then DeadToken else Delivery_error, inner)
            | ApnsOk \<Rightarrow> (Push_delivered, push_commit req now inner)))"
  by (simp add: send_or_deliver_def send_begin_def send_end_def split: prod.split option.split)

definition run_cleanup :: "push_config \<Rightarrow> u64 \<Rightarrow> push_inner \<Rightarrow> push_inner" where
  "run_cleanup cfg now inner =
    inner\<lparr>dedup_seen := hm_retain (\<lambda>_ seen_at. saturating_sub now seen_at < pc_dedup_window_ms cfg) (dedup_seen inner),
          rate_limits := hm_retain (\<lambda>_ rl. saturating_sub now (rl_window_start rl) < pc_rate_limit_window_ms cfg)
            (rate_limits inner)\<rparr>"

definition rate_limit_entry_count :: "push_inner \<Rightarrow> nat" where
  "rate_limit_entry_count inner = length (rate_limits inner)"

section \<open>Runs\<close>

datatype push_op = PSend push_request u64 "apns_payload \<Rightarrow> apns_delivery_result" | PCleanup u64

fun push_op_time :: "push_op \<Rightarrow> nat" where
  "push_op_time (PSend _ now _) = unat now"
| "push_op_time (PCleanup now) = unat now"

text \<open>The pushes a run delivers, with the clock reading of their call.\<close>

fun deliveries :: "push_config \<Rightarrow> push_op list \<Rightarrow> push_inner \<Rightarrow> (push_request \<times> u64) list" where
  "deliveries cfg [] inner = []"
| "deliveries cfg (PSend req now apns # ops) inner =
    (let (res, inner') = send_or_deliver cfg apns req now inner
     in (if res = Push_delivered then [(req, now)] else []) @ deliveries cfg ops inner')"
| "deliveries cfg (PCleanup now # ops) inner = deliveries cfg ops (run_cleanup cfg now inner)"

section \<open>Fixed windows bound sliding windows\<close>

text \<open>
  The push times of one key, oldest first, against its table entry \<open>(count, window start)\<close>:
  within a window at most \<open>l\<close> pushes, so any interval of the window's width, which meets at
  most two windows, holds at most \<open>2 * l\<close>.
\<close>

definition hits :: "nat \<Rightarrow> nat \<Rightarrow> nat list \<Rightarrow> nat" where
  "hits a b ts = length (filter (\<lambda>t. a \<le> t \<and> t < b) ts)"

definition hits_from :: "nat \<Rightarrow> nat list \<Rightarrow> nat" where
  "hits_from a ts = length (filter (\<lambda>t. a \<le> t) ts)"

definition window_inv :: "nat \<Rightarrow> nat \<Rightarrow> nat \<Rightarrow> nat list \<Rightarrow> (nat \<times> nat) option \<Rightarrow> bool" where
  "window_inv w l now ts entry \<longleftrightarrow>
     (\<forall>t \<in> set ts. t \<le> now) \<and> (\<forall>a. hits a (a + w) ts \<le> 2 * l)
     \<and> (case entry of
          None \<Rightarrow> (\<forall>t \<in> set ts. t < now) \<and> (\<forall>a. now \<le> a + w \<longrightarrow> hits_from a ts \<le> l)
        | Some (c, ws) \<Rightarrow> ws \<le> now \<and> c = hits_from ws ts \<and> c \<le> l \<and> (\<forall>t \<in> set ts. t < ws + w)
            \<and> (\<forall>a. ws \<le> a + w \<longrightarrow> hits a ws ts \<le> l))"

lemma hits_snoc [simp]: "hits a b (ts @ [t]) = hits a b ts + (if a \<le> t \<and> t < b then 1 else 0)"
  by (simp add: hits_def)

lemma hits_from_snoc [simp]: "hits_from a (ts @ [t]) = hits_from a ts + (if a \<le> t then 1 else 0)"
  by (simp add: hits_from_def)

lemma filter_le_length: "(\<And>x. x \<in> set xs \<Longrightarrow> P x \<Longrightarrow> Q x) \<Longrightarrow> length (filter P xs) \<le> length (filter Q xs)"
  by (induction xs) auto

lemma hits_le_from: "a' \<le> a \<Longrightarrow> hits a b ts \<le> hits_from a' ts"
  unfolding hits_def hits_from_def by (rule filter_le_length) simp

lemma hits_from_mono: "a' \<le> a \<Longrightarrow> hits_from a ts \<le> hits_from a' ts"
  unfolding hits_from_def by (rule filter_le_length) simp

lemma hits_split: "hits a b ts \<le> hits a m ts + hits_from m ts"
  by (induction ts) (auto simp: hits_def hits_from_def)

lemma window_inv_tick:
  assumes "window_inv w l now ts entry" "now \<le> now'"
  shows "window_inv w l now' ts entry"
  using assms by (auto simp: window_inv_def split: option.splits)

lemma window_inv_expire:
  assumes "window_inv w l now ts (Some (c, ws))" "ws + w \<le> now'" "now \<le> now'"
  shows "window_inv w l now' ts (Some (0, now'))" "window_inv w l now' ts None"
proof -
  have i: "c = hits_from ws ts" "c \<le> l" "\<forall>t \<in> set ts. t < ws + w" "\<forall>t \<in> set ts. t \<le> now"
      "\<forall>a. hits a (a + w) ts \<le> 2 * l"
    using assms(1) by (auto simp: window_inv_def)
  have late: "hits_from a ts \<le> l" if "now' \<le> a + w" for a
    using hits_from_mono [of ws a ts] that assms(2) i(1,2) by simp
  have "filter (\<lambda>t. now' \<le> t) ts = []" using i(3) assms(2) by (auto simp: filter_empty_conv)
  then have "hits_from now' ts = 0" by (simp add: hits_from_def)
  moreover have "hits a now' ts \<le> l" if "now' \<le> a + w" for a
    using hits_le_from [of a a now' ts] late [OF that] by simp
  moreover have "\<forall>t \<in> set ts. t \<le> now'" "\<forall>t \<in> set ts. t < now'" "\<forall>t \<in> set ts. t < now' + w"
    using i(3) assms(2) by auto
  ultimately show "window_inv w l now' ts (Some (0, now'))" "window_inv w l now' ts None"
    using i(5) late by (simp_all add: window_inv_def)
qed

lemma window_inv_push:
  assumes "window_inv w l now ts (Some (c, ws))" "now < ws + w" "c < l"
  shows "window_inv w l now (ts @ [now]) (Some (c + 1, ws))"
proof -
  have i: "ws \<le> now" "c = hits_from ws ts" "\<forall>a. ws \<le> a + w \<longrightarrow> hits a ws ts \<le> l"
      "\<forall>a. hits a (a + w) ts \<le> 2 * l"
    using assms(1) by (auto simp: window_inv_def)
  have "hits a (a + w) (ts @ [now]) \<le> 2 * l" for a
  proof (cases "a \<le> now \<and> now < a + w")
    case True
    then have "hits a ws ts \<le> l" using i(1,3) by simp
    with True hits_split [of a "a + w" ts ws] i(2) assms(3) show ?thesis by simp
  qed (use i(4) in auto)
  moreover have "\<forall>t \<in> set (ts @ [now]). t \<le> now" "\<forall>t \<in> set (ts @ [now]). t < ws + w"
    using assms(1,2) by (auto simp: window_inv_def)
  ultimately show ?thesis
    using i assms(3) by (simp add: window_inv_def)
qed

lemma window_inv_open:
  assumes "window_inv w l now ts None" "0 < w" "0 < l"
  shows "window_inv w l now (ts @ [now]) (Some (1, now))"
proof -
  have i: "\<forall>t \<in> set ts. t < now" "\<forall>a. now \<le> a + w \<longrightarrow> hits_from a ts \<le> l" "\<forall>a. hits a (a + w) ts \<le> 2 * l"
    using assms(1) by (auto simp: window_inv_def)
  then have "filter (\<lambda>t. now \<le> t) ts = []" by (fastforce simp: filter_empty_conv)
  then have none: "hits_from now ts = 0" by (simp add: hits_from_def)
  have late: "hits a b ts \<le> l" if "now \<le> a + w" for a b
    using hits_le_from [of a a b ts] i(2) that by (meson le_trans order_refl)
  have "hits a (a + w) (ts @ [now]) \<le> 2 * l" for a
  proof (cases "a \<le> now \<and> now < a + w")
    case True
    then show ?thesis using late [of a "a + w"] assms(3) by simp
  qed (use i(3) in auto)
  moreover have "\<forall>t \<in> set (ts @ [now]). t \<le> now" "\<forall>t \<in> set (ts @ [now]). t < now + w"
    using i(1) assms(2) by auto
  ultimately show ?thesis
    using late none assms(3) by (simp add: window_inv_def)
qed

section \<open>The invariants of a run\<close>

definition push_times :: "string \<Rightarrow> (push_request \<times> u64) list \<Rightarrow> nat list" where
  "push_times k log = map (\<lambda>(req, t). unat t) (filter (\<lambda>(req, t). rate_limit_key req = k) log)"

definition entry_of :: "string \<Rightarrow> push_inner \<Rightarrow> (nat \<times> nat) option" where
  "entry_of k inner = map_option (\<lambda>e. (unat (rl_count e), unat (rl_window_start e))) (hm_get (rate_limits inner) k)"

definition rate_inv :: "push_config \<Rightarrow> nat \<Rightarrow> (push_request \<times> u64) list \<Rightarrow> push_inner \<Rightarrow> bool" where
  "rate_inv cfg now log inner \<longleftrightarrow> hm_ok (rate_limits inner) \<and>
     (\<forall>k. window_inv (unat (pc_rate_limit_window_ms cfg)) (max 1 (unat (pc_rate_limit_per_minute cfg))) now
        (push_times k log) (entry_of k inner))"

definition log_key :: "push_request \<Rightarrow> string option" where
  "log_key req = map_option (dedup_key req) (pq_data req)"

definition dedup_inv :: "push_config \<Rightarrow> nat \<Rightarrow> (push_request \<times> u64) list \<Rightarrow> push_inner \<Rightarrow> bool" where
  "dedup_inv cfg now log inner \<longleftrightarrow> hm_ok (dedup_seen inner) \<and>
     (\<forall>k s. hm_get (dedup_seen inner) k = Some s \<longrightarrow> unat s \<le> now) \<and>
     (\<forall>(req, t) \<in> set log. \<forall>k. log_key req = Some k \<longrightarrow>
        (case hm_get (dedup_seen inner) k of
           Some s \<Rightarrow> unat t \<le> unat s
         | None \<Rightarrow> unat t + unat (pc_dedup_window_ms cfg) \<le> now)) \<and>
     (\<forall>i j. i < j \<longrightarrow> j < length log \<longrightarrow> log_key (fst (log ! i)) \<noteq> None \<longrightarrow>
        log_key (fst (log ! i)) = log_key (fst (log ! j)) \<longrightarrow>
        unat (snd (log ! i)) + unat (pc_dedup_window_ms cfg) \<le> unat (snd (log ! j)))"

lemma expired_iff: "b \<le> a \<Longrightarrow> w \<le> saturating_sub a b \<longleftrightarrow> unat b + unat w \<le> unat a"
  by (simp add: word_le_nat_alt sat_simps) arith

lemma push_times_append [simp]:
  "push_times k (log @ [(req, t)]) = push_times k log @ (if rate_limit_key req = k then [unat t] else [])"
  by (simp add: push_times_def)

lemma entry_of_modify:
  "entry_of k (inner\<lparr>rate_limits := hm_modify k' f (rate_limits inner)\<rparr>) =
    (if k = k' then map_option (\<lambda>e. (unat (rl_count (f e)), unat (rl_window_start (f e)))) (hm_get (rate_limits inner) k)
     else entry_of k inner)"
  by (simp add: entry_of_def option.map_comp comp_def)

text \<open>The guard phase keeps the invariants and, when it lets a request through, leaves room.\<close>

lemma push_guard_rate:
  assumes inv: "rate_inv cfg now0 log inner" "now0 \<le> unat now" "0 < pc_rate_limit_window_ms cfg"
    and guard: "push_guard cfg req now inner = (res, inner')"
  shows "rate_inv cfg (unat now) log inner'"
    "res = None \<Longrightarrow> (case hm_get (rate_limits inner') (rate_limit_key req) of None \<Rightarrow> True
       | Some e \<Rightarrow> rl_count e < pc_rate_limit_per_minute cfg
           \<and> unat now < unat (rl_window_start e) + unat (pc_rate_limit_window_ms cfg))"
    "dedup_seen inner' = dedup_seen inner"
    "res = None \<Longrightarrow> log_key req = Some k \<Longrightarrow> hm_get (dedup_seen inner) k = Some s \<Longrightarrow>
       pc_dedup_window_ms cfg \<le> saturating_sub now s"
proof -
  let ?k = "rate_limit_key req" and ?W = "pc_rate_limit_window_ms cfg"
    and ?w = "unat (pc_rate_limit_window_ms cfg)" and ?l = "max 1 (unat (pc_rate_limit_per_minute cfg))"
  let ?f = "\<lambda>rl. if saturating_sub now (rl_window_start rl) \<ge> ?W then rl\<lparr>rl_count := 0, rl_window_start := now\<rparr> else rl"
  let ?inner = "inner\<lparr>rate_limits := hm_modify ?k ?f (rate_limits inner)\<rparr>"
  have tick: "window_inv ?w ?l (unat now) (push_times k log) (entry_of k inner)" for k
    using inv(1) unfolding rate_inv_def by (blast intro: window_inv_tick [OF _ inv(2)])
  have start: "rl_window_start e \<le> now" if "hm_get (rate_limits inner) ?k = Some e" for e
    using tick [of ?k] that by (simp add: window_inv_def entry_of_def word_le_nat_alt)
  have "window_inv ?w ?l (unat now) (push_times k log) (entry_of k ?inner)" for k
  proof (cases "k = ?k")
    case True
    show ?thesis
    proof (cases "hm_get (rate_limits inner) ?k")
      case (Some e)
      with True tick [of ?k] start [OF Some] show ?thesis
        unfolding entry_of_modify
        by (auto simp: expired_iff entry_of_def intro: window_inv_expire(1))
    qed (use True tick [of ?k] in \<open>simp add: entry_of_modify\<close>, simp add: entry_of_def)
  next
    case False
    with tick [of k] show ?thesis by (simp only: entry_of_modify if_False)
  qed
  then have "rate_inv cfg (unat now) log ?inner"
    using inv(1) by (simp add: rate_inv_def)
  moreover have "rate_inv cfg (unat now) log inner" using tick inv(1) by (simp add: rate_inv_def)
  ultimately show "rate_inv cfg (unat now) log inner'" "dedup_seen inner' = dedup_seen inner"
    using guard by (auto simp: push_guard_def Let_def split: if_splits option.splits)
  show "case hm_get (rate_limits inner') ?k of None \<Rightarrow> True
       | Some e \<Rightarrow> rl_count e < pc_rate_limit_per_minute cfg \<and> unat now < unat (rl_window_start e) + ?w" if "res = None"
  proof (cases "hm_get (rate_limits inner) ?k")
    case (Some e)
    have "inner' = ?inner" "rl_count (?f e) < pc_rate_limit_per_minute cfg"
      using guard that Some by (auto simp: push_guard_def Let_def word_gt_0 split: if_splits option.splits)
    moreover have "unat now < unat (rl_window_start (?f e)) + ?w"
      using start [OF Some] inv(3) by (auto simp: expired_iff unat_gt_0 word_gt_0)
    ultimately show ?thesis using Some by simp
  qed (use guard that in \<open>auto simp: push_guard_def Let_def split: if_splits option.splits\<close>)
  show "pc_dedup_window_ms cfg \<le> saturating_sub now s"
    if "res = None" "log_key req = Some k" "hm_get (dedup_seen inner) k = Some s"
    using guard that by (auto simp: push_guard_def log_key_def Let_def split: if_splits option.splits)
qed

lemma rate_inv_commit:
  assumes "rate_inv cfg (unat now) log inner" "0 < pc_rate_limit_window_ms cfg"
    and room: "case hm_get (rate_limits inner) (rate_limit_key req) of None \<Rightarrow> True
       | Some e \<Rightarrow> rl_count e < pc_rate_limit_per_minute cfg
           \<and> unat now < unat (rl_window_start e) + unat (pc_rate_limit_window_ms cfg)"
  shows "rate_inv cfg (unat now) (log @ [(req, now)]) (push_commit req now inner)"
proof -
  let ?k = "rate_limit_key req"
    and ?w = "unat (pc_rate_limit_window_ms cfg)" and ?l = "max 1 (unat (pc_rate_limit_per_minute cfg))"
  have inv: "window_inv ?w ?l (unat now) (push_times k log) (entry_of k inner)" for k
    using assms(1) by (simp add: rate_inv_def)
  have w: "0 < ?w" using assms(2) by (simp add: word_gt_0 unat_gt_0)
  have limits: "rate_limits (push_commit req now inner) = hm_modify ?k (\<lambda>rl. rl\<lparr>rl_count := rl_count rl + 1\<rparr>)
      (hm_or_insert ?k \<lparr>rl_count = 0, rl_window_start = now\<rparr> (rate_limits inner))"
    by (simp add: push_commit_def Let_def split: option.splits)
  have "window_inv ?w ?l (unat now) (push_times k (log @ [(req, now)])) (entry_of k (push_commit req now inner))" for k
  proof (cases "k = ?k")
    case True
    show ?thesis
    proof (cases "hm_get (rate_limits inner) ?k")
      case None
      then have "entry_of ?k (push_commit req now inner) = Some (1, unat now)"
        by (simp add: entry_of_def limits)
      moreover have "window_inv ?w ?l (unat now) (push_times ?k log @ [unat now]) (Some (1, unat now))"
        using inv [of ?k] None w by (intro window_inv_open) (simp_all add: entry_of_def)
      ultimately show ?thesis using True by simp
    next
      case (Some e)
      with room have lt: "rl_count e < pc_rate_limit_per_minute cfg" "unat now < unat (rl_window_start e) + ?w" by auto
      have "unat (rl_count e + 1) = unat (rl_count e) + 1"
        by (rule unat_plus_one [OF lt(1)])
      then have "entry_of ?k (push_commit req now inner) = Some (unat (rl_count e) + 1, unat (rl_window_start e))"
        using Some by (simp add: entry_of_def limits)
      moreover have "window_inv ?w ?l (unat now) (push_times ?k log @ [unat now])
          (Some (unat (rl_count e) + 1, unat (rl_window_start e)))"
        using inv [of ?k] Some lt by (intro window_inv_push) (auto simp: entry_of_def word_less_nat_alt)
      ultimately show ?thesis using True by simp
    qed
  next
    case False
    then show ?thesis using inv [of k] by (simp add: entry_of_def limits)
  qed
  then show ?thesis using assms(1) by (simp add: rate_inv_def limits)
qed

lemma rate_inv_cleanup:
  assumes "rate_inv cfg now0 log inner" "now0 \<le> unat now"
  shows "rate_inv cfg (unat now) log (run_cleanup cfg now inner)"
proof -
  let ?w = "unat (pc_rate_limit_window_ms cfg)" and ?l = "max 1 (unat (pc_rate_limit_per_minute cfg))"
  have inv: "window_inv ?w ?l now0 (push_times k log) (entry_of k inner)" for k
    using assms(1) by (simp add: rate_inv_def)
  have "window_inv ?w ?l (unat now) (push_times k log) (entry_of k (run_cleanup cfg now inner))" for k
  proof (cases "hm_get (rate_limits inner) k")
    case (Some e)
    then have "entry_of k inner = Some (unat (rl_count e), unat (rl_window_start e))" by (simp add: entry_of_def)
    moreover from this inv [of k] assms(2) have "rl_window_start e \<le> now"
      by (simp add: window_inv_def word_le_nat_alt)
    ultimately show ?thesis
      using inv [of k] Some assms window_inv_expire(2) [OF _ _ assms(2)] window_inv_tick [OF _ assms(2)]
      by (auto simp: run_cleanup_def entry_of_def rate_inv_def hm_get_retain expired_iff simp flip: not_le)
  qed (use inv [of k] window_inv_tick [OF _ assms(2)] assms(1)
      in \<open>simp add: run_cleanup_def entry_of_def rate_inv_def hm_get_retain\<close>)
  then show ?thesis using assms(1) by (simp add: rate_inv_def run_cleanup_def)
qed

lemma dedup_inv_tick: "dedup_inv cfg now0 log inner \<Longrightarrow> now0 \<le> now \<Longrightarrow> dedup_seen inner' = dedup_seen inner
    \<Longrightarrow> dedup_inv cfg now log inner'"
  by (fastforce simp: dedup_inv_def split: option.splits)

lemma dedup_invI:
  assumes "hm_ok (dedup_seen inner)"
    and "\<And>k s. hm_get (dedup_seen inner) k = Some s \<Longrightarrow> unat s \<le> now"
    and "\<And>r t k. (r, t) \<in> set log \<Longrightarrow> log_key r = Some k \<Longrightarrow> case hm_get (dedup_seen inner) k of
        Some s \<Rightarrow> unat t \<le> unat s | None \<Rightarrow> unat t + unat (pc_dedup_window_ms cfg) \<le> now"
    and "\<And>i j. i < j \<Longrightarrow> j < length log \<Longrightarrow> log_key (fst (log ! i)) \<noteq> None \<Longrightarrow>
        log_key (fst (log ! i)) = log_key (fst (log ! j)) \<Longrightarrow>
        unat (snd (log ! i)) + unat (pc_dedup_window_ms cfg) \<le> unat (snd (log ! j))"
  shows "dedup_inv cfg now log inner"
  unfolding dedup_inv_def using assms by blast

lemma dedup_inv_log:
  assumes "dedup_inv cfg now log inner" "(r, t) \<in> set log" "log_key r = Some k"
  shows "case hm_get (dedup_seen inner) k of
      Some s \<Rightarrow> unat t \<le> unat s | None \<Rightarrow> unat t + unat (pc_dedup_window_ms cfg) \<le> now"
  using assms unfolding dedup_inv_def by blast

lemma dedup_seen_commit:
  "dedup_seen (push_commit req now inner) =
    (case log_key req of Some k \<Rightarrow> hm_insert k now (dedup_seen inner) | None \<Rightarrow> dedup_seen inner)"
  by (simp add: push_commit_def log_key_def Let_def split: option.splits)

lemma dedup_inv_commit:
  assumes inv: "dedup_inv cfg (unat now) log inner"
    and guard: "\<And>k s. log_key req = Some k \<Longrightarrow> hm_get (dedup_seen inner) k = Some s \<Longrightarrow>
       pc_dedup_window_ms cfg \<le> saturating_sub now s"
  shows "dedup_inv cfg (unat now) (log @ [(req, now)]) (push_commit req now inner)"
proof -
  let ?D = "unat (pc_dedup_window_ms cfg)"
  have past: "unat t + ?D \<le> unat now"
    if mem: "(r, t) \<in> set log" and k: "log_key r = Some k" "log_key req = Some k" for r t k
  proof (cases "hm_get (dedup_seen inner) k")
    case (Some s)
    then have "unat t \<le> unat s" "unat s \<le> unat now"
      using inv mem k(1) by (fastforce simp: dedup_inv_def)+
    with guard [OF k(2) Some] show ?thesis by (simp add: word_le_nat_alt sat_simps)
  qed (use inv mem k(1) in \<open>fastforce simp: dedup_inv_def\<close>)
  have "unat (snd (log ! i)) + ?D \<le> unat now"
    if "i < length log" "log_key (fst (log ! i)) = Some k" "log_key req = Some k" for i k
    using past [of "fst (log ! i)" "snd (log ! i)" k] that by (simp add: nth_mem)
  then have pairs: "unat (snd ((log @ [(req, now)]) ! i)) + ?D \<le> unat (snd ((log @ [(req, now)]) ! j))"
    if "i < j" "j < length (log @ [(req, now)])" "log_key (fst ((log @ [(req, now)]) ! i)) \<noteq> None"
      "log_key (fst ((log @ [(req, now)]) ! i)) = log_key (fst ((log @ [(req, now)]) ! j))" for i j
    using that inv by (auto simp: dedup_inv_def nth_append less_Suc_eq split: if_splits)
  have times: "unat t \<le> unat now" if "(r, t) \<in> set log" "log_key r = Some k" "log_key req = Some k" for r t k
    using past [OF that] by simp
  have logged: "case hm_get (dedup_seen (push_commit req now inner)) k of
          Some s \<Rightarrow> unat t \<le> unat s | None \<Rightarrow> unat t + ?D \<le> unat now"
    if "(r, t) \<in> set (log @ [(req, now)])" "log_key r = Some k" for r t k
  proof (cases "log_key req = Some k")
    case True
    with that times show ?thesis by (auto simp: dedup_seen_commit)
  next
    case False
    with that have "(r, t) \<in> set log" by auto
    from dedup_inv_log [OF inv this that(2)] False show ?thesis
      by (simp add: dedup_seen_commit split: option.splits)
  qed
  have "hm_ok (dedup_seen (push_commit req now inner))"
    using inv by (simp add: dedup_inv_def dedup_seen_commit split: option.splits)
  moreover have "unat s \<le> unat now" if "hm_get (dedup_seen (push_commit req now inner)) k = Some s" for k s
    using inv that by (auto simp: dedup_inv_def dedup_seen_commit split: option.splits if_splits)
  ultimately show ?thesis by (intro dedup_invI logged pairs)
qed

lemma dedup_inv_cleanup:
  assumes "dedup_inv cfg now0 log inner" "now0 \<le> unat now"
  shows "dedup_inv cfg (unat now) log (run_cleanup cfg now inner)"
proof -
  let ?D = "unat (pc_dedup_window_ms cfg)"
  have seen: "hm_get (dedup_seen (run_cleanup cfg now inner)) k =
      (case hm_get (dedup_seen inner) k of None \<Rightarrow> None
       | Some s \<Rightarrow> if saturating_sub now s < pc_dedup_window_ms cfg then Some s else None)" for k
    using assms(1) by (simp add: run_cleanup_def dedup_inv_def hm_get_retain)
  have "case hm_get (dedup_seen (run_cleanup cfg now inner)) k of
          Some s \<Rightarrow> unat t \<le> unat s | None \<Rightarrow> unat t + ?D \<le> unat now"
    if "(r, t) \<in> set log" "log_key r = Some k" for r t k
  proof (cases "hm_get (dedup_seen inner) k")
    case (Some s)
    then have "unat t \<le> unat s" "unat s \<le> unat now"
      using assms that by (fastforce simp: dedup_inv_def)+
    with Some show ?thesis
      by (auto simp: seen word_less_nat_alt sat_simps)
  qed (use assms that in \<open>fastforce simp: dedup_inv_def seen\<close>)
  moreover have "unat s \<le> unat now" if "hm_get (dedup_seen (run_cleanup cfg now inner)) k = Some s" for k s
    using that assms by (fastforce simp: seen dedup_inv_def split: option.splits if_splits)
  ultimately show ?thesis
    using assms(1) unfolding dedup_inv_def by (auto simp: run_cleanup_def)
qed

definition push_inv :: "push_config \<Rightarrow> nat \<Rightarrow> (push_request \<times> u64) list \<Rightarrow> push_inner \<Rightarrow> bool" where
  "push_inv cfg now log inner \<longleftrightarrow> rate_inv cfg now log inner \<and> dedup_inv cfg now log inner"

lemma push_inv_new: "push_inv cfg now [] push_inner_new"
  by (simp add: push_inv_def rate_inv_def dedup_inv_def push_inner_new_def window_inv_def push_times_def
      entry_of_def hits_def hits_from_def)

lemma push_inv_send:
  assumes "push_inv cfg now0 log inner" "now0 \<le> unat now" "0 < pc_rate_limit_window_ms cfg"
    and "send_or_deliver cfg apns req now inner = (res, inner')"
  shows "push_inv cfg (unat now) (log @ (if res = Push_delivered then [(req, now)] else [])) inner'"
proof -
  have inv: "rate_inv cfg now0 log inner" "dedup_inv cfg now0 log inner"
    using assms(1) by (simp_all add: push_inv_def)
  obtain early inner1 where guard: "push_guard cfg req now inner = (early, inner1)" by (metis prod.exhaust)
  note g = push_guard_rate [OF inv(1) assms(2,3) guard]
  have d: "dedup_inv cfg (unat now) log inner1" by (rule dedup_inv_tick [OF inv(2) assms(2) g(3)])
  have same: "push_inv cfg (unat now) log inner1" using g(1) d by (simp add: push_inv_def)
  have idle: "push_inv cfg (unat now) log inner"
    using inv dedup_inv_tick [OF inv(2) assms(2)] window_inv_tick [OF _ assms(2)]
    by (simp add: push_inv_def rate_inv_def)
  have early_ne: "early \<noteq> Some Push_delivered"
    using guard by (auto simp: push_guard_def Let_def split: if_splits option.splits)
  show ?thesis
  proof (cases "res = Push_delivered")
    case True
    then have "early = None" "inner' = push_commit req now inner1"
      using assms(4) guard early_ne
      by (auto simp: send_or_deliver_eq split: if_splits option.splits apns_delivery_result.splits)
    then show ?thesis
      using True rate_inv_commit [OF g(1) assms(3) g(2)] dedup_inv_commit [OF d] g(3,4)
      by (simp add: push_inv_def)
  next
    case False
    then have "inner' = inner \<or> inner' = inner1"
      using assms(4) guard
      by (auto simp: send_or_deliver_eq split: if_splits option.splits apns_delivery_result.splits)
    with False same idle show ?thesis by auto
  qed
qed

lemma push_inv_run:
  assumes "push_inv cfg now0 log inner" "sorted (now0 # map push_op_time ops)" "0 < pc_rate_limit_window_ms cfg"
  shows "\<exists>now inner'. push_inv cfg now (log @ deliveries cfg ops inner) inner'"
  using assms
proof (induction ops arbitrary: now0 log inner)
  case (Cons op ops)
  show ?case
  proof (cases op)
    case (PSend req now apns)
    obtain res inner' where send: "send_or_deliver cfg apns req now inner = (res, inner')" by (metis prod.exhaust)
    have "push_inv cfg (unat now) (log @ (if res = Push_delivered then [(req, now)] else [])) inner'"
      using Cons.prems PSend by (intro push_inv_send [OF _ _ _ send]) auto
    from Cons.IH [OF this] Cons.prems show ?thesis by (simp add: PSend send)
  next
    case (PCleanup now)
    have "push_inv cfg (unat now) log (run_cleanup cfg now inner)"
      using Cons.prems PCleanup rate_inv_cleanup dedup_inv_cleanup by (auto simp: push_inv_def)
    from Cons.IH [OF this] Cons.prems show ?thesis by (simp add: PCleanup)
  qed
qed auto

section \<open>Properties\<close>

text \<open>C23: The rate limit holds for calls that do not overlap. In any sequence of whole calls and cleanups
  whose clock does not go back, the pushes delivered for one daemon and frontend within any interval of
  the window's length number at most twice the limit, because the interval can meet two fixed windows (and
  a limit of zero still admits one push per window).\<close>

theorem push_rate_is_bounded:
  assumes "sorted (map push_op_time ops)" "0 < pc_rate_limit_window_ms cfg"
  shows "length (filter (\<lambda>(req, t). rate_limit_key req = k \<and> a \<le> unat t
        \<and> unat t < a + unat (pc_rate_limit_window_ms cfg)) (deliveries cfg ops push_inner_new))
    \<le> 2 * max 1 (unat (pc_rate_limit_per_minute cfg))"
proof -
  let ?log = "deliveries cfg ops push_inner_new" and ?w = "unat (pc_rate_limit_window_ms cfg)"
  obtain now inner' where "push_inv cfg now ?log inner'"
    using push_inv_run [OF push_inv_new [where now = 0], of ops cfg] assms by auto
  then have "hits a (a + ?w) (push_times k ?log) \<le> 2 * max 1 (unat (pc_rate_limit_per_minute cfg))"
    by (simp add: push_inv_def rate_inv_def window_inv_def)
  then show ?thesis
    by (simp add: hits_def push_times_def filter_map comp_def case_prod_unfold conj_ac)
qed

text \<open>Deduplication holds. In any run whose clock does not go back, two delivered pushes with the
  same frontend, session and event are at least the dedup window apart.\<close>

theorem duplicate_pushes_are_spaced:
  assumes "sorted (map push_op_time ops)" "0 < pc_rate_limit_window_ms cfg"
    and "deliveries cfg ops push_inner_new = log" "i < j" "j < length log"
    and "pq_data (fst (log ! i)) = Some d1" "pq_data (fst (log ! j)) = Some d2"
    and "dedup_key (fst (log ! i)) d1 = dedup_key (fst (log ! j)) d2"
  shows "unat (snd (log ! i)) + unat (pc_dedup_window_ms cfg) \<le> unat (snd (log ! j))"
proof -
  obtain now inner' where "push_inv cfg now log inner'"
    using push_inv_run [OF push_inv_new [where now = 0], of ops cfg] assms(1-3) by auto
  then have "dedup_inv cfg now log inner'" by (simp add: push_inv_def)
  with assms(4-8) show ?thesis by (simp add: dedup_inv_def log_key_def)
qed

section \<open>Overlapping calls\<close>

text \<open>
  \<open>n\<close> calls that are all past the guard before the first of them commits: \<open>begin_all\<close> runs their first
  sections, \<open>end_all\<close> their second ones, APNs accepting each.
\<close>

fun begin_all :: "push_config \<Rightarrow> push_request \<Rightarrow> u64 \<Rightarrow> nat \<Rightarrow> push_inner \<Rightarrow> push_phase list \<times> push_inner" where
  "begin_all cfg req now 0 inner = ([], inner)"
| "begin_all cfg req now (Suc n) inner =
    (let (phase, inner) = send_begin cfg req now inner; (phases, inner) = begin_all cfg req now n inner in (phase # phases, inner))"

fun end_all :: "push_request \<Rightarrow> u64 \<Rightarrow> nat \<Rightarrow> push_inner \<Rightarrow> delivery_result list \<times> push_inner" where
  "end_all req now 0 inner = ([], inner)"
| "end_all req now (Suc n) inner =
    (let (result, inner) = send_end req now ApnsOk inner; (results, inner) = end_all req now n inner in (result # results, inner))"

text \<open>Overlapping calls are not held to the limit. For a frontend with no entry in the rate table, any number of
  calls without dedup data whose first sections all run before the first of the second ones are all sent
  to APNs and, when APNs accepts them, all delivered, whatever the limit.\<close>

lemma overlapping_pushes_exceed_the_limit:
  assumes "\<not> pq_is_frontend_connected req" "pq_data req = None" "hm_get (rate_limits inner) (rate_limit_key req) = None"
    "pc_has_apns cfg"
  shows "begin_all cfg req now n inner = (replicate n (Calling (apns_payload_of req)), inner) \<and>
    fst (end_all req now n inner) = replicate n Push_delivered"
proof -
  have "send_begin cfg req now inner = (Calling (apns_payload_of req), inner)"
    using assms by (simp add: send_begin_def push_guard_def hm_modify_def)
  then have "begin_all cfg req now n inner = (replicate n (Calling (apns_payload_of req)), inner)" by (induction n) simp_all
  moreover have "fst (end_all req now n inner) = replicate n Push_delivered"
    by (induction n arbitrary: inner) (auto simp: send_end_def case_prod_beta Let_def)
  ultimately show ?thesis ..
qed

definition demo_push_config :: push_config where
  "demo_push_config = \<lparr>pc_rate_limit_per_minute = 1, pc_dedup_window_ms = 50,
     pc_rate_limit_window_ms = 100, pc_has_apns = True\<rparr>"

definition demo_push :: push_request where
  "demo_push = \<lparr>pq_frontend_id = ''f'', pq_daemon_id = ''d'', pq_token = ''t'', pq_title = '''', pq_body = '''',
     pq_is_frontend_connected = False, pq_interruption_level = None,
     pq_data = Some \<lparr>pd_sid = ''s'', pd_daemon_id = ''d'', pd_event = ''e''\<rparr>\<rparr>"

definition demo_push_ops :: "push_op list" where
  "demo_push_ops = [PSend demo_push 10 (\<lambda>_. ApnsOk), PSend demo_push 20 (\<lambda>_. ApnsOk),
     PSend demo_push 70 (\<lambda>_. ApnsOk), PCleanup 110, PSend demo_push 120 (\<lambda>_. ApnsOk)]"

lemma demo_deliveries: "deliveries demo_push_config demo_push_ops push_inner_new = [(demo_push, 10), (demo_push, 120)]"
  by (simp add: demo_push_ops_def push_inner_new_def send_or_deliver_eq push_guard_def push_commit_def
      demo_push_config_def demo_push_def dedup_key_def rate_limit_key_def hm_modify_def hm_or_insert_def
      saturating_sub_def Let_def run_cleanup_def hm_retain_def)

theorem push_rate_is_bounded_witness:
  "length (filter (\<lambda>(req, t). rate_limit_key req = ''d:f'' \<and> 10 \<le> unat t
        \<and> unat t < 10 + unat (pc_rate_limit_window_ms demo_push_config))
      (deliveries demo_push_config demo_push_ops push_inner_new))
    \<le> 2 * max 1 (unat (pc_rate_limit_per_minute demo_push_config))"
  by (rule push_rate_is_bounded) (simp_all add: demo_push_ops_def demo_push_config_def)

theorem duplicate_pushes_are_spaced_witness:
  "unat (snd ([(demo_push, 10), (demo_push, 120 :: u64)] ! 0)) + unat (pc_dedup_window_ms demo_push_config)
    \<le> unat (snd ([(demo_push, 10), (demo_push, 120 :: u64)] ! 1))"
  by (rule duplicate_pushes_are_spaced [OF _ _ demo_deliveries])
    (simp_all add: demo_push_ops_def demo_push_config_def demo_push_def)

end
