(* ===== verification/Relay_Conn.thy ===== *)
theory Relay_Conn
  imports Relay_Core Handshake Push_Seal Push_Service
begin

text \<open>
  The connection layer of the relay (\<open>tp-relay/src/conn.rs\<close>, \<open>metrics.rs\<close>): what one inbound frame
  does, delivery with backpressure, the stale sweep and teardown.

  Each critical section of the code (a block that holds the \<open>RelayCore\<close> mutex) is one function, and
  \<open>sys_step\<close> lets the sections of all tasks interleave. A connection's two channels are a \<open>socket\<close>:
  the bounded outbox that the write task drains and the close directives. Its ends: \<open>so_open\<close> while
  the write task holds the receivers, \<open>so_loop_tx\<close> while the read loop holds its \<open>close_tx\<close>; the
  connection's handle holds a sender of each channel. Arguments stand for what
  the code reads from outside: the clock \<open>now\<close>, the limiters' answers \<open>lim_ok\<close>, the nonce of a
  seal, the JSON parser and the APNs client.
\<close>

section \<open>Metrics\<close>

record metrics =
  me_frames_in :: u64
  me_frames_out :: u64
  me_rate_limited_drops :: u64
  me_daemon_rate_limited_drops :: u64
  me_backpressure_disconnects :: u64
  me_auth_timeouts :: u64
  me_oversized_drops :: u64
  me_unknown_type_drops :: u64
  me_evictions :: u64
  me_resumes_attempted :: u64
  me_resumes_accepted :: u64
  me_resumes_rejected :: u64

definition metrics_new :: metrics where
  "metrics_new = \<lparr>me_frames_in = 0, me_frames_out = 0, me_rate_limited_drops = 0,
     me_daemon_rate_limited_drops = 0, me_backpressure_disconnects = 0, me_auth_timeouts = 0,
     me_oversized_drops = 0, me_unknown_type_drops = 0, me_evictions = 0, me_resumes_attempted = 0,
     me_resumes_accepted = 0, me_resumes_rejected = 0\<rparr>"

definition inc_frames_in :: "metrics \<Rightarrow> metrics" where
  "inc_frames_in m = m\<lparr>me_frames_in := me_frames_in m + 1\<rparr>"

definition inc_frames_out :: "metrics \<Rightarrow> metrics" where
  "inc_frames_out m = m\<lparr>me_frames_out := me_frames_out m + 1\<rparr>"

definition inc_rate_limited_drops :: "metrics \<Rightarrow> metrics" where
  "inc_rate_limited_drops m = m\<lparr>me_rate_limited_drops := me_rate_limited_drops m + 1\<rparr>"

definition inc_daemon_rate_limited_drops :: "metrics \<Rightarrow> metrics" where
  "inc_daemon_rate_limited_drops m = m\<lparr>me_daemon_rate_limited_drops := me_daemon_rate_limited_drops m + 1\<rparr>"

definition inc_backpressure_disconnects :: "metrics \<Rightarrow> metrics" where
  "inc_backpressure_disconnects m = m\<lparr>me_backpressure_disconnects := me_backpressure_disconnects m + 1\<rparr>"

definition inc_auth_timeouts :: "metrics \<Rightarrow> metrics" where
  "inc_auth_timeouts m = m\<lparr>me_auth_timeouts := me_auth_timeouts m + 1\<rparr>"

definition inc_oversized_drops :: "metrics \<Rightarrow> metrics" where
  "inc_oversized_drops m = m\<lparr>me_oversized_drops := me_oversized_drops m + 1\<rparr>"

definition inc_unknown_type_drops :: "metrics \<Rightarrow> metrics" where
  "inc_unknown_type_drops m = m\<lparr>me_unknown_type_drops := me_unknown_type_drops m + 1\<rparr>"

definition inc_evictions :: "metrics \<Rightarrow> metrics" where
  "inc_evictions m = m\<lparr>me_evictions := me_evictions m + 1\<rparr>"

definition inc_resumes_attempted :: "metrics \<Rightarrow> metrics" where
  "inc_resumes_attempted m = m\<lparr>me_resumes_attempted := me_resumes_attempted m + 1\<rparr>"

definition inc_resumes_accepted :: "metrics \<Rightarrow> metrics" where
  "inc_resumes_accepted m = m\<lparr>me_resumes_accepted := me_resumes_accepted m + 1\<rparr>"

definition inc_resumes_rejected :: "metrics \<Rightarrow> metrics" where
  "inc_resumes_rejected m = m\<lparr>me_resumes_rejected := me_resumes_rejected m + 1\<rparr>"

section \<open>State\<close>

record relay_env =
  en_api :: crypto_api
  en_json :: "string \<Rightarrow> json option"
  en_signer :: resume_token_signer
  en_stale_timeout_ms :: u64
  en_offline_evict_ms :: u64
  en_outbox_cap :: nat
  en_max_frame_size :: nat
  en_max_preauth_msgs :: u32

record socket =
  so_outbox :: "relay_server_message list"
  so_open :: bool
  so_close :: "(u16 \<times> string) list"
  so_loop_tx :: bool

record relay =
  w_core :: relay_core
  w_sockets :: "(conn_id, socket) hash_map"
  w_sealer :: push_sealer
  w_metrics :: metrics
  w_next_conn :: conn_id
  w_push :: "(push_config \<times> push_inner) option"

type_synonym close_reason = "(u16 \<times> string) option"

definition relay_new ::
  "relay_core \<Rightarrow> push_sealer \<Rightarrow> (push_config \<times> push_inner) option \<Rightarrow> relay" where
  "relay_new core sealer push = \<lparr>w_core = core, w_sockets = hm_empty, w_sealer = sealer,
     w_metrics = metrics_new, w_next_conn = 1, w_push = push\<rparr>"

definition alloc_conn_id :: "relay \<Rightarrow> conn_id \<times> relay" where
  "alloc_conn_id w = (w_next_conn w, w\<lparr>w_next_conn := w_next_conn w + 1\<rparr>)"

text \<open>The start of \<open>connection_loop\<close>: the id, the channels, the handle.\<close>

definition conn_open :: "relay \<Rightarrow> conn_id \<times> relay" where
  "conn_open w =
    (let (c, w) = alloc_conn_id w
     in (c, w\<lparr>w_core := open_conn c (w_core w),
              w_sockets := hm_insert c \<lparr>so_outbox = [], so_open = True, so_close = [], so_loop_tx = True\<rparr> (w_sockets w)\<rparr>))"

section \<open>Handshake and routing under the lock\<close>

definition authed_state :: "relay_core \<Rightarrow> conn_id \<Rightarrow> auth_state option" where
  "authed_state core c = (case hm_get (rc_conns core) c of Some h \<Rightarrow> ch_auth h | None \<Rightarrow> None)"

definition not_authenticated :: "conn_id \<Rightarrow> string option \<Rightarrow> action list" where
  "not_authenticated c m = [ASend c (relay_error ''NOT_AUTHENTICATED'' m None)]"

fun is_auth_ok :: "relay_server_message \<Rightarrow> bool" where
  "is_auth_ok (SAuthOk _) = True"
| "is_auth_ok _ = False"

definition finish_auth ::
  "relay_core \<Rightarrow> conn_id \<Rightarrow> relay_server_message \<Rightarrow> role \<Rightarrow> string \<Rightarrow> string option \<Rightarrow> action list \<times> relay_core" where
  "finish_auth core c reply role daemon_id frontend_id =
    (if \<not> is_auth_ok reply
     then ([ASend c reply] @
           (if role = Frontend \<and> frontend_id = None then [AClose c 1008 ''frontendId required''] else []), core)
     else let auth = \<lparr>as_role = role, as_daemon_id = daemon_id, as_frontend_id = frontend_id, as_subscriptions = []\<rparr>;
              core = register_authed_conn core c auth
          in ([ASend c reply] @ presence_actions core daemon_id, core))"

fun resume_identity :: "resume_payload \<Rightarrow> role \<times> string \<times> string option" where
  "resume_identity (RDaemon d _) = (Daemon, d, None)"
| "resume_identity (RFrontend d f _) = (Frontend, d, Some f)"

definition route_push_register ::
  "crypto_api \<Rightarrow> relay_core \<Rightarrow> push_sealer \<Rightarrow> u8 list \<Rightarrow> conn_id \<Rightarrow> string \<Rightarrow> platform \<Rightarrow> action list \<times> push_sealer" where
  "route_push_register api core sealer nonce c token platform =
    (case authed_state core c of
       None \<Rightarrow> (not_authenticated c (Some ''Send relay.auth first''), sealer)
     | Some client \<Rightarrow>
         if as_role client \<noteq> Frontend
         then ([ASend c (relay_error ''UNAUTHORIZED'' (Some ''Only frontends can send relay.push.register'') None)], sealer)
         else
           let daemon_conn = find (\<lambda>p. case conn_auth core p of Some a \<Rightarrow> as_role a = Daemon | None \<Rightarrow> False)
                 (group_of core (as_daemon_id client)) in
           (case ps_seal api sealer token nonce of
              (Inl _, sealer) \<Rightarrow> ([], sealer)
            | (Inr sealed, sealer) \<Rightarrow>
                (case daemon_conn of
                   None \<Rightarrow> ([], sealer)
                 | Some p \<Rightarrow>
                     ([ASend p (SPushToken \<lparr>pt_frontend_id = (case as_frontend_id client of Some f \<Rightarrow> f | None \<Rightarrow> ''''),
                         pt_sealed = sealed, pt_platform = platform\<rparr>)], sealer))))"

text \<open>The two-layer rate check that precedes every authenticated frame but a ping.\<close>

datatype rate_verdict = RateOk | ClientLimited | GroupLimited

definition rate_check :: "(limiter \<Rightarrow> bool) \<Rightarrow> conn_handle \<Rightarrow> rate_verdict" where
  "rate_check lim_ok h =
    (if \<not> lim_ok (ch_client_limiter h) then ClientLimited
     else if \<not> (case ch_group_limiter h of None \<Rightarrow> True | Some g \<Rightarrow> lim_ok g) then GroupLimited
     else RateOk)"

definition rate_limited :: "string \<Rightarrow> relay_server_message" where
  "rate_limited m = relay_error ''RATE_LIMITED'' (Some m) None"

definition rate_reject :: "rate_verdict \<Rightarrow> relay_server_message option" where
  "rate_reject v = (case v of
     RateOk \<Rightarrow> None
   | ClientLimited \<Rightarrow> Some (rate_limited ''Too many messages. Slow down.'')
   | GroupLimited \<Rightarrow> Some (rate_limited ''Daemon group budget exceeded. Slow down.''))"

definition rate_metrics :: "rate_verdict \<Rightarrow> metrics \<Rightarrow> metrics" where
  "rate_metrics v m = (case v of
     RateOk \<Rightarrow> m | ClientLimited \<Rightarrow> inc_rate_limited_drops m | GroupLimited \<Rightarrow> inc_daemon_rate_limited_drops m)"

fun is_ping :: "relay_client_message \<Rightarrow> bool" where
  "is_ping (Ping _) = True"
| "is_ping _ = False"

fun dispatch_message ::
  "relay_env \<Rightarrow> u64 \<Rightarrow> u8 list \<Rightarrow> conn_id \<Rightarrow> relay_client_message \<Rightarrow> relay \<Rightarrow> action list \<times> relay" where
  "dispatch_message env now nonce c (Auth role daemon_id token v frontend_id) w =
    (let (reply, reg) = handle_auth (en_api env) daemon_id token (role = Daemon) frontend_id now
           (rc_registry (w_core w)) (en_signer env);
         (acts, core) = finish_auth ((w_core w)\<lparr>rc_registry := reg\<rparr>) c reply role daemon_id frontend_id
     in (acts, w\<lparr>w_core := core\<rparr>))"
| "dispatch_message env now nonce c (AuthResume token v) w =
    (let w = w\<lparr>w_metrics := inc_resumes_attempted (w_metrics w)\<rparr>;
         ((reply, payload), reg) = handle_auth_resume (en_api env) token now (rc_registry (w_core w)) (en_signer env);
         core = (w_core w)\<lparr>rc_registry := reg\<rparr>
     in (case payload of
           Some p \<Rightarrow>
             if is_auth_ok reply
             then let (role, daemon_id, fid) = resume_identity p;
                      (acts, core) = finish_auth core c reply role daemon_id fid
                  in (acts, w\<lparr>w_core := core, w_metrics := inc_resumes_accepted (w_metrics w)\<rparr>)
             else ([ASend c reply], w\<lparr>w_core := core, w_metrics := inc_resumes_rejected (w_metrics w)\<rparr>)
         | None \<Rightarrow> ([ASend c reply], w\<lparr>w_core := core, w_metrics := inc_resumes_rejected (w_metrics w)\<rparr>)))"
| "dispatch_message env now nonce c (Register daemon_id proof token v) w =
    (let (reply, reg) = handle_register daemon_id token proof now (rc_registry (w_core w))
     in ([ASend c reply], w\<lparr>w_core := (w_core w)\<lparr>rc_registry := reg\<rparr>\<rparr>))"
| "dispatch_message env now nonce c (Publish sid ct seq) w =
    (case authed_state (w_core w) c of
       None \<Rightarrow> (not_authenticated c (Some ''Send relay.auth first''), w)
     | Some client \<Rightarrow>
         let (acts, core) = route_publish (w_core w) c client sid ct seq now in (acts, w\<lparr>w_core := core\<rparr>))"
| "dispatch_message env now nonce c (KeyExchange ct role) w =
    (case authed_state (w_core w) c of
       None \<Rightarrow> (not_authenticated c (Some ''Send relay.auth first''), w)
     | Some client \<Rightarrow> (route_key_exchange (w_core w) c client ct, w))"
| "dispatch_message env now nonce c (Subscribe sid after) w =
    (if authed_state (w_core w) c = None then (not_authenticated c None, w)
     else let (acts, core) = route_subscribe (w_core w) c sid after in (acts, w\<lparr>w_core := core\<rparr>))"
| "dispatch_message env now nonce c (Unsubscribe sid) w =
    (if authed_state (w_core w) c \<noteq> None
     then ([], w\<lparr>w_core := route_unsubscribe (w_core w) c sid\<rparr>) else ([], w))"
| "dispatch_message env now nonce c (Ping ts) w =
    (case authed_state (w_core w) c of
       Some client \<Rightarrow> let (acts, core) = route_ping (w_core w) c client ts now in (acts, w\<lparr>w_core := core\<rparr>)
     | None \<Rightarrow> ([], w))"
| "dispatch_message env now nonce c (PushRegister fid token platform) w =
    (let (acts, sealer) = route_push_register (en_api env) (w_core w) (w_sealer w) nonce c token platform
     in (acts, w\<lparr>w_sealer := sealer\<rparr>))"
| "dispatch_message env now nonce c (Push fid sealed title body level data) w = ([], w)"

definition dispatch_locked ::
  "relay_env \<Rightarrow> (limiter \<Rightarrow> bool) \<Rightarrow> u64 \<Rightarrow> u8 list \<Rightarrow> conn_id \<Rightarrow> relay_client_message \<Rightarrow> relay \<Rightarrow> action list \<times> relay" where
  "dispatch_locked env lim_ok now nonce c msg w =
    (case hm_get (rc_conns (w_core w)) c of
       Some h \<Rightarrow>
         if ch_auth h \<noteq> None \<and> \<not> is_ping msg
         then (case rate_reject (rate_check lim_ok h) of
                 Some reply \<Rightarrow> ([ASend c reply], w\<lparr>w_metrics := rate_metrics (rate_check lim_ok h) (w_metrics w)\<rparr>)
               | None \<Rightarrow> dispatch_message env now nonce c msg w)
         else dispatch_message env now nonce c msg w
     | None \<Rightarrow> dispatch_message env now nonce c msg w)"

section \<open>Delivery\<close>

text \<open>
  \<open>deliver_actions\<close> and \<open>close_conn\<close> call each other. A task is the stack of their activations:
  \<open>Deliver\<close> with the actions left and the slow consumers found so far, \<open>Sending\<close> when it has cloned the
  target's sender under the lock and is about to \<open>try_send\<close>, \<open>Signal\<close> for the send on the close channel
  that \<open>close_conn\<close> makes after its critical section, with the sender it cloned. \<open>deliver_step\<close> is one
  section: a lookup, a \<open>try_send\<close>, a teardown, or a send on a close channel.
\<close>

datatype activation =
    Deliver "action list" "conn_id list"
  | Sending conn_id relay_server_message "action list" "conn_id list"
  | Signal conn_id u16 string

type_synonym task = "activation list"

datatype send_result = Sent | Full | Closed

definition try_send :: "nat \<Rightarrow> relay_server_message \<Rightarrow> socket \<Rightarrow> send_result \<times> socket" where
  "try_send cap msg so =
    (if \<not> so_open so then (Closed, so)
     else if length (so_outbox so) \<ge> cap then (Full, so)
     else (Sent, so\<lparr>so_outbox := so_outbox so @ [msg]\<rparr>))"

definition push_close :: "conn_id \<Rightarrow> u16 \<Rightarrow> string \<Rightarrow> relay \<Rightarrow> relay" where
  "push_close c code reason w =
    w\<lparr>w_sockets := hm_modify c
        (\<lambda>so. if so_open so then so\<lparr>so_close := so_close so @ [(code, reason)]\<rparr> else so) (w_sockets w)\<rparr>"

definition deliver_send :: "relay_env \<Rightarrow> conn_id \<Rightarrow> relay_server_message \<Rightarrow> relay \<Rightarrow> bool \<times> relay" where
  "deliver_send env target msg w =
    (case hm_get (w_sockets w) target of
       None \<Rightarrow> (False, w)
     | Some so \<Rightarrow>
         (case try_send (en_outbox_cap env) msg so of
            (Sent, so) \<Rightarrow> (False, w\<lparr>w_sockets := hm_insert target so (w_sockets w),
                                   w_metrics := inc_frames_out (w_metrics w)\<rparr>)
          | (Full, so) \<Rightarrow> (True, w)
          | (Closed, so) \<Rightarrow> (False, w)))"

definition close_conn :: "conn_id \<Rightarrow> u16 \<Rightarrow> string \<Rightarrow> u64 \<Rightarrow> relay \<Rightarrow> task \<times> relay" where
  "close_conn c code reason now w =
    (let signal = (if hm_contains (rc_conns (w_core w)) c then [Signal c code reason] else []);
         (daemon, core) = handle_close (w_core w) c now;
         presence = map_option (presence_actions core) daemon
     in (signal @ (case presence of Some acts \<Rightarrow> [Deliver acts []] | None \<Rightarrow> []), w\<lparr>w_core := core\<rparr>))"

fun deliver_step :: "relay_env \<Rightarrow> u64 \<Rightarrow> task \<Rightarrow> relay \<Rightarrow> task \<times> relay" where
  "deliver_step env now [] w = ([], w)"
| "deliver_step env now (Signal c code reason # st) w = (st, push_close c code reason w)"
| "deliver_step env now (Deliver [] [] # st) w = (st, w)"
| "deliver_step env now (Deliver [] (t # bp) # st) w =
    (let (calls, w) = close_conn t 1013 ''Backpressure'' now
           (w\<lparr>w_metrics := inc_backpressure_disconnects (w_metrics w)\<rparr>)
     in (calls @ Deliver [] bp # st, w))"
| "deliver_step env now (Deliver (ASend t msg # acts) bp # st) w =
    ((if hm_contains (rc_conns (w_core w)) t then Sending t msg acts bp else Deliver acts bp) # st, w)"
| "deliver_step env now (Sending t msg acts bp # st) w =
    (let (full, w) = deliver_send env t msg w in (Deliver acts (if full then bp @ [t] else bp) # st, w))"
| "deliver_step env now (Deliver (AClose t code reason # acts) bp # st) w =
    (let (calls, w) = close_conn t code reason now w in (calls @ Deliver acts bp # st, w))"

section \<open>Push\<close>

datatype push_resolution =
    PReply "action list"
  | PPush string string "conn_id option" bool \<comment> \<open>daemon_id, token, frontend_conn, is_frontend_connected\<close>

definition resolve_push_locked ::
  "crypto_api \<Rightarrow> relay_core \<Rightarrow> push_sealer \<Rightarrow> conn_id \<Rightarrow> string \<Rightarrow> string \<Rightarrow> push_resolution \<times> push_sealer" where
  "resolve_push_locked api core sealer c frontend_id sealed =
    (case authed_state core c of
       None \<Rightarrow> (PReply (not_authenticated c (Some ''Send relay.auth first'')), sealer)
     | Some client \<Rightarrow>
         if as_role client \<noteq> Daemon
         then (PReply [ASend c (relay_error ''UNAUTHORIZED'' (Some ''Only daemons can send push requests'') None)], sealer)
         else
           let frontend_conn = find (\<lambda>p. case conn_auth core p of
                   Some a \<Rightarrow> as_role a = Frontend \<and> as_frontend_id a = Some frontend_id
                 | None \<Rightarrow> False) (group_of core (as_daemon_id client));
               is_connected = (frontend_conn \<noteq> None);
               (result, sealer) = ps_unseal api sealer sealed
           in ((case result of
                  UnsealOk token \<Rightarrow> PPush (as_daemon_id client) token frontend_conn is_connected
                | Legacy \<Rightarrow> PPush (as_daemon_id client) sealed frontend_conn is_connected
                | _ \<Rightarrow> PReply [ASend c (relay_error ''PUSH_UNSEAL_FAILED''
                          (Some (''Push token unseal failed for frontendId '' @ frontend_id)) (Some frontend_id))]),
               sealer))"

record push_job =
  pj_req :: push_request
  pj_target :: "conn_id option"
  pj_daemon_conn :: conn_id
  pj_title :: string
  pj_body :: string
  pj_data :: "push_data option"

fun level_to_string :: "interruption_level \<Rightarrow> string" where
  "level_to_string Active = ''active''"
| "level_to_string TimeSensitive = ''time-sensitive''"

definition map_delivery_result ::
  "delivery_result \<Rightarrow> conn_id option \<Rightarrow> conn_id \<Rightarrow> string \<Rightarrow> string \<Rightarrow> push_data option \<Rightarrow> string \<Rightarrow> action list" where
  "map_delivery_result result target daemon_conn title body data fid =
    (case result of
       Ws \<Rightarrow> (case target of
                None \<Rightarrow> []
              | Some fc \<Rightarrow> [ASend fc (SNotification \<lparr>no_title = title, no_body = body, no_data = data\<rparr>)])
     | Push_delivered \<Rightarrow> []
     | Deduped \<Rightarrow> []
     | RateLimited \<Rightarrow> [ASend daemon_conn (relay_error ''PUSH_RATE_LIMITED''
           (Some (''Push rate limit exceeded for frontendId '' @ fid)) (Some fid))]
     | Delivery_error \<Rightarrow> [ASend daemon_conn (relay_error ''PUSH_DELIVERY_ERROR''
           (Some (''Push delivery failed for frontendId '' @ fid)) (Some fid))]
     | DeadToken \<Rightarrow> [ASend daemon_conn (relay_error ''PUSH_TOKEN_DEAD''
           (Some (''APNs device token is dead for frontendId '' @ fid)) (Some fid))])"

definition frontend_conn_live :: "relay_core \<Rightarrow> conn_id option \<Rightarrow> string \<Rightarrow> bool" where
  "frontend_conn_live core conn frontend_id =
    (case conn of
       None \<Rightarrow> False
     | Some cid \<Rightarrow>
         (case conn_auth core cid of
            Some a \<Rightarrow> as_role a = Frontend \<and> as_frontend_id a = Some frontend_id
          | None \<Rightarrow> False))"

text \<open>
  The two critical sections of \<open>handle_push\<close>: the rate check, with its answer when the push is refused, and
  the gate, lookup and unseal, which gives either actions to deliver or a job for \<open>finish_push_send\<close>.
\<close>

definition push_rate_section :: "(limiter \<Rightarrow> bool) \<Rightarrow> conn_id \<Rightarrow> relay \<Rightarrow> relay_server_message option \<times> relay" where
  "push_rate_section lim_ok c w =
    (let verdict = (case hm_get (rc_conns (w_core w)) c of
                      Some h \<Rightarrow> if ch_auth h \<noteq> None then rate_check lim_ok h else RateOk
                    | None \<Rightarrow> RateOk)
     in (rate_reject verdict, w\<lparr>w_metrics := rate_metrics verdict (w_metrics w)\<rparr>))"

definition push_resolve_section ::
  "relay_env \<Rightarrow> conn_id \<Rightarrow> string \<Rightarrow> string \<Rightarrow> string \<Rightarrow> string \<Rightarrow> interruption_level option
    \<Rightarrow> push_data option \<Rightarrow> relay \<Rightarrow> (action list \<times> push_job option) \<times> relay" where
  "push_resolve_section env c frontend_id sealed title body level data w =
    (let (resolved, sealer) = resolve_push_locked (en_api env) (w_core w) (w_sealer w) c frontend_id sealed;
         w = w\<lparr>w_sealer := sealer\<rparr>
     in case resolved of
          PReply acts \<Rightarrow> ((acts, None), w)
        | PPush daemon_id token frontend_conn is_connected \<Rightarrow>
            (case w_push w of
               None \<Rightarrow>
                 ((if is_connected
                   then map_delivery_result Ws frontend_conn c title body data frontend_id else [], None), w)
             | Some _ \<Rightarrow>
                 (([], Some \<lparr>pj_req = \<lparr>pq_frontend_id = frontend_id, pq_daemon_id = daemon_id, pq_token = token,
                      pq_title = title, pq_body = body, pq_is_frontend_connected = is_connected,
                      pq_interruption_level = map_option level_to_string level, pq_data = data\<rparr>,
                    pj_target = frontend_conn, pj_daemon_conn = c, pj_title = title, pj_body = body,
                    pj_data = data\<rparr>), w)))"

text \<open>Both sections with nothing in between.\<close>

definition handle_push ::
  "relay_env \<Rightarrow> (limiter \<Rightarrow> bool) \<Rightarrow> conn_id \<Rightarrow> string \<Rightarrow> string \<Rightarrow> string \<Rightarrow> string \<Rightarrow> interruption_level option
    \<Rightarrow> push_data option \<Rightarrow> relay \<Rightarrow> (action list \<times> push_job option) \<times> relay" where
  "handle_push env lim_ok c frontend_id sealed title body level data w =
    (case push_rate_section lim_ok c w of
       (Some reply, w) \<Rightarrow> (([ASend c reply], None), w)
     | (None, w) \<Rightarrow> push_resolve_section env c frontend_id sealed title body level data w)"

text \<open>
  The task of \<open>finish_push_send\<close>, cut at its locks and at the await: \<open>Call\<close> is about to enter
  \<open>send_or_deliver\<close>, \<open>Probe\<close> has the verdict \<open>Ws\<close> and is about to look whether the frontend is still there,
  \<open>Await\<close> waits for APNs with the clock reading of its call. A step ends with the next task or the result.
\<close>

datatype push_task = Call push_job | Probe push_job | Await push_job u64 apns_payload

fun push_job_of :: "push_task \<Rightarrow> push_job" where
  "push_job_of (Call job) = job"
| "push_job_of (Probe job) = job"
| "push_job_of (Await job _ _) = job"

fun push_step ::
  "push_config \<Rightarrow> (apns_payload \<Rightarrow> apns_delivery_result) \<Rightarrow> u64 \<Rightarrow> relay_core \<Rightarrow> push_task \<Rightarrow> push_inner
    \<Rightarrow> (push_task + delivery_result) \<times> push_inner" where
  "push_step cfg apns now core (Call job) inner =
    (case send_begin cfg (pj_req job) now inner of
       (Answered Ws, inner) \<Rightarrow> (Inl (Probe job), inner)
     | (Answered result, inner) \<Rightarrow> (Inr result, inner)
     | (Calling payload, inner) \<Rightarrow> (Inl (Await job now payload), inner))"
| "push_step cfg apns now core (Probe job) inner =
    (if frontend_conn_live core (pj_target job) (pq_frontend_id (pj_req job)) then (Inr Ws, inner)
     else (Inl (Call (job\<lparr>pj_req := (pj_req job)\<lparr>pq_is_frontend_connected := False\<rparr>\<rparr>)), inner))"
| "push_step cfg apns now core (Await job called payload) inner =
    (let (result, inner) = send_end (pj_req job) called (apns payload) inner in (Inr result, inner))"

definition push_actions :: "push_job \<Rightarrow> delivery_result \<Rightarrow> action list" where
  "push_actions job result = map_delivery_result result (pj_target job) (pj_daemon_conn job) (pj_title job) (pj_body job)
     (pj_data job) (pq_frontend_id (pj_req job))"

text \<open>
  The whole task when nobody else touches the push state. The first call reads the clock as \<open>now\<close>, the
  second, made when the frontend is gone, as \<open>now'\<close>; \<open>core'\<close> is the shared state at the liveness probe.
\<close>

definition finish_push_send ::
  "push_config \<Rightarrow> (apns_payload \<Rightarrow> apns_delivery_result) \<Rightarrow> u64 \<Rightarrow> u64 \<Rightarrow> relay_core \<Rightarrow> push_job \<Rightarrow> push_inner
    \<Rightarrow> (delivery_result \<times> action list) \<times> push_inner" where
  "finish_push_send cfg apns now now' core' job inner =
    (let req = pj_req job;
         (result, inner) = send_or_deliver cfg apns req now inner;
         (result, inner) =
           (if result = Ws \<and> \<not> frontend_conn_live core' (pj_target job) (pq_frontend_id req)
            then send_or_deliver cfg apns (req\<lparr>pq_is_frontend_connected := False\<rparr>) now' inner
            else (result, inner))
     in ((result, push_actions job result), inner))"

section \<open>One inbound frame\<close>

definition preauth_section :: "relay_env \<Rightarrow> conn_id \<Rightarrow> relay \<Rightarrow> bool \<times> relay" where
  "preauth_section env c w =
    (case hm_get (rc_conns (w_core w)) c of
       Some h \<Rightarrow>
         if ch_auth h = None
         then let h = h\<lparr>ch_preauth_count := ch_preauth_count h + 1\<rparr>
              in (ch_preauth_count h > en_max_preauth_msgs env,
                  w\<lparr>w_core := (w_core w)\<lparr>rc_conns := hm_insert c h (rc_conns (w_core w))\<rparr>\<rparr>)
         else (False, w)
     | None \<Rightarrow> (False, w))"

definition json_type_label :: "json \<Rightarrow> string" where
  "json_type_label v =
    (case as_object v of
       Some obj \<Rightarrow> (case hm_get obj ''t'' of
                      Some t \<Rightarrow> (case as_str t of Some s \<Rightarrow> s | None \<Rightarrow> ''(none)'')
                    | None \<Rightarrow> ''(none)'')
     | None \<Rightarrow> ''(none)'')"

text \<open>The whole of \<open>handle_inbound\<close>: the close it asks for, what it delivers, the push job it spawns.\<close>

definition handle_inbound ::
  "relay_env \<Rightarrow> (limiter \<Rightarrow> bool) \<Rightarrow> u64 \<Rightarrow> u8 list \<Rightarrow> conn_id \<Rightarrow> string \<Rightarrow> relay
    \<Rightarrow> (close_reason \<times> action list \<times> push_job option) \<times> relay" where
  "handle_inbound env lim_ok now nonce c text w =
    (let size = length text in
     if size > en_max_frame_size env
     then ((Some (1009, ''Frame too large''),
            [ASend c (relay_error ''FRAME_TOO_LARGE'' (Some (''Frame size '' @ show_nat size @ '' exceeds limit of ''
               @ show_nat (en_max_frame_size env) @ '' bytes'')) None)], None),
           w\<lparr>w_metrics := inc_oversized_drops (w_metrics w)\<rparr>)
     else
       let w = w\<lparr>w_metrics := inc_frames_in (w_metrics w)\<rparr>;
           (close_preauth, w) = preauth_section env c w in
       if close_preauth then ((Some (1008, ''Too many pre-auth messages''), [], None), w)
       else (case en_json env text of
           None \<Rightarrow> ((None, [ASend c (relay_error ''PARSE_ERROR'' (Some ''Invalid JSON'') None)], None), w)
         | Some value \<Rightarrow>
             (case parse_relay_client_message value of
                None \<Rightarrow>
                  ((None, [ASend c (relay_error ''UNKNOWN_TYPE''
                     (Some (''Unknown or malformed message type: '' @ json_type_label value)) None)], None),
                   w\<lparr>w_metrics := inc_unknown_type_drops (w_metrics w)\<rparr>)
              | Some (Push fid sealed title body level data) \<Rightarrow>
                  (let ((acts, job), w) = handle_push env lim_ok c fid sealed title body level data w
                   in ((None, acts, job), w))
              | Some msg \<Rightarrow>
                  (let (acts, w) = dispatch_locked env lim_ok now nonce c msg w in ((None, acts, None), w)))))"

section \<open>Sweep, teardown, writer\<close>

definition sweep_evicted :: "string \<Rightarrow> relay \<Rightarrow> relay" where
  "sweep_evicted d w = w\<lparr>
     w_core := (w_core w)\<lparr>rc_recent := purge_daemon d (rc_recent (w_core w)),
       rc_group_limiters := (if hm_contains (rc_groups (w_core w)) d then rc_group_limiters (w_core w)
                             else hm_remove d (rc_group_limiters (w_core w)))\<rparr>,
     w_metrics := inc_evictions (w_metrics w)\<rparr>"

definition stale_sweep :: "relay_env \<Rightarrow> u64 \<Rightarrow> relay \<Rightarrow> action list \<times> relay" where
  "stale_sweep env now w =
    (let (result, reg) = check_stale_daemons now (en_stale_timeout_ms env) (en_offline_evict_ms env) (rc_registry (w_core w));
         w = w\<lparr>w_core := (w_core w)\<lparr>rc_registry := reg\<rparr>\<rparr>;
         actions = concat (map (presence_actions (w_core w)) (newly_offline result))
     in (actions, fold sweep_evicted (evicted result) w))"

text \<open>The end of \<open>connection_loop\<close>: the close directive, if any, then the teardown.\<close>

definition conn_teardown :: "conn_id \<Rightarrow> close_reason \<Rightarrow> u64 \<Rightarrow> relay \<Rightarrow> action list \<times> relay" where
  "conn_teardown c closed_reason now w =
    (let w = (case closed_reason of Some (code, reason) \<Rightarrow> push_close c code reason w | None \<Rightarrow> w);
         w = w\<lparr>w_sockets := hm_modify c (\<lambda>so. so\<lparr>so_loop_tx := False\<rparr>) (w_sockets w)\<rparr>;
         (daemon, core) = handle_close (w_core w) c now
     in ((case daemon of Some d \<Rightarrow> presence_actions core d | None \<Rightarrow> []), w\<lparr>w_core := core\<rparr>))"

text \<open>
  One turn of the write task. A close directive wins over a message; \<open>close_tx\<close> and \<open>out_tx\<close> say
  whether a sender of each channel is left. A close, a failed write or the end of a channel ends it.
\<close>

datatype write_event = WClose u16 string | WText relay_server_message | WEnd

definition write_task_step :: "bool \<Rightarrow> bool \<Rightarrow> bool \<Rightarrow> socket \<Rightarrow> write_event option \<times> socket" where
  "write_task_step close_tx out_tx write_ok so =
    (if \<not> so_open so then (None, so)
     else case so_close so of
         (code, reason) # rest \<Rightarrow> (Some (WClose code reason), so\<lparr>so_open := False, so_close := rest\<rparr>)
       | [] \<Rightarrow>
           if \<not> close_tx then (Some WEnd, so\<lparr>so_open := False\<rparr>)
           else (case so_outbox so of
               m # ms \<Rightarrow> (Some (WText m), so\<lparr>so_outbox := ms, so_open := write_ok\<rparr>)
             | [] \<Rightarrow> if \<not> out_tx then (Some WEnd, so\<lparr>so_open := False\<rparr>) else (None, so)))"

text \<open>One turn of the read loop: what its \<open>select!\<close> received, and whether it leaves the loop.\<close>

datatype loop_event = InText string | InOther | InClose | AuthDeadline | IdleTick

datatype loop_turn = Continue | Break close_reason

definition is_authed :: "relay_core \<Rightarrow> conn_id \<Rightarrow> bool" where
  "is_authed core c = (case hm_get (rc_conns core) c of Some h \<Rightarrow> ch_auth h \<noteq> None | None \<Rightarrow> False)"

fun loop_turn_step ::
  "relay_env \<Rightarrow> (limiter \<Rightarrow> bool) \<Rightarrow> u64 \<Rightarrow> u8 list \<Rightarrow> conn_id \<Rightarrow> bool \<Rightarrow> loop_event \<Rightarrow> relay
    \<Rightarrow> (loop_turn \<times> action list \<times> push_job option) \<times> relay" where
  "loop_turn_step env lim_ok now nonce c authed (InText text) w =
    (let ((close, acts, job), w) = handle_inbound env lim_ok now nonce c text w
     in (((case close of Some r \<Rightarrow> Break (Some r) | None \<Rightarrow> Continue), acts, job), w))"
| "loop_turn_step env lim_ok now nonce c authed InOther w = ((Continue, [], None), w)"
| "loop_turn_step env lim_ok now nonce c authed InClose w = ((Break None, [], None), w)"
| "loop_turn_step env lim_ok now nonce c authed AuthDeadline w =
    (if authed then ((Continue, [], None), w)
     else ((Break (Some (1008, ''Auth timeout'')), [], None), w\<lparr>w_metrics := inc_auth_timeouts (w_metrics w)\<rparr>))"
| "loop_turn_step env lim_ok now nonce c authed IdleTick w = ((Break (Some (1008, ''Idle timeout'')), [], None), w)"

section \<open>The running relay\<close>

text \<open>
  All tasks of the relay over the shared state. A step is one critical section of one task: which
  task runs next, what the peers send, what the clocks and limiters say is arbitrary. A limiter's cells
  are not part of the state: every answer it could give is allowed at every check.
\<close>

record sys =
  sy_relay :: relay
  sy_tasks :: "task list"
  sy_jobs :: "push_task list"

fun holds_sender :: "conn_id \<Rightarrow> activation \<Rightarrow> bool" where
  "holds_sender c (Sending c' _ _ _) = (c' = c)"
| "holds_sender c (Deliver _ _) = False"
| "holds_sender c (Signal _ _ _) = False"

fun signals :: "conn_id \<Rightarrow> activation \<Rightarrow> bool" where
  "signals c (Signal c' _ _) = (c' = c)"
| "signals c (Deliver _ _) = False"
| "signals c (Sending _ _ _ _) = False"

definition out_tx_live :: "sys \<Rightarrow> conn_id \<Rightarrow> bool" where
  "out_tx_live s c \<longleftrightarrow> hm_contains (rc_conns (w_core (sy_relay s))) c \<or> list_ex (list_ex (holds_sender c)) (sy_tasks s)"

definition close_tx_live :: "sys \<Rightarrow> conn_id \<Rightarrow> bool" where
  "close_tx_live s c \<longleftrightarrow>
    (case hm_get (w_sockets (sy_relay s)) c of Some so \<Rightarrow> so_loop_tx so | None \<Rightarrow> False)
    \<or> hm_contains (rc_conns (w_core (sy_relay s))) c \<or> list_ex (list_ex (signals c)) (sy_tasks s)"

definition sys_new :: "relay \<Rightarrow> sys" where
  "sys_new w = \<lparr>sy_relay = w, sy_tasks = [], sy_jobs = []\<rparr>"

definition spawn_delivery :: "action list \<Rightarrow> relay \<Rightarrow> sys \<Rightarrow> sys" where
  "spawn_delivery acts w s = s\<lparr>sy_relay := w, sy_tasks := sy_tasks s @ [[Deliver acts []]]\<rparr>"

inductive sys_step :: "relay_env \<Rightarrow> sys \<Rightarrow> sys \<Rightarrow> bool" for env where
  step_open: "conn_open (sy_relay s) = (c, w) \<Longrightarrow> sys_step env s (s\<lparr>sy_relay := w\<rparr>)"
| step_preauth: "preauth_section env c (sy_relay s) = (b, w) \<Longrightarrow> sys_step env s (s\<lparr>sy_relay := w\<rparr>)"
| step_dispatch: "dispatch_locked env lim_ok now nonce c msg (sy_relay s) = (acts, w) \<Longrightarrow>
    sys_step env s (spawn_delivery acts w s)"
| step_push_rate: "push_rate_section lim_ok c (sy_relay s) = (reply, w) \<Longrightarrow>
    sys_step env s (spawn_delivery (case reply of Some m \<Rightarrow> [ASend c m] | None \<Rightarrow> []) w s)"
| step_push_resolve: "push_resolve_section env c fid sealed title body level data (sy_relay s) = ((acts, job), w) \<Longrightarrow>
    sys_step env s (spawn_delivery acts w (s\<lparr>sy_jobs := sy_jobs s @ (case job of Some j \<Rightarrow> [Call j] | None \<Rightarrow> [])\<rparr>))"
| step_push: "sy_jobs s = js @ task # js' \<Longrightarrow> w_push (sy_relay s) = Some (cfg, inner) \<Longrightarrow>
    push_step cfg apns now (w_core (sy_relay s)) task inner = (Inl task', inner') \<Longrightarrow>
    sys_step env s (s\<lparr>sy_relay := (sy_relay s)\<lparr>w_push := Some (cfg, inner')\<rparr>, sy_jobs := js @ task' # js'\<rparr>)"
| step_push_done: "sy_jobs s = js @ task # js' \<Longrightarrow> w_push (sy_relay s) = Some (cfg, inner) \<Longrightarrow>
    push_step cfg apns now (w_core (sy_relay s)) task inner = (Inr result, inner') \<Longrightarrow>
    sys_step env s (spawn_delivery (push_actions (push_job_of task) result)
      ((sy_relay s)\<lparr>w_push := Some (cfg, inner')\<rparr>) (s\<lparr>sy_jobs := js @ js'\<rparr>))"
| step_deliver: "i < length (sy_tasks s) \<Longrightarrow> deliver_step env now (sy_tasks s ! i) (sy_relay s) = (t, w) \<Longrightarrow>
    sys_step env s (s\<lparr>sy_relay := w, sy_tasks := (sy_tasks s)[i := t]\<rparr>)"
| step_teardown: "conn_teardown c reason now (sy_relay s) = (acts, w) \<Longrightarrow> sys_step env s (spawn_delivery acts w s)"
| step_sweep: "stale_sweep env now (sy_relay s) = (acts, w) \<Longrightarrow> sys_step env s (spawn_delivery acts w s)"
| step_metrics: "sys_step env s (s\<lparr>sy_relay := (sy_relay s)\<lparr>w_metrics := m\<rparr>\<rparr>)"
| step_write: "hm_get (w_sockets (sy_relay s)) c = Some so \<Longrightarrow>
    write_task_step (close_tx_live s c) (out_tx_live s c) ok so = (ev, so') \<Longrightarrow>
    sys_step env s (s\<lparr>sy_relay := (sy_relay s)\<lparr>w_sockets := hm_insert c so' (w_sockets (sy_relay s))\<rparr>\<rparr>)"

inductive_cases sys_stepE: "sys_step env s s'"

definition outboxes_ok :: "nat \<Rightarrow> relay \<Rightarrow> bool" where
  "outboxes_ok cap w \<longleftrightarrow> (\<forall>c so. hm_get (w_sockets w) c = Some so \<longrightarrow> length (so_outbox so) \<le> cap)"

definition relay_inv :: "relay_env \<Rightarrow> relay \<Rightarrow> bool" where
  "relay_inv env w \<longleftrightarrow> core_inv (w_core w) \<and> outboxes_ok (en_outbox_cap env) w"

section \<open>Preservation\<close>

lemma verify_frontend_id: "verify api sg token now = Some (RFrontend d f e) \<Longrightarrow> f \<noteq> []"
  by (auto simp: verify_def Let_def split: option.splits sum.splits if_splits resume_payload.splits)

lemma is_auth_okE:
  assumes "is_auth_ok m"
  obtains ok where "m = SAuthOk ok"
  using assms by (cases m) auto

lemma core_inv_finish_auth:
  assumes "core_inv core" "finish_auth core c reply role d fid = (acts, core')"
    and "is_auth_ok reply \<Longrightarrow> role = Frontend \<Longrightarrow> \<exists>f. fid = Some f \<and> f \<noteq> []"
  shows "core_inv core'"
proof (cases "is_auth_ok reply")
  case True
  then have "auth_wf \<lparr>as_role = role, as_daemon_id = d, as_frontend_id = fid, as_subscriptions = []\<rparr>"
    using assms(3) by (simp add: auth_wf_def)
  then show ?thesis using assms(1,2) True by (auto simp: finish_auth_def Let_def core_inv_register_authed)
qed (use assms in \<open>simp add: finish_auth_def\<close>)

lemma registry_inv_handle_auth:
  "registry_inv r \<Longrightarrow> handle_auth api d t b fid now r sg = (reply, r') \<Longrightarrow> registry_inv r'"
  by (auto simp: handle_auth_def registry_inv_auth(1) split: if_splits sum.splits)

lemma registry_inv_handle_register:
  "registry_inv r \<Longrightarrow> handle_register d t p now r = (reply, r') \<Longrightarrow> registry_inv r'"
  by (auto simp: handle_register_def registry_inv_register split: sum.splits)

lemma registry_inv_handle_auth_resume:
  "registry_inv r \<Longrightarrow> handle_auth_resume api t now r sg = (res, r') \<Longrightarrow> registry_inv r'"
  by (auto simp: handle_auth_resume_def registry_inv_auth_resume split: option.splits sum.splits)

lemma core_inv_handshake:
  assumes "core_inv core" "registry_inv reg" "finish_auth (core\<lparr>rc_registry := reg\<rparr>) c reply role d fid = (acts, core')"
    and "is_auth_ok reply \<Longrightarrow> role = Frontend \<Longrightarrow> \<exists>f. fid = Some f \<and> f \<noteq> []"
  shows "core_inv core'"
  by (rule core_inv_finish_auth [OF core_inv_registry [OF assms(1,2)] assms(3,4)])

lemma core_inv_dispatch_auth:
  assumes inv: "core_inv (w_core w)" and step: "dispatch_message env now nonce c (Auth role d t v fid) w = (acts, w')"
  shows "core_inv (w_core w')"
proof -
  obtain reply reg where auth: "handle_auth (en_api env) d t (role = Daemon) fid now (rc_registry (w_core w)) (en_signer env) = (reply, reg)"
    by (metis prod.exhaust)
  obtain acts' core' where fin: "finish_auth ((w_core w)\<lparr>rc_registry := reg\<rparr>) c reply role d fid = (acts', core')"
    by (metis prod.exhaust)
  have "\<exists>f. fid = Some f \<and> f \<noteq> []" if "is_auth_ok reply" "role = Frontend"
    using is_auth_okE [OF that(1)] handle_auth_ok(2) auth that(2) by (metis role.distinct(1))
  with core_inv_handshake [OF inv registry_inv_handle_auth [OF core_invD(1) [OF inv] auth] fin]
  show ?thesis using step by (auto simp: auth fin)
qed

lemma core_inv_dispatch_resume:
  assumes inv: "core_inv (w_core w)" and step: "dispatch_message env now nonce c (AuthResume t v) w = (acts, w')"
  shows "core_inv (w_core w')"
proof -
  obtain reply payload reg where res: "handle_auth_resume (en_api env) t now (rc_registry (w_core w)) (en_signer env) = ((reply, payload), reg)"
    by (metis prod.exhaust)
  have reg: "registry_inv reg" by (rule registry_inv_handle_auth_resume [OF core_invD(1) [OF inv] res])
  have fid: "\<exists>f. snd (snd (resume_identity p)) = Some f \<and> f \<noteq> []"
    if p: "payload = Some p" "fst (resume_identity p) = Frontend" for p
  proof -
    obtain d f e where "p = RFrontend d f e" using p(2) by (cases p) auto
    moreover have "verify (en_api env) (en_signer env) t now = Some p"
      using res p(1) by (auto simp: handle_auth_resume_def split: option.splits sum.splits)
    ultimately show ?thesis using verify_frontend_id by fastforce
  qed
  show ?thesis
  proof (cases "\<exists>p. payload = Some p \<and> is_auth_ok reply")
    case True
    then obtain p role d f where p: "payload = Some p" "is_auth_ok reply" "resume_identity p = (role, d, f)"
      by (metis prod.exhaust)
    obtain acts' core' where fin: "finish_auth ((w_core w)\<lparr>rc_registry := reg\<rparr>) c reply role d f = (acts', core')"
      by (metis prod.exhaust)
    have "core_inv core'" by (rule core_inv_handshake [OF inv reg fin]) (use fid p in auto)
    then show ?thesis using step p by (auto simp: res fin Let_def)
  qed (use step core_inv_registry [OF inv reg] in \<open>auto simp: res Let_def split: option.splits\<close>)
qed

lemma core_inv_dispatch_message:
  assumes inv: "core_inv (w_core w)" and step: "dispatch_message env now nonce c msg w = (acts, w')"
  shows "core_inv (w_core w')"
proof (cases msg)
  case (Register d p t v)
  obtain reply reg where r: "handle_register d t p now (rc_registry (w_core w)) = (reply, reg)" by (metis prod.exhaust)
  show ?thesis
    using step core_inv_registry [OF inv registry_inv_handle_register [OF core_invD(1) [OF inv] r]]
    by (auto simp: Register r)
next
  case (Auth role d t v fid)
  then show ?thesis using core_inv_dispatch_auth [OF inv] step by blast
next
  case (AuthResume t v)
  then show ?thesis using core_inv_dispatch_resume [OF inv] step by blast
next
  case (Publish sid ct seq)
  then show ?thesis using step inv core_inv_publish [OF inv] by (auto split: option.splits prod.splits)
next
  case (KeyExchange ct role)
  then show ?thesis using step inv by (auto split: option.splits)
next
  case (Subscribe sid after)
  then show ?thesis using step inv core_inv_subscribe [OF inv] by (auto split: if_splits prod.splits)
next
  case (Unsubscribe sid)
  then show ?thesis using step inv core_inv_unsubscribe [OF inv] by (auto split: if_splits)
next
  case (Ping ts)
  then show ?thesis using step inv core_inv_ping [OF inv] by (auto split: option.splits prod.splits)
next
  case (PushRegister fid t p)
  then show ?thesis using step inv by (auto split: prod.splits)
next
  case (Push fid sealed title body level data)
  then show ?thesis using step inv by auto
qed

lemma core_inv_dispatch_locked:
  assumes "core_inv (w_core w)" "dispatch_locked env lim_ok now nonce c msg w = (acts, w')"
  shows "core_inv (w_core w')"
  using assms core_inv_dispatch_message [OF assms(1)]
  by (auto simp: dispatch_locked_def split: option.splits if_splits)

lemma handle_push_frame:
  "handle_push env lim_ok c fid sealed title body level data w = (res, w') \<Longrightarrow>
    w_core w' = w_core w \<and> w_sockets w' = w_sockets w"
  by (auto simp: handle_push_def push_rate_section_def push_resolve_section_def Let_def
      split: option.splits prod.splits push_resolution.splits)

lemma push_sections_frame:
  "push_rate_section lim_ok c w = (reply, w') \<Longrightarrow> w_core w' = w_core w \<and> w_sockets w' = w_sockets w"
  "push_resolve_section env c fid sealed title body level data w = (res, w') \<Longrightarrow> w_core w' = w_core w \<and> w_sockets w' = w_sockets w"
  by (auto simp: push_rate_section_def push_resolve_section_def Let_def split: option.splits prod.splits push_resolution.splits)

lemma core_inv_preauth:
  assumes "core_inv (w_core w)" "preauth_section env c w = (b, w')"
  shows "core_inv (w_core w')"
  using assms
  by (fastforce simp: preauth_section_def Let_def core_inv_def tables_ok_def conn_ok_def group_of_def split: option.splits if_splits)

lemma core_inv_close_conn:
  assumes "core_inv (w_core w)" "close_conn c code reason now w = (calls, w')"
  shows "core_inv (w_core w')"
  using assms core_inv_close [OF assms(1), of c now] by (auto simp: close_conn_def Let_def split: prod.splits)

lemma w_core_deliver_send: "deliver_send env t m w = (b, w') \<Longrightarrow> w_core w' = w_core w"
  by (auto simp: deliver_send_def split: option.splits prod.splits send_result.splits)

lemma w_core_push_close [simp]: "w_core (push_close c code reason w) = w_core w"
  by (simp add: push_close_def)

lemma core_inv_deliver_step:
  "core_inv (w_core w) \<Longrightarrow> deliver_step env now t w = (t', w') \<Longrightarrow> core_inv (w_core w')"
  by (induction env now t w rule: deliver_step.induct)
    (auto simp: w_core_deliver_send core_inv_close_conn dest: w_core_deliver_send core_inv_close_conn [rotated] split: prod.splits)

lemma core_inv_evict:
  assumes "core_inv core"
  shows "core_inv (core\<lparr>rc_recent := rf,
    rc_group_limiters := (if hm_contains (rc_groups core) d then rc_group_limiters core else hm_remove d (rc_group_limiters core))\<rparr>)"
proof -
  have "hm_remove d (rc_group_limiters core) = rc_group_limiters core" if "\<not> hm_contains (rc_groups core) d"
    using that tables_okD(4) [OF core_invD(2) [OF assms], of d] by simp
  then show ?thesis using assms by (simp add: core_inv_recent)
qed

lemma core_inv_teardown:
  assumes "core_inv (w_core w)" "conn_teardown c reason now w = (acts, w')"
  shows "core_inv (w_core w')"
  using assms core_inv_close [of "w_core w" c now]
  by (auto simp: conn_teardown_def Let_def split: option.splits prod.splits)

lemma core_inv_sweep_evicted: "core_inv (w_core w) \<Longrightarrow> core_inv (w_core (sweep_evicted d w))"
  using core_inv_evict [of "w_core w" d "purge_daemon d (rc_recent (w_core w))"] by (simp add: sweep_evicted_def)

lemma core_inv_sweep:
  assumes inv: "core_inv (w_core w)" and sweep: "stale_sweep env now w = (acts, w')"
  shows "core_inv (w_core w')"
proof -
  have fold: "core_inv (w_core (fold sweep_evicted ds v))" if "core_inv (w_core v)" for ds v
    using that by (induction ds arbitrary: v) (auto simp: core_inv_sweep_evicted)
  have "core_inv ((w_core w)\<lparr>rc_registry := snd (check_stale_daemons now (en_stale_timeout_ms env) (en_offline_evict_ms env)
      (rc_registry (w_core w)))\<rparr>)"
    by (rule core_inv_registry [OF inv registry_inv_stale [OF core_invD(1) [OF inv]]])
  then show ?thesis
    using sweep by (auto simp: stale_sweep_def Let_def intro!: fold split: prod.splits)
qed

text \<open>Sockets: only \<open>try_send\<close> lengthens an outbox, and it respects the capacity.\<close>

lemma outboxes_ok_insert:
  "outboxes_ok cap w \<Longrightarrow> length (so_outbox so) \<le> cap \<Longrightarrow> outboxes_ok cap (w\<lparr>w_sockets := hm_insert c so (w_sockets w)\<rparr>)"
  by (simp add: outboxes_ok_def)

lemma outboxes_ok_cong: "w_sockets w' = w_sockets w \<Longrightarrow> outboxes_ok cap w' = outboxes_ok cap w"
  by (simp add: outboxes_ok_def)

lemma w_sockets_dispatch: "dispatch_locked env lim_ok now nonce c msg w = (acts, w') \<Longrightarrow> w_sockets w' = w_sockets w"
  by (cases msg) (auto simp: dispatch_locked_def Let_def split: option.splits if_splits prod.splits)

lemma w_sockets_sweep: "stale_sweep env now w = (acts, w') \<Longrightarrow> w_sockets w' = w_sockets w"
proof -
  have "w_sockets (fold sweep_evicted ds v) = w_sockets v" for ds v
    by (induction ds arbitrary: v) (auto simp: sweep_evicted_def)
  then show "stale_sweep env now w = (acts, w') \<Longrightarrow> w_sockets w' = w_sockets w"
    by (auto simp: stale_sweep_def Let_def split: prod.splits)
qed

lemma outboxes_ok_push_close: "outboxes_ok cap w \<Longrightarrow> outboxes_ok cap (push_close c code reason w)"
  by (auto simp: outboxes_ok_def push_close_def split: if_splits)

lemma outboxes_ok_teardown: "outboxes_ok cap w \<Longrightarrow> conn_teardown c reason now w = (acts, w') \<Longrightarrow> outboxes_ok cap w'"
  using outboxes_ok_push_close [of cap w c]
  by (fastforce simp: conn_teardown_def outboxes_ok_def Let_def split: option.splits prod.splits if_splits)

lemma outboxes_ok_send: "outboxes_ok (en_outbox_cap env) w \<Longrightarrow> deliver_send env t m w = (b, w') \<Longrightarrow> outboxes_ok (en_outbox_cap env) w'"
  by (auto simp: deliver_send_def try_send_def outboxes_ok_def split: option.splits prod.splits send_result.splits if_splits)

lemma w_sockets_close_conn: "close_conn c code reason now w = (calls, w') \<Longrightarrow> w_sockets w' = w_sockets w"
  by (auto simp: close_conn_def Let_def split: prod.splits)

lemma outboxes_ok_close_conn: "outboxes_ok cap w \<Longrightarrow> close_conn c code reason now w = (calls, w') \<Longrightarrow> outboxes_ok cap w'"
  by (simp add: outboxes_ok_def w_sockets_close_conn)

lemma outboxes_ok_metrics [simp]: "outboxes_ok cap (w\<lparr>w_metrics := m\<rparr>) = outboxes_ok cap w"
  by (simp add: outboxes_ok_def)

lemma outboxes_ok_deliver_step:
  "outboxes_ok (en_outbox_cap env) w \<Longrightarrow> deliver_step env now t w = (t', w') \<Longrightarrow> outboxes_ok (en_outbox_cap env) w'"
proof (induction env now t w rule: deliver_step.induct)
  case (4 env now t bp st w)
  then show ?case
    using outboxes_ok_close_conn [of _ "w\<lparr>w_metrics := inc_backpressure_disconnects (w_metrics w)\<rparr>"]
    by (auto split: prod.splits)
next
  case (6 env now t msg acts bp st w)
  then show ?case using outboxes_ok_send [OF 6(1)] by (auto split: prod.splits)
next
  case (7 env now t code reason acts bp st w)
  then show ?case using outboxes_ok_close_conn [OF 7(1)] by (auto split: prod.splits)
qed (auto simp: outboxes_ok_push_close)

lemma outboxes_ok_write:
  "length (so_outbox so) \<le> cap \<Longrightarrow> write_task_step a b ok so = (ev, so') \<Longrightarrow> length (so_outbox so') \<le> cap"
  by (auto simp: write_task_step_def split: list.splits if_splits)

lemma relay_invI: "core_inv (w_core w) \<Longrightarrow> outboxes_ok (en_outbox_cap env) w \<Longrightarrow> relay_inv env w"
  by (simp add: relay_inv_def)

lemma relay_inv_frame:
  "relay_inv env w \<Longrightarrow> w_core w' = w_core w \<Longrightarrow> w_sockets w' = w_sockets w \<Longrightarrow> relay_inv env w'"
  by (simp add: relay_inv_def outboxes_ok_def)

lemma relay_inv_step:
  assumes "sys_step env s t" "relay_inv env (sy_relay s)"
  shows "relay_inv env (sy_relay t)"
proof -
  have inv: "core_inv (w_core (sy_relay s))" "outboxes_ok (en_outbox_cap env) (sy_relay s)"
    using assms(2) by (simp_all add: relay_inv_def)
  from assms(1) show ?thesis
  proof cases
    case (step_open c w)
    then show ?thesis
      using inv by (auto simp: relay_inv_def conn_open_def alloc_conn_id_def Let_def core_inv_open outboxes_ok_def split: if_splits)
  next
    case (step_preauth c b w)
    then show ?thesis
      using core_inv_preauth [OF inv(1)] inv(2)
      by (auto simp: relay_inv_def preauth_section_def outboxes_ok_def Let_def split: option.splits if_splits)
  next
    case (step_dispatch lim_ok now nonce c msg acts w)
    then show ?thesis
      using core_inv_dispatch_locked [OF inv(1)] inv(2)
      by (auto simp: relay_inv_def spawn_delivery_def outboxes_ok_def w_sockets_dispatch)
  next
    case (step_push_rate lim_ok c reply w)
    then show ?thesis
      using push_sections_frame(1) relay_inv_frame [OF assms(2)] by (simp add: spawn_delivery_def)
  next
    case (step_push_resolve c fid sealed title body level data acts job w)
    then show ?thesis
      using push_sections_frame(2) relay_inv_frame [OF assms(2)] by (simp add: spawn_delivery_def)
  next
    case (step_push js task js' cfg inner apns now task' inner')
    then show ?thesis using relay_inv_frame [OF assms(2)] by simp
  next
    case (step_push_done js task js' cfg inner apns now result inner')
    then show ?thesis using relay_inv_frame [OF assms(2)] by (simp add: spawn_delivery_def)
  next
    case (step_deliver i now task w)
    then show ?thesis
      using core_inv_deliver_step [OF inv(1)] outboxes_ok_deliver_step [OF inv(2)] by (simp add: relay_invI)
  next
    case (step_teardown c reason now acts w)
    then show ?thesis
      using core_inv_teardown [OF inv(1)] outboxes_ok_teardown [OF inv(2)] by (simp add: relay_invI spawn_delivery_def)
  next
    case (step_sweep now acts w)
    then show ?thesis
      using core_inv_sweep [OF inv(1)] inv(2)
      by (auto simp: relay_inv_def spawn_delivery_def outboxes_ok_def w_sockets_sweep)
  next
    case (step_metrics m)
    then show ?thesis using relay_inv_frame [OF assms(2)] by simp
  next
    case (step_write c so ok ev so')
    have "length (so_outbox so) \<le> en_outbox_cap env" using inv(2) step_write(2) by (simp add: outboxes_ok_def)
    then have "length (so_outbox so') \<le> en_outbox_cap env" by (rule outboxes_ok_write [OF _ step_write(3)])
    with inv step_write(1) show ?thesis by (simp add: relay_inv_def outboxes_ok_insert)
  qed
qed

interpretation relay_sys: step_system
  "\<lambda>s. \<exists>recent rpc rpd m sealer push. s = sys_new (relay_new (core_new recent rpc rpd m) sealer push)"
  "sys_step env" "\<lambda>s. relay_inv env (sy_relay s)" for env
proof unfold_locales
  fix s assume "\<exists>recent rpc rpd m sealer push. s = sys_new (relay_new (core_new recent rpc rpd m) sealer push)"
  then show "relay_inv env (sy_relay s)"
    using core_inv_new by (auto simp: relay_inv_def sys_new_def relay_new_def outboxes_ok_def)
qed (rule relay_inv_step)

lemma reachable_relay_inv:
  "(sys_step env)\<^sup>*\<^sup>* (sys_new (relay_new (core_new recent rpc rpd m) sealer push)) s \<Longrightarrow> relay_inv env (sy_relay s)"
  using relay_sys.reachable_inv by blast

section \<open>Termination of delivery\<close>

text \<open>A task run on its own, the clock read anew at every section.\<close>

fun deliver_run :: "relay_env \<Rightarrow> (nat \<Rightarrow> u64) \<Rightarrow> nat \<Rightarrow> task \<Rightarrow> relay \<Rightarrow> task \<times> relay" where
  "deliver_run env clk 0 t w = (t, w)"
| "deliver_run env clk (Suc n) t w = (let (t, w) = deliver_run env clk n t w in deliver_step env (clk n) t w)"

fun activation_weight :: "activation \<Rightarrow> nat" where
  "activation_weight (Signal _ _ _) = 1"
| "activation_weight (Deliver acts bp) = Suc (3 * length acts + length bp)"
| "activation_weight (Sending _ _ acts bp) = 3 + (3 * length acts + length bp)"

definition task_measure :: "task \<Rightarrow> relay \<Rightarrow> nat \<times> nat" where
  "task_measure t w = (length (rc_conns (w_core w)), sum_list (map activation_weight t))"

lemma handle_close_conns:
  assumes "handle_close core c now = (d, core')"
  shows "rc_conns core' = hm_remove c (rc_conns core)" "hm_get (rc_conns core) c = None \<Longrightarrow> d = None \<and> core' = core"
  using assms by (auto simp: handle_close_def Let_def remove_from_group_tables split: option.splits if_splits)

lemma close_conn_calls:
  assumes "close_conn c code reason now w = (calls, w')"
  shows "calls = [] \<and> length (rc_conns (w_core w')) = length (rc_conns (w_core w))
    \<or> length (rc_conns (w_core w')) < length (rc_conns (w_core w))"
proof (cases "hm_get (rc_conns (w_core w)) c")
  case None
  then have "handle_close (w_core w) c now = (None, w_core w)" by (simp add: handle_close_def)
  with None assms show ?thesis by (auto simp: close_conn_def)
next
  case (Some h)
  then show ?thesis
    using assms length_hm_remove_less [of "rc_conns (w_core w)" c]
    by (auto simp: close_conn_def Let_def handle_close_conns(1) split: prod.splits)
qed

lemma deliver_step_decreases:
  assumes "t \<noteq> []" "deliver_step env now t w = (t', w')"
  shows "(task_measure t' w', task_measure t w) \<in> less_than <*lex*> less_than"
  using assms
proof (induction env now t w rule: deliver_step.induct)
  case (4 env now c bp st w)
  then show ?case
    using close_conn_calls [of c 1013 "''Backpressure''" now] by (fastforce simp: task_measure_def split: prod.splits)
next
  case (6 env now c msg acts bp st w)
  then show ?case
    using w_core_deliver_send [of env c msg w] by (auto simp: task_measure_def split: prod.splits if_splits)
next
  case (7 env now c code reason acts bp st w)
  then show ?case
    using close_conn_calls [of c code reason now w] by (fastforce simp: task_measure_def split: prod.splits)
qed (auto simp: task_measure_def)

lemma deliver_run_shift:
  "deliver_run env clk (Suc n) t w =
    (let (t, w) = deliver_step env (clk 0) t w in deliver_run env (\<lambda>k. clk (Suc k)) n t w)"
  by (induction n) (auto simp: Let_def split: prod.splits)

section \<open>Subscriptions\<close>

definition subscribed :: "conn_id \<Rightarrow> string \<Rightarrow> string \<Rightarrow> relay_core \<Rightarrow> bool" where
  "subscribed c d sid core \<longleftrightarrow> (\<exists>a. conn_auth core c = Some a \<and> as_daemon_id a = d \<and> sid \<in> set (as_subscriptions a))"

text \<open>The messages with which a connection gives up a subscription itself.\<close>

fun gives_up :: "string \<Rightarrow> relay_client_message \<Rightarrow> bool" where
  "gives_up sid (Unsubscribe sid') = (sid' = sid)"
| "gives_up sid (Auth _ _ _ _ _) = True"
| "gives_up sid (AuthResume _ _) = True"
| "gives_up sid _ = False"

lemma conn_auth_conns: "rc_conns core' = rc_conns core \<Longrightarrow> conn_auth core' c = conn_auth core c"
  by (simp add: conn_auth_def)

lemma conn_auth_close:
  "handle_close core c now = (d, core') \<Longrightarrow> conn_auth core' c' = (if c' = c then None else conn_auth core c')"
  by (simp add: conn_auth_def handle_close_conns(1))

lemma conn_auth_register: "c' \<noteq> c \<Longrightarrow> conn_auth (register_authed_conn core c a) c' = conn_auth core c'"
  by (simp add: conn_auth_def register_authed_tables)

lemma conn_auth_finish: "finish_auth core c reply role d f = (acts, core') \<Longrightarrow> c' \<noteq> c \<Longrightarrow> conn_auth core' c' = conn_auth core c'"
  by (auto simp: finish_auth_def Let_def conn_auth_register split: if_splits)

lemma dispatch_message_keeps:
  assumes "dispatch_message env now nonce c msg w = (acts, w')" "c' \<noteq> c \<or> \<not> gives_up sid msg" "subscribed c' d sid (w_core w)"
  shows "subscribed c' d sid (w_core w')"
proof (cases msg)
  case (Publish s ct seq)
  then show ?thesis using assms by (auto simp: subscribed_def route_publish_eq split: option.splits)
next
  case (Subscribe s after)
  then show ?thesis
    using assms by (auto simp: subscribed_def route_subscribe_def Let_def conn_auth_modify split: option.splits if_splits prod.splits)
next
  case (Unsubscribe s)
  then show ?thesis
    using assms by (auto simp: subscribed_def route_unsubscribe_def Let_def conn_auth_modify split: option.splits if_splits)
next
  case (Ping ts)
  then show ?thesis using assms by (auto simp: subscribed_def route_ping_def Let_def split: option.splits if_splits)
next
  case (Auth role daemon_id token v frontend_id)
  then show ?thesis using assms conn_auth_finish [of _ c _ _ _ _ _ _ c'] by (fastforce simp: subscribed_def split: prod.splits)
next
  case (AuthResume token v)
  then show ?thesis
    using assms conn_auth_finish [of _ c _ _ _ _ _ _ c']
    by (fastforce simp: subscribed_def Let_def split: prod.splits option.splits if_splits)
qed (use assms in \<open>auto simp: subscribed_def split: prod.splits option.splits if_splits\<close>)

lemma dispatch_locked_keeps:
  assumes "dispatch_locked env lim_ok now nonce c msg w = (acts, w')" "c' \<noteq> c \<or> \<not> gives_up sid msg" "subscribed c' d sid (w_core w)"
  shows "subscribed c' d sid (w_core w')"
  using assms dispatch_message_keeps [OF _ assms(2,3)] by (auto simp: dispatch_locked_def split: option.splits if_splits)

lemma close_conn_keeps:
  "close_conn c code reason now w = (calls, w') \<Longrightarrow> conn_auth (w_core w') c' = (if c' = c then None else conn_auth (w_core w) c')"
  by (auto simp: close_conn_def Let_def conn_auth_close split: prod.splits)

lemma deliver_step_keeps:
  "deliver_step env now t w = (t', w') \<Longrightarrow> conn_auth (w_core w') c = None \<or> conn_auth (w_core w') c = conn_auth (w_core w) c"
  by (induction env now t w rule: deliver_step.induct)
    (auto simp: w_core_deliver_send dest!: close_conn_keeps [of _ _ _ _ _ _ _ c] split: prod.splits if_splits dest: w_core_deliver_send)

lemma rc_conns_sweep: "stale_sweep env now w = (acts, w') \<Longrightarrow> rc_conns (w_core w') = rc_conns (w_core w)"
proof -
  have "rc_conns (w_core (fold sweep_evicted ds v)) = rc_conns (w_core v)" for ds v
    by (induction ds arbitrary: v) (auto simp: sweep_evicted_def)
  then show "stale_sweep env now w = (acts, w') \<Longrightarrow> rc_conns (w_core w') = rc_conns (w_core w)"
    by (auto simp: stale_sweep_def Let_def split: prod.splits)
qed

lemma subscribed_cong: "conn_auth core' c = conn_auth core c \<Longrightarrow> subscribed c d sid core \<Longrightarrow> subscribed c d sid core'"
  by (simp add: subscribed_def)

lemma subscription_lasts:
  assumes "sys_step env s t" "subscribed c d sid (w_core (sy_relay s))"
  shows "subscribed c d sid (w_core (sy_relay t)) \<or> conn_auth (w_core (sy_relay t)) c = None \<or>
    (\<exists>lim_ok now nonce msg acts. dispatch_locked env lim_ok now nonce c msg (sy_relay s) = (acts, sy_relay t) \<and> gives_up sid msg)"
  using assms(1)
proof cases
  case (step_open c0 w)
  then have "conn_auth (w_core (sy_relay t)) c = (if c = c0 then None else conn_auth (w_core (sy_relay s)) c)"
    by (auto simp: conn_open_def alloc_conn_id_def Let_def open_conn_def conn_auth_def conn_handle_new_def)
  then show ?thesis using subscribed_cong [OF _ assms(2)] by (auto split: if_splits)
next
  case (step_preauth c0 b w)
  then have "conn_auth (w_core (sy_relay t)) c = conn_auth (w_core (sy_relay s)) c"
    by (auto simp: preauth_section_def Let_def conn_auth_def split: option.splits if_splits)
  then show ?thesis using subscribed_cong [OF _ assms(2)] by blast
next
  case (step_dispatch lim_ok now nonce c0 msg acts w)
  then have w: "sy_relay t = w" by (simp add: spawn_delivery_def)
  show ?thesis
  proof (cases "c = c0 \<and> gives_up sid msg")
    case True
    then show ?thesis using step_dispatch(2) unfolding w by blast
  next
    case False
    then show ?thesis using dispatch_locked_keeps [OF step_dispatch(2) _ assms(2)] unfolding w by blast
  qed
next
  case (step_push_rate lim_ok c0 reply w)
  then show ?thesis using push_sections_frame(1) [OF step_push_rate(2)] assms(2) by (simp add: spawn_delivery_def)
next
  case (step_push_resolve c0 fid sealed title body level data acts job w)
  then show ?thesis using push_sections_frame(2) [OF step_push_resolve(2)] assms(2) by (simp add: spawn_delivery_def)
next
  case (step_deliver i now task w)
  then show ?thesis using deliver_step_keeps [OF step_deliver(3), of c] subscribed_cong [OF _ assms(2)] by auto
next
  case (step_teardown c0 reason now acts w)
  then have "conn_auth (w_core w) c = None \<or> conn_auth (w_core w) c = conn_auth (w_core (sy_relay s)) c"
    using conn_auth_close [of "w_core (sy_relay s)" c0 now _ _ c]
    by (auto simp: conn_teardown_def Let_def split: option.splits prod.splits if_splits)
  then show ?thesis using subscribed_cong [OF _ assms(2)] step_teardown(1) by (auto simp: spawn_delivery_def)
next
  case (step_sweep now acts w)
  then show ?thesis
    using subscribed_cong [OF conn_auth_conns [OF rc_conns_sweep [OF step_sweep(2)]] assms(2)] by (simp add: spawn_delivery_def)
qed (use assms(2) in \<open>auto simp: spawn_delivery_def\<close>)

section \<open>Properties\<close>

text \<open>C16: A subscriber misses nothing. In a reachable relay, a connection below the subscription cap that
  subscribes with a cursor is sent every cached frame of its daemon's session newer than the cursor,
  oldest first. In every later state in which it is still subscribed it is sent every frame that another
  connection of that daemon publishes on the session. And it stays subscribed from one step of the relay
  to the next unless the connection itself unsubscribes or authenticates anew, or is closed.\<close>

theorem subscriber_misses_nothing:
  fixes s c
  assumes "(sys_step env)\<^sup>*\<^sup>* (sys_new (relay_new (core_new recent rpc rpd m) sealer push)) s"
    and "conn_auth (w_core (sy_relay s)) c = Some a" "length (as_subscriptions a) < MAX_SUBSCRIPTIONS_PER_CLIENT"
    and "route_subscribe (w_core (sy_relay s)) c sid (Some cursor) = (acts, core1)"
    and "(sys_step env)\<^sup>*\<^sup>* (spawn_delivery acts ((sy_relay s)\<lparr>w_core := core1\<rparr>) s) t"
  defines "d \<equiv> as_daemon_id a" and "core2 \<equiv> w_core (sy_relay t)"
  shows "acts = map (\<lambda>f. ASend c (SFrame (frame_payload f))) (replay_after (rc_recent (w_core (sy_relay s))) d sid cursor)
    \<and> subscribed c d sid core1
    \<and> (subscribed c d sid core2 \<longrightarrow> (\<forall>sender client ct seq now. sender \<noteq> c \<longrightarrow> as_daemon_id client = d \<longrightarrow>
        ASend c (SFrame (published_frame client sid ct seq)) \<in> set (fst (route_publish core2 sender client sid ct seq now))))
    \<and> (\<forall>u. subscribed c d sid core2 \<longrightarrow> sys_step env t u \<longrightarrow>
        subscribed c d sid (w_core (sy_relay u)) \<or> conn_auth (w_core (sy_relay u)) c = None \<or>
        (\<exists>lim_ok now nonce msg acts. dispatch_locked env lim_ok now nonce c msg (sy_relay t) = (acts, sy_relay u) \<and> gives_up sid msg))"
proof -
  note sub = subscribe_replays [OF assms(2-4)]
  have inv: "relay_inv env (sy_relay s)" by (rule reachable_relay_inv [OF assms(1)])
  then have "relay_inv env ((sy_relay s)\<lparr>w_core := core1\<rparr>)"
    using core_inv_subscribe [OF _ assms(4)] by (simp add: relay_inv_def outboxes_ok_def)
  then have "relay_inv env (sy_relay (spawn_delivery acts ((sy_relay s)\<lparr>w_core := core1\<rparr>) s))" by (simp add: spawn_delivery_def)
  with assms(5) have "relay_inv env (sy_relay t)" by (induction rule: rtranclp_induct) (auto intro: relay_inv_step)
  then have core: "core_inv core2" by (simp add: relay_inv_def core2_def)
  have "ASend c (SFrame (published_frame client sid ct seq)) \<in> set (fst (route_publish core2 sender client sid ct seq now))"
    if "subscribed c d sid core2" "sender \<noteq> c" "as_daemon_id client = d" for sender client ct seq now
    using that publish_reaches [OF core] unfolding subscribed_def by auto
  with sub subscription_lasts [of env t _ c d sid] show ?thesis by (auto simp: d_def core2_def subscribed_def)
qed

text \<open>C15: Delivery terminates. Backpressure closes connections, a close broadcasts presence, and a
  broadcast can find further slow consumers; still, whatever the actions, outboxes and clocks, the
  recursion of \<open>deliver_actions\<close> and \<open>close_conn\<close> ends after finitely many sections.\<close>

theorem delivery_terminates:
  "\<exists>n w'. deliver_run env clk n t w = ([], w')"
proof -
  have "wf (inv_image (less_than <*lex*> less_than) (\<lambda>(t, w). task_measure t w))" by auto
  then show ?thesis
  proof (induction "(t, w)" arbitrary: t w clk rule: wf_induct_rule)
    case less
    show ?case
    proof (cases "t = []")
      case True
      then show ?thesis using deliver_run.simps(1) by metis
    next
      case False
      obtain t' w' where step: "deliver_step env (clk 0) t w = (t', w')" by fastforce
      with deliver_step_decreases [OF False step]
      obtain n w'' where "deliver_run env (\<lambda>k. clk (Suc k)) n t' w' = ([], w'')"
        using less by (metis (no_types, lifting) case_prod_conv in_inv_image)
      then have "deliver_run env clk (Suc n) t w = ([], w'')"
        unfolding deliver_run_shift by (simp add: step)
      then show ?thesis by blast
    qed
  qed
qed

text \<open>C4: One budget per daemon. In every reachable state of the relay, whatever the interleaving of
  authentication, teardown, sweep and eviction, an authenticated connection is held to a group
  limiter, and two connections share it exactly if they belong to the same daemon.\<close>

theorem one_budget_per_daemon:
  assumes "(sys_step env)\<^sup>*\<^sup>* (sys_new (relay_new (core_new recent rpc rpd m) sealer push)) s"
    and "hm_get (rc_conns (w_core (sy_relay s))) c = Some h" "ch_auth h = Some a"
    and "hm_get (rc_conns (w_core (sy_relay s))) c' = Some h'" "ch_auth h' = Some a'"
  shows "ch_group_limiter h \<noteq> None \<and> (ch_group_limiter h = ch_group_limiter h' \<longleftrightarrow> as_daemon_id a = as_daemon_id a')"
proof -
  have inv: "core_inv (w_core (sy_relay s))"
    using reachable_relay_inv [OF assms(1)] by (simp add: relay_inv_def)
  note ok = core_invD(3) [OF inv assms(2,3)] core_invD(3) [OF inv assms(4,5)]
  note tables = core_invD(2) [OF inv]
  have some: "hm_get (rc_group_limiters (w_core (sy_relay s))) (as_daemon_id a) \<noteq> None"
    using tables_ok_member(2) [OF tables, of c] ok(1) unfolding conn_ok_def by blast
  have "as_daemon_id a = as_daemon_id a'" if "ch_group_limiter h = ch_group_limiter h'"
  proof -
    obtain l where l: "hm_get (rc_group_limiters (w_core (sy_relay s))) (as_daemon_id a) = Some l" using some by blast
    with that ok have "hm_get (rc_group_limiters (w_core (sy_relay s))) (as_daemon_id a') = Some l" by (simp add: conn_ok_def)
    then show ?thesis by (rule tables_okD(7) [OF tables l]) simp
  qed
  with some ok show ?thesis by (auto simp: conn_ok_def)
qed

text \<open>Memory per connection is bounded. In every reachable state no outbox holds more messages than
  its capacity and no authenticated connection holds more than 256 subscriptions.\<close>

theorem connections_are_bounded:
  assumes "(sys_step env)\<^sup>*\<^sup>* (sys_new (relay_new (core_new recent rpc rpd m) sealer push)) s"
    and "hm_get (w_sockets (sy_relay s)) c = Some so" "authed_state (w_core (sy_relay s)) c = Some a"
  shows "length (so_outbox so) \<le> en_outbox_cap env \<and> length (as_subscriptions a) \<le> 256"
proof -
  have "relay_inv env (sy_relay s)" by (rule reachable_relay_inv [OF assms(1)])
  then have inv: "core_inv (w_core (sy_relay s))" and "outboxes_ok (en_outbox_cap env) (sy_relay s)"
    by (simp_all add: relay_inv_def)
  moreover have "auth_wf a"
    using conn_auth_in_group(2) [OF inv, of c a] assms(3) by (simp add: conn_auth_def authed_state_def)
  ultimately show ?thesis using assms(2) by (simp add: outboxes_ok_def auth_wf_def MAX_SUBSCRIPTIONS_PER_CLIENT_def)
qed

lemma is_auth_ok_reply [simp]: "is_auth_ok (auth_ok_reply api sg p now b)"
  by (simp add: auth_ok_reply_def split: prod.splits)

lemma dispatch_auth_granted:
  assumes "hm_get (rc_conns (w_core w)) c = Some h" "ch_auth h = None"
    and "registry_handle_auth d t (role = Daemon) now (rc_registry (w_core w)) = Inr reg"
    and "role = Daemon \<or> (\<exists>f. fid = Some f \<and> f \<noteq> [])"
  shows "snd (dispatch_locked env lim_ok now nonce c (Auth role d t v fid) w) =
    w\<lparr>w_core := register_authed_conn ((w_core w)\<lparr>rc_registry := reg\<rparr>) c
        \<lparr>as_role = role, as_daemon_id = d, as_frontend_id = fid, as_subscriptions = []\<rparr>\<rparr>"
  using assms by (auto simp: dispatch_locked_def handle_auth_def finish_auth_def Let_def)

definition demo_env :: relay_env where
  "demo_env = \<lparr>en_api = demo_api, en_json = (\<lambda>_. None), en_signer = signer_new None None [1],
     en_stale_timeout_ms = 90000, en_offline_evict_ms = 3600000, en_outbox_cap = 2, en_max_frame_size = 100,
     en_max_preauth_msgs = 30\<rparr>"

definition demo_relay :: relay where
  "demo_relay = relay_new (core_new (rf_with_cache_size 10) 500 5000 3) (demo_sealer ''a'' None 7) None"

definition demo_dispatch :: "conn_id \<Rightarrow> relay_client_message \<Rightarrow> relay \<Rightarrow> relay" where
  "demo_dispatch c msg w = snd (dispatch_locked demo_env (\<lambda>_. True) 5 [] c msg w)"

definition demo_open :: relay where
  "demo_open = demo_dispatch 1 (Register ''d'' ''p'' ''t'' (F64 2 0)) (snd (conn_open (snd (conn_open demo_relay))))"

definition demo_live :: relay where
  "demo_live = demo_dispatch 2 (Auth Frontend ''d'' ''t'' (F64 2 0) (Some ''f''))
     (demo_dispatch 1 (Auth Daemon ''d'' ''t'' (F64 2 0) None) demo_open)"

lemma demo_open_eq:
  "w_core demo_open = (open_conn 2 (open_conn 1 (core_new (rf_with_cache_size 10) 500 5000 3)))\<lparr>rc_registry := demo_registry\<rparr>"
  "hm_get (w_sockets demo_open) c =
    (if c = 1 \<or> c = 2 then Some \<lparr>so_outbox = [], so_open = True, so_close = [], so_loop_tx = True\<rparr> else None)"
  "w_sealer demo_open = demo_sealer ''a'' None 7"
  by (simp_all add: demo_open_def demo_dispatch_def dispatch_locked_def demo_relay_def relay_new_def core_new_def
    conn_open_def alloc_conn_id_def open_conn_def conn_handle_new_def handle_register_def demo_registered)

lemma demo_live_eq:
  "conn_auth (w_core demo_live) 1 = Some demo_daemon" "conn_auth (w_core demo_live) 2 = Some (demo_frontend [])"
  "w_sockets demo_live = w_sockets demo_open" "w_sealer demo_live = w_sealer demo_open"
  "group_of (w_core demo_live) ''d'' = [2, 1]"
proof -
  let ?auth1 = "\<lparr>as_role = Daemon, as_daemon_id = ''d'', as_frontend_id = None, as_subscriptions = []\<rparr>"
  have reg: "registry_handle_auth ''d'' ''t'' b now r = Inr (upsert_daemon_state ''d'' b (if b then Some ''t'' else None) now r)"
    if "valid_tokens r = valid_tokens demo_registry" "registrations r = registrations demo_registry" for b now r
    using that by (auto simp: registry_handle_auth_def demo_registry_def)
  have 1: "demo_dispatch 1 (Auth Daemon ''d'' ''t'' (F64 2 0) None) demo_open =
     demo_open\<lparr>w_core := register_authed_conn ((w_core demo_open)\<lparr>rc_registry := upsert_daemon_state ''d'' True (Some ''t'') 5 demo_registry\<rparr>) 1 ?auth1\<rparr>"
    unfolding demo_dispatch_def
    by (subst dispatch_auth_granted) (auto simp: demo_open_eq open_conn_def core_new_def conn_handle_new_def reg)
  have 2: "demo_live = demo_open\<lparr>w_core := register_authed_conn ((register_authed_conn ((w_core demo_open)\<lparr>rc_registry := upsert_daemon_state ''d'' True (Some ''t'') 5 demo_registry\<rparr>) 1 ?auth1)
       \<lparr>rc_registry := upsert_daemon_state ''d'' False None 5 (upsert_daemon_state ''d'' True (Some ''t'') 5 demo_registry)\<rparr>) 2 (demo_frontend [])\<rparr>"
    unfolding demo_live_def 1 unfolding demo_dispatch_def demo_frontend_def
    by (subst dispatch_auth_granted) (auto simp: demo_open_eq open_conn_def core_new_def conn_handle_new_def reg register_authed_tables)
  show "conn_auth (w_core demo_live) 1 = Some demo_daemon" "conn_auth (w_core demo_live) 2 = Some (demo_frontend [])"
  "w_sockets demo_live = w_sockets demo_open" "w_sealer demo_live = w_sealer demo_open"
  "group_of (w_core demo_live) ''d'' = [2, 1]"
    by (simp_all add: 2 conn_auth_def register_authed_tables demo_open_eq open_conn_def core_new_def conn_handle_new_def
        demo_daemon_def demo_frontend_def group_of_def)
qed

lemma demo_live_reachable:
  "\<exists>s. (sys_step demo_env)\<^sup>*\<^sup>* (sys_new demo_relay) s \<and> sy_relay s = demo_live"
proof -
  let ?reached = "\<lambda>w. \<exists>s. (sys_step demo_env)\<^sup>*\<^sup>* (sys_new demo_relay) s \<and> sy_relay s = w"
  have dispatched: "?reached (demo_dispatch c msg w)" if reached: "?reached w" for c msg w
  proof -
    obtain s where s: "(sys_step demo_env)\<^sup>*\<^sup>* (sys_new demo_relay) s" "sy_relay s = w" using reached by blast
    have "sys_step demo_env s (spawn_delivery (fst (dispatch_locked demo_env (\<lambda>_. True) 5 [] c msg w)) (demo_dispatch c msg w) s)"
      by (rule step_dispatch [where lim_ok = "\<lambda>_. True"]) (simp add: s(2) demo_dispatch_def)
    from rtranclp.rtrancl_into_rtrancl [OF s(1) this] show ?thesis by (auto simp: spawn_delivery_def)
  qed
  have opened: "?reached (snd (conn_open w))" if reached: "?reached w" for w
  proof -
    obtain s where s: "(sys_step demo_env)\<^sup>*\<^sup>* (sys_new demo_relay) s" "sy_relay s = w" using reached by blast
    have "sys_step demo_env s (s\<lparr>sy_relay := snd (conn_open w)\<rparr>)"
      by (rule step_open [where c = "fst (conn_open w)"]) (simp add: s(2))
    from rtranclp.rtrancl_into_rtrancl [OF s(1) this] show ?thesis by auto
  qed
  have "?reached demo_relay" by (auto simp: sys_new_def)
  then show ?thesis unfolding demo_live_def demo_open_def by (intro dispatched opened)
qed

theorem one_budget_per_daemon_witness:
  "\<exists>h h' l. hm_get (rc_conns (w_core demo_live)) 1 = Some h \<and> hm_get (rc_conns (w_core demo_live)) 2 = Some h'
    \<and> ch_group_limiter h = Some l \<and> ch_group_limiter h' = Some l"
proof -
  obtain s where s: "(sys_step demo_env)\<^sup>*\<^sup>* (sys_new demo_relay) s" "sy_relay s = demo_live"
    using demo_live_reachable by blast
  obtain h h' where h: "hm_get (rc_conns (w_core demo_live)) 1 = Some h" "ch_auth h = Some demo_daemon"
      "hm_get (rc_conns (w_core demo_live)) 2 = Some h'" "ch_auth h' = Some (demo_frontend [])"
    using demo_live_eq(1,2) by (auto simp: conn_auth_def split: option.splits)
  from one_budget_per_daemon [OF s(1) [unfolded demo_relay_def] h [folded s(2)]] h show ?thesis
    by (auto simp: demo_daemon_def demo_frontend_def dest: sym)
qed

theorem subscriber_misses_nothing_witness:
  "ASend 2 (SFrame (published_frame demo_daemon ''s'' ''ct'' 8)) \<in>
    set (fst (route_publish (snd (route_subscribe (w_core demo_live) 2 ''s'' (Some 7))) 1 demo_daemon ''s'' ''ct'' 8 9))"
proof -
  let ?sub = "route_subscribe (w_core demo_live) 2 ''s'' (Some 7)"
  obtain s where s: "(sys_step demo_env)\<^sup>*\<^sup>* (sys_new demo_relay) s" "sy_relay s = demo_live"
    using demo_live_reachable by blast
  have a: "conn_auth (w_core (sy_relay s)) 2 = Some (demo_frontend [])" by (simp add: s(2) demo_live_eq)
  have room: "length (as_subscriptions (demo_frontend [])) < MAX_SUBSCRIPTIONS_PER_CLIENT"
    by (simp add: demo_frontend_def MAX_SUBSCRIPTIONS_PER_CLIENT_def)
  have sub: "route_subscribe (w_core (sy_relay s)) 2 ''s'' (Some 7) = (fst ?sub, snd ?sub)" by (simp add: s(2))
  from subscriber_misses_nothing [OF s(1) [unfolded demo_relay_def] a room sub rtranclp.rtrancl_refl]
  show ?thesis by (simp add: spawn_delivery_def demo_daemon_def demo_frontend_def)
qed

theorem connections_are_bounded_witness:
  "\<exists>so a. hm_get (w_sockets demo_live) 2 = Some so \<and> authed_state (w_core demo_live) 2 = Some a
    \<and> length (so_outbox so) \<le> 2 \<and> length (as_subscriptions a) \<le> 256"
proof -
  obtain s where s: "(sys_step demo_env)\<^sup>*\<^sup>* (sys_new demo_relay) s" "sy_relay s = demo_live"
    using demo_live_reachable by blast
  have "authed_state (w_core demo_live) 2 = Some (demo_frontend [])"
    using demo_live_eq(2) by (simp add: authed_state_def conn_auth_def)
  moreover obtain so where "hm_get (w_sockets demo_live) 2 = Some so" by (simp add: demo_live_eq demo_open_eq)
  moreover note connections_are_bounded [OF s(1) [unfolded demo_relay_def], of 2]
  ultimately show ?thesis by (auto simp: s(2) demo_env_def)
qed

text \<open>C3: Nothing gets through before authentication. A routing message or push from a connection that
  has not authenticated leaves the whole relay as it is, spawns no push, and is answered, if at all,
  only to its sender and with \<open>NOT_AUTHENTICATED\<close>.\<close>

theorem unauthenticated_messages_are_inert:
  assumes "authed_state (w_core w) c = None"
    and "\<nexists>role d t v fid. msg = Auth role d t v fid" "\<nexists>t v. msg = AuthResume t v" "\<nexists>d p t v. msg = Register d p t v"
  shows "snd (dispatch_locked env lim_ok now nonce c msg w) = w
    \<and> set (fst (dispatch_locked env lim_ok now nonce c msg w)) \<subseteq> range (\<lambda>m. ASend c (relay_error ''NOT_AUTHENTICATED'' m None))
    \<and> handle_push env lim_ok c fid sealed title body level data w =
        ((not_authenticated c (Some ''Send relay.auth first''), None), w)"
proof -
  have "dispatch_locked env lim_ok now nonce c msg w = dispatch_message env now nonce c msg w"
    using assms(1) by (auto simp: dispatch_locked_def authed_state_def split: option.splits)
  moreover have "snd (dispatch_message env now nonce c msg w) = w
      \<and> set (fst (dispatch_message env now nonce c msg w)) \<subseteq> range (\<lambda>m. ASend c (relay_error ''NOT_AUTHENTICATED'' m None))"
    using assms by (cases msg) (auto simp: not_authenticated_def route_push_register_def)
  moreover have "handle_push env lim_ok c fid sealed title body level data w =
        ((not_authenticated c (Some ''Send relay.auth first''), None), w)"
    using assms(1) by (auto simp: handle_push_def push_rate_section_def push_resolve_section_def rate_metrics_def resolve_push_locked_def authed_state_def rate_reject_def Let_def
        split: option.splits)
  ultimately show ?thesis by simp
qed

theorem unauthenticated_messages_are_inert_witness:
  "dispatch_locked demo_env (\<lambda>_. True) 6 [] 2 (Publish ''s'' ''ct'' 1) demo_open =
    ([ASend 2 (relay_error ''NOT_AUTHENTICATED'' (Some ''Send relay.auth first'') None)], demo_open)"
proof -
  have none: "authed_state (w_core demo_open) 2 = None"
    by (simp add: authed_state_def demo_open_eq open_conn_def core_new_def conn_handle_new_def)
  from unauthenticated_messages_are_inert [OF this, of "Publish ''s'' ''ct'' 1" demo_env "\<lambda>_. True" 6 "[]"]
  have "snd (dispatch_locked demo_env (\<lambda>_. True) 6 [] 2 (Publish ''s'' ''ct'' 1) demo_open) = demo_open" by simp
  moreover have "fst (dispatch_locked demo_env (\<lambda>_. True) 6 [] 2 (Publish ''s'' ''ct'' 1) demo_open) =
      [ASend 2 (relay_error ''NOT_AUTHENTICATED'' (Some ''Send relay.auth first'') None)]"
    using none by (auto simp: dispatch_locked_def not_authenticated_def authed_state_def split: option.splits)
  ultimately show ?thesis by (metis prod.collapse)
qed

text \<open>A rate-limited message is dropped whole by \<open>dispatch_locked\<close>: when either limiter of an authenticated
  connection says no, any message but a ping is answered with \<open>RATE_LIMITED\<close> and nothing of the modelled
  state changes except that exactly one of the two drop counters is incremented. (The budgets inside the
  limiters are not part of the state: a check may answer anything at any time.)\<close>

theorem rate_limited_messages_are_dropped:
  assumes "hm_get (rc_conns (w_core w)) c = Some h" "ch_auth h \<noteq> None" "\<not> is_ping msg"
    and "\<not> lim_ok (ch_client_limiter h) \<or> (\<exists>g. ch_group_limiter h = Some g \<and> \<not> lim_ok g)"
    and "dispatch_locked env lim_ok now nonce c msg w = (acts, w')"
  shows "(\<exists>m. acts = [ASend c (relay_error ''RATE_LIMITED'' m None)])
    \<and> w' = w\<lparr>w_metrics := (if lim_ok (ch_client_limiter h) then inc_daemon_rate_limited_drops (w_metrics w)
                          else inc_rate_limited_drops (w_metrics w))\<rparr>"
  using assms by (auto simp: dispatch_locked_def rate_check_def rate_reject_def rate_limited_def rate_metrics_def
      split: option.splits if_splits)

theorem rate_limited_messages_are_dropped_witness:
  "\<exists>m. dispatch_locked demo_env (\<lambda>_. False) 6 [] 2 (Publish ''s'' ''ct'' 1) demo_live =
    ([ASend 2 (relay_error ''RATE_LIMITED'' m None)],
     demo_live\<lparr>w_metrics := inc_rate_limited_drops (w_metrics demo_live)\<rparr>)"
proof -
  obtain h where h: "hm_get (rc_conns (w_core demo_live)) 2 = Some h" "ch_auth h \<noteq> None"
    using demo_live_eq(2) by (auto simp: conn_auth_def split: option.splits)
  obtain acts w' where d: "dispatch_locked demo_env (\<lambda>_. False) 6 [] 2 (Publish ''s'' ''ct'' 1) demo_live = (acts, w')"
    by fastforce
  from rate_limited_messages_are_dropped [OF h _ _ d] d show ?thesis by auto
qed

text \<open>C21: A device token is registered for the frontend that sent it. Whatever frontend id the message
  names, a \<open>push.token\<close> that results carries the authenticated frontend id of the sender and goes to
  one connection of the sender's group that is authenticated as a daemon.\<close>

theorem push_token_is_bound_to_sender:
  assumes "core_inv (w_core w)"
    and "dispatch_locked env lim_ok now nonce c (PushRegister claimed token platform) w = (acts, w')"
    and "ASend p (SPushToken pt) \<in> set acts"
  shows "\<exists>client a. authed_state (w_core w) c = Some client \<and> as_role client = Frontend
    \<and> as_frontend_id client = Some (pt_frontend_id pt)
    \<and> p \<in> set (group_of (w_core w) (as_daemon_id client)) \<and> conn_auth (w_core w) p = Some a \<and> as_role a = Daemon
    \<and> acts = [ASend p (SPushToken pt)]"
proof -
  have acts: "acts = fst (route_push_register (en_api env) (w_core w) (w_sealer w) nonce c token platform)"
    using assms(2,3) by (auto simp: dispatch_locked_def rate_reject_def rate_limited_def relay_error_def
        split: option.splits if_splits rate_verdict.splits prod.splits)
  then obtain client where client: "authed_state (w_core w) c = Some client" "as_role client = Frontend"
    using assms(3) by (auto simp: route_push_register_def not_authenticated_def relay_error_def
        split: option.splits if_splits)
  then obtain f where f: "as_frontend_id client = Some f"
    using conn_auth_in_group(2) [OF assms(1), of c client] by (auto simp: auth_wf_def conn_auth_def authed_state_def)
  obtain q where q: "find (\<lambda>p. case conn_auth (w_core w) p of Some a \<Rightarrow> as_role a = Daemon | None \<Rightarrow> False)
      (group_of (w_core w) (as_daemon_id client)) = Some q"
    and acts': "\<exists>sealed. acts = [ASend q (SPushToken \<lparr>pt_frontend_id = f, pt_sealed = sealed, pt_platform = platform\<rparr>)]"
    using assms(3) acts client f by (auto simp: route_push_register_def Let_def split: option.splits prod.splits sum.splits)
  moreover from q obtain a where "q \<in> set (group_of (w_core w) (as_daemon_id client))"
      "conn_auth (w_core w) q = Some a" "as_role a = Daemon"
    by (auto simp: find_Some_iff in_set_conv_nth split: option.splits)
  ultimately show ?thesis using client f assms(3) by auto
qed

theorem push_token_is_bound_to_sender_witness:
  "\<exists>pt. fst (dispatch_locked demo_env (\<lambda>_. True) 6 (replicate 24 1) 2 (PushRegister ''victim'' ''tok'' Ios) demo_live) = [ASend 1 (SPushToken pt)]
    \<and> pt_frontend_id pt = ''f''"
proof -
  let ?d = "dispatch_locked demo_env (\<lambda>_. True) 6 (replicate 24 1) 2 (PushRegister ''victim'' ''tok'' Ios) demo_live"
  have inv: "core_inv (w_core demo_live)"
    using demo_live_reachable reachable_relay_inv by (force simp: demo_relay_def relay_inv_def)
  obtain h where h: "hm_get (rc_conns (w_core demo_live)) 2 = Some h" "ch_auth h = Some (demo_frontend [])"
    using demo_live_eq(2) by (auto simp: conn_auth_def split: option.splits)
  have sealed: "\<exists>blob. fst (ps_seal (en_api demo_env) (w_sealer demo_live) ''tok'' (replicate 24 1)) = Inr blob"
    by (simp add: demo_env_def demo_live_eq demo_open_eq demo_seals)
  then have "\<exists>pt. fst ?d = [ASend 1 (SPushToken pt)]"
    using h sealed demo_live_eq by (auto simp: dispatch_locked_def rate_check_def rate_reject_def route_push_register_def authed_state_def
       demo_frontend_def demo_daemon_def split: option.splits prod.splits)
  then obtain pt where pt: "fst ?d = [ASend 1 (SPushToken pt)]" by blast
  have "?d = (fst ?d, snd ?d)" by simp
  from push_token_is_bound_to_sender [OF inv this, of 1 pt] pt h have "pt_frontend_id pt = ''f''"
    by (auto simp: authed_state_def demo_frontend_def)
  with pt show ?thesis by blast
qed

lemma offline_push_is_never_ws: "\<not> pq_is_frontend_connected req \<Longrightarrow> fst (send_or_deliver cfg apns req now inner) \<noteq> Ws"
  by (auto simp: send_or_deliver_eq push_guard_def Let_def split: option.splits apns_delivery_result.splits if_splits)

lemma notification_only_for_ws:
  "ASend p (SNotification n) \<in> set (map_delivery_result res target dc title body data fid) \<Longrightarrow> res = Ws \<and> target = Some p"
  by (auto simp: map_delivery_result_def relay_error_def split: delivery_result.splits option.splits)

lemma finish_push_send_eq:
  fixes job
  defines "req \<equiv> pj_req job"
  shows "finish_push_send cfg apns now now' core job inner =
    (let (res, inner) =
       (if pq_is_frontend_connected req
        then if frontend_conn_live core (pj_target job) (pq_frontend_id req) then (Ws, inner)
             else send_or_deliver cfg apns (req\<lparr>pq_is_frontend_connected := False\<rparr>) now' inner
        else send_or_deliver cfg apns req now inner)
     in ((res, map_delivery_result res (pj_target job) (pj_daemon_conn job) (pj_title job) (pj_body job) (pj_data job)
           (pq_frontend_id req)), inner))"
proof (cases "pq_is_frontend_connected req")
  case True
  then have "send_or_deliver cfg apns req now inner = (Ws, inner)" by (simp add: send_or_deliver_eq)
  with True show ?thesis by (simp add: finish_push_send_def push_actions_def req_def Let_def)
next
  case False
  obtain r i where r: "send_or_deliver cfg apns req now inner = (r, i)" by fastforce
  with offline_push_is_never_ws [OF False, of cfg apns now inner] have "r \<noteq> Ws" by simp
  with False r show ?thesis by (simp add: finish_push_send_def push_actions_def req_def Let_def)
qed

text \<open>C24: A push is not lost to a frontend that went away. When the frontend that was connected at the
  lookup is gone by the time the task runs, the push takes the same path as one for a frontend that
  was never connected, from the same push state; and an in-band notification is only ever addressed
  to a connection that is still authenticated as that frontend.\<close>

theorem push_falls_back_when_frontend_left:
  assumes "finish_push_send cfg apns now now' core job inner = ((res, acts), inner')"
  shows "(pq_is_frontend_connected (pj_req job) \<and> \<not> frontend_conn_live core (pj_target job) (pq_frontend_id (pj_req job))
      \<longrightarrow> (res, inner') = send_or_deliver cfg apns ((pj_req job)\<lparr>pq_is_frontend_connected := False\<rparr>) now' inner)
    \<and> (\<forall>p n. ASend p (SNotification n) \<in> set acts \<longrightarrow> pj_target job = Some p \<and>
        (\<exists>a. conn_auth core p = Some a \<and> as_role a = Frontend \<and> as_frontend_id a = Some (pq_frontend_id (pj_req job))))"
proof -
  let ?req = "pj_req job"
  let ?off = "?req\<lparr>pq_is_frontend_connected := False\<rparr>"
  let ?live = "frontend_conn_live core (pj_target job) (pq_frontend_id ?req)"
  have acts: "acts = map_delivery_result res (pj_target job) (pj_daemon_conn job) (pj_title job) (pj_body job)
      (pj_data job) (pq_frontend_id ?req)"
    and res: "(res, inner') = (if pq_is_frontend_connected ?req then if ?live then (Ws, inner)
        else send_or_deliver cfg apns ?off now' inner else send_or_deliver cfg apns ?req now inner)"
    using assms by (auto simp: finish_push_send_eq Let_def split: prod.splits if_splits)
  have never: "fst (send_or_deliver cfg apns ?off now' inner) \<noteq> Ws"
    by (rule offline_push_is_never_ws) simp
  have "pj_target job = Some p \<and> ?live" if n: "ASend p (SNotification n) \<in> set acts" for p n
  proof -
    have "res = Ws" "pj_target job = Some p" using notification_only_for_ws n acts by blast+
    moreover have "?live"
      using res \<open>res = Ws\<close> never offline_push_is_never_ws [of ?req cfg apns now inner] by (metis fst_conv)
    ultimately show ?thesis by simp
  qed
  moreover have "\<exists>a. conn_auth core p = Some a \<and> as_role a = Frontend \<and> as_frontend_id a = Some (pq_frontend_id ?req)"
    if "pj_target job = Some p" ?live for p
    using that by (auto simp: frontend_conn_live_def split: option.splits)
  moreover have "pq_is_frontend_connected ?req \<and> \<not> ?live \<longrightarrow> (res, inner') = send_or_deliver cfg apns ?off now' inner"
    using res by simp
  ultimately show ?thesis by blast
qed

definition demo_job :: push_job where
  "demo_job = \<lparr>pj_req = demo_push\<lparr>pq_is_frontend_connected := True\<rparr>, pj_target = Some 9, pj_daemon_conn = 1,
     pj_title = ''t'', pj_body = ''b'', pj_data = None\<rparr>"

theorem push_falls_back_when_frontend_left_witness:
  "\<exists>inner'. finish_push_send demo_push_config (\<lambda>_. ApnsOk) 10 11 (w_core demo_relay) demo_job push_inner_new =
    ((Push_delivered, []), inner')"
proof -
  let ?fin = "finish_push_send demo_push_config (\<lambda>_. ApnsOk) 10 11 (w_core demo_relay) demo_job push_inner_new"
  obtain res acts inner' where fin: "?fin = ((res, acts), inner')" by (metis prod.exhaust)
  have "\<not> frontend_conn_live (w_core demo_relay) (pj_target demo_job) (pq_frontend_id (pj_req demo_job))"
    by (simp add: frontend_conn_live_def demo_job_def conn_auth_def demo_relay_def relay_new_def core_new_def)
  with push_falls_back_when_frontend_left [OF fin] have "(res, inner') = send_or_deliver demo_push_config (\<lambda>_. ApnsOk)
      ((pj_req demo_job)\<lparr>pq_is_frontend_connected := False\<rparr>) 11 push_inner_new"
    by (simp add: demo_job_def)
  then have "res = Push_delivered" 
    by (simp add: demo_job_def send_or_deliver_eq push_guard_def demo_push_def push_inner_new_def demo_push_config_def hm_modify_def)
  then show ?thesis using fin 
    by (auto simp: finish_push_send_eq map_delivery_result_def split: prod.splits)
qed


lemma check_stale_evicted_gone:
  assumes "check_stale_daemons now t e r = (res, r')" "d \<in> set (evicted res)"
  shows "hm_get (daemon_states r') d = None"
  using assms by (auto simp: check_stale_eq Let_def fold_evict_states)

text \<open>C28: An evicted daemon disappears silently. The sweep that evicts a daemon sends its frontends no
  presence for it, also when the same sweep first marked it offline, although frontends of the
  daemon stay connected in its group.\<close>

theorem eviction_sends_no_presence:
  assumes "check_stale_daemons now (en_stale_timeout_ms env) (en_offline_evict_ms env) (rc_registry (w_core w)) = (res, reg)"
    and "d \<in> set (evicted res)" "stale_sweep env now w = (acts, w')"
  shows "(\<forall>p pr. ASend p (SPresence pr) \<in> set acts \<longrightarrow> pr_daemon_id pr \<noteq> d)
    \<and> rc_conns (w_core w') = rc_conns (w_core w) \<and> rc_groups (w_core w') = rc_groups (w_core w)"
proof -
  have none: "presence_actions ((w_core w)\<lparr>rc_registry := reg\<rparr>) d = []"
    using check_stale_evicted_gone [OF assms(1,2)] by (simp add: presence_actions_def)
  have acts: "acts = concat (map (presence_actions ((w_core w)\<lparr>rc_registry := reg\<rparr>)) (newly_offline res))"
    and w': "w' = fold sweep_evicted (evicted res) (w\<lparr>w_core := (w_core w)\<lparr>rc_registry := reg\<rparr>\<rparr>)"
    using assms(1,3) by (simp_all add: stale_sweep_def Let_def)
  have "pr_daemon_id pr = e" if "ASend p (SPresence pr) \<in> set (presence_actions core e)" for p pr core e
    using that by (auto simp: presence_actions_def Let_def split: option.splits)
  then have "pr_daemon_id pr \<noteq> d" if "ASend p (SPresence pr) \<in> set acts" for p pr
    using that none unfolding acts by fastforce
  moreover have "rc_conns (w_core (fold sweep_evicted ds v)) = rc_conns (w_core v)"
      "rc_groups (w_core (fold sweep_evicted ds v)) = rc_groups (w_core v)" for ds v
    by (induction ds arbitrary: v) (simp_all add: sweep_evicted_def)
  ultimately show ?thesis by (simp add: w')
qed

theorem eviction_sends_no_presence_witness:
  "fst (stale_sweep demo_env 3700000 (demo_relay\<lparr>w_core := demo_core []\<rparr>)) = []
    \<and> group_of (w_core (snd (stale_sweep demo_env 3700000 (demo_relay\<lparr>w_core := demo_core []\<rparr>)))) ''d'' \<noteq> []"
proof -
  let ?w = "demo_relay\<lparr>w_core := demo_core []\<rparr>" and ?sweep = "stale_sweep demo_env 3700000 (demo_relay\<lparr>w_core := demo_core []\<rparr>)"
  have stale: "check_stale_daemons 3700000 (en_stale_timeout_ms demo_env) (en_offline_evict_ms demo_env) (rc_registry (w_core ?w)) =
      (\<lparr>newly_offline = [], evicted = [''d'']\<rparr>, snd (check_stale_daemons 3700000 90000 3600000 demo_registry))"
    by (simp add: check_stale_eq demo_core_auth demo_env_def demo_registry_def mark_all_def mark_stale_def is_stale_def is_evictable_def saturating_sub_def Let_def)
  have "?sweep = (fst ?sweep, snd ?sweep)" by simp
  from eviction_sends_no_presence [OF stale _ this, of "''d''"]
  have "rc_groups (w_core (snd ?sweep)) = rc_groups (demo_core [])" by simp
  moreover have "2 \<in> set (group_of (demo_core []) ''d'')"
    using conn_auth_in_group(1) [OF demo_core_inv demo_core_auth(2)] by (simp add: demo_frontend_def)
  moreover have "fst ?sweep = []" using stale by (simp add: stale_sweep_def Let_def)
  ultimately have "2 \<in> set (group_of (w_core (snd ?sweep)) ''d'')" "fst ?sweep = []" by (simp_all add: group_of_def)
  then show ?thesis by force
qed

text \<open>A forced close can lose its close code. \<open>close_conn\<close> first removes the handle, which ends the
  outbox channel, and sends the close directive only afterwards. If the write task runs in between
  and has nothing to write, it ends, and the code that is then sent reaches nobody.\<close>

theorem close_code_can_be_lost:
  assumes "sy_tasks s ! i = Deliver (AClose c code reason # acts) bp # rest" "i < length (sy_tasks s)"
    and "hm_contains (rc_conns (w_core (sy_relay s))) c"
    and "hm_get (w_sockets (sy_relay s)) c = Some so" "so_open so" "so_outbox so = []" "so_close so = []" "so_loop_tx so"
    and "\<not> list_ex (list_ex (holds_sender c)) (sy_tasks s)"
  shows "\<exists>s1 s2 s3 so' rest'. sys_step env s s1 \<and> sys_step env s1 s2 \<and> sys_step env s2 s3
    \<and> sy_tasks s1 ! i = Signal c code reason # rest' \<and> sy_tasks s3 ! i = rest'
    \<and> hm_get (w_sockets (sy_relay s3)) c = Some so' \<and> \<not> so_open so' \<and> so_close so' = []"
proof -
  let ?w = "sy_relay s"
  obtain calls w1 where close: "close_conn c code reason 0 ?w = (calls, w1)" by fastforce
  obtain rest' where calls: "calls @ Deliver acts bp # rest = Signal c code reason # rest'" "\<not> list_ex (holds_sender c) calls"
    using close assms(3) by (auto simp: close_conn_def Let_def split: prod.splits option.splits)
  have "\<not> list_ex (holds_sender c) (Deliver (AClose c code reason # acts) bp # rest)"
    using assms(1,2,9) by (metis list_ex_iff nth_mem)
  then have free: "\<not> list_ex (holds_sender c) (Signal c code reason # rest')" unfolding calls(1) [symmetric] using calls(2) by simp
  then have idle: "\<not> list_ex (list_ex (holds_sender c)) ((sy_tasks s)[i := Signal c code reason # rest'])"
    using assms(9) by (auto simp: list_ex_iff dest!: subsetD [OF set_update_subset_insert])
  define s1 where "s1 = s\<lparr>sy_relay := w1, sy_tasks := (sy_tasks s)[i := Signal c code reason # rest']\<rparr>"
  have 1: "sys_step env s s1"
    unfolding s1_def by (rule step_deliver [OF assms(2), of _ 0]) (simp add: assms(1) close calls(1))
  have sock: "hm_get (w_sockets w1) c = Some so" using w_sockets_close_conn [OF close] assms(4) by simp
  have gone: "hm_get (rc_conns (w_core w1)) c = None"
    using close by (auto simp: close_conn_def Let_def handle_close_conns(1) split: prod.splits)
  define s2 where "s2 = s1\<lparr>sy_relay := w1\<lparr>w_sockets := hm_insert c (so\<lparr>so_open := False\<rparr>) (w_sockets w1)\<rparr>\<rparr>"
  have 2: "sys_step env s1 s2"
    unfolding s2_def using step_write [of s1 c so True "Some WEnd" "so\<lparr>so_open := False\<rparr>" env] sock gone assms(5-8) idle
    by (simp add: s1_def write_task_step_def close_tx_live_def out_tx_live_def)
  define s3 where "s3 = s2\<lparr>sy_relay := push_close c code reason (sy_relay s2), sy_tasks := (sy_tasks s2)[i := rest']\<rparr>"
  have 3: "sys_step env s2 s3"
    unfolding s3_def by (rule step_deliver [of i _ _ 0]) (use assms(2) in \<open>simp_all add: s2_def s1_def\<close>)
  have "hm_get (w_sockets (sy_relay s3)) c = Some (so\<lparr>so_open := False\<rparr>)"
    by (simp add: s3_def s2_def push_close_def)
  with 1 2 3 show ?thesis
    using assms(2,7) by (intro exI [of _ s1] exI [of _ s2] exI [of _ s3] exI [of _ "so\<lparr>so_open := False\<rparr>"] exI [of _ rest'])
      (simp add: s1_def s2_def s3_def)
qed

theorem close_code_can_be_lost_witness:
  "\<exists>s1 s2 s3 so' rest'. sys_step demo_env \<lparr>sy_relay = demo_live, sy_tasks = [[Deliver [AClose 2 1008 ''bye''] []]], sy_jobs = []\<rparr> s1
    \<and> sys_step demo_env s1 s2 \<and> sys_step demo_env s2 s3
    \<and> sy_tasks s1 ! 0 = Signal 2 1008 ''bye'' # rest' \<and> sy_tasks s3 ! 0 = rest'
    \<and> hm_get (w_sockets (sy_relay s3)) 2 = Some so' \<and> \<not> so_open so' \<and> so_close so' = []"
proof (rule close_code_can_be_lost)
  show "hm_contains (rc_conns (w_core (sy_relay \<lparr>sy_relay = demo_live, sy_tasks = [[Deliver [AClose 2 1008 ''bye''] []]], sy_jobs = []\<rparr>))) 2"
    using demo_live_eq(2) by (auto simp: conn_auth_def split: option.splits)
  show "hm_get (w_sockets (sy_relay \<lparr>sy_relay = demo_live, sy_tasks = [[Deliver [AClose 2 1008 ''bye''] []]], sy_jobs = []\<rparr>)) 2 =
      Some \<lparr>so_outbox = [], so_open = True, so_close = [], so_loop_tx = True\<rparr>"
    by (simp add: demo_live_eq demo_open_eq)
qed simp_all

fun preauth_rounds :: "relay_env \<Rightarrow> conn_id \<Rightarrow> nat \<Rightarrow> relay \<Rightarrow> bool list \<times> relay" where
  "preauth_rounds env c 0 w = ([], w)"
| "preauth_rounds env c (Suc n) w =
    (let (bs, w) = preauth_rounds env c n w; (b, w) = preauth_section env c w in (bs @ [b], w))"


lemma preauth_rounds_count:
  assumes "hm_get (rc_conns (w_core w)) c = Some h" "ch_auth h = None" "ch_preauth_count h = 0"
    and "n \<le> unat (en_max_preauth_msgs env)"
  shows "fst (preauth_rounds env c n w) = replicate n False
    \<and> hm_get (rc_conns (w_core (snd (preauth_rounds env c n w)))) c = Some (h\<lparr>ch_preauth_count := of_nat n\<rparr>)"
  using assms(4)
proof (induction n)
  case (Suc n)
  obtain bs v where run: "preauth_rounds env c n w = (bs, v)" by fastforce
  have small: "n < 2 ^ 32" "Suc n < 2 ^ 32"
    using Suc.prems unsigned_less [where ?'a = nat, of "en_max_preauth_msgs env"] by simp_all
  have "unat (of_nat (Suc n) :: u32) = Suc n" using small(2) by (simp add: unat_of_nat del: of_nat_Suc)
  then have "\<not> (of_nat n + 1 :: u32) > en_max_preauth_msgs env"
    using Suc.prems by (simp add: word_less_nat_alt not_less add.commute)
  with Suc assms(2) run show ?case
    by (simp add: preauth_section_def Let_def replicate_append_same add.commute)
qed (use assms in simp)

text \<open>An unauthenticated connection is cut off. The first \<open>max_preauth_msgs\<close> frames of a connection
  that does not authenticate pass the throttle; the next one, however small, is answered with a
  close 1008 before it is parsed.\<close>

theorem preauth_flood_is_cut_off:
  assumes "hm_get (rc_conns (w_core w)) c = Some h" "ch_auth h = None" "ch_preauth_count h = 0"
    and "en_max_preauth_msgs env \<noteq> - 1" "length text \<le> en_max_frame_size env"
    and "preauth_rounds env c (unat (en_max_preauth_msgs env)) w = (closed, w')"
  shows "closed = replicate (unat (en_max_preauth_msgs env)) False
    \<and> fst (handle_inbound env lim_ok now nonce c text w') = (Some (1008, ''Too many pre-auth messages''), [], None)"
proof -
  note rounds = preauth_rounds_count [OF assms(1-3) order_refl, of env]
  have "en_max_preauth_msgs env < - 1" using assms(4) by (simp add: word_order.not_eq_extremum)
  then have "en_max_preauth_msgs env < en_max_preauth_msgs env + 1" by (simp add: word_less_nat_alt unat_plus_one)
  then show ?thesis
    using rounds assms(2,5,6) by (simp add: handle_inbound_def preauth_section_def Let_def)
qed

theorem preauth_flood_is_cut_off_witness:
  "\<exists>w'. preauth_rounds demo_env 2 30 demo_open = (replicate 30 False, w')
    \<and> fst (handle_inbound demo_env (\<lambda>_. True) 6 [] 2 ''junk'' w') = (Some (1008, ''Too many pre-auth messages''), [], None)"
proof -
  obtain closed w' where run: "preauth_rounds demo_env 2 30 demo_open = (closed, w')" by fastforce
  have conn: "hm_get (rc_conns (w_core demo_open)) 2 = Some (conn_handle_new 1 500)"
    by (simp add: demo_open_eq open_conn_def core_new_def)
  from preauth_flood_is_cut_off [OF this, of demo_env "''junk''" closed w' "\<lambda>_. True" 6 "[]"] run show ?thesis
    by (simp add: conn_handle_new_def demo_env_def)
qed

end
