(* ===== verification/Rust_Strings.thy ===== *)
theory Rust_Strings
  imports Bytes
begin

text \<open>
  The operations of Rust's \<open>str\<close> that the protocol and daemon code uses beyond comparison and
  concatenation. A \<open>String\<close> is its UTF-8 bytes, one \<open>char\<close> each, so an operation on Unicode
  scalar values is an operation on their encodings: \<open>trim\<close> removes the encodings of the characters
  with the \<open>White_Space\<close> property.
\<close>

section \<open>Trimming\<close>

definition ws_codes :: "string list" where
  "ws_codes = map bytes_to_string
    ([[9], [10], [11], [12], [13], [32], [0xC2, 0x85], [0xC2, 0xA0], [0xE1, 0x9A, 0x80],
      [0xE2, 0x80, 0xA8], [0xE2, 0x80, 0xA9], [0xE2, 0x80, 0xAF], [0xE2, 0x81, 0x9F], [0xE3, 0x80, 0x80]]
     @ map (\<lambda>b. [0xE2, 0x80, b]) [0x80, 0x81, 0x82, 0x83, 0x84, 0x85, 0x86, 0x87, 0x88, 0x89, 0x8A])"

text \<open>Remove prefixes from a list of codes as long as one matches.\<close>

function strip_codes :: "string list \<Rightarrow> string \<Rightarrow> string" where
  "strip_codes ws s =
    (case find (\<lambda>w. w \<noteq> [] \<and> starts_with s w) ws of
       None \<Rightarrow> s
     | Some w \<Rightarrow> strip_codes ws (drop (length w) s))"
  by pat_completeness auto
termination
  by (relation "measure (\<lambda>(ws, s). length s)")
    (auto simp: find_Some_iff starts_with_iff)

declare strip_codes.simps [simp del]

definition trim_start :: "string \<Rightarrow> string" where
  "trim_start s = strip_codes ws_codes s"

definition trim_end :: "string \<Rightarrow> string" where
  "trim_end s = rev (strip_codes (map rev ws_codes) (rev s))"

definition str_trim :: "string \<Rightarrow> string" where
  "str_trim s = trim_end (trim_start s)"

text \<open>\<open>trim_end_matches\<close> and \<open>trim_start_matches\<close> with one character.\<close>

definition trim_end_matches :: "char \<Rightarrow> string \<Rightarrow> string" where
  "trim_end_matches c s = rev (dropWhile (\<lambda>d. d = c) (rev s))"

section \<open>Searching and splitting\<close>

fun split_once :: "char \<Rightarrow> string \<Rightarrow> (string \<times> string) option" where
  "split_once c [] = None"
| "split_once c (d # s) =
    (if d = c then Some ([], s)
     else case split_once c s of None \<Rightarrow> None | Some (a, b) \<Rightarrow> Some (d # a, b))"

fun str_split :: "char \<Rightarrow> string \<Rightarrow> string list" where
  "str_split c [] = [[]]"
| "str_split c (d # s) =
    (if d = c then [] # str_split c s
     else case str_split c s of [] \<Rightarrow> [[d]] | p # ps \<Rightarrow> (d # p) # ps)"

definition ascii_lower :: "char \<Rightarrow> char" where
  "ascii_lower c = (if 65 \<le> (of_char c :: nat) \<and> (of_char c :: nat) \<le> 90 then char_of ((of_char c :: nat) + 32) else c)"

section \<open>Lemmas\<close>

lemma strip_codes_None: "find (\<lambda>w. w \<noteq> [] \<and> starts_with s w) ws = None \<Longrightarrow> strip_codes ws s = s"
  by (subst strip_codes.simps) simp

lemma strip_codes_Some:
  "find (\<lambda>w. w \<noteq> [] \<and> starts_with s w) ws = Some w \<Longrightarrow> strip_codes ws s = strip_codes ws (drop (length w) s)"
  by (subst strip_codes.simps) simp

lemma strip_codes_suffix: "\<exists>p. s = p @ strip_codes ws s"
proof (induction ws s rule: strip_codes.induct)
  case (1 ws s)
  show ?case
  proof (cases "find (\<lambda>w. w \<noteq> [] \<and> starts_with s w) ws")
    case (Some w)
    from 1 [OF Some] obtain p where "drop (length w) s = p @ strip_codes ws s"
      using strip_codes_Some [OF Some] by auto
    then have "s = (take (length w) s @ p) @ strip_codes ws s" by (metis append_take_drop_id append.assoc)
    then show ?thesis by blast
  qed (simp add: strip_codes_None)
qed

lemma strip_codes_done: "w \<in> set ws \<Longrightarrow> w \<noteq> [] \<Longrightarrow> \<not> starts_with (strip_codes ws s) w"
proof (induction ws s rule: strip_codes.induct)
  case (1 ws s)
  show ?case
  proof (cases "find (\<lambda>w. w \<noteq> [] \<and> starts_with s w) ws")
    case None
    with 1(2,3) show ?thesis by (auto simp: strip_codes_None [OF None] find_None_iff)
  next
    case (Some w')
    with 1 show ?thesis by (simp add: strip_codes_Some)
  qed
qed

lemma strip_codes_id: "(\<And>w. w \<in> set ws \<Longrightarrow> w \<noteq> [] \<Longrightarrow> \<not> starts_with s w) \<Longrightarrow> strip_codes ws s = s"
  by (rule strip_codes_None) (auto simp: find_None_iff)

lemma starts_with_appendD: "starts_with s w \<Longrightarrow> starts_with (s @ t) w"
  by (auto simp: starts_with_iff)

lemma trim_start_id: "(\<And>w. w \<in> set ws_codes \<Longrightarrow> w \<noteq> [] \<Longrightarrow> \<not> starts_with s w) \<Longrightarrow> trim_start s = s"
  by (simp add: trim_start_def strip_codes_id)

lemma trim_end_prefix: "\<exists>t. s = trim_end s @ t"
proof -
  obtain p where "rev s = p @ strip_codes (map rev ws_codes) (rev s)" using strip_codes_suffix by blast
  then have "s = trim_end s @ rev p" by (metis trim_end_def rev_append rev_rev_ident)
  then show ?thesis by blast
qed

lemma trim_end_idem: "trim_end (trim_end s) = trim_end s"
  unfolding trim_end_def rev_rev_ident
  by (subst strip_codes_id, erule (1) strip_codes_done) (rule refl)

lemma str_trim_idem [simp]: "str_trim (str_trim s) = str_trim s"
proof -
  let ?t = "trim_start s"
  have "\<not> starts_with (trim_end ?t) w" if w: "w \<in> set ws_codes" "w \<noteq> []" for w
  proof
    assume "starts_with (trim_end ?t) w"
    then have "starts_with ?t w" using trim_end_prefix [of ?t] by (metis starts_with_appendD)
    with w strip_codes_done show False by (simp add: trim_start_def)
  qed
  then show ?thesis by (simp add: str_trim_def trim_start_id trim_end_idem)
qed

text \<open>A string whose first and last byte are ASCII and visible is not trimmed.\<close>

lemma ws_codes_visible:
  assumes "w \<in> set ws_codes" "w \<noteq> []"
  shows "(of_char (hd w) :: nat) \<le> 32 \<or> (of_char (hd w) :: nat) \<ge> 128"
    "(of_char (last w) :: nat) \<le> 32 \<or> (of_char (last w) :: nat) \<ge> 128"
  using assms by (auto simp: ws_codes_def bytes_to_string_def of_char_of take_bit_eq_mod)

lemma str_trim_visible:
  assumes "s \<noteq> []" "32 < (of_char (hd s) :: nat)" "(of_char (hd s) :: nat) < 128"
    "32 < (of_char (last s) :: nat)" "(of_char (last s) :: nat) < 128"
  shows "str_trim s = s"
proof -
  have "\<not> starts_with s w" if w: "w \<in> set ws_codes" "w \<noteq> []" for w
  proof
    assume "starts_with s w"
    then have "hd s = hd w" using w(2) by (auto simp: starts_with_iff)
    with ws_codes_visible(1) [OF w] assms show False by simp
  qed
  moreover have "\<not> starts_with (rev s) (rev w)" if w: "w \<in> set ws_codes" "w \<noteq> []" for w
  proof
    assume "starts_with (rev s) (rev w)"
    then have "last s = last w" using w(2) assms(1)
      by (metis starts_with_iff hd_append2 hd_rev rev_is_Nil_conv)
    with ws_codes_visible(2) [OF w] assms show False by simp
  qed
  then have "strip_codes (map rev ws_codes) (rev s) = rev s" by (intro strip_codes_id) auto
  ultimately show ?thesis by (simp add: str_trim_def trim_start_id trim_end_def)
qed

lemma split_once_append: "c \<notin> set a \<Longrightarrow> split_once c (a @ c # b) = Some (a, b)"
  by (induction a) auto

lemma str_split_single: "c \<notin> set s \<Longrightarrow> str_split c s = [s]"
  by (induction s) auto

end
