(* ===== verification/Label.thy ===== *)
theory Label
  imports Messages Rust_Strings
begin

text \<open>
  Pairing labels and the encrypted control messages (\<open>tp-proto/src/label.rs\<close>, \<open>control.rs\<close>): the
  tagged union with its forgiving decoders, and the parser of \<open>control.unpair\<close> and
  \<open>control.rename\<close>.
\<close>

section \<open>Labels\<close>

datatype label = LSet string | LUnset

definition label_unset :: label where
  "label_unset = LUnset"

fun label_to_json :: "label \<Rightarrow> json" where
  "label_to_json (LSet value) = JObject [(''set'', JBool True), (''value'', JString value)]"
| "label_to_json LUnset = JObject [(''set'', JBool False)]"

fun make_label :: "string option \<Rightarrow> label" where
  "make_label None = LUnset"
| "make_label (Some s) = (let v = str_trim s in if v = [] then LUnset else LSet v)"

fun label_to_nullable :: "label \<Rightarrow> string option" where
  "label_to_nullable (LSet value) = Some value"
| "label_to_nullable LUnset = None"

fun decode_wire_label :: "json \<Rightarrow> label" where
  "decode_wire_label JNull = LUnset"
| "decode_wire_label (JString s) = make_label (Some s)"
| "decode_wire_label (JObject obj) =
    (case hm_get obj ''set'' of
       Some (JBool False) \<Rightarrow> LUnset
     | Some (JBool True) \<Rightarrow>
         (case hm_get obj ''value'' of Some (JString v) \<Rightarrow> make_label (Some v) | _ \<Rightarrow> LUnset)
     | Some _ \<Rightarrow> LUnset
     | None \<Rightarrow> LUnset)"
| "decode_wire_label _ = LUnset"

definition decode_label_opt_field :: "json option \<Rightarrow> label option" where
  "decode_label_opt_field v = map_option decode_wire_label v"

definition decode_kx_label_or_keep :: "json \<Rightarrow> label option" where
  "decode_kx_label_or_keep raw =
    (case decode_wire_label raw of LSet value \<Rightarrow> Some (LSet value) | LUnset \<Rightarrow> None)"

text \<open>The labels that exist: a set label is trimmed and not empty.\<close>

fun label_ok :: "label \<Rightarrow> bool" where
  "label_ok (LSet value) \<longleftrightarrow> value \<noteq> [] \<and> str_trim value = value"
| "label_ok LUnset \<longleftrightarrow> True"

section \<open>Control messages\<close>

datatype unpair_reason = UserInitiated | DeviceRemoved | Rotated

definition unpair_reason_from_str :: "string \<Rightarrow> unpair_reason option" where
  "unpair_reason_from_str s =
    (if s = ''user-initiated'' then Some UserInitiated
     else if s = ''device-removed'' then Some DeviceRemoved
     else if s = ''rotated'' then Some Rotated else None)"

fun unpair_reason_str :: "unpair_reason \<Rightarrow> string" where
  "unpair_reason_str UserInitiated = ''user-initiated''"
| "unpair_reason_str DeviceRemoved = ''device-removed''"
| "unpair_reason_str Rotated = ''rotated''"

datatype control_message =
    Unpair string string unpair_reason f64 \<comment> \<open>daemonId, frontendId, reason, ts\<close>
  | Rename string string label f64 \<comment> \<open>daemonId, frontendId, label, ts\<close>

definition parse_unpair :: "json_object \<Rightarrow> control_message option" where
  "parse_unpair obj =
    Option.bind (req_string obj ''daemonId'') (\<lambda>daemon_id.
    Option.bind (req_string obj ''frontendId'') (\<lambda>frontend_id.
    Option.bind (Option.bind (Option.bind (hm_get obj ''reason'') as_str) unpair_reason_from_str) (\<lambda>reason.
    Option.bind (Option.bind (hm_get obj ''ts'') is_number) (\<lambda>ts.
      Some (Unpair daemon_id frontend_id reason ts)))))"

definition parse_rename :: "json_object \<Rightarrow> control_message option" where
  "parse_rename obj =
    Option.bind (req_string obj ''daemonId'') (\<lambda>daemon_id.
    Option.bind (req_string obj ''frontendId'') (\<lambda>frontend_id.
    Option.bind (Option.bind (hm_get obj ''ts'') is_number) (\<lambda>ts.
      let label = decode_wire_label (case hm_get obj ''label'' of Some v \<Rightarrow> v | None \<Rightarrow> JNull)
      in Some (Rename daemon_id frontend_id label ts))))"

definition parse_control_message :: "json \<Rightarrow> control_message option" where
  "parse_control_message raw =
    Option.bind (as_object raw) (\<lambda>obj.
    Option.bind (Option.bind (hm_get obj ''t'') as_str) (\<lambda>t.
      if t = ''control.unpair'' then parse_unpair obj
      else if t = ''control.rename'' then parse_rename obj
      else None))"

fun control_to_json :: "control_message \<Rightarrow> json" where
  "control_to_json (Unpair daemon_id frontend_id reason ts) =
    JObject [(''t'', JString ''control.unpair''), (''daemonId'', JString daemon_id),
      (''frontendId'', JString frontend_id), (''reason'', JString (unpair_reason_str reason)), (''ts'', json_f64 ts)]"
| "control_to_json (Rename daemon_id frontend_id label ts) =
    JObject [(''t'', JString ''control.rename''), (''daemonId'', JString daemon_id),
      (''frontendId'', JString frontend_id), (''label'', label_to_json label), (''ts'', json_f64 ts)]"

fun control_label :: "control_message \<Rightarrow> label" where
  "control_label (Unpair _ _ _ _) = LUnset"
| "control_label (Rename _ _ l _) = l"

section \<open>Lemmas\<close>

lemma make_label_ok: "label_ok (make_label raw)"
  by (cases raw) (auto simp: Let_def)

lemma decode_wire_label_ok: "label_ok (decode_wire_label v)"
  by (cases v) (auto simp: make_label_ok Let_def split: option.splits json.splits bool.splits)

lemma decode_label_to_json [simp]: "label_ok l \<Longrightarrow> decode_wire_label (label_to_json l) = l"
  by (cases l) (auto simp: Let_def)

lemma make_label_nullable: "label_ok l \<Longrightarrow> make_label (label_to_nullable l) = l"
  by (cases l) auto

lemma unpair_reason_roundtrip [simp]: "unpair_reason_from_str (unpair_reason_str r) = Some r"
  by (cases r) (simp_all add: unpair_reason_from_str_def)

lemmas control_parse_defs = parse_control_message_def parse_unpair_def parse_rename_def guard_defs

lemma parse_control_label: "parse_control_message raw = Some m \<Longrightarrow> label_ok (control_label m)"
  by (auto simp: parse_control_message_def parse_unpair_def parse_rename_def Let_def decode_wire_label_ok
      split: bind_splits if_splits)

section \<open>Properties\<close>

text \<open>Labels and control messages survive the wire, and nothing else gets in. Whatever JSON
  arrives, a decoded label is either unset or a trimmed, non-empty name; every such label and every
  control message that carries one is read back as it was written, and writing a decoded label and
  reading it again changes nothing.\<close>

theorem control_messages_roundtrip:
  "(label_ok (control_label m) \<longrightarrow> parse_control_message (control_to_json m) = Some m)
    \<and> (\<forall>raw m'. parse_control_message raw = Some m' \<longrightarrow> parse_control_message (control_to_json m') = Some m')
    \<and> decode_wire_label (label_to_json (decode_wire_label v)) = decode_wire_label v
    \<and> make_label (label_to_nullable (decode_wire_label v)) = decode_wire_label v"
proof -
  have "parse_control_message (control_to_json k) = Some k" if "label_ok (control_label k)" for k
    using that by (cases k) (auto simp: control_parse_defs Let_def)
  then show ?thesis
    using parse_control_label decode_label_to_json [OF decode_wire_label_ok] make_label_nullable [OF decode_wire_label_ok]
    by blast
qed

theorem control_messages_roundtrip_witness:
  "parse_control_message (control_to_json (Rename ''d'' ''f'' (LSet ''laptop'') (F64 5 0))) =
    Some (Rename ''d'' ''f'' (LSet ''laptop'') (F64 5 0))"
proof -
  have "str_trim ''laptop'' = ''laptop''" by (rule str_trim_visible) simp_all
  then show ?thesis
    using control_messages_roundtrip [of "Rename ''d'' ''f'' (LSet ''laptop'') (F64 5 0)"] by simp
qed

end
