(* ===== verification/Relay_Client.thy ===== *)
theory Relay_Client
  imports Crypto Messages Label "HOL-Library.Multiset"
begin

text \<open>
  The daemon's connection to a relay (\<open>tp-daemon/src/transport/relay_client.rs\<close>): registration and
  authentication, the key exchange with frontends, sealed publishing, dispatch of sealed frames, and
  reconnection.

  \<^item> The outbound channel of a socket is a bounded queue that a writer task drains. Calls of the owner's
    callbacks are the \<open>client_event\<close>s a handler returns, in order.
  \<^item> \<open>connect\<close> is split where other tasks can run in between: \<open>connect_start\<close>, the handshake outside,
    \<open>connect_check\<close> after it, and \<open>connect_open\<close>. A connection in flight is in \<open>rc_connecting\<close>, with whether the
    check has passed. The task \<open>schedule_reconnect\<close> spawns is first in \<open>rc_scheduled\<close>, then sleeps in
    \<open>rc_sleeping\<close> with its delay and generation. Other handlers run as one step.
  \<^item> \<open>client_env\<close> is what a step meets: the clock, the cryptographic primitives, \<open>serde_json\<close>, and the random
    nonces, one for each seal of this client.
\<close>

section \<open>Reconnect policy\<close>

definition RECONNECT_BASE_MS :: u64 where "RECONNECT_BASE_MS = 1000"

definition RECONNECT_MAX_MS :: u64 where "RECONNECT_MAX_MS = 30000"

definition MAX_RECONNECT_ATTEMPT :: u32 where "MAX_RECONNECT_ATTEMPT = 5"

definition PEERLESS_RECONNECT_THRESHOLD :: u32 where "PEERLESS_RECONNECT_THRESHOLD = 3"

definition PEERLESS_RECONNECT_MS :: u64 where "PEERLESS_RECONNECT_MS = 30 * 60000"

definition PING_INTERVAL_MS :: u64 where "PING_INTERVAL_MS = 30000"

record reconnect_plan =
  delay_ms :: u64
  next_attempt :: u32

text \<open>\<open>checked_pow\<close> and \<open>checked_mul\<close> on \<open>u64\<close>.\<close>

definition checked_scale :: "nat \<Rightarrow> nat \<Rightarrow> u64 option" where
  "checked_scale attempt base = (if 2 ^ attempt < (2 ^ 64 :: nat) \<and> 2 ^ attempt * base < (2 ^ 64 :: nat)
     then Some (word_of_nat (2 ^ attempt * base)) else None)"

definition compute_reconnect_plan :: "u32 \<Rightarrow> u32 \<Rightarrow> reconnect_plan" where
  "compute_reconnect_plan attempt peerless_reconnects =
    (if peerless_reconnects \<ge> PEERLESS_RECONNECT_THRESHOLD
     then \<lparr>delay_ms = PEERLESS_RECONNECT_MS, next_attempt = attempt\<rparr>
     else
       let scaled = (case checked_scale (unat attempt) (unat RECONNECT_BASE_MS) of Some s \<Rightarrow> s | None \<Rightarrow> RECONNECT_MAX_MS)
       in \<lparr>delay_ms = min scaled RECONNECT_MAX_MS, next_attempt = min (attempt + 1) MAX_RECONNECT_ATTEMPT\<rparr>)"

definition next_peerless_reconnects :: "u32 \<Rightarrow> bool \<Rightarrow> u32" where
  "next_peerless_reconnects current had_peer = (if had_peer then 0 else current + 1)"

section \<open>State\<close>

record frontend_peer =
  fp_public_key :: "u8 list"
  fp_session_keys :: session_keys
  fp_protocol_version :: f64
  fp_pct :: "u8 list option"
  fp_pct_b64 :: "string option"

record relay_client_config =
  cf_relay_url :: string
  cf_daemon_id :: string
  cf_token :: string
  cf_registration_proof :: string
  cf_key_pair :: kx_key_pair
  cf_pairing_secret :: "u8 list"
  cf_label :: "label option"
  cf_pairing_id :: string
  cf_hostname :: string

datatype input_kind = Chat | Term

datatype client_event =
    On_input input_kind string string string
  | On_control_message json string
  | On_connected
  | On_disconnected
  | On_relay_throttled "string option"
  | On_presence bool "string list"
  | On_frontend_joined string
  | On_peer_confirmed string "u8 list" "u8 list"
  | On_push_token_sealed string string platform
  | On_push_unseal_failed string
  | On_push_token_dead string
  | On_unpair string unpair_reason
  | On_rename string label

record out_channel =
  oc_queue :: "relay_client_message list"
  oc_open :: bool

record relay_client =
  rc_config :: relay_client_config
  rc_peers :: "(string, frontend_peer) hash_map"
  rc_kx_key :: "u8 list option"
  rc_ws_tx :: "out_channel option"
  rc_authenticated :: bool
  rc_disposed :: bool
  rc_reconnect_attempt :: u32
  rc_peerless_reconnects :: u32
  rc_had_peer_this_connection :: bool
  rc_resume_token :: "string option"
  rc_resume_expires_at :: f64
  rc_resuming :: bool
  rc_subscribed_sessions :: "string list"
  rc_generation :: nat
  rc_readers :: "nat list"
  rc_ping_spawned :: nat
  rc_ping_passed :: nat
  rc_pings :: "nat list"
  rc_connecting :: "(nat \<times> bool) list"
  rc_scheduled :: nat
  rc_sleeping :: "(u64 \<times> nat) list"
  rc_seals :: nat

record client_env =
  ce_now :: f64
  ce_crypto :: crypto_api
  ce_to_string :: "json \<Rightarrow> string"
  ce_from_slice :: "u8 list \<Rightarrow> json option"
  ce_nonce :: "nat \<Rightarrow> u8 list"

definition client_new :: "relay_client_config \<Rightarrow> relay_client" where
  "client_new config = \<lparr>rc_config = config, rc_peers = hm_empty, rc_kx_key = None, rc_ws_tx = None, rc_authenticated = False,
     rc_disposed = False, rc_reconnect_attempt = 0, rc_peerless_reconnects = 0, rc_had_peer_this_connection = False,
     rc_resume_token = None, rc_resume_expires_at = F64 0 0, rc_resuming = False, rc_subscribed_sessions = [],
     rc_generation = 0, rc_readers = [], rc_ping_spawned = 0, rc_ping_passed = 0, rc_pings = [], rc_connecting = [], rc_scheduled = 0, rc_sleeping = [], rc_seals = 0\<rparr>"

section \<open>Sending\<close>

definition OUT_CAPACITY :: nat where "OUT_CAPACITY = 256"

definition rc_send :: "relay_client_message \<Rightarrow> relay_client \<Rightarrow> bool \<times> relay_client" where
  "rc_send msg c =
    (case rc_ws_tx c of
       None \<Rightarrow> (False, c)
     | Some ch \<Rightarrow>
         if oc_open ch \<and> length (oc_queue ch) < OUT_CAPACITY
         then (True, c\<lparr>rc_ws_tx := Some (ch\<lparr>oc_queue := oc_queue ch @ [msg]\<rparr>)\<rparr>)
         else (False, c))"

text \<open>One turn of the writer task: the oldest message goes to the socket, or the socket fails.\<close>

definition writer_step :: "bool \<Rightarrow> relay_client \<Rightarrow> relay_client_message option \<times> relay_client" where
  "writer_step sent c =
    (case rc_ws_tx c of
       None \<Rightarrow> (None, c)
     | Some ch \<Rightarrow>
         (case oc_queue ch of
            [] \<Rightarrow> (None, c)
          | m # ms \<Rightarrow> if \<not> oc_open ch then (None, c)
              else if sent then (Some m, c\<lparr>rc_ws_tx := Some (ch\<lparr>oc_queue := ms\<rparr>)\<rparr>)
              else (None, c\<lparr>rc_ws_tx := Some (ch\<lparr>oc_open := False\<rparr>)\<rparr>)))"

definition seal_random_nonce :: "client_env \<Rightarrow> u8 list \<Rightarrow> u8 list \<Rightarrow> relay_client \<Rightarrow> (tp_error + string) \<times> relay_client" where
  "seal_random_nonce env plaintext key c =
    (seal_blob (ce_crypto env) plaintext key (ce_nonce env (rc_seals c)), c\<lparr>rc_seals := rc_seals c + 1\<rparr>)"

definition WS_PROTOCOL_VERSION :: u64 where "WS_PROTOCOL_VERSION = 3"

definition kx_payload :: "client_env \<Rightarrow> relay_client \<Rightarrow> json" where
  "kx_payload env c =
    JObject [(''pk'', JString (b64_std_enc (ce_crypto env) (public_key (cf_key_pair (rc_config c))))), (''role'', JString ''daemon''),
      (''v'', JNumber (PosInt WS_PROTOCOL_VERSION)),
      (''label'', case cf_label (rc_config c) of Some l \<Rightarrow> label_to_json l | None \<Rightarrow> JObject [(''set'', JBool False)])]"

definition broadcast_daemon_public_key :: "client_env \<Rightarrow> relay_client \<Rightarrow> relay_client" where
  "broadcast_daemon_public_key env c =
    (case rc_kx_key c of
       None \<Rightarrow> c
     | Some kx_key \<Rightarrow>
         (case seal_random_nonce env (as_bytes (ce_to_string env (kx_payload env c))) kx_key c of
            (Inl _, c) \<Rightarrow> c
          | (Inr ct, c) \<Rightarrow> snd (rc_send (KeyExchange ct Daemon) c)))"

definition send_encrypted :: "client_env \<Rightarrow> string \<Rightarrow> string \<Rightarrow> u64 \<Rightarrow> json \<Rightarrow> relay_client \<Rightarrow> bool \<times> relay_client" where
  "send_encrypted env frontend_id sid seq payload c =
    (case hm_get (rc_peers c) frontend_id of
       None \<Rightarrow> (False, c)
     | Some p \<Rightarrow>
         (case seal_random_nonce env (as_bytes (ce_to_string env payload)) (sk_tx (fp_session_keys p)) c of
            (Inl _, c) \<Rightarrow> (False, c)
          | (Inr ct, c) \<Rightarrow> rc_send (Publish sid ct seq) c))"

definition broadcast_encrypted :: "client_env \<Rightarrow> string \<Rightarrow> u64 \<Rightarrow> json \<Rightarrow> relay_client \<Rightarrow> relay_client" where
  "broadcast_encrypted env sid seq payload c =
    (if \<not> rc_authenticated c \<or> rc_peers c = [] then c
     else fold (\<lambda>fid c. snd (send_encrypted env fid sid seq payload c)) (hm_keys (rc_peers c)) c)"

definition publish_record :: "client_env \<Rightarrow> string \<Rightarrow> u64 \<Rightarrow> json \<Rightarrow> relay_client \<Rightarrow> relay_client" where
  "publish_record env sid seq rec c = broadcast_encrypted env sid seq rec c"

definition publish_state :: "client_env \<Rightarrow> string \<Rightarrow> json \<Rightarrow> relay_client \<Rightarrow> relay_client" where
  "publish_state env sid msg c = broadcast_encrypted env sid 0 msg c"

definition publish_removed :: "client_env \<Rightarrow> string \<Rightarrow> json \<Rightarrow> relay_client \<Rightarrow> relay_client" where
  "publish_removed env sid msg c = broadcast_encrypted env sid 0 msg c"

definition publish_to_peer :: "client_env \<Rightarrow> string \<Rightarrow> string \<Rightarrow> json \<Rightarrow> relay_client \<Rightarrow> relay_client" where
  "publish_to_peer env frontend_id sid msg c =
    (if \<not> rc_authenticated c then c
     else if \<not> hm_contains (rc_peers c) frontend_id then c
     else snd (send_encrypted env frontend_id sid 0 msg c))"

definition CONTROL_CHANNEL :: string where "CONTROL_CHANNEL = ''__control__''"

definition send_control :: "client_env \<Rightarrow> string \<Rightarrow> json \<Rightarrow> relay_client \<Rightarrow> bool \<times> relay_client" where
  "send_control env frontend_id msg c =
    (if \<not> rc_authenticated c then (False, c)
     else if \<not> hm_contains (rc_peers c) frontend_id then (False, c)
     else send_encrypted env frontend_id CONTROL_CHANNEL 0 msg c)"

definition send_unpair_notice :: "client_env \<Rightarrow> string \<Rightarrow> unpair_reason \<Rightarrow> relay_client \<Rightarrow> bool \<times> relay_client" where
  "send_unpair_notice env frontend_id reason c =
    send_control env frontend_id (control_to_json (Unpair (cf_daemon_id (rc_config c)) frontend_id reason (ce_now env))) c"

definition send_rename_notice :: "client_env \<Rightarrow> string \<Rightarrow> label \<Rightarrow> relay_client \<Rightarrow> bool \<times> relay_client" where
  "send_rename_notice env frontend_id label c =
    send_control env frontend_id (control_to_json (Rename (cf_daemon_id (rc_config c)) frontend_id label (ce_now env))) c"

definition send_push ::
  "string \<Rightarrow> string \<Rightarrow> string \<Rightarrow> string \<Rightarrow> interruption_level option \<Rightarrow> (string \<times> string option \<times> string) option
    \<Rightarrow> relay_client \<Rightarrow> bool \<times> relay_client" where
  "send_push frontend_id sealed title body level data c =
    (if \<not> rc_authenticated c then (False, c)
     else rc_send (Push frontend_id sealed title body level
       (map_option (\<lambda>(sid, daemon_id, event). \<lparr>pd_sid = sid,
          pd_daemon_id = (case daemon_id of Some d \<Rightarrow> d | None \<Rightarrow> cf_daemon_id (rc_config c)), pd_event = event\<rparr>) data)) c)"

definition rc_subscribe :: "string \<Rightarrow> relay_client \<Rightarrow> relay_client" where
  "rc_subscribe sid c =
    (let c = c\<lparr>rc_subscribed_sessions := List.insert sid (rc_subscribed_sessions c)\<rparr>
     in if rc_authenticated c then snd (rc_send (Subscribe sid None) c) else c)"

definition rc_unsubscribe :: "string \<Rightarrow> relay_client \<Rightarrow> relay_client" where
  "rc_unsubscribe sid c =
    (let c = c\<lparr>rc_subscribed_sessions := removeAll sid (rc_subscribed_sessions c)\<rparr>
     in if rc_authenticated c then snd (rc_send (Unsubscribe sid) c) else c)"

section \<open>Connecting\<close>

definition cleanup :: "relay_client \<Rightarrow> relay_client" where
  "cleanup c = c\<lparr>rc_had_peer_this_connection := False, rc_ws_tx := None, rc_generation := rc_generation c + 1, rc_readers := []\<rparr>"

definition close_socket :: "relay_client \<Rightarrow> relay_client" where
  "close_socket c = c\<lparr>rc_ws_tx := None\<rparr>"

definition dispose :: "relay_client \<Rightarrow> relay_client" where
  "dispose c = cleanup (c\<lparr>rc_disposed := True\<rparr>)"

definition schedule_reconnect :: "relay_client \<Rightarrow> relay_client" where
  "schedule_reconnect c = c\<lparr>rc_scheduled := rc_scheduled c + 1\<rparr>"

definition reconnect_task_start :: "relay_client \<Rightarrow> relay_client" where
  "reconnect_task_start c =
    (let c = c\<lparr>rc_scheduled := rc_scheduled c - 1\<rparr>
     in if rc_disposed c then c
        else
          let peerless = next_peerless_reconnects (rc_peerless_reconnects c) (rc_had_peer_this_connection c);
              plan = compute_reconnect_plan (rc_reconnect_attempt c) peerless
          in c\<lparr>rc_peerless_reconnects := peerless, rc_reconnect_attempt := next_attempt plan,
                rc_sleeping := rc_sleeping c @ [(delay_ms plan, rc_generation c)]\<rparr>)"

definition connect_start :: "client_env \<Rightarrow> relay_client \<Rightarrow> relay_client" where
  "connect_start env c =
    (if rc_disposed c then c
     else
       let c = (if rc_kx_key c = None then c\<lparr>rc_kx_key := Some (derive_kx_key (ce_crypto env) (cf_pairing_secret (rc_config c)))\<rparr> else c);
           c = cleanup c;
           c = c\<lparr>rc_generation := rc_generation c + 1\<rparr>
       in c\<lparr>rc_connecting := rc_connecting c @ [(rc_generation c, False)]\<rparr>)"

definition reconnect_wake :: "client_env \<Rightarrow> u64 \<times> nat \<Rightarrow> relay_client \<Rightarrow> relay_client" where
  "reconnect_wake env s c =
    (let c = c\<lparr>rc_sleeping := remove1 s (rc_sleeping c)\<rparr>
     in if rc_disposed c \<or> rc_generation c \<noteq> snd s then c else connect_start env c)"

definition connect_failed :: "nat \<Rightarrow> relay_client \<Rightarrow> relay_client" where
  "connect_failed gen c = schedule_reconnect (c\<lparr>rc_connecting := remove1 (gen, False) (rc_connecting c)\<rparr>)"

definition connect_check :: "nat \<Rightarrow> relay_client \<Rightarrow> relay_client" where
  "connect_check gen c =
    (let rest = remove1 (gen, False) (rc_connecting c)
     in if rc_disposed c \<or> rc_generation c \<noteq> gen then c\<lparr>rc_connecting := rest\<rparr>
        else c\<lparr>rc_connecting := rest @ [(gen, True)]\<rparr>)"

definition on_open :: "client_env \<Rightarrow> relay_client \<Rightarrow> relay_client" where
  "on_open env c =
    (case (if f64_lt (ce_now env) (rc_resume_expires_at c) then rc_resume_token c else None) of
       Some token \<Rightarrow> snd (rc_send (AuthResume token (F64 2 0)) (c\<lparr>rc_resuming := True\<rparr>))
     | None \<Rightarrow> snd (rc_send (Register (cf_daemon_id (rc_config c)) (cf_registration_proof (rc_config c))
                              (cf_token (rc_config c)) (F64 2 0)) c))"

definition connect_open :: "client_env \<Rightarrow> nat \<Rightarrow> relay_client \<Rightarrow> relay_client" where
  "connect_open env gen c =
    on_open env (c\<lparr>rc_connecting := remove1 (gen, True) (rc_connecting c), rc_ws_tx := Some \<lparr>oc_queue = [], oc_open = True\<rparr>,
      rc_readers := rc_readers c @ [gen], rc_reconnect_attempt := 0\<rparr>)"

definition rc_on_close :: "nat \<Rightarrow> relay_client \<Rightarrow> client_event list \<times> relay_client" where
  "rc_on_close gen c =
    (if rc_generation c \<noteq> gen then ([], c)
     else ([On_disconnected], schedule_reconnect (c\<lparr>rc_authenticated := False\<rparr>)))"

section \<open>Handlers\<close>

definition start_ping :: "relay_client \<Rightarrow> relay_client" where
  "start_ping c = c\<lparr>rc_ping_spawned := rc_ping_spawned c + 1\<rparr>"

text \<open>The spawned task takes the lock twice before its first tick: once to see whether the client is
  disposed, once to read the generation it will serve. Other operations may run in between.\<close>

definition ping_check :: "relay_client \<Rightarrow> relay_client" where
  "ping_check c =
    (let c' = c\<lparr>rc_ping_spawned := rc_ping_spawned c - 1\<rparr>
     in if rc_disposed c then c' else c'\<lparr>rc_ping_passed := rc_ping_passed c + 1\<rparr>)"

definition ping_begin :: "relay_client \<Rightarrow> relay_client" where
  "ping_begin c = c\<lparr>rc_ping_passed := rc_ping_passed c - 1, rc_pings := rc_pings c @ [rc_generation c]\<rparr>"

definition ping_tick :: "client_env \<Rightarrow> nat \<Rightarrow> relay_client \<Rightarrow> relay_client" where
  "ping_tick env gen c =
    (if rc_disposed c \<or> rc_generation c \<noteq> gen then c\<lparr>rc_pings := remove1 gen (rc_pings c)\<rparr>
     else snd (rc_send (Ping (Some (ce_now env))) c))"

definition client_handle_auth_ok :: "client_env \<Rightarrow> auth_ok \<Rightarrow> relay_client \<Rightarrow> client_event list \<times> relay_client" where
  "client_handle_auth_ok env ok c =
    (let c = c\<lparr>rc_authenticated := True\<rparr>;
         c = (case (ao_resume_token ok, ao_resume_expires_at ok) of
                (Some token, Some expires) \<Rightarrow> c\<lparr>rc_resume_token := Some token, rc_resume_expires_at := expires\<rparr>
              | _ \<Rightarrow> c);
         c = c\<lparr>rc_resuming := False\<rparr>;
         resumed = (case ao_resumed ok of Some b \<Rightarrow> b | None \<Rightarrow> False);
         c = fold (\<lambda>sid c. snd (rc_send (Subscribe sid None) c)) (rc_subscribed_sessions c) c;
         c = (if resumed \<and> rc_peers c \<noteq> [] then c else broadcast_daemon_public_key env c)
     in ([On_connected], start_ping c))"

definition handle_relay_err :: "relay_err \<Rightarrow> client_event list" where
  "handle_relay_err e =
    (if re_e e = ''PUSH_UNSEAL_FAILED'' then (case re_frontend_id e of Some fid \<Rightarrow> [On_push_unseal_failed fid] | None \<Rightarrow> [])
     else if re_e e = ''PUSH_TOKEN_DEAD'' then (case re_frontend_id e of Some fid \<Rightarrow> [On_push_token_dead fid] | None \<Rightarrow> [])
     else if re_e e = ''RATE_LIMITED'' then [On_relay_throttled (re_m e)]
     else [])"

definition hex_val :: "char \<Rightarrow> nat option" where
  "hex_val ch =
    (let n = of_char ch :: nat
     in if 48 \<le> n \<and> n \<le> 57 then Some (n - 48)
        else if 97 \<le> n \<and> n \<le> 102 then Some (n - 87)
        else if 65 \<le> n \<and> n \<le> 70 then Some (n - 55) else None)"

fun hex_bytes :: "string \<Rightarrow> u8 list option" where
  "hex_bytes [] = Some []"
| "hex_bytes [ch] = None"
| "hex_bytes (hi # lo # rest) =
    (case (hex_val hi, hex_val lo, hex_bytes rest) of
       (Some h, Some l, Some bs) \<Rightarrow> Some (word_of_nat (h * 16 + l) # bs)
     | _ \<Rightarrow> None)"

definition client_parse_uuid_16 :: "string \<Rightarrow> u8 list option" where
  "client_parse_uuid_16 s =
    (let hex_only = filter (\<lambda>ch. ch \<noteq> CHR ''-'') s
     in if length hex_only \<noteq> 32 then None else hex_bytes hex_only)"

definition json_str :: "json \<Rightarrow> string \<Rightarrow> string option" where
  "json_str v key = Option.bind (json_get v key) as_str"

text \<open>The checks of a decrypted key exchange payload: the frontend's id and its 32-byte public key.\<close>

definition kx_identity :: "crypto_api \<Rightarrow> json \<Rightarrow> (string \<times> u8 list) option" where
  "kx_identity api data =
    (case (json_str data ''pk'', json_str data ''frontendId'') of
       (Some pk_b64, Some frontend_id) \<Rightarrow>
         if pk_b64 = [] \<or> frontend_id = [] then None
         else (case b64_std_dec api pk_b64 of
                 Inl _ \<Rightarrow> None
               | Inr pk \<Rightarrow> if length pk = 32 then Some (frontend_id, pk) else None)
     | _ \<Rightarrow> None)"

definition kx_tag :: "crypto_api \<Rightarrow> relay_client_config \<Rightarrow> u8 list \<Rightarrow> session_keys \<Rightarrow> u8 list option" where
  "kx_tag api cfg frontend_pk keys =
    (if cf_pairing_id cfg = [] then None
     else map_option (\<lambda>pairing_id. derive_pairing_confirmation_tag api pairing_id (cf_daemon_id cfg) (cf_hostname cfg)
            (public_key (cf_key_pair cfg)) frontend_pk (sk_tx keys) (sk_rx keys)) (client_parse_uuid_16 (cf_pairing_id cfg)))"

definition kx_peer :: "crypto_api \<Rightarrow> relay_client_config \<Rightarrow> json \<Rightarrow> u8 list \<Rightarrow> frontend_peer" where
  "kx_peer api cfg data frontend_pk =
    (let keys = kx_server_session_keys api (public_key (cf_key_pair cfg)) (secret_key (cf_key_pair cfg)) frontend_pk;
         pct = kx_tag api cfg frontend_pk keys
     in \<lparr>fp_public_key = frontend_pk, fp_session_keys = keys,
         fp_protocol_version = (case Option.bind (json_get data ''v'') as_f64 of Some v \<Rightarrow> v | None \<Rightarrow> F64 1 0),
         fp_pct = pct, fp_pct_b64 = map_option (b64_std_enc api) pct\<rparr>)"

definition client_handle_kx_frame :: "client_env \<Rightarrow> kx_frame \<Rightarrow> relay_client \<Rightarrow> client_event list \<times> relay_client" where
  "client_handle_kx_frame env fr c =
    (if kf_from fr \<noteq> Frontend then ([], c)
     else case rc_kx_key c of
         None \<Rightarrow> ([], c)
       | Some kx_key \<Rightarrow>
           (case open_blob (ce_crypto env) (kf_ct fr) kx_key of
              Inl _ \<Rightarrow> ([], c)
            | Inr plaintext \<Rightarrow>
                (case ce_from_slice env plaintext of
                   None \<Rightarrow> ([], c)
                 | Some data \<Rightarrow>
                     (case kx_identity (ce_crypto env) data of
                        None \<Rightarrow> ([], c)
                      | Some (frontend_id, pk) \<Rightarrow>
                          let peer = kx_peer (ce_crypto env) (rc_config c) data pk;
                              c = c\<lparr>rc_peers := hm_insert frontend_id peer (rc_peers c), rc_peerless_reconnects := 0,
                                     rc_had_peer_this_connection := True\<rparr>;
                              c = broadcast_daemon_public_key env c
                          in ((case fp_pct peer of Some pct \<Rightarrow> [On_peer_confirmed frontend_id pct pk] | None \<Rightarrow> [])
                              @ [On_frontend_joined frontend_id], c)))))"

text \<open>A decrypted message as a callback; a malformed one is dropped without an error.\<close>

definition dispatch_plain :: "string \<Rightarrow> string \<Rightarrow> json \<Rightarrow> client_event list" where
  "dispatch_plain sid frontend_id msg =
    (let t = (case json_str msg ''t'' of Some s \<Rightarrow> s | None \<Rightarrow> [])
     in if sid = CONTROL_CHANNEL \<and> (t = ''control.unpair'' \<or> t = ''control.rename'') then
          (case parse_control_message msg of
             None \<Rightarrow> []
           | Some (Unpair _ fid reason _) \<Rightarrow> [On_unpair fid reason]
           | Some (Rename _ fid label _) \<Rightarrow> [On_rename fid label])
        else if t = ''in.chat'' \<or> t = ''in.term'' then
          (case (json_str msg ''sid'', json_str msg ''d'') of
             (Some s, Some d) \<Rightarrow> [On_input (if t = ''in.chat'' then Chat else Term) s d frontend_id]
           | _ \<Rightarrow> [])
        else [On_control_message msg frontend_id])"

definition decrypt_and_dispatch :: "client_env \<Rightarrow> frame \<Rightarrow> string \<Rightarrow> u8 list \<Rightarrow> tp_error + client_event list" where
  "decrypt_and_dispatch env fr frontend_id rx =
    (case open_blob (ce_crypto env) (fr_ct fr) rx of
       Inl e \<Rightarrow> Inl e
     | Inr plaintext \<Rightarrow>
         (case ce_from_slice env plaintext of
            None \<Rightarrow> Inl (Codec_error ''invalid JSON'')
          | Some msg \<Rightarrow> Inr (dispatch_plain (fr_sid fr) frontend_id msg)))"

fun try_peers :: "client_env \<Rightarrow> frame \<Rightarrow> (string \<times> frontend_peer) list \<Rightarrow> client_event list" where
  "try_peers env fr [] = []"
| "try_peers env fr ((frontend_id, p) # ps) =
    (case decrypt_and_dispatch env fr frontend_id (sk_rx (fp_session_keys p)) of
       Inr evs \<Rightarrow> evs
     | Inl _ \<Rightarrow> try_peers env fr ps)"

definition handle_frame :: "client_env \<Rightarrow> frame \<Rightarrow> relay_client \<Rightarrow> client_event list" where
  "handle_frame env fr c =
    (if fr_from fr \<noteq> Frontend then []
     else case Option.bind (fr_frontend_id fr) (\<lambda>fid. map_option (\<lambda>p. (fid, p)) (hm_get (rc_peers c) fid)) of
         Some (fid, p) \<Rightarrow>
           (case decrypt_and_dispatch env fr fid (sk_rx (fp_session_keys p)) of Inr evs \<Rightarrow> evs | Inl _ \<Rightarrow> [])
       | None \<Rightarrow> try_peers env fr (rc_peers c))"

definition handle_message :: "client_env \<Rightarrow> relay_server_message \<Rightarrow> relay_client \<Rightarrow> client_event list \<times> relay_client" where
  "handle_message env msg c =
    (case msg of
       SRegisterOk _ \<Rightarrow> ([], snd (rc_send (Auth Daemon (cf_daemon_id (rc_config c)) (cf_token (rc_config c)) (F64 2 0) None) c))
     | SRegisterErr _ \<Rightarrow> ([], close_socket c)
     | SAuthOk ok \<Rightarrow> client_handle_auth_ok env ok c
     | SAuthErr _ \<Rightarrow> ([], close_socket (if rc_resuming c
          then c\<lparr>rc_resuming := False, rc_resume_token := None, rc_resume_expires_at := F64 0 0\<rparr> else c))
     | SKeyExchangeFrame fr \<Rightarrow> client_handle_kx_frame env fr c
     | SFrame fr \<Rightarrow> (handle_frame env fr c, c)
     | SPresence p \<Rightarrow> ([On_presence (pr_online p) (pr_sessions p)], c)
     | SPong _ \<Rightarrow> ([], c)
     | SNotification _ \<Rightarrow> ([], c)
     | SErr e \<Rightarrow> (handle_relay_err e, c)
     | SPushToken pt \<Rightarrow> ([On_push_token_sealed (pt_frontend_id pt) (pt_sealed pt) (pt_platform pt)], c))"

text \<open>
  One message on the socket of generation \<open>gen\<close>: its text as \<open>serde_json\<close> parses it, \<open>Inl\<close> for the end of
  the stream. The stale-generation guard comes first; the reader ends when it fails or the stream ends.
\<close>

definition read_step :: "client_env \<Rightarrow> nat \<Rightarrow> unit + json option \<Rightarrow> relay_client \<Rightarrow> client_event list \<times> relay_client" where
  "read_step env gen item c =
    (if rc_generation c \<noteq> gen then ([], c\<lparr>rc_readers := remove1 gen (rc_readers c)\<rparr>)
     else case item of
         Inl _ \<Rightarrow> rc_on_close gen (c\<lparr>rc_readers := remove1 gen (rc_readers c)\<rparr>)
       | Inr text \<Rightarrow>
           (case Option.bind text parse_relay_server_message of
              None \<Rightarrow> ([], c)
            | Some msg \<Rightarrow> handle_message env msg c))"

section \<open>Accessors\<close>

definition is_connected :: "relay_client \<Rightarrow> bool" where
  "is_connected c = rc_authenticated c"

definition get_peer_count :: "relay_client \<Rightarrow> nat" where
  "get_peer_count c = length (rc_peers c)"

definition is_throttled :: "relay_client \<Rightarrow> bool" where
  "is_throttled c \<longleftrightarrow> rc_peerless_reconnects c \<ge> PEERLESS_RECONNECT_THRESHOLD"

definition list_peer_frontend_ids :: "relay_client \<Rightarrow> string list" where
  "list_peer_frontend_ids c = hm_keys (rc_peers c)"

definition peer_pct :: "string \<Rightarrow> relay_client \<Rightarrow> u8 list option" where
  "peer_pct frontend_id c = Option.bind (hm_get (rc_peers c) frontend_id) fp_pct"

definition peer_pct_b64 :: "string \<Rightarrow> relay_client \<Rightarrow> string option" where
  "peer_pct_b64 frontend_id c = Option.bind (hm_get (rc_peers c) frontend_id) fp_pct_b64"

section \<open>The client as a transition system\<close>

inductive client_step :: "crypto_api \<Rightarrow> relay_client \<Rightarrow> relay_client \<Rightarrow> bool" for api where
  connects: "ce_crypto env = api \<Longrightarrow> client_step api c (connect_start env c)"
| fails: "(gen, False) \<in> set (rc_connecting c) \<Longrightarrow> client_step api c (connect_failed gen c)"
| checks: "(gen, False) \<in> set (rc_connecting c) \<Longrightarrow> client_step api c (connect_check gen c)"
| opens: "ce_crypto env = api \<Longrightarrow> (gen, True) \<in> set (rc_connecting c) \<Longrightarrow> client_step api c (connect_open env gen c)"
| plans: "0 < rc_scheduled c \<Longrightarrow> client_step api c (reconnect_task_start c)"
| wakes: "ce_crypto env = api \<Longrightarrow> s \<in> set (rc_sleeping c) \<Longrightarrow> client_step api c (reconnect_wake env s c)"
| reads: "ce_crypto env = api \<Longrightarrow> gen \<in> set (rc_readers c) \<Longrightarrow> client_step api c (snd (read_step env gen item c))"
| writes: "client_step api c (snd (writer_step sent c))"
| ping_checks: "0 < rc_ping_spawned c \<Longrightarrow> client_step api c (ping_check c)"
| ping_begins: "0 < rc_ping_passed c \<Longrightarrow> client_step api c (ping_begin c)"
| pings: "ce_crypto env = api \<Longrightarrow> gen \<in> set (rc_pings c) \<Longrightarrow> client_step api c (ping_tick env gen c)"
| broadcasts: "ce_crypto env = api \<Longrightarrow> client_step api c (broadcast_encrypted env sid seq payload c)"
| tells: "ce_crypto env = api \<Longrightarrow> client_step api c (publish_to_peer env fid sid payload c)"
| controls: "ce_crypto env = api \<Longrightarrow> client_step api c (snd (send_control env fid payload c))"
| pushes: "client_step api c (snd (send_push fid sealed title body level data c))"
| subscribes: "client_step api c (rc_subscribe sid c)"
| unsubscribes: "client_step api c (rc_unsubscribe sid c)"
| disposes: "client_step api c (dispose c)"

text \<open>What a send may change: the outbound queue, within its capacity, and the count of seals.\<close>

fun chan_ok :: "out_channel option \<Rightarrow> bool" where
  "chan_ok None = True"
| "chan_ok (Some ch) = (length (oc_queue ch) \<le> OUT_CAPACITY)"

definition sends_only :: "relay_client \<Rightarrow> relay_client \<Rightarrow> bool" where
  "sends_only c c' \<longleftrightarrow> (\<exists>tx n. c' = c\<lparr>rc_ws_tx := tx, rc_seals := n\<rparr> \<and> (chan_ok (rc_ws_tx c) \<longrightarrow> chan_ok tx)
     \<and> (tx = None \<longleftrightarrow> rc_ws_tx c = None))"

lemma sends_only_refl [simp, intro]: "sends_only c c"
  unfolding sends_only_def by (intro exI [of _ "rc_ws_tx c"] exI [of _ "rc_seals c"]) simp

lemma sends_only_trans [trans]: "sends_only a b \<Longrightarrow> sends_only b c \<Longrightarrow> sends_only a c"
  unfolding sends_only_def
proof (elim exE conjE)
  fix tx n tx' n'
  assume "b = a\<lparr>rc_ws_tx := tx, rc_seals := n\<rparr>" "c = b\<lparr>rc_ws_tx := tx', rc_seals := n'\<rparr>"
    "chan_ok (rc_ws_tx a) \<longrightarrow> chan_ok tx" "chan_ok (rc_ws_tx b) \<longrightarrow> chan_ok tx'"
    "(tx = None) = (rc_ws_tx a = None)" "(tx' = None) = (rc_ws_tx b = None)"
  then show "\<exists>tx n. c = a\<lparr>rc_ws_tx := tx, rc_seals := n\<rparr> \<and> (chan_ok (rc_ws_tx a) \<longrightarrow> chan_ok tx) \<and> (tx = None \<longleftrightarrow> rc_ws_tx a = None)"
    by (intro exI [of _ tx'] exI [of _ n']) simp
qed

lemma sends_only_seal: "sends_only c (c\<lparr>rc_seals := n\<rparr>)"
  unfolding sends_only_def by (intro exI [of _ "rc_ws_tx c"] exI [of _ n]) simp

lemma sends_only_send: "sends_only c (snd (rc_send msg c))"
proof (cases "rc_ws_tx c")
  case (Some ch)
  have "sends_only c (c\<lparr>rc_ws_tx := Some (ch\<lparr>oc_queue := oc_queue ch @ [msg]\<rparr>)\<rparr>)" if "length (oc_queue ch) < OUT_CAPACITY"
    unfolding sends_only_def
    by (rule exI [of _ "Some (ch\<lparr>oc_queue := oc_queue ch @ [msg]\<rparr>)"], rule exI [of _ "rc_seals c"]) (use Some that in simp)
  then show ?thesis using Some by (simp add: rc_send_def)
qed (simp add: rc_send_def)

lemma sends_only_writer: "sends_only c (snd (writer_step sent c))"
proof (cases "rc_ws_tx c")
  case (Some ch)
  have "sends_only c (c\<lparr>rc_ws_tx := Some ch'\<rparr>)" if "length (oc_queue ch') \<le> length (oc_queue ch)" for ch'
    unfolding sends_only_def
    by (rule exI [of _ "Some ch'"], rule exI [of _ "rc_seals c"]) (use Some that in simp)
  then show ?thesis using Some by (simp add: writer_step_def split: list.split)
qed (simp add: writer_step_def)

lemma sends_only_fold: "(\<And>x c. sends_only c (f x c)) \<Longrightarrow> sends_only c (fold f xs c)"
  by (induction xs arbitrary: c) (auto intro: sends_only_trans)

lemma sends_only_send_seal: "sends_only c (snd (rc_send msg (c\<lparr>rc_seals := n\<rparr>)))"
  using sends_only_trans [OF sends_only_seal sends_only_send] .

lemma sends_only_encrypted: "sends_only c (snd (send_encrypted env fid sid seq payload c))"
  by (auto simp: send_encrypted_def seal_random_nonce_def sends_only_seal sends_only_send_seal split: option.split sum.split)

lemma sends_only_ops:
  "sends_only c (broadcast_daemon_public_key env c)"
  "sends_only c (broadcast_encrypted env sid seq payload c)"
  "sends_only c (publish_to_peer env fid sid payload c)"
  "sends_only c (snd (send_control env fid payload c))"
  "sends_only c (snd (send_push fid sealed title body level data c))"
proof -
  show "sends_only c (broadcast_daemon_public_key env c)"
    by (auto simp: broadcast_daemon_public_key_def seal_random_nonce_def sends_only_seal sends_only_send_seal
        split: option.split sum.split)
  show "sends_only c (broadcast_encrypted env sid seq payload c)"
    by (auto simp: broadcast_encrypted_def intro: sends_only_fold sends_only_encrypted)
qed (auto simp: publish_to_peer_def send_control_def send_push_def sends_only_encrypted sends_only_send)

section \<open>Invariant\<close>

definition peer_ok :: "crypto_api \<Rightarrow> relay_client_config \<Rightarrow> frontend_peer \<Rightarrow> bool" where
  "peer_ok api cfg p \<longleftrightarrow> length (fp_public_key p) = 32 \<and>
     fp_session_keys p = kx_server_session_keys api (public_key (cf_key_pair cfg)) (secret_key (cf_key_pair cfg)) (fp_public_key p) \<and>
     fp_pct p = kx_tag api cfg (fp_public_key p) (fp_session_keys p) \<and> fp_pct_b64 p = map_option (b64_std_enc api) (fp_pct p)"

definition delay_ok :: "u64 \<Rightarrow> bool" where
  "delay_ok d \<longleftrightarrow> RECONNECT_BASE_MS \<le> d \<and> d \<le> RECONNECT_MAX_MS \<or> d = PEERLESS_RECONNECT_MS"

text \<open>
  The connections, open or being opened, by their generation. Only one of the current generation may
  still act, and there is at most one.
\<close>

definition connections :: "relay_client \<Rightarrow> nat multiset" where
  "connections c = mset (rc_readers c) + mset (map fst (rc_connecting c))"

definition live_ok :: "nat \<Rightarrow> nat multiset \<Rightarrow> bool" where
  "live_ok gen M \<longleftrightarrow> (\<forall>g \<in># M. g \<le> gen) \<and> count M gen \<le> 1"

definition keys_ok :: "crypto_api \<Rightarrow> relay_client \<Rightarrow> bool" where
  "keys_ok api c \<longleftrightarrow> hm_ok (rc_peers c) \<and>
     (\<forall>fid p. hm_get (rc_peers c) fid = Some p \<longrightarrow> fid \<noteq> [] \<and> peer_ok api (rc_config c) p) \<and>
     rc_kx_key c \<in> {None, Some (derive_kx_key api (cf_pairing_secret (rc_config c)))}"

definition retry_ok :: "relay_client \<Rightarrow> bool" where
  "retry_ok c \<longleftrightarrow> (rc_had_peer_this_connection c \<longrightarrow> rc_peerless_reconnects c = 0) \<and>
     rc_reconnect_attempt c \<le> MAX_RECONNECT_ATTEMPT \<and> (\<forall>s \<in> set (rc_sleeping c). delay_ok (fst s))"

definition client_inv :: "crypto_api \<Rightarrow> relay_client \<Rightarrow> bool" where
  "client_inv api c \<longleftrightarrow> keys_ok api c \<and> retry_ok c \<and> live_ok (rc_generation c) (connections c) \<and> chan_ok (rc_ws_tx c) \<and>
     distinct (rc_subscribed_sessions c)"

lemmas client_inv_defs = client_inv_def keys_ok_def retry_ok_def connections_def

lemma client_inv_sends: "client_inv api c \<Longrightarrow> sends_only c c' \<Longrightarrow> client_inv api c'"
  unfolding sends_only_def client_inv_defs by (elim exE conjE) simp

lemma client_inv_new: "client_inv api (client_new cfg)"
  by (simp add: client_inv_defs client_new_def live_ok_def)

lemma live_ok_mono: "live_ok gen M \<Longrightarrow> N \<subseteq># M \<Longrightarrow> live_ok gen N"
  unfolding live_ok_def by (meson le_trans mset_subset_eqD mset_subset_eq_count)

lemma live_ok_Suc: "live_ok gen M \<Longrightarrow> N \<subseteq># M \<Longrightarrow> live_ok (Suc gen) N \<and> count N (Suc gen) = 0"
  unfolding live_ok_def by (metis Suc_n_not_le_n count_inI le_SucI le_numeral_extra(3) mset_subset_eqD zero_le_one)

lemma live_ok_add: "live_ok gen M \<Longrightarrow> count M gen = 0 \<Longrightarrow> live_ok gen (add_mset gen M)"
  by (auto simp: live_ok_def)

lemma client_inv_cleanup:
  assumes "client_inv api c"
  shows "client_inv api (cleanup c) \<and> count (connections (cleanup c)) (rc_generation (cleanup c)) = 0"
proof -
  have "mset (map fst (rc_connecting c)) \<subseteq># connections c" by (simp add: connections_def)
  from live_ok_Suc [OF _ this] assms show ?thesis
    unfolding client_inv_def keys_ok_def retry_ok_def cleanup_def by (auto simp: connections_def)
qed

lemma connect_start_inv: "client_inv (ce_crypto env) c \<Longrightarrow> client_inv (ce_crypto env) (connect_start env c)"
proof -
  assume inv: "client_inv (ce_crypto env) c"
  let ?k = "if rc_kx_key c = None then c\<lparr>rc_kx_key := Some (derive_kx_key (ce_crypto env) (cf_pairing_secret (rc_config c)))\<rparr> else c"
  have "client_inv (ce_crypto env) ?k" using inv by (auto simp: client_inv_defs)
  note clean = client_inv_cleanup [OF this]
  define d where "d = cleanup ?k"
  have "live_ok (Suc (rc_generation d)) (connections d) \<and> count (connections d) (Suc (rc_generation d)) = 0"
    using clean live_ok_Suc [OF _ subset_mset.order_refl] by (auto simp: d_def client_inv_def)
  then have "live_ok (Suc (rc_generation d)) (add_mset (Suc (rc_generation d)) (connections d))" by (blast intro: live_ok_add)
  with clean show ?thesis using inv
    unfolding connect_start_def Let_def d_def [symmetric] by (auto simp: client_inv_def keys_ok_def retry_ok_def connections_def)
qed

lemma mset_fst_remove1: "x \<in> set xs \<Longrightarrow> add_mset (fst x) (image_mset fst (mset (remove1 x xs))) = image_mset fst (mset xs)"
  by (metis image_mset_add_mset insert_DiffM mset_remove1 set_mset_mset)

lemma connections_less: "mset (rc_readers c) + image_mset fst (mset (remove1 x (rc_connecting c))) \<subseteq># connections c"
  by (simp add: connections_def image_mset_subseteq_mono)

lemma readers_less: "mset (remove1 g (rc_readers c)) + image_mset fst (mset (rc_connecting c)) \<subseteq># connections c"
  by (simp add: connections_def)

lemma connect_failed_inv: "client_inv api c \<Longrightarrow> client_inv api (connect_failed gen c)"
  using live_ok_mono [OF _ connections_less [of c "(gen, False)"]]
  unfolding client_inv_def keys_ok_def retry_ok_def connect_failed_def schedule_reconnect_def by (simp add: connections_def)

lemma connect_check_inv:
  assumes "client_inv api c" "(gen, False) \<in> set (rc_connecting c)"
  shows "client_inv api (connect_check gen c)"
proof -
  have "connections (c\<lparr>rc_connecting := remove1 (gen, False) (rc_connecting c) @ [(gen, True)]\<rparr>) = connections c"
    using mset_fst_remove1 [OF assms(2)] by (simp add: connections_def)
  then show ?thesis
    using assms(1) live_ok_mono [OF _ connections_less [of c "(gen, False)"]]
    unfolding client_inv_def keys_ok_def retry_ok_def connect_check_def Let_def by (auto simp: connections_def)
qed

lemma on_open_inv: "client_inv api c \<Longrightarrow> client_inv api (on_open env c)"
proof -
  assume "client_inv api c"
  then have "client_inv api c" "client_inv api (c\<lparr>rc_resuming := True\<rparr>)"
    unfolding client_inv_defs by simp_all
  then show ?thesis
    unfolding on_open_def by (auto split: option.split intro: client_inv_sends sends_only_send)
qed

lemma connect_open_inv:
  assumes "client_inv api c" "(gen, True) \<in> set (rc_connecting c)"
  shows "client_inv api (connect_open env gen c)"
proof -
  let ?c = "c\<lparr>rc_connecting := remove1 (gen, True) (rc_connecting c), rc_ws_tx := Some \<lparr>oc_queue = [], oc_open = True\<rparr>,
      rc_readers := rc_readers c @ [gen], rc_reconnect_attempt := 0\<rparr>"
  have "connections ?c = connections c" using mset_fst_remove1 [OF assms(2)] by (simp add: connections_def)
  then have "client_inv api ?c" using assms(1) unfolding client_inv_def keys_ok_def retry_ok_def by simp
  then show ?thesis unfolding connect_open_def by (rule on_open_inv)
qed

lemma plan_ok:
  assumes "attempt \<le> MAX_RECONNECT_ATTEMPT"
  shows "delay_ok (delay_ms (compute_reconnect_plan attempt peerless)) \<and>
    next_attempt (compute_reconnect_plan attempt peerless) \<le> MAX_RECONNECT_ATTEMPT"
proof -
  have "unat attempt \<in> {0, 1, 2, 3, 4, 5}"
    using assms unfolding MAX_RECONNECT_ATTEMPT_def word_le_nat_alt by simp linarith
  then have "word_of_nat (unat attempt) \<in> (word_of_nat ` {0, 1, 2, 3, 4, 5} :: u32 set)" by (rule imageI)
  then have "attempt \<in> {0, 1, 2, 3, 4, 5}" by simp
  then show ?thesis using assms
    unfolding compute_reconnect_plan_def delay_ok_def checked_scale_def Let_def MAX_RECONNECT_ATTEMPT_def RECONNECT_BASE_MS_def
      RECONNECT_MAX_MS_def PEERLESS_RECONNECT_MS_def by (auto simp: min_def)
qed

lemma reconnect_task_start_inv: "client_inv api c \<Longrightarrow> client_inv api (reconnect_task_start c)"
proof -
  assume inv: "client_inv api c"
  then have "rc_reconnect_attempt c \<le> MAX_RECONNECT_ATTEMPT" by (simp add: client_inv_def retry_ok_def)
  from plan_ok [OF this] inv show ?thesis
    unfolding client_inv_def keys_ok_def retry_ok_def reconnect_task_start_def Let_def
    by (auto simp: connections_def next_peerless_reconnects_def)
qed

lemma reconnect_wake_inv: "client_inv (ce_crypto env) c \<Longrightarrow> client_inv (ce_crypto env) (reconnect_wake env s c)"
proof -
  assume "client_inv (ce_crypto env) c"
  then have "client_inv (ce_crypto env) (c\<lparr>rc_sleeping := remove1 s (rc_sleeping c)\<rparr>)"
    unfolding client_inv_defs by (auto dest: notin_set_remove1 in_set_remove1 set_remove1_subset [THEN subsetD])
  then show ?thesis unfolding reconnect_wake_def Let_def by (simp add: connect_start_inv)
qed

lemma kx_peer_ok: "length pk = 32 \<Longrightarrow> peer_ok api cfg (kx_peer api cfg data pk)"
  by (simp add: peer_ok_def kx_peer_def Let_def)

lemma kx_identity_Some: "kx_identity api data = Some (fid, pk) \<Longrightarrow> fid \<noteq> [] \<and> length pk = 32"
  by (auto simp: kx_identity_def split: option.splits sum.splits if_splits)

lemma kx_frame_inv: "client_inv (ce_crypto env) c \<Longrightarrow> client_inv (ce_crypto env) (snd (client_handle_kx_frame env fr c))"
proof -
  assume inv: "client_inv (ce_crypto env) c"
  have "client_inv (ce_crypto env) (c\<lparr>rc_peers := hm_insert fid (kx_peer (ce_crypto env) (rc_config c) data pk) (rc_peers c),
      rc_peerless_reconnects := 0, rc_had_peer_this_connection := True\<rparr>)"
    if "kx_identity (ce_crypto env) data = Some (fid, pk)" for data fid pk
    using inv kx_identity_Some [OF that] kx_peer_ok unfolding client_inv_defs by simp
  then show ?thesis using inv
    by (auto simp: client_handle_kx_frame_def Let_def split: option.split sum.split intro: client_inv_sends sends_only_ops)
qed

lemma auth_ok_inv: "client_inv api c \<Longrightarrow> client_inv api (snd (client_handle_auth_ok env ok c))"
proof -
  assume inv: "client_inv api c"
  have fields: "client_inv api (c\<lparr>rc_authenticated := a, rc_resume_token := t, rc_resume_expires_at := e, rc_resuming := r\<rparr>)" for a t e r
    using inv unfolding client_inv_defs by simp
  have ping: "client_inv api d \<Longrightarrow> client_inv api (start_ping d)" for d unfolding client_inv_defs start_ping_def by simp
  have resub: "client_inv api d \<Longrightarrow> client_inv api (fold (\<lambda>sid c. snd (rc_send (Subscribe sid None) c)) sids d)" for d sids
    by (rule client_inv_sends [OF _ sends_only_fold [OF sends_only_send]])
  show ?thesis
    using inv unfolding client_handle_auth_ok_def Let_def
    by (auto intro!: ping client_inv_sends [OF _ sends_only_ops(1)] resub split: option.split)
      (use inv in \<open>auto simp: client_inv_defs\<close>)
qed

lemma handle_message_inv: "client_inv (ce_crypto env) c \<Longrightarrow> client_inv (ce_crypto env) (snd (handle_message env msg c))"
proof -
  assume inv: "client_inv (ce_crypto env) c"
  then have "client_inv (ce_crypto env) (close_socket c)"
    "client_inv (ce_crypto env) (close_socket (c\<lparr>rc_resuming := False, rc_resume_token := None, rc_resume_expires_at := F64 0 0\<rparr>))"
    unfolding client_inv_defs close_socket_def by simp_all
  then show ?thesis using inv
    by (auto simp: handle_message_def kx_frame_inv auth_ok_inv split: relay_server_message.split intro: client_inv_sends sends_only_send)
qed

lemma read_step_inv: "client_inv (ce_crypto env) c \<Longrightarrow> client_inv (ce_crypto env) (snd (read_step env gen item c))"
proof -
  assume inv: "client_inv (ce_crypto env) c"
  then have less: "client_inv (ce_crypto env) (c\<lparr>rc_readers := remove1 gen (rc_readers c)\<rparr>)"
    using live_ok_mono [OF _ readers_less [of gen c]] unfolding client_inv_def keys_ok_def retry_ok_def by (simp add: connections_def)
  have "client_inv api d \<Longrightarrow> client_inv api (snd (rc_on_close gen d))" for d api
    unfolding client_inv_defs rc_on_close_def schedule_reconnect_def by auto
  with less inv show ?thesis
    by (simp add: read_step_def handle_message_inv split: sum.split option.split)
qed

lemma subscriptions_inv: "client_inv api c \<Longrightarrow> client_inv api (rc_subscribe sid c) \<and> client_inv api (rc_unsubscribe sid c)"
proof -
  assume inv: "client_inv api c"
  then have "client_inv api (c\<lparr>rc_subscribed_sessions := List.insert sid (rc_subscribed_sessions c)\<rparr>)"
    "client_inv api (c\<lparr>rc_subscribed_sessions := removeAll sid (rc_subscribed_sessions c)\<rparr>)"
    unfolding client_inv_defs by (simp_all add: distinct_removeAll)
  then show ?thesis
    unfolding rc_subscribe_def rc_unsubscribe_def Let_def by (auto intro: client_inv_sends sends_only_send)
qed

lemma dispose_inv: "client_inv api c \<Longrightarrow> client_inv api (dispose c)"
proof -
  assume "client_inv api c"
  then have "client_inv api (c\<lparr>rc_disposed := True\<rparr>)" unfolding client_inv_defs by simp
  then show ?thesis unfolding dispose_def using client_inv_cleanup by blast
qed

lemma ping_inv: "client_inv api c \<Longrightarrow> client_inv api (ping_tick env gen c)"
proof -
  assume inv: "client_inv api c"
  then have "client_inv api (c\<lparr>rc_pings := p\<rparr>)" for p unfolding client_inv_defs by simp
  with inv show ?thesis unfolding ping_tick_def by (auto intro: client_inv_sends sends_only_send)
qed

lemma ping_start_inv: "client_inv api c \<Longrightarrow> client_inv api (ping_check c) \<and> client_inv api (ping_begin c)"
  unfolding client_inv_defs ping_check_def ping_begin_def by (simp add: Let_def)

lemma client_step_inv: "client_step api c c' \<Longrightarrow> client_inv api c \<Longrightarrow> client_inv api c'"
proof (induction rule: client_step.induct)
  case (reads env gen c item)
  then show ?case using read_step_inv by blast
qed (auto intro: connect_start_inv connect_failed_inv connect_check_inv connect_open_inv reconnect_task_start_inv reconnect_wake_inv
    ping_inv dispose_inv client_inv_sends sends_only_ops sends_only_writer dest: subscriptions_inv ping_start_inv)

interpretation client_sys: step_system "\<lambda>c. \<exists>cfg. c = client_new cfg" "client_step api" "client_inv api" for api
  by unfold_locales (auto simp: client_inv_new client_step_inv)

lemma client_reachable: "(client_step api)\<^sup>*\<^sup>* (client_new cfg) c \<Longrightarrow> client_inv api c"
  by (rule client_sys.reachable_inv) auto

section \<open>Connections and pacing\<close>

text \<open>C37: A relay client never has two live connections and never hammers the relay. In every reachable
  state at most one connection, open or being opened, belongs to the current generation, the only one
  whose reader may act; every pending reconnect waits between 1 and 30 seconds, or 30 minutes for a
  throttled pairing; a throttled pairing has had no frontend on this connection; and every peer's keys
  and confirmation tag are the ones its public key gives.\<close>

theorem relay_client_stays_consistent:
  assumes "(client_step api)\<^sup>*\<^sup>* (client_new cfg) c"
  shows "count (connections c) (rc_generation c) \<le> 1 \<and>
    (\<forall>s \<in> set (rc_sleeping c). 1000 \<le> fst s \<and> fst s \<le> 30000 \<or> fst s = 1800000) \<and>
    (is_throttled c \<longrightarrow> \<not> rc_had_peer_this_connection c) \<and>
    (\<forall>fid p. hm_get (rc_peers c) fid = Some p \<longrightarrow> fid \<noteq> [] \<and> peer_ok api (rc_config c) p)"
proof -
  have inv: "client_inv api c" by (rule client_reachable [OF assms])
  then have "is_throttled c \<longrightarrow> \<not> rc_had_peer_this_connection c"
    by (auto simp: client_inv_def retry_ok_def is_throttled_def PEERLESS_RECONNECT_THRESHOLD_def)
  with inv show ?thesis
    by (auto simp: client_inv_def keys_ok_def retry_ok_def live_ok_def delay_ok_def RECONNECT_BASE_MS_def RECONNECT_MAX_MS_def
        PEERLESS_RECONNECT_MS_def)
qed

definition demo_config :: relay_client_config where
  "demo_config = \<lparr>cf_relay_url = ''wss://r'', cf_daemon_id = ''daemon-1'', cf_token = ''t'', cf_registration_proof = ''p'',
     cf_key_pair = \<lparr>public_key = replicate 32 1, secret_key = replicate 32 1\<rparr>, cf_pairing_secret = [1, 2], cf_label = None,
     cf_pairing_id = replicate 32 (CHR ''a''), cf_hostname = ''h''\<rparr>"

text \<open>Messages of the demonstration carry one JSON value: any bytes parse to it.\<close>

definition demo_client_env :: "json \<Rightarrow> client_env" where
  "demo_client_env v = \<lparr>ce_now = F64 5 0, ce_crypto = demo_api, ce_to_string = (\<lambda>_. ''x''), ce_from_slice = (\<lambda>_. Some v),
     ce_nonce = (\<lambda>_. replicate 24 0)\<rparr>"

text \<open>A client that has connected and authenticated.\<close>

definition demo_online :: relay_client where
  "demo_online = snd (read_step (demo_client_env JNull) 2 (Inr (Some (server_to_json (SAuthOk \<lparr>ao_daemon_id = ''daemon-1'',
      ao_resume_token = None, ao_resume_expires_at = None, ao_resumed = None\<rparr>))))
    (connect_open (demo_client_env JNull) 2 (connect_check 2 (connect_start (demo_client_env JNull) (client_new demo_config)))))"

theorem relay_client_stays_consistent_witness:
  "count (connections demo_online) (rc_generation demo_online) \<le> 1 \<and> rc_authenticated demo_online"
proof -
  let ?e = "demo_client_env JNull" and ?c0 = "client_new demo_config"
  have s1: "client_step demo_api ?c0 (connect_start ?e ?c0)" by (rule connects) (simp add: demo_client_env_def)
  have s2: "client_step demo_api (connect_start ?e ?c0) (connect_check 2 (connect_start ?e ?c0))"
    by (rule checks) (simp add: connect_start_def client_new_def cleanup_def)
  have s3: "client_step demo_api (connect_check 2 (connect_start ?e ?c0)) (connect_open ?e 2 (connect_check 2 (connect_start ?e ?c0)))"
    by (rule opens) (simp_all add: connect_check_def connect_start_def client_new_def cleanup_def demo_client_env_def)
  have s4: "client_step demo_api (connect_open ?e 2 (connect_check 2 (connect_start ?e ?c0))) demo_online"
    unfolding demo_online_def
    by (rule reads) (simp_all add: connect_open_def on_open_def rc_send_def client_new_def demo_client_env_def split: option.split)
  have "(client_step demo_api)\<^sup>*\<^sup>* ?c0 demo_online"
    by (rule converse_rtranclp_into_rtranclp [of "client_step demo_api", OF s1] converse_rtranclp_into_rtranclp [of "client_step demo_api", OF s2]
        converse_rtranclp_into_rtranclp [of "client_step demo_api", OF s3] r_into_rtranclp [of "client_step demo_api", OF s4])+
  then have "count (connections demo_online) (rc_generation demo_online) \<le> 1"
    using relay_client_stays_consistent by blast
  moreover have "rc_authenticated demo_online" by code_simp
  ultimately show ?thesis by simp
qed

text \<open>
  The other side of the pacing. Each failed attempt to connect counts as a connection on which no
  frontend came, although none can: after a live connection is cut, three failed attempts within seven
  seconds put the pairing to sleep for half an hour.
\<close>

definition retry_fails :: "client_env \<Rightarrow> relay_client \<Rightarrow> relay_client" where
  "retry_fails env c = (let c = reconnect_wake env (last (rc_sleeping c)) c
     in reconnect_task_start (connect_failed (rc_generation c) c))"

lemma retry_fails_plan:
  fixes env c
  assumes "\<not> rc_disposed c" "snd (last (rc_sleeping c)) = rc_generation c"
  defines "c' \<equiv> retry_fails env c" and "plan \<equiv> compute_reconnect_plan (rc_reconnect_attempt c) (rc_peerless_reconnects c + 1)"
  shows "\<not> rc_disposed c' \<and> last (rc_sleeping c') = (delay_ms plan, rc_generation c') \<and>
    rc_peerless_reconnects c' = rc_peerless_reconnects c + 1 \<and> rc_reconnect_attempt c' = next_attempt plan"
  using assms(1,2) by (simp add: c'_def plan_def retry_fails_def reconnect_wake_def connect_start_def cleanup_def connect_failed_def schedule_reconnect_def
      reconnect_task_start_def next_peerless_reconnects_def Let_def)

lemma reconnect_plans:
  "compute_reconnect_plan 0 0 = \<lparr>delay_ms = 1000, next_attempt = 1\<rparr>"
  "compute_reconnect_plan 1 1 = \<lparr>delay_ms = 2000, next_attempt = 2\<rparr>"
  "compute_reconnect_plan 2 2 = \<lparr>delay_ms = 4000, next_attempt = 3\<rparr>"
  "compute_reconnect_plan 3 3 = \<lparr>delay_ms = 1800000, next_attempt = 3\<rparr>"
  by (simp_all add: compute_reconnect_plan_def PEERLESS_RECONNECT_THRESHOLD_def RECONNECT_BASE_MS_def RECONNECT_MAX_MS_def
      checked_scale_def MAX_RECONNECT_ATTEMPT_def PEERLESS_RECONNECT_MS_def min_def word_le_nat_alt)

lemma outage_throttles_live_pairing:
  assumes "\<not> rc_disposed c" "rc_had_peer_this_connection c" "rc_reconnect_attempt c = 0"
  defines "c0 \<equiv> reconnect_task_start (snd (rc_on_close (rc_generation c) c))"
  shows "map (\<lambda>n. fst (last (rc_sleeping ((retry_fails env ^^ n) c0)))) [0, 1, 2, 3] = [1000, 2000, 4000, 1800000] \<and>
    is_throttled ((retry_fails env ^^ 3) c0)"
proof -
  let ?c1 = "retry_fails env c0" and ?c2 = "retry_fails env (retry_fails env c0)" and ?c3 = "retry_fails env (retry_fails env (retry_fails env c0))"
  have c0: "\<not> rc_disposed c0" "last (rc_sleeping c0) = (1000, rc_generation c0)" "rc_peerless_reconnects c0 = 0" "rc_reconnect_attempt c0 = 1"
    using assms(1-3) by (simp_all add: c0_def rc_on_close_def schedule_reconnect_def reconnect_task_start_def
        next_peerless_reconnects_def reconnect_plans)
  have c1: "\<not> rc_disposed ?c1" "last (rc_sleeping ?c1) = (2000, rc_generation ?c1)" "rc_peerless_reconnects ?c1 = 1" "rc_reconnect_attempt ?c1 = 2"
    using retry_fails_plan [of c0 env] c0 by (simp_all add: reconnect_plans)
  have c2: "\<not> rc_disposed ?c2" "last (rc_sleeping ?c2) = (4000, rc_generation ?c2)" "rc_peerless_reconnects ?c2 = 2" "rc_reconnect_attempt ?c2 = 3"
    using retry_fails_plan [of ?c1 env] c1 by (simp_all add: reconnect_plans)
  have "last (rc_sleeping ?c3) = (1800000, rc_generation ?c3)" "rc_peerless_reconnects ?c3 = 3"
    using retry_fails_plan [of ?c2 env] c2 by (simp_all add: reconnect_plans)
  with c0 c1 c2 show ?thesis by (simp add: eval_nat_numeral is_throttled_def PEERLESS_RECONNECT_THRESHOLD_def)
qed

end
