(* ===== verification/Utf8.thy ===== *)
theory Utf8
  imports Rust_Strings
begin

text \<open>
  Characters of a UTF-8 string: \<open>str::chars\<close>, which splits a \<open>String\<close> into the encodings of its
  scalar values, and \<open>String::from_utf8_lossy\<close>, which makes a \<open>String\<close> of any bytes.
\<close>

section \<open>Characters of a UTF-8 string\<close>

definition utf8_width :: "char \<Rightarrow> nat" where
  "utf8_width c = (let n = of_char c :: nat in if n \<le> 127 then 1 else if n \<le> 223 then 2 else if n \<le> 239 then 3 else 4)"

lemma utf8_width_pos [simp]: "0 < utf8_width c"
  by (simp add: utf8_width_def Let_def)

text \<open>\<open>s.chars()\<close>, each character as its bytes.\<close>

function utf8_chars :: "string \<Rightarrow> string list" where
  "utf8_chars [] = []"
| "utf8_chars (c # s) = take (utf8_width c) (c # s) # utf8_chars (drop (utf8_width c) (c # s))"
  by pat_completeness auto
termination
  by (relation "measure length") auto

section \<open>Lossy decoding\<close>

text \<open>
  \<open>from_utf8_lossy\<close>: a maximal prefix of a valid sequence that is not one becomes one U+FFFD. \<open>seq_len\<close>
  is whether the bytes start with a valid sequence, and the length of it or of the invalid prefix.
\<close>

definition second_ok :: "u8 \<Rightarrow> u8 \<Rightarrow> bool" where
  "second_ok b c \<longleftrightarrow>
    (if b = 224 then 160 \<le> c \<and> c \<le> 191 else if b = 237 then 128 \<le> c \<and> c \<le> 159
     else if b = 240 then 144 \<le> c \<and> c \<le> 191 else if b = 244 then 128 \<le> c \<and> c \<le> 143 else utf8_cont c)"

fun cont_count :: "nat \<Rightarrow> u8 list \<Rightarrow> nat" where
  "cont_count (Suc n) (c # cs) = (if utf8_cont c then Suc (cont_count n cs) else 0)"
| "cont_count _ _ = 0"

definition seq_need :: "u8 \<Rightarrow> nat option" where
  "seq_need b =
    (if b \<le> 127 then Some 0 else if 194 \<le> b \<and> b \<le> 223 then Some 1 else if 224 \<le> b \<and> b \<le> 239 then Some 2
     else if 240 \<le> b \<and> b \<le> 244 then Some 3 else None)"

fun seq_len :: "u8 list \<Rightarrow> bool \<times> nat" where
  "seq_len [] = (False, 0)"
| "seq_len (b # bs) =
    (case seq_need b of
       None \<Rightarrow> (False, 1)
     | Some n \<Rightarrow>
         let got = (case bs of [] \<Rightarrow> 0 | c # cs \<Rightarrow> if n = 0 \<or> \<not> second_ok b c then 0 else Suc (cont_count (n - 1) cs))
         in (got = n, Suc got))"

lemma seq_len_pos: "0 < snd (seq_len (b # bs))"
  by (simp add: Let_def split: option.split)

definition REPLACEMENT :: string where
  "REPLACEMENT = bytes_to_string [0xEF, 0xBF, 0xBD]"

function from_utf8_lossy :: "u8 list \<Rightarrow> string" where
  "from_utf8_lossy [] = []"
| "from_utf8_lossy (b # bs) =
    (let (ok, n) = seq_len (b # bs)
     in (if ok then bytes_to_string (take n (b # bs)) else REPLACEMENT) @ from_utf8_lossy (drop n (b # bs)))"
  by pat_completeness auto
termination
  by (relation "measure length") (auto simp: Let_def split: option.splits)

section \<open>Lemmas\<close>

lemma unat_char_byte: "unat (word_of_nat (of_char c) :: u8) = of_char c"
  using nat_of_char_less_256 [of c] by (simp add: unsigned_of_nat take_bit_eq_mod)

text \<open>A valid string starts with a sequence of the length its first byte announces.\<close>

definition utf8_seq :: "u8 list \<Rightarrow> nat \<Rightarrow> bool" where
  "utf8_seq bs w \<longleftrightarrow> w \<le> length bs \<and> 0 < w \<and> (\<forall>ys. utf8_valid (take w bs @ ys) = utf8_valid ys)"

lemma utf8_valid_head:
  assumes "utf8_valid (b # bs)"
  shows "utf8_seq (b # bs) (if b \<le> 127 then 1 else if b \<le> 223 then 2 else if b \<le> 239 then 3 else 4)"
proof -
  consider "b \<le> 127" | c1 cs where "\<not> b \<le> 127" "194 \<le> b" "b \<le> 223" "bs = c1 # cs" "utf8_cont c1"
    | c1 c2 cs where "\<not> b \<le> 223" "224 \<le> b" "b \<le> 239" "bs = c1 # c2 # cs"
    | c1 c2 c3 cs where "\<not> b \<le> 239" "240 \<le> b" "b \<le> 244" "bs = c1 # c2 # c3 # cs"
    using assms by (simp add: word_le_nat_alt split: if_splits list.splits)
  then show ?thesis
  proof cases
    case 1 then show ?thesis by (simp add: utf8_seq_def)
  next
    case 2 then show ?thesis by (simp add: utf8_seq_def)
  next
    case 3
    then have "\<not> b \<le> 127" by (simp add: word_le_nat_alt)
    with 3 assms show ?thesis by (simp add: utf8_seq_def)
  next
    case 4
    then have "\<not> b \<le> 127" "\<not> b \<le> 223" by (simp_all add: word_le_nat_alt)
    with 4 assms show ?thesis by (simp add: utf8_seq_def)
  qed
qed

lemma rust_string_head:
  assumes "rust_string (c # s)"
  shows "utf8_width c \<le> length (c # s)" "rust_string (take (utf8_width c) (c # s) @ t) = rust_string t"
proof -
  let ?b = "word_of_nat (of_char c) :: u8" and ?w = "utf8_width c"
  have "?w = (if ?b \<le> 127 then 1 else if ?b \<le> 223 then 2 else if ?b \<le> 239 then 3 else 4)"
    by (simp add: utf8_width_def Let_def word_le_nat_alt unat_char_byte)
  moreover have bytes: "as_bytes (c # s) = ?b # as_bytes s" by (simp add: as_bytes_def)
  moreover have v: "utf8_valid (?b # as_bytes s)" using assms by (simp only: rust_string_def bytes)
  ultimately have seq: "utf8_seq (as_bytes (c # s)) ?w"
    using utf8_valid_head [OF v] by (simp only:)
  then show "?w \<le> length (c # s)" by (simp add: utf8_seq_def)
  from seq show "rust_string (take ?w (c # s) @ t) = rust_string t"
    by (simp only: utf8_seq_def rust_string_def as_bytes_def map_append take_map)
qed

lemma rust_string_Nil [simp]: "rust_string []"
  by (simp add: rust_string_def as_bytes_def)

lemma rust_string_split:
  assumes "rust_string (c # s)"
  shows "rust_string (take (utf8_width c) (c # s))" "rust_string (drop (utf8_width c) (c # s))"
  using rust_string_head(2) [OF assms, of "[]"] rust_string_head(2) [OF assms, of "drop (utf8_width c) (c # s)"] assms
  by (simp_all only: append_take_drop_id append_Nil2 rust_string_Nil)

lemma utf8_append_Cons:
  assumes "rust_string (c # s)"
  shows "(c # s) @ t = take (utf8_width c) (c # s) @ drop (utf8_width c) (c # s) @ t"
    "take (utf8_width c) ((c # s) @ t) = take (utf8_width c) (c # s)"
    "drop (utf8_width c) ((c # s) @ t) = drop (utf8_width c) (c # s) @ t"
  using rust_string_head(1) [OF assms] by (simp_all only: append_take_drop_id take_append drop_append append_assoc [symmetric]) simp_all

lemma rust_string_append: "rust_string s \<Longrightarrow> rust_string (s @ t) = rust_string t"
proof (induction s rule: utf8_chars.induct)
  case (2 c s)
  then show ?case
    unfolding utf8_append_Cons(1) [OF 2(2)] using rust_string_head(2) [OF 2(2)] rust_string_split [OF 2(2)] by simp
qed simp

lemma utf8_chars_append: "rust_string s \<Longrightarrow> utf8_chars (s @ t) = utf8_chars s @ utf8_chars t"
proof (induction s rule: utf8_chars.induct)
  case (2 c s)
  have "utf8_chars ((c # s) @ t) = take (utf8_width c) ((c # s) @ t) # utf8_chars (drop (utf8_width c) ((c # s) @ t))" by simp
  then show ?case unfolding utf8_append_Cons(2,3) [OF 2(2)] using 2(1) rust_string_split [OF 2(2)] by simp
qed simp

lemma utf8_chars_concat: "concat (utf8_chars s) = s"
  by (induction s rule: utf8_chars.induct) auto

lemma utf8_chars_each: "rust_string s \<Longrightarrow> ch \<in> set (utf8_chars s) \<Longrightarrow> rust_string ch \<and> utf8_chars ch = [ch]"
proof (induction s rule: utf8_chars.induct)
  case (2 c s)
  let ?w = "utf8_width c"
  obtain k where k: "?w = Suc k" using utf8_width_pos [of c] by (cases ?w) auto
  have "utf8_chars (take ?w (c # s)) = [take ?w (c # s)]" by (simp add: k)
  then show ?case using 2 rust_string_split [OF 2(2)] by auto
qed simp

lemma concat_chars:
  "(\<And>ch. ch \<in> set chs \<Longrightarrow> rust_string ch \<and> utf8_chars ch = [ch]) \<Longrightarrow> rust_string (concat chs) \<and> utf8_chars (concat chs) = chs"
  by (induction chs) (auto simp: rust_string_append utf8_chars_append)


lemma cont_count_eq: "cont_count n cs = n \<Longrightarrow> n \<le> length cs \<and> list_all utf8_cont (take n cs)"
  by (induction n cs rule: cont_count.induct) (auto split: if_splits)

lemma cont_count_valid: "n \<le> length cs \<Longrightarrow> list_all utf8_cont (take n cs) \<Longrightarrow> cont_count n cs = n"
  by (induction n cs rule: cont_count.induct) auto

lemma seq_needE:
  assumes "seq_need b = Some n"
  obtains "n = 0" "b \<le> 127" | "n = 1" "\<not> b \<le> 127" "194 \<le> b" "b \<le> 223"
    | "n = 2" "\<not> b \<le> 127" "\<not> b \<le> 223" "224 \<le> b" "b \<le> 239"
    | "n = 3" "\<not> b \<le> 127" "\<not> b \<le> 223" "\<not> b \<le> 239" "240 \<le> b" "b \<le> 244"
  using assms by (auto simp: seq_need_def word_le_nat_alt split: if_splits)

lemma second_ok_cases:
  "\<lbrakk>194 \<le> b; b \<le> 223\<rbrakk> \<Longrightarrow> second_ok b c = utf8_cont c"
  "\<lbrakk>224 \<le> b; b \<le> 239\<rbrakk> \<Longrightarrow> second_ok b c = (if b = 224 then 160 \<le> c \<and> c \<le> 191 else if b = 237 then 128 \<le> c \<and> c \<le> 159 else utf8_cont c)"
  "\<lbrakk>240 \<le> b; b \<le> 244\<rbrakk> \<Longrightarrow> second_ok b c = (if b = 240 then 144 \<le> c \<and> c \<le> 191 else if b = 244 then 128 \<le> c \<and> c \<le> 143 else utf8_cont c)"
  by (auto simp: second_ok_def word_le_nat_alt)

lemma utf8_valid_seq:
  assumes "seq_need b = Some n"
  shows "utf8_valid (b # bs) \<longleftrightarrow> n \<le> length bs \<and> (0 < n \<longrightarrow> second_ok b (hd bs)) \<and> list_all utf8_cont (take (n - 1) (tl bs)) \<and> utf8_valid (drop n bs)"
  using assms
proof (cases rule: seq_needE)
  case 1 then show ?thesis by simp
next
  case 2 then show ?thesis by (cases bs) (auto simp: second_ok_cases(1))
next
  case 3 then show ?thesis by (cases bs; cases "tl bs") (auto simp: second_ok_cases(2))
next
  case 4
  then show ?thesis by (cases bs; cases "tl bs"; cases "tl (tl bs)") (auto simp: second_ok_cases(3))
qed

lemma utf8_valid_need: "utf8_valid (b # bs) \<Longrightarrow> seq_need b \<noteq> None"
  by (auto simp: seq_need_def split: if_splits)

lemma seq_len_iff:
  "fst (seq_len (b # bs)) \<longleftrightarrow> (\<exists>n. seq_need b = Some n \<and> snd (seq_len (b # bs)) = Suc n \<and> n \<le> length bs \<and>
     (0 < n \<longrightarrow> second_ok b (hd bs)) \<and> list_all utf8_cont (take (n - 1) (tl bs)))"
proof (cases "seq_need b")
  case (Some n)
  show ?thesis
  proof (cases bs)
    case (Cons c cs)
    then show ?thesis using Some cont_count_eq [of "n - 1" cs] cont_count_valid [of "n - 1" cs]
      by (cases n) (auto simp: Let_def)
  qed (use Some in auto)
qed simp

lemma seq_len_ok: "fst (seq_len (b # bs)) \<Longrightarrow> snd (seq_len (b # bs)) \<le> length (b # bs) \<and>
    utf8_valid (take (snd (seq_len (b # bs))) (b # bs) @ ys) = utf8_valid ys"
proof -
  assume "fst (seq_len (b # bs))"
  then obtain n where n: "seq_need b = Some n" "snd (seq_len (b # bs)) = Suc n" "n \<le> length bs"
    "0 < n \<Longrightarrow> second_ok b (hd bs)" "list_all utf8_cont (take (n - 1) (tl bs))"
    unfolding seq_len_iff by blast
  have "hd (take n bs @ ys) = hd bs \<and> take (n - 1) (tl (take n bs @ ys)) = take (n - 1) (tl bs)" if "0 < n"
    using n(3) that by (cases bs; cases n) auto
  then have "utf8_valid (b # (take n bs @ ys)) = utf8_valid ys"
    unfolding utf8_valid_seq [OF n(1)] using n by (cases n) auto
  then show ?thesis using n by simp
qed

lemma utf8_valid_seq_len: "utf8_valid (b # bs) \<Longrightarrow> fst (seq_len (b # bs))"
  unfolding seq_len_iff
proof -
  assume v: "utf8_valid (b # bs)"
  then obtain n where n: "seq_need b = Some n" using utf8_valid_need by blast
  note l = v [unfolded utf8_valid_seq [OF n]]
  have "snd (seq_len (b # bs)) = Suc n"
    using n l cont_count_valid [of "n - 1" "tl bs"] by (cases bs; cases n) (auto simp: Let_def)
  with n l show "\<exists>n. seq_need b = Some n \<and> snd (seq_len (b # bs)) = Suc n \<and> n \<le> length bs \<and>
     (0 < n \<longrightarrow> second_ok b (hd bs)) \<and> list_all utf8_cont (take (n - 1) (tl bs))" by blast
qed

lemma rust_string_REPLACEMENT: "rust_string REPLACEMENT"
  by code_simp

lemma rust_string_bytes: "rust_string (bytes_to_string bs) = utf8_valid bs"
  by (simp add: rust_string_def)

lemma from_utf8_lossy_Cons:
  "from_utf8_lossy (b # bs) = (if fst (seq_len (b # bs)) then bytes_to_string (take (snd (seq_len (b # bs))) (b # bs)) else REPLACEMENT)
     @ from_utf8_lossy (drop (snd (seq_len (b # bs))) (b # bs))"
  by (simp only: from_utf8_lossy.simps Let_def case_prod_beta)

lemma from_utf8_lossy_string: "rust_string (from_utf8_lossy bs)"
proof (induction bs rule: from_utf8_lossy.induct)
  case (2 b bs)
  have ih: "rust_string (from_utf8_lossy (drop (snd (seq_len (b # bs))) (b # bs)))"
    by (rule 2 [OF refl prod.collapse])
  show ?case
  proof (cases "fst (seq_len (b # bs))")
    case True
    have "rust_string (bytes_to_string (take (snd (seq_len (b # bs))) (b # bs)))"
      using seq_len_ok [OF True, of "[]"] by (simp add: rust_string_bytes)
    with True ih show ?thesis unfolding from_utf8_lossy_Cons by (simp add: rust_string_append)
  next
    case False
    with ih show ?thesis unfolding from_utf8_lossy_Cons by (simp add: rust_string_append rust_string_REPLACEMENT)
  qed
qed simp

lemma from_utf8_lossy_valid: "utf8_valid bs \<Longrightarrow> from_utf8_lossy bs = bytes_to_string bs"
proof (induction bs rule: from_utf8_lossy.induct)
  case (2 b bs)
  let ?n = "snd (seq_len (b # bs))"
  note ok = utf8_valid_seq_len [OF 2(2)]
  have "utf8_valid (drop ?n (b # bs))"
    using seq_len_ok [OF ok, of "drop ?n (b # bs)"] 2(2) by (simp only: append_take_drop_id)
  from 2(1) [OF refl prod.collapse this]
  have "from_utf8_lossy (b # bs) = bytes_to_string (take ?n (b # bs)) @ bytes_to_string (drop ?n (b # bs))"
    unfolding from_utf8_lossy_Cons using ok by (simp only: if_True)
  then show ?case by (simp only: bytes_to_string_def map_append [symmetric] append_take_drop_id)
qed (simp add: bytes_to_string_def)

end
