(* ===== verification/Session_Db.thy ===== *)
theory Session_Db
  imports Prelude
begin

text \<open>
  The record database of one session (\<open>tp-daemon/src/store/session_db.rs\<close>) and what the daemon's
  store uses of SQLite.

  A table is the list of its rows in rowid order; a statement is the function its text describes.
  \<open>INTEGER\<close> columns and \<open>i64\<close> values are \<open>int\<close>. SQLite can fail on any statement: the callers pass
  the error it reports, \<open>None\<close> when the statement succeeds.
\<close>

section \<open>SQL\<close>

text \<open>\<open>LIMIT n\<close>: SQLite reads a negative limit as no limit.\<close>

definition sql_limit :: "int \<Rightarrow> 'a list \<Rightarrow> 'a list" where
  "sql_limit n rows = (if n < 0 then rows else take (nat n) rows)"

definition i64_max :: int where
  "i64_max = 2 ^ 63 - 1"

text \<open>
  \<open>INSERT \<dots> ON CONFLICT(key) DO UPDATE\<close>: the row with the key of the new row, if there is one, is
  updated in place.
\<close>

definition sql_upsert :: "('r \<Rightarrow> 'k) \<Rightarrow> 'r \<Rightarrow> ('r \<Rightarrow> 'r) \<Rightarrow> 'r list \<Rightarrow> 'r list" where
  "sql_upsert key new upd rows =
    (if key new \<in> set (map key rows) then map (\<lambda>r. if key r = key new then upd r else r) rows else rows @ [new])"

text \<open>\<open>INSERT OR REPLACE\<close>: a row with the same key is deleted and the new row gets a fresh rowid.\<close>

definition sql_replace :: "('r \<Rightarrow> 'k) \<Rightarrow> 'r \<Rightarrow> 'r list \<Rightarrow> 'r list" where
  "sql_replace key new rows = filter (\<lambda>r. key r \<noteq> key new) rows @ [new]"

definition sql_update :: "('r \<Rightarrow> bool) \<Rightarrow> ('r \<Rightarrow> 'r) \<Rightarrow> 'r list \<Rightarrow> 'r list" where
  "sql_update cond upd rows = map (\<lambda>r. if cond r then upd r else r) rows"

definition sql_delete :: "('r \<Rightarrow> bool) \<Rightarrow> 'r list \<Rightarrow> 'r list" where
  "sql_delete cond rows = filter (\<lambda>r. \<not> cond r) rows"

section \<open>Records\<close>

record stored_record =
  sr_seq :: int
  sr_kind :: string
  sr_ts :: int
  sr_ns :: "string option"
  sr_name :: "string option"
  sr_payload :: "u8 list"

record records_filter =
  rf_kinds :: "string list option"
  rf_from :: "int option"
  rf_to :: "int option"
  rf_limit :: "int option"

text \<open>
  The \<open>records\<close> table with its \<open>sqlite_sequence\<close> entry, the largest \<open>seq\<close> it has ever assigned
  (0 when there is no entry).
\<close>

record records_table =
  rt_rows :: "stored_record list"
  rt_sequence :: int

definition records_table_new :: records_table where
  "records_table_new = \<lparr>rt_rows = [], rt_sequence = 0\<rparr>"

text \<open>\<open>AUTOINCREMENT\<close> assigns one more than the largest \<open>seq\<close> in use or ever used, and fails at the top.\<close>

definition next_seq :: "records_table \<Rightarrow> int" where
  "next_seq t = Max (insert (rt_sequence t) (sr_seq ` set (rt_rows t))) + 1"

definition sdb_append ::
  "string option \<Rightarrow> string \<Rightarrow> int \<Rightarrow> u8 list \<Rightarrow> string option \<Rightarrow> string option \<Rightarrow> records_table
    \<Rightarrow> (string + int) \<times> records_table" where
  "sdb_append fault kind ts payload ns name t =
    (case fault of
       Some e \<Rightarrow> (Inl e, t)
     | None \<Rightarrow>
         let seq = next_seq t in
         if seq > i64_max then (Inl ''database or disk is full'', t)
         else (Inr seq, t\<lparr>rt_rows := rt_rows t @ [\<lparr>sr_seq = seq, sr_kind = kind, sr_ts = ts, sr_ns = ns,
                 sr_name = name, sr_payload = payload\<rparr>], rt_sequence := seq\<rparr>))"

definition get_records_from :: "string option \<Rightarrow> int \<Rightarrow> int \<Rightarrow> records_table \<Rightarrow> string + stored_record list" where
  "get_records_from fault seq limit t =
    (case fault of
       Some e \<Rightarrow> Inl e
     | None \<Rightarrow> Inr (sql_limit limit (sort_key sr_seq (filter (\<lambda>r. sr_seq r > seq) (rt_rows t)))))"

text \<open>The conditions of the \<open>WHERE\<close> clause; an empty list of kinds adds none.\<close>

definition filter_conditions :: "records_filter \<Rightarrow> (stored_record \<Rightarrow> bool) list" where
  "filter_conditions opts =
    (case rf_kinds opts of Some kinds \<Rightarrow> if kinds = [] then [] else [\<lambda>r. sr_kind r \<in> set kinds] | None \<Rightarrow> [])
    @ (case rf_from opts of Some from_ts \<Rightarrow> [\<lambda>r. sr_ts r \<ge> from_ts] | None \<Rightarrow> [])
    @ (case rf_to opts of Some to_ts \<Rightarrow> [\<lambda>r. sr_ts r \<le> to_ts] | None \<Rightarrow> [])"

definition filter_limit :: "records_filter \<Rightarrow> int" where
  "filter_limit opts = min (case rf_limit opts of Some l \<Rightarrow> l | None \<Rightarrow> 50000) 50000"

definition get_records_filtered :: "string option \<Rightarrow> records_filter \<Rightarrow> records_table \<Rightarrow> string + stored_record list" where
  "get_records_filtered fault opts t =
    (case fault of
       Some e \<Rightarrow> Inl e
     | None \<Rightarrow> Inr (sql_limit (filter_limit opts)
         (sort_key sr_seq (filter (\<lambda>r. list_all (\<lambda>c. c r) (filter_conditions opts)) (rt_rows t)))))"

definition get_last_seq :: "string option \<Rightarrow> records_table \<Rightarrow> string + int" where
  "get_last_seq fault t =
    (case fault of
       Some e \<Rightarrow> Inl e
     | None \<Rightarrow> Inr (if rt_rows t = [] then 0 else Max (sr_seq ` set (rt_rows t))))"

definition sdb_reset_for_test :: "records_table \<Rightarrow> records_table" where
  "sdb_reset_for_test t = t\<lparr>rt_rows := [], rt_sequence := 0\<rparr>"

section \<open>Invariant\<close>

text \<open>Rows are in strictly increasing \<open>seq\<close> order, from 1 up to the sequence counter.\<close>

definition records_ok :: "records_table \<Rightarrow> bool" where
  "records_ok t \<longleftrightarrow> sorted_wrt (<) (map sr_seq (rt_rows t)) \<and> (\<forall>r \<in> set (rt_rows t). 1 \<le> sr_seq r \<and> sr_seq r \<le> rt_sequence t)
     \<and> 0 \<le> rt_sequence t \<and> rt_sequence t \<le> i64_max"

lemma records_ok_new [simp]: "records_ok records_table_new"
  by (simp add: records_ok_def records_table_new_def i64_max_def)

lemma next_seq_ok: "records_ok t \<Longrightarrow> next_seq t = rt_sequence t + 1"
  unfolding next_seq_def records_ok_def by (subst Max_eqI [where x = "rt_sequence t"]) auto

lemma records_ok_append: "records_ok t \<Longrightarrow> records_ok (snd (sdb_append fault kind ts payload ns name t))"
  by (auto simp: sdb_append_def Let_def next_seq_ok records_ok_def sorted_wrt_append split: option.split)

lemma records_ok_reset: "records_ok t \<Longrightarrow> records_ok (sdb_reset_for_test t)"
  by (auto simp: records_ok_def sdb_reset_for_test_def i64_max_def)

lemma sort_key_seq_ok:
  assumes "records_ok t"
  shows "sort_key sr_seq (filter P (rt_rows t)) = filter P (rt_rows t)"
proof -
  have "sorted (map sr_seq (rt_rows t))"
    using assms by (simp add: records_ok_def strict_sorted_iff)
  then have "sorted (map sr_seq (filter P (rt_rows t)))" by (rule sorted_filter)
  then show ?thesis by (rule sort_key_id_if_sorted)
qed

lemma get_records_from_ok:
  "records_ok t \<Longrightarrow> get_records_from None c l t = Inr (sql_limit l (filter (\<lambda>r. sr_seq r > c) (rt_rows t)))"
  by (simp add: get_records_from_def sort_key_seq_ok)

section \<open>Catching up by pages\<close>

text \<open>A reader that asks for pages of \<open>limit\<close> records, each after the last one it has, until a page is empty.\<close>

fun read_pages :: "nat \<Rightarrow> int \<Rightarrow> int \<Rightarrow> records_table \<Rightarrow> stored_record list" where
  "read_pages 0 cursor limit t = []"
| "read_pages (Suc fuel) cursor limit t =
    (case get_records_from None cursor limit t of
       Inl _ \<Rightarrow> []
     | Inr page \<Rightarrow> if page = [] then [] else page @ read_pages fuel (sr_seq (last page)) limit t)"

lemma take_then_rest:
  assumes "sorted_wrt (<) (map sr_seq rows)" "0 < n" "filter (\<lambda>r. sr_seq r > c) rows \<noteq> []"
  defines "page \<equiv> take n (filter (\<lambda>r. sr_seq r > c) rows)"
  shows "page @ filter (\<lambda>r. sr_seq r > sr_seq (last page)) rows = filter (\<lambda>r. sr_seq r > c) rows"
proof -
  let ?xs = "filter (\<lambda>r. sr_seq r > c) rows"
  have xs: "sorted_wrt (<) (map sr_seq ?xs)" using assms(1) by (simp add: sorted_wrt_map sorted_wrt_filter)
  have ne: "page \<noteq> []" using assms(2,3) by (auto simp: page_def)
  have split: "?xs = page @ drop n ?xs" by (simp add: page_def)
  then have "sorted_wrt (<) (map sr_seq (page @ drop n ?xs))" using xs by simp
  then have page_sorted: "sorted_wrt (<) (map sr_seq page)"
    and above: "\<And>x y. x \<in> set page \<Longrightarrow> y \<in> set (drop n ?xs) \<Longrightarrow> sr_seq x < sr_seq y"
    by (auto simp: sorted_wrt_append)
  have last_max: "sr_seq x \<le> sr_seq (last page)" if "x \<in> set page" for x
  proof -
    have "page = butlast page @ [last page]" using ne by simp
    then have "sorted_wrt (<) (map sr_seq (butlast page @ [last page]))" using page_sorted by simp
    moreover have "x \<in> set (butlast page) \<or> x = last page" using that ne
      by (metis append_butlast_last_id rotate1.simps(2) set_ConsD set_rotate1)
    ultimately show ?thesis by (auto simp: sorted_wrt_append)
  qed
  have c_less: "c < sr_seq (last page)"
    using in_set_takeD [OF last_in_set [OF ne, unfolded page_def]] by (simp add: page_def)
  have "filter (\<lambda>r. sr_seq r > sr_seq (last page)) rows = filter (\<lambda>r. sr_seq r > sr_seq (last page)) ?xs"
    using c_less by (auto simp: conj_commute intro: filter_cong)
  also have "\<dots> = filter (\<lambda>r. sr_seq r > sr_seq (last page)) page @ filter (\<lambda>r. sr_seq r > sr_seq (last page)) (drop n ?xs)"
    using split by (metis filter_append)
  also have "\<dots> = drop n ?xs"
    using last_max above [OF last_in_set [OF ne]] by (auto simp: filter_empty_conv filter_id_conv not_less)
  finally show ?thesis using split by simp
qed

text \<open>C33: Catching up by pages is complete. Whatever cursor a reader starts from and whatever positive
  page size it asks for, it ends after at most as many requests as the table has rows, plus one, with
  every record after the cursor exactly once and in order.\<close>

theorem paging_reads_every_record:
  assumes "records_ok t" "0 < limit" "length (rt_rows t) < fuel"
  shows "read_pages fuel cursor limit t = filter (\<lambda>r. sr_seq r > cursor) (rt_rows t)"
proof -
  have "length (filter (\<lambda>r. sr_seq r > c) (rt_rows t)) < n \<Longrightarrow>
    read_pages n c limit t = filter (\<lambda>r. sr_seq r > c) (rt_rows t)" for n c
  proof (induction n arbitrary: c)
    case (Suc n)
    let ?xs = "filter (\<lambda>r. sr_seq r > c) (rt_rows t)" and ?page = "take (nat limit) (filter (\<lambda>r. sr_seq r > c) (rt_rows t))"
    show ?case
    proof (cases "?xs = []")
      case False
      have sorted: "sorted_wrt (<) (map sr_seq (rt_rows t))" using assms(1) by (simp add: records_ok_def)
      note rest = take_then_rest [OF sorted _ False, of "nat limit"]
      have "length ?page > 0" using assms(2) False by simp
      moreover have "length ?page + length (filter (\<lambda>r. sr_seq r > sr_seq (last ?page)) (rt_rows t)) = length ?xs"
        using arg_cong [OF rest, of length] assms(2) by (simp only: length_append zero_less_nat_eq)
      ultimately have "length (filter (\<lambda>r. sr_seq r > sr_seq (last ?page)) (rt_rows t)) < n"
        using Suc.prems by linarith
      from Suc.IH [OF this] rest show ?thesis
        using assms(1,2) False by (simp add: get_records_from_ok sql_limit_def)
    qed (use assms(1) in \<open>simp add: get_records_from_ok sql_limit_def\<close>)
  qed simp
  moreover have "length (filter (\<lambda>r. sr_seq r > cursor) (rt_rows t)) < fuel"
    using assms(3) length_filter_le le_less_trans by blast
  ultimately show ?thesis by blast
qed

definition demo_append :: "string \<Rightarrow> records_table \<Rightarrow> records_table" where
  "demo_append name t = snd (sdb_append None ''event'' 7 [1, 2] None (Some name) t)"

definition demo_records :: records_table where
  "demo_records = demo_append ''c'' (demo_append ''b'' (demo_append ''a'' records_table_new))"

lemma records_ok_demo: "records_ok demo_records"
  by (simp add: demo_records_def demo_append_def records_ok_append)

theorem paging_reads_every_record_witness:
  "map sr_name (read_pages 4 0 2 demo_records) = [Some ''a'', Some ''b'', Some ''c'']"
proof -
  have "length (rt_rows demo_records) < 4 \<and> map sr_name (filter (\<lambda>r. sr_seq r > 0) (rt_rows demo_records)) = [Some ''a'', Some ''b'', Some ''c'']"
    by code_simp
  then show ?thesis using paging_reads_every_record [OF records_ok_demo, of 2 4 0] by simp
qed

section \<open>Appending\<close>

lemma sdb_append_Inr:
  assumes "sdb_append fault kind ts payload ns name t = (Inr seq, t')" "records_ok t"
  shows "seq = rt_sequence t + 1" "rt_rows t' = rt_rows t @ [\<lparr>sr_seq = seq, sr_kind = kind, sr_ts = ts, sr_ns = ns,
    sr_name = name, sr_payload = payload\<rparr>]" "rt_sequence t' = seq" "fault = None"
  using assms by (auto simp: sdb_append_def Let_def next_seq_ok split: option.splits if_splits)

text \<open>An appended record is the newest and nothing else changes. When \<open>append\<close> succeeds, the new
  table is well-formed, \<open>get_last_seq\<close> is the number it returned, a reader at any earlier cursor gets
  what it got before followed by this record, and a reader at this number gets nothing.\<close>

theorem append_extends_every_reader:
  assumes "records_ok t" "sdb_append fault kind ts payload ns name t = (Inr seq, t')" "c < seq"
  shows "records_ok t' \<and> get_last_seq None t' = Inr seq \<and> get_records_from None seq (- 1) t' = Inr [] \<and>
    get_records_from None c (- 1) t' = map_sum id (\<lambda>rs. rs @ [\<lparr>sr_seq = seq, sr_kind = kind, sr_ts = ts, sr_ns = ns,
      sr_name = name, sr_payload = payload\<rparr>]) (get_records_from None c (- 1) t)"
proof -
  note app = sdb_append_Inr [OF assms(2,1)]
  have ok: "records_ok t'" using records_ok_append [OF assms(1), of fault kind ts payload ns name] assms(2) by simp
  have le: "sr_seq r < seq" if "r \<in> set (rt_rows t)" for r using that assms(1) app(1) by (auto simp: records_ok_def)
  then have "Max (sr_seq ` set (rt_rows t')) = seq" using app(2) by (intro Max_eqI) (auto intro: less_imp_le)
  moreover have "filter (\<lambda>r. seq < sr_seq r) (rt_rows t) = []" using le by (auto simp: filter_empty_conv not_less intro: less_imp_le)
  ultimately show ?thesis
    using ok assms(1,3) app(2) by (simp add: get_last_seq_def get_records_from_ok sql_limit_def)
qed

theorem append_extends_every_reader_witness:
  "\<exists>t'. sdb_append None ''io'' 9 [3] None None demo_records = (Inr 4, t') \<and> get_last_seq None t' = Inr 4"
proof -
  have "fst (sdb_append None ''io'' 9 [3] None None demo_records) = Inr 4" by code_simp
  then obtain t' where "sdb_append None ''io'' 9 [3] None None demo_records = (Inr 4, t')"
    by (cases "sdb_append None ''io'' 9 [3] None None demo_records") simp
  with append_extends_every_reader [OF records_ok_demo this, of 0] show ?thesis by simp
qed

end
