(* ===== verification/Export_Formatter.thy ===== *)
theory Export_Formatter
  imports Utf8 Session_Db Json
begin

text \<open>
  The session export (\<open>tp-daemon/src/export_formatter.rs\<close>): ANSI stripping, the text of one record, the
  merging of terminal output into blocks, the markdown document and the timestamp in its header.

  \<open>json_api\<close> stands for \<open>serde_json\<close>: its parser and its two printers. The loops over an index into
  \<open>chars\<close> or \<open>records\<close> are recursion on the rest of the list.
\<close>

record json_api =
  ja_from_str :: "string \<Rightarrow> json option"
  ja_pretty :: "json \<Rightarrow> string"
  ja_to_string :: "json \<Rightarrow> string"

section \<open>ANSI sequences\<close>

definition ESC :: string where
  "ESC = [CHR 0x1B]"

definition C1_CSI :: string where
  "C1_CSI = bytes_to_string [0xC2, 0x9B]"

definition C1_ST :: string where
  "C1_ST = bytes_to_string [0xC2, 0x9C]"

definition BEL :: string where
  "BEL = [CHR 0x07]"

text \<open>The text after the terminator of an OSC sequence.\<close>

fun osc_rest :: "string list \<Rightarrow> string list option" where
  "osc_rest [] = None"
| "osc_rest (c # cs) =
    (if c = BEL then Some cs
     else if c = ESC \<and> take 1 cs = [[CHR 0x5C]] then Some (drop 1 cs)
     else if c = C1_ST then Some cs
     else osc_rest cs)"

definition csi_intermediate :: "string \<Rightarrow> bool" where
  "csi_intermediate c \<longleftrightarrow> c \<in> set ['']'', ''['', ''('', '')'', ''#'', '';'', ''?'']"

definition char_digit :: "string \<Rightarrow> bool" where
  "char_digit c \<longleftrightarrow> (case c of [d] \<Rightarrow> is_ascii_digit d | _ \<Rightarrow> False)"

definition csi_param :: "string \<Rightarrow> bool" where
  "csi_param c \<longleftrightarrow> char_digit c \<or> c = '';'' \<or> c = '':''"

definition in_range :: "char \<Rightarrow> char \<Rightarrow> char \<Rightarrow> bool" where
  "in_range lo hi c \<longleftrightarrow> (of_char lo :: nat) \<le> of_char c \<and> (of_char c :: nat) \<le> of_char hi"

definition csi_final :: "string \<Rightarrow> bool" where
  "csi_final c \<longleftrightarrow>
    (case c of
       [f] \<Rightarrow> is_ascii_digit f \<or> in_range (CHR ''A'') (CHR ''P'') f \<or> in_range (CHR ''R'') (CHR ''T'') f \<or> f = CHR ''Z''
         \<or> f = CHR ''c'' \<or> in_range (CHR ''f'') (CHR ''n'') f \<or> in_range (CHR ''q'') (CHR ''u'') f \<or> f = CHR ''y''
         \<or> f = CHR ''='' \<or> f = CHR ''>'' \<or> f = CHR ''<'' \<or> f = CHR ''~''
     | _ \<Rightarrow> False)"

text \<open>The text after a CSI sequence, given the text after its introducer.\<close>

definition csi_rest :: "string list \<Rightarrow> string list option" where
  "csi_rest cs =
    (let cs = dropWhile csi_intermediate cs;
         cs = (case cs of c # _ \<Rightarrow> if char_digit c then dropWhile csi_param cs else cs | [] \<Rightarrow> [])
     in case cs of f # rest \<Rightarrow> if csi_final f then Some rest else None | [] \<Rightarrow> None)"

lemma osc_rest_length: "osc_rest cs = Some r \<Longrightarrow> length r < length cs"
  by (induction cs rule: osc_rest.induct) (auto split: if_splits)

lemma csi_rest_length: "csi_rest cs = Some r \<Longrightarrow> length r < length cs"
  using length_dropWhile_le [of csi_intermediate cs] length_dropWhile_le [of csi_param "dropWhile csi_intermediate cs"]
  by (auto simp: csi_rest_def Let_def split: list.splits if_splits)

function strip_loop :: "string list \<Rightarrow> string list" where
  "strip_loop [] = []"
| "strip_loop (c # cs) =
    (case (if c = ESC \<and> take 1 cs = ['']''] then osc_rest (drop 1 cs) else None) of
       Some rest \<Rightarrow> strip_loop rest
     | None \<Rightarrow>
         (case (if c = ESC \<or> c = C1_CSI then csi_rest cs else None) of
            Some rest \<Rightarrow> strip_loop rest
          | None \<Rightarrow> c # strip_loop cs))"
  by pat_completeness auto
termination
  by (relation "measure length") (auto dest!: osc_rest_length csi_rest_length split: if_splits)

definition strip_ansi :: "string \<Rightarrow> string" where
  "strip_ansi input =
    (let chars = utf8_chars input
     in if ESC \<notin> set chars \<and> C1_CSI \<notin> set chars then input else concat (strip_loop chars))"

section \<open>Records\<close>

definition NL :: string where
  "NL = [CHR 0x0A]"

definition json_block_display_name :: "string \<Rightarrow> string option" where
  "json_block_display_name name =
    (if name = ''PermissionRequest'' then Some ''Permission Request''
     else if name = ''Elicitation'' then Some ''Elicitation''
     else if name = ''ElicitationResult'' then Some ''Elicitation Result''
     else if name = ''SubagentStart'' then Some ''Subagent Start''
     else if name = ''SubagentStop'' then Some ''Subagent Stop''
     else if name = ''SessionStart'' then Some ''Session Start''
     else if name = ''SessionEnd'' then Some ''Session End''
     else None)"

definition json_block :: "json_api \<Rightarrow> string \<Rightarrow> json \<Rightarrow> string" where
  "json_block ja heading data = ''### '' @ heading @ NL @ NL @ ''```json'' @ NL @ ja_pretty ja data @ NL @ ''```''"

fun is_js_truthy :: "json \<Rightarrow> bool" where
  "is_js_truthy JNull = False"
| "is_js_truthy (JBool b) = b"
| "is_js_truthy (JNumber n) = (case as_f64 (JNumber n) of None \<Rightarrow> True | Some f \<Rightarrow> f64_mant f \<noteq> 0)"
| "is_js_truthy (JString s) = (s \<noteq> [])"
| "is_js_truthy (JArray _) = True"
| "is_js_truthy (JObject _) = True"

fun json_display :: "json_api \<Rightarrow> json \<Rightarrow> string" where
  "json_display ja (JString s) = s"
| "json_display ja other = ja_to_string ja other"

definition quote_lines :: "string \<Rightarrow> string" where
  "quote_lines text = concat (map (\<lambda>c. if [c] = NL then NL @ ''> '' else [c]) text)"

definition unwrap_or :: "'a option \<Rightarrow> 'a \<Rightarrow> 'a" where
  "unwrap_or v d = (case v of Some x \<Rightarrow> x | None \<Rightarrow> d)"

definition tool_name_of :: "json \<Rightarrow> string" where
  "tool_name_of data = unwrap_or (Option.bind (json_get data ''tool_name'') as_str) ''unknown''"

definition truthy_field :: "json \<Rightarrow> string \<Rightarrow> json option" where
  "truthy_field data key = Option.bind (json_get data key) (\<lambda>v. if is_js_truthy v then Some v else None)"

definition format_event_record :: "json_api \<Rightarrow> stored_record \<Rightarrow> string" where
  "format_event_record ja rec =
    (let raw = from_utf8_lossy (sr_payload rec);
         plain = ''### '' @ unwrap_or (sr_name rec) ''Event'' @ NL @ NL @ raw
     in case ja_from_str ja raw of
          None \<Rightarrow> plain
        | Some JNull \<Rightarrow> plain
        | Some data \<Rightarrow>
            if sr_name rec = Some ''Stop'' then
              (case truthy_field data ''last_assistant_message'' of
                 Some v \<Rightarrow> ''### Assistant Response'' @ NL @ NL @ json_display ja v
               | None \<Rightarrow> json_block ja ''Assistant Response'' data)
            else if sr_name rec = Some ''UserPromptSubmit'' then
              (case truthy_field data ''prompt'' of
                 Some v \<Rightarrow> ''### User'' @ NL @ NL @ ''> '' @ quote_lines (json_display ja v)
               | None \<Rightarrow> json_block ja ''User'' data)
            else if sr_name rec = Some ''PreToolUse'' then
              json_block ja (''Tool Use: '' @ tool_name_of data) (unwrap_or (json_get data ''tool_input'') JNull)
            else if sr_name rec = Some ''PostToolUse'' then
              json_block ja (''Tool Result: '' @ tool_name_of data)
                (unwrap_or (case truthy_field data ''tool_result'' of Some v \<Rightarrow> Some v | None \<Rightarrow> json_get data ''tool_input'') JNull)
            else
              json_block ja (case sr_name rec of
                  Some name \<Rightarrow> unwrap_or (json_block_display_name name) name
                | None \<Rightarrow> ''Event'') data)"

definition IO_MERGE_GAP_MS :: int where
  "IO_MERGE_GAP_MS = 2000"

definition io_text :: "stored_record \<Rightarrow> string" where
  "io_text rec = strip_ansi (from_utf8_lossy (sr_payload rec))"

definition terminal_block :: "string \<Rightarrow> string" where
  "terminal_block text = ''```terminal'' @ NL @ text @ NL @ ''```''"

fun join :: "string \<Rightarrow> string list \<Rightarrow> string" where
  "join sep [] = []"
| "join sep [x] = x"
| "join sep (x # y # ys) = x @ sep @ join sep (y # ys)"

text \<open>\<open>i64\<close> subtraction wraps in a release build.\<close>

definition i64_sub :: "int \<Rightarrow> int \<Rightarrow> int" where
  "i64_sub a b = (a - b + 2 ^ 63) mod 2 ^ 64 - 2 ^ 63"

fun io_loop :: "stored_record list \<Rightarrow> string list \<Rightarrow> string \<Rightarrow> int \<Rightarrow> string list" where
  "io_loop [] blocks current last_ts = (if current \<noteq> [] then blocks @ [terminal_block current] else blocks)"
| "io_loop (rec # recs) blocks current last_ts =
    (let text = io_text rec
     in if str_trim text = [] then io_loop recs blocks current last_ts
        else if last_ts > 0 \<and> i64_sub (sr_ts rec) last_ts > IO_MERGE_GAP_MS \<and> current \<noteq> []
        then io_loop recs (blocks @ [terminal_block current]) text (sr_ts rec)
        else io_loop recs blocks (current @ text) (sr_ts rec))"

definition format_io_records :: "stored_record list \<Rightarrow> string" where
  "format_io_records records = (if records = [] then [] else join (NL @ NL) (io_loop records [] [] 0))"

definition format_meta_record :: "json_api \<Rightarrow> stored_record \<Rightarrow> string" where
  "format_meta_record ja rec =
    (let label = ''Meta: '' @ unwrap_or (sr_name rec) ''unknown''; raw = from_utf8_lossy (sr_payload rec)
     in case ja_from_str ja raw of
          Some data \<Rightarrow> json_block ja label data
        | None \<Rightarrow> ''### '' @ label @ NL @ NL @ raw)"

section \<open>Timestamps\<close>

text \<open>\<open>/\<close> truncates towards zero; the other divisions are of non-negative numbers.\<close>

definition civil_from_days :: "int \<Rightarrow> int \<times> int \<times> int" where
  "civil_from_days z =
    (let z = z + 719468;
         era = (if z \<ge> 0 then z div 146097 else - ((146096 - z) div 146097));
         doe = z - era * 146097;
         yoe = (doe - doe div 1460 + doe div 36524 - doe div 146096) div 365;
         y = yoe + era * 400;
         doy = doe - (365 * yoe + yoe div 4 - yoe div 100);
         mp = (5 * doy + 2) div 153;
         d = doy - (153 * mp + 2) div 5 + 1;
         m = (if mp < 10 then mp + 3 else mp - 9);
         year = (if m \<le> 2 then y + 1 else y)
     in (year, m, d))"

definition pad_nat :: "nat \<Rightarrow> nat \<Rightarrow> string" where
  "pad_nat w n = (let s = show_nat n in replicate (w - length s) (CHR ''0'') @ s)"

definition pad_int :: "nat \<Rightarrow> int \<Rightarrow> string" where
  "pad_int w i = (if i < 0 then ''-'' @ pad_nat (w - 1) (nat (- i)) else pad_nat w (nat i))"

definition format_iso8601 :: "int \<Rightarrow> string" where
  "format_iso8601 ms =
    (let millis = ms mod 1000;
         secs_total = ms div 1000;
         days = secs_total div 86400;
         secs_of_day = secs_total mod 86400;
         hour = secs_of_day div 3600;
         minute = (secs_of_day mod 3600) div 60;
         second = secs_of_day mod 60;
         (year, month, day) = civil_from_days days
     in pad_int 4 year @ ''-'' @ pad_int 2 month @ ''-'' @ pad_int 2 day @ ''T'' @ pad_int 2 hour @ '':'' @
        pad_int 2 minute @ '':'' @ pad_int 2 second @ ''.'' @ pad_int 3 millis @ ''Z'')"

section \<open>The document\<close>

record export_session_meta =
  em_sid :: string
  em_cwd :: string
  em_state :: string
  em_created_at_ms :: int

function markdown_loop :: "json_api \<Rightarrow> stored_record list \<Rightarrow> string list" where
  "markdown_loop ja [] = []"
| "markdown_loop ja (rec # recs) =
    (if sr_kind rec = ''io'' then
       let formatted = format_io_records (takeWhile (\<lambda>r. sr_kind r = ''io'') (rec # recs))
       in (if formatted \<noteq> [] then [formatted, []] else []) @ markdown_loop ja (dropWhile (\<lambda>r. sr_kind r = ''io'') (rec # recs))
     else if sr_kind rec = ''event'' then [format_event_record ja rec, []] @ markdown_loop ja recs
     else if sr_kind rec = ''meta'' then [format_meta_record ja rec, []] @ markdown_loop ja recs
     else markdown_loop ja recs)"
  by pat_completeness auto
termination
  by (relation "measure (\<lambda>(ja, rs). length rs)") (auto simp: less_Suc_eq_le length_dropWhile_le)

definition format_markdown :: "json_api \<Rightarrow> export_session_meta \<Rightarrow> stored_record list \<Rightarrow> bool \<Rightarrow> string" where
  "format_markdown ja meta records truncated =
    join NL
      ([''# Session: '' @ em_sid meta, ''- CWD: '' @ em_cwd meta, ''- State: '' @ em_state meta,
        ''- Created: '' @ format_iso8601 (em_created_at_ms meta), []]
       @ markdown_loop ja records
       @ (if truncated then [''> **Note:** Export truncated at the configured record limit.'', []] else []))"

section \<open>The calendar\<close>

text \<open>The proleptic Gregorian calendar by stepping from day to day, as the reference.\<close>

definition leap :: "int \<Rightarrow> bool" where
  "leap y \<longleftrightarrow> y mod 4 = 0 \<and> (y mod 100 \<noteq> 0 \<or> y mod 400 = 0)"

definition month_length :: "int \<Rightarrow> int \<Rightarrow> int" where
  "month_length y m = (if m = 2 then if leap y then 29 else 28 else if m \<in> {4, 6, 9, 11} then 30 else 31)"

definition next_day :: "int \<times> int \<times> int \<Rightarrow> int \<times> int \<times> int" where
  "next_day date = (let (y, m, d) = date in
     if d < month_length y m then (y, m, d + 1) else if m < 12 then (y, m + 1, 1) else (y + 1, 1, 1))"

text \<open>Days are counted from 1 March of a year that is a multiple of 400; a year starts in March.\<close>

definition yoe_of :: "int \<Rightarrow> int" where
  "yoe_of doe = (doe - doe div 1460 + doe div 36524 - doe div 146096) div 365"

definition year_start :: "int \<Rightarrow> int" where
  "year_start yoe = 365 * yoe + yoe div 4 - yoe div 100"

definition year_end :: "int \<Rightarrow> int" where
  "year_end yoe = (if yoe = 399 then 146097 else year_start (yoe + 1))"

definition month_day :: "int \<Rightarrow> int \<times> int" where
  "month_day doy = (let mp = (5 * doy + 2) div 153 in (if mp < 10 then mp + 3 else mp - 9, doy - (153 * mp + 2) div 5 + 1))"

definition civil_of :: "int \<Rightarrow> int \<Rightarrow> int \<Rightarrow> int \<times> int \<times> int" where
  "civil_of era yoe doy = (let (m, d) = month_day doy; y = yoe + era * 400 in (if m \<le> 2 then y + 1 else y, m, d))"

lemma yoe_table: "list_all (\<lambda>k. yoe_of (year_start k) = k \<and> yoe_of (year_end k - 1) = k) [0..399]"
  by code_simp

lemma year_table:
  "list_all (\<lambda>k. year_end k - year_start k = (if leap (k + 1) then 366 else 365)) [0..399]"
  by code_simp

lemma month_table:
  "list_all (\<lambda>k. let (m, d) = month_day k in 1 \<le> m \<and> m \<le> 12 \<and> m \<noteq> 2 \<and>
     month_day (k + 1) = (if d < month_length 1 m then (m, d + 1) else if m < 12 then (m + 1, 1) else (1, 1))) ([0..336])"
  by code_simp

lemma february_table: "list_all (\<lambda>k. month_day (337 + k) = (2, k + 1)) [0..28]"
  by code_simp

lemma int_div_unique: "0 \<le> r \<Longrightarrow> r < (b :: int) \<Longrightarrow> a = b * q + r \<Longrightarrow> a div b = q"
  by (simp add: int_div_pos_eq)

lemma era_floor: "(if z \<ge> 0 then z div 146097 else - ((146096 - z) div 146097)) = (z :: int) div 146097"
proof -
  have "(146096 - z) div 146097 = - (z div 146097)"
    by (rule int_div_unique [where r = "146096 - z mod 146097"])
      (use pos_mod_bound [of 146097 z] in \<open>simp_all add: minus_mult_div_eq_mod [symmetric]\<close>)
  then show ?thesis by simp
qed

lemma civil_from_days_eq:
  "civil_from_days z = (let n = z + 719468; doe = n mod 146097; yoe = yoe_of doe in civil_of (n div 146097) yoe (doe - year_start yoe))"
  unfolding civil_from_days_def era_floor Let_def civil_of_def month_day_def yoe_of_def year_start_def minus_div_mult_eq_mod prod.case ..

lemma div_succ: "0 < k \<Longrightarrow> (n + 1) div k = n div k + (if k dvd n + 1 then 1 else 0)" for n k :: int
proof -
  assume k: "0 < k"
  have n: "n = k * (n div k) + n mod k" by simp
  show ?thesis
  proof (cases "n mod k = k - 1")
    case True
    have "n + 1 = k * (n div k) + (n mod k + 1)" using n by linarith
    also have "\<dots> = k * (n div k + 1)" using True by (simp add: algebra_simps)
    finally have "n + 1 = k * (n div k + 1)" .
    then show ?thesis using k by (metis dvd_triv_left nonzero_mult_div_cancel_left order_less_irrefl)
  next
    case False
    then have r: "0 \<le> n mod k + 1" "n mod k + 1 < k" using k pos_mod_bound [OF k, of n] pos_mod_sign [OF k, of n] by linarith+
    have n1: "n + 1 = k * (n div k) + (n mod k + 1)" using n by linarith
    have d: "(n + 1) div k = n div k" by (rule int_div_unique [OF r n1])
    have "(n + 1) mod k = n + 1 - k * ((n + 1) div k)" by (simp only: minus_mult_div_eq_mod)
    then have "(n + 1) mod k = n mod k + 1" using n1 unfolding d by linarith
    then have "\<not> k dvd n + 1" using pos_mod_sign [OF k, of n] by (simp add: dvd_eq_mod_eq_0)
    with d show ?thesis by simp
  qed
qed

lemma yoe_step: "yoe_of n \<le> yoe_of (n + 1)"
proof -
  have "36524 dvd n + 1" if "146096 dvd n + 1" using that by (rule dvd_trans [rotated]) simp
  then have "n - n div 1460 + n div 36524 - n div 146096 \<le> (n + 1) - (n + 1) div 1460 + (n + 1) div 36524 - (n + 1) div 146096"
    by (auto simp: div_succ)
  then show ?thesis unfolding yoe_of_def by (rule zdiv_mono1) simp
qed

lemma yoe_mono: "a \<le> b \<Longrightarrow> yoe_of a \<le> yoe_of b"
proof (induction b rule: int_ge_induct)
  case (step b) then show ?case using yoe_step [of b] by simp
qed simp

lemma table_entry: "list_all P [a..b] \<Longrightarrow> a \<le> k \<Longrightarrow> k \<le> b \<Longrightarrow> P k"
  by (simp add: list_all_iff)

lemma yoe_of_iff:
  assumes "0 \<le> doe" "doe < 146097" "0 \<le> k" "k \<le> 399"
  shows "yoe_of doe = k \<longleftrightarrow> year_start k \<le> doe \<and> doe < year_end k"
proof
  assume *: "yoe_of doe = k"
  show "year_start k \<le> doe \<and> doe < year_end k"
  proof (rule ccontr)
    assume "\<not> ?thesis"
    then consider "doe \<le> year_start k - 1" | "year_end k \<le> doe" by linarith
    then show False
    proof cases
      case 1
      show False
      proof (cases "k = 0")
        case False
        then have "yoe_of (year_end (k - 1) - 1) = k - 1" "year_end (k - 1) = year_start k"
          using table_entry [OF yoe_table, of "k - 1"] assms(3,4) by (auto simp: year_end_def)
        with yoe_mono [OF 1] * show False by simp
      qed (use 1 assms(1) in \<open>simp add: year_start_def\<close>)
    next
      case 2
      then have "k \<noteq> 399" using assms(2) by (auto simp: year_end_def)
      then have "yoe_of (year_start (k + 1)) = k + 1" using table_entry [OF yoe_table, of "k + 1"] assms(3,4) by auto
      with \<open>k \<noteq> 399\<close> 2 yoe_mono [of "year_start (k + 1)" doe] * show False by (simp add: year_end_def)
    qed
  qed
next
  assume "year_start k \<le> doe \<and> doe < year_end k"
  then show "yoe_of doe = k"
    using table_entry [OF yoe_table assms(3,4)] yoe_mono [of "year_start k" doe] yoe_mono [of doe "year_end k - 1"] by auto
qed

lemma yoe_of_range: "0 \<le> doe \<Longrightarrow> doe < 146097 \<Longrightarrow> 0 \<le> yoe_of doe \<and> yoe_of doe \<le> 399"
  using yoe_mono [of 0 doe] yoe_mono [of doe 146096] by (simp add: yoe_of_def)

lemma leap_period: "leap (y + e * 400) = leap y"
proof -
  have "(y + e * 400) mod 4 = y mod 4" "(y + e * 400) mod 100 = y mod 100" "(y + e * 400) mod 400 = y mod 400"
    using mod_mult_self1 [of y "e * 100" 4] mod_mult_self1 [of y "e * 4" 100] by (simp_all add: algebra_simps)
  then show ?thesis by (simp add: leap_def)
qed

lemma civil_of_first: "civil_of era k 0 = (k + era * 400, 3, 1)"
  by (simp add: civil_of_def month_day_def)

lemma next_day_in_year:
  assumes "0 \<le> doy" "doy + 1 < (if leap (k + 1) then 366 else 365)"
  shows "next_day (civil_of era k doy) = civil_of era k (doy + 1)"
proof (cases "doy \<le> 336")
  case True
  note table_entry [OF month_table assms(1) True]
  then show ?thesis
    by (auto simp: next_day_def civil_of_def month_length_def Let_def split: prod.splits if_splits)
next
  case False
  then have "month_day doy = (2, doy - 336)" "month_day (1 + doy) = (2, doy - 335)"
    using table_entry [OF february_table, of "doy - 337"] table_entry [OF february_table, of "doy - 336"] assms(2)
    by (auto split: if_splits)
  then show ?thesis using assms(2) leap_period [of "k + 1" era]
    by (auto simp: next_day_def civil_of_def month_length_def algebra_simps split: if_splits)
qed

lemma next_day_new_year:
  assumes "doy + 1 = (if leap (k + 1) then 366 else 365)"
  shows "next_day (civil_of era k doy) = (k + 1 + era * 400, 3, 1)"
proof -
  have "month_day doy = (2, doy - 336)"
    using table_entry [OF february_table, of "doy - 337"] assms by (auto split: if_splits)
  then show ?thesis using assms leap_period [of "k + 1" era]
    by (auto simp: next_day_def civil_of_def month_length_def algebra_simps split: if_splits)
qed

lemma civil_step: "civil_from_days (z + 1) = next_day (civil_from_days z)"
proof -
  let ?n = "z + 719468"
  define era doe where "era = ?n div 146097" and "doe = ?n mod 146097"
  have n: "?n = era * 146097 + doe" by (simp add: era_def doe_def)
  have doe: "0 \<le> doe" "doe < 146097" by (simp_all add: doe_def)
  define k where "k = yoe_of doe"
  have k: "0 \<le> k" "k \<le> 399" using yoe_of_range [OF doe] by (simp_all add: k_def)
  then have ks: "year_start k \<le> doe" "doe < year_end k" using yoe_of_iff [OF doe, of k] by (simp_all add: k_def)
  have len: "year_end k - year_start k = (if leap (k + 1) then 366 else 365)" using table_entry [OF year_table k] .
  have now: "civil_from_days z = civil_of era k (doe - year_start k)"
    by (simp add: civil_from_days_eq Let_def era_def doe_def k_def)
  have at: "civil_from_days (z + 1) = civil_of e (yoe_of d) (d - year_start (yoe_of d))"
    if "?n + 1 = e * 146097 + d" "0 \<le> d" "d < 146097" for e d
  proof -
    have "(z + 1 + 719468) div 146097 = e" using that by (intro int_div_unique [where r = d]) auto
    moreover have "(z + 1 + 719468) mod 146097 = d" using that calculation by (simp add: minus_div_mult_eq_mod [symmetric])
    ultimately show ?thesis by (simp add: civil_from_days_eq Let_def)
  qed
  consider "doe + 1 < year_end k" | "doe + 1 = year_end k" "k < 399" | "doe + 1 = year_end k" "k = 399" using ks k by linarith
  then show ?thesis
  proof cases
    case 1
    then have "doe \<noteq> 146096" by (auto simp: k_def yoe_of_def year_end_def)
    then have "doe + 1 < 146097" using doe(2) by simp
    then have "yoe_of (doe + 1) = k" using yoe_of_iff [of "doe + 1" k] doe k ks 1 by simp
    with at [of era "doe + 1"] n doe 1 \<open>doe + 1 < 146097\<close> have "civil_from_days (z + 1) = civil_of era k (doe - year_start k + 1)"
      by (simp add: algebra_simps)
    with next_day_in_year [of "doe - year_start k" k era] len ks 1 show ?thesis by (simp add: now split: if_splits)
  next
    case 2
    then have start: "doe + 1 = year_start (k + 1)" by (simp add: year_end_def)
    have "yoe_of (doe + 1) = k + 1" using table_entry [OF yoe_table, of "k + 1"] k 2(2) by (simp add: start)
    moreover have "doe \<noteq> 146096" using 2(2) by (auto simp: k_def yoe_of_def)
    ultimately have "civil_from_days (z + 1) = civil_of era (k + 1) (doe + 1 - year_start (k + 1))"
      using at [of era "doe + 1"] n doe by simp
    then have "civil_from_days (z + 1) = civil_of era (k + 1) 0" using start by simp
    moreover have "doe - year_start k + 1 = (if leap (k + 1) then 366 else 365)" using len 2(1) by simp
    ultimately show ?thesis using next_day_new_year [of "doe - year_start k" k era] by (simp only: now civil_of_first)
  next
    case 3
    then have "doe = 146096" by (simp add: year_end_def)
    then have "civil_from_days (z + 1) = civil_of (era + 1) 0 0"
      using at [of "era + 1" 0] n by (simp add: yoe_of_def year_start_def)
    moreover have "doe - year_start k + 1 = (if leap (k + 1) then 366 else 365)" using len 3(1) by simp
    ultimately show ?thesis
      using next_day_new_year [of "doe - year_start k" k era] 3(2) by (simp add: now civil_of_first del: if_split)
  qed
qed

text \<open>C38: The timestamp arithmetic of an export agrees with the calendar. \<open>civil_from_days\<close>, which computes a
  date from a day number by divisions only, maps day 0 to 1 January 1970, and \<open>n\<close> days later (also from a day
  before 1970) to the date reached by stepping \<open>n\<close> times through the Gregorian calendar with its month
  lengths and leap years.\<close>

theorem civil_from_days_is_the_calendar:
  "civil_from_days 0 = (1970, 1, 1) \<and> civil_from_days (z + int n) = (next_day ^^ n) (civil_from_days z)"
proof -
  have "civil_from_days (z + int n) = (next_day ^^ n) (civil_from_days z)"
  proof (induction n)
    case (Suc n)
    then show ?case using civil_step [of "z + int n"] by (simp add: algebra_simps)
  qed simp
  moreover have "civil_from_days 0 = (1970, 1, 1)" by code_simp
  ultimately show ?thesis by blast
qed


section \<open>Terminal output\<close>

text \<open>The reference: drop the blank records, group the rest at the gaps of more than two seconds, one block per group.\<close>

fun gap_groups :: "stored_record list \<Rightarrow> stored_record list list" where
  "gap_groups [] = []"
| "gap_groups [r] = [[r]]"
| "gap_groups (r # s # rs) =
    (if sr_ts s - sr_ts r > IO_MERGE_GAP_MS then [r] # gap_groups (s # rs)
     else (case gap_groups (s # rs) of [] \<Rightarrow> [[r]] | g # gs \<Rightarrow> (r # g) # gs))"

definition visible :: "stored_record \<Rightarrow> bool" where
  "visible r \<longleftrightarrow> str_trim (io_text r) \<noteq> []"

lemma gap_groups_nonempty: "gap_groups (r # rs) \<noteq> []"
  by (induction rs arbitrary: r) (auto split: list.split)

lemma visible_text: "visible r \<Longrightarrow> io_text r \<noteq> []"
  by (auto simp: visible_def str_trim_def trim_start_def trim_end_def strip_codes_None find_None_iff starts_with_iff)

lemma io_loop_visible: "io_loop recs blocks current last_ts = io_loop (filter visible recs) blocks current last_ts"
  by (induction recs arbitrary: blocks current last_ts) (auto simp: Let_def visible_def)

definition block_of :: "string \<Rightarrow> stored_record list \<Rightarrow> string" where
  "block_of prefix g = terminal_block (prefix @ concat (map io_text g))"

text \<open>Timestamps after 1970, in the range of \<open>i64\<close>.\<close>

definition positive_ts :: "stored_record \<Rightarrow> bool" where
  "positive_ts r \<longleftrightarrow> 0 < sr_ts r \<and> sr_ts r < 2 ^ 63"

lemma i64_sub_positive: "positive_ts r \<Longrightarrow> positive_ts s \<Longrightarrow> i64_sub (sr_ts s) (sr_ts r) = sr_ts s - sr_ts r"
  by (simp add: positive_ts_def i64_sub_def)

lemma io_loop_groups:
  assumes "list_all visible (r # rs)" "list_all positive_ts (r # rs)"
  shows "io_loop rs blocks (prefix @ io_text r) (sr_ts r) = blocks @
    (case gap_groups (r # rs) of g # gs \<Rightarrow> block_of prefix g # map (block_of []) gs | [] \<Rightarrow> [])"
  using assms
proof (induction rs arbitrary: r blocks prefix)
  case Nil
  then show ?case using visible_text [of r] by (simp add: block_of_def)
next
  case (Cons s rs)
  then have vis: "visible r" "visible s" "list_all visible (s # rs)" by simp_all
  from Cons.prems have pos: "0 < sr_ts r" "i64_sub (sr_ts s) (sr_ts r) = sr_ts s - sr_ts r" "list_all positive_ts (s # rs)"
    by (simp_all add: i64_sub_positive) (simp add: positive_ts_def)
  obtain g gs where g: "gap_groups (s # rs) = g # gs" using gap_groups_nonempty [of s rs] by (cases "gap_groups (s # rs)") auto
  note ih = Cons.IH [OF vis(3) pos(3)]
  show ?case
  proof (cases "sr_ts s - sr_ts r > IO_MERGE_GAP_MS")
    case True
    then have "io_loop (s # rs) blocks (prefix @ io_text r) (sr_ts r) =
        io_loop rs (blocks @ [terminal_block (prefix @ io_text r)]) ([] @ io_text s) (sr_ts s)"
      using vis pos visible_text [of r] by (simp add: Let_def visible_def)
    also have "\<dots> = (blocks @ [terminal_block (prefix @ io_text r)]) @ block_of [] g # map (block_of []) gs"
      unfolding ih g by simp
    finally show ?thesis using True g by (simp add: block_of_def)
  next
    case False
    then have "io_loop (s # rs) blocks (prefix @ io_text r) (sr_ts r) =
        io_loop rs blocks ((prefix @ io_text r) @ io_text s) (sr_ts s)"
      using vis pos visible_text [of r] by (auto simp: Let_def visible_def)
    also have "\<dots> = blocks @ block_of (prefix @ io_text r) g # map (block_of []) gs"
      unfolding ih g by simp
    finally show ?thesis using False g by (auto simp: block_of_def)
  qed
qed

text \<open>C39: Terminal output is exported without loss. For records with positive timestamps, the block-building
  loop of \<open>format_io_records\<close> gives one fenced block per group of consecutive visible records that are at most
  two seconds apart, each holding the stripped text of exactly those records in order; records that are
  blank once stripped only disappear.\<close>

theorem io_blocks_are_gap_groups:
  assumes "list_all positive_ts records"
  shows "format_io_records records = join (NL @ NL)
     (map (\<lambda>g. terminal_block (concat (map io_text g))) (gap_groups (filter visible records)))"
proof (cases "filter visible records")
  case Nil
  then show ?thesis using io_loop_visible [of records "[]" "[]" 0] by (simp add: format_io_records_def)
next
  case (Cons r rs)
  have vis: "list_all visible (r # rs)" "list_all positive_ts (r # rs)"
    unfolding Cons [symmetric] using assms by (simp_all add: list_all_iff)
  have "io_loop records [] [] 0 = io_loop (r # rs) [] [] 0" unfolding Cons [symmetric] by (rule io_loop_visible)
  also have "\<dots> = io_loop rs [] ([] @ io_text r) (sr_ts r)" using vis by (simp add: Let_def visible_def)
  also have "\<dots> = map (block_of []) (gap_groups (r # rs))"
    unfolding io_loop_groups [OF vis] using gap_groups_nonempty [of r rs] by (cases "gap_groups (r # rs)") simp_all
  finally show ?thesis using Cons by (auto simp: format_io_records_def block_of_def [abs_def])
qed

definition demo_io :: "int \<Rightarrow> stored_record" where
  "demo_io ts = \<lparr>sr_seq = 1, sr_kind = ''io'', sr_ts = ts, sr_ns = None, sr_name = None, sr_payload = [104, 105]\<rparr>"

theorem io_blocks_are_gap_groups_witness:
  "format_io_records [demo_io 1, demo_io 1500, demo_io 4000] =
    join (NL @ NL) (map (\<lambda>g. terminal_block (concat (map io_text g))) (gap_groups (filter visible [demo_io 1, demo_io 1500, demo_io 4000])))"
  by (rule io_blocks_are_gap_groups) (simp add: positive_ts_def demo_io_def)

section \<open>Stripping\<close>

definition plain_char :: "string \<Rightarrow> bool" where
  "plain_char c \<longleftrightarrow> c \<noteq> ESC \<and> c \<noteq> C1_CSI"

text \<open>The control sequences the loop recognises: an introducer, intermediates, parameters that start
  with a digit and a final byte other than a digit, or an OSC string with its terminator. The grammar
  in the source also has digits as final bytes; the loop takes every digit for a parameter first, so a
  sequence that ends in one is recognised only by a later final byte, and \<open>ESC 7\<close> before a blank is
  kept (\<open>digit_final_is_kept\<close>).\<close>

definition csi_sequence :: "string list \<Rightarrow> bool" where
  "csi_sequence q \<longleftrightarrow> (\<exists>start mids params f. q = start # mids @ params @ [f] \<and>
     (start = ESC \<and> take 1 mids \<noteq> ['']''] \<or> start = C1_CSI) \<and> list_all csi_intermediate mids \<and>
     (params = [] \<or> char_digit (hd params)) \<and> list_all csi_param params \<and> csi_final f \<and> \<not> char_digit f)"

definition osc_sequence :: "string list \<Rightarrow> bool" where
  "osc_sequence q \<longleftrightarrow> (\<exists>body term. q = ESC # '']'' # body @ term \<and> term \<in> set [[BEL], [ESC, [CHR 0x5C]], [C1_ST]] \<and>
     list_all (\<lambda>c. c \<noteq> BEL \<and> c \<noteq> ESC \<and> c \<noteq> C1_ST) body)"

lemma char_consts: "ESC \<noteq> BEL" "ESC \<noteq> C1_ST" "BEL \<noteq> C1_ST" "C1_CSI \<noteq> ESC" "ESC \<noteq> ''[''" "ESC \<noteq> '']''"
  by code_simp+

lemma osc_rest_body:
  "list_all (\<lambda>c. c \<noteq> BEL \<and> c \<noteq> ESC \<and> c \<noteq> C1_ST) body \<Longrightarrow> osc_rest (body @ cs) = osc_rest cs"
  by (induction body) auto

lemma strip_osc: "osc_sequence q \<Longrightarrow> strip_loop (q @ cs) = strip_loop cs"
  using char_consts by (auto simp: osc_sequence_def osc_rest_body)

lemma final_not_param: "csi_final f \<Longrightarrow> \<not> char_digit f \<Longrightarrow> \<not> csi_param f \<and> \<not> csi_intermediate f"
  by (auto simp: csi_final_def csi_param_def csi_intermediate_def char_digit_def in_range_def split: list.splits)

lemma digit_not_intermediate: "char_digit c \<Longrightarrow> \<not> csi_intermediate c"
  by (auto simp: csi_intermediate_def char_digit_def is_ascii_digit_def split: list.splits)

lemma csi_rest_sequence:
  assumes "list_all csi_intermediate mids" "params = [] \<or> char_digit (hd params)" "list_all csi_param params"
    "csi_final f" "\<not> char_digit f"
  shows "csi_rest (mids @ params @ [f] @ cs) = Some cs"
proof -
  note f = final_not_param [OF assms(4,5)]
  have mids: "dropWhile csi_intermediate (mids @ params @ [f] @ cs) = params @ [f] @ cs"
  proof -
    have "dropWhile csi_intermediate (mids @ xs) = dropWhile csi_intermediate xs" for xs
      using assms(1) by (simp add: dropWhile_append3 list_all_iff)
    then show ?thesis using assms(2) digit_not_intermediate f by (cases params) auto
  qed
  have "dropWhile csi_param (params @ [f] @ cs) = [f] @ cs"
    using assms(3) f by (simp add: dropWhile_append2 list_all_iff)
  then show ?thesis unfolding csi_rest_def mids using assms(2,4,5) by (cases params) (auto simp: Let_def)
qed

lemma strip_csi: "csi_sequence q \<Longrightarrow> strip_loop (q @ cs) = strip_loop cs"
proof -
  assume "csi_sequence q"
  then obtain start mids params f where q: "q = start # mids @ params @ [f]"
      "start = ESC \<and> take 1 mids \<noteq> ['']''] \<or> start = C1_CSI"
    and rest: "csi_rest (mids @ params @ [f] @ cs) = Some cs" and s: "params = [] \<or> char_digit (hd params)" "csi_final f" "\<not> char_digit f"
    unfolding csi_sequence_def using csi_rest_sequence by blast
  have "take 1 (mids @ params @ [f] @ cs) \<noteq> ['']''] \<or> start \<noteq> ESC"
    using q(2) s final_not_param [OF s(2,3)] char_consts(4)
    by (cases mids; cases params) (auto simp: csi_intermediate_def char_digit_def is_ascii_digit_def)
  with q rest show ?thesis by auto
qed

lemma strip_plain: "list_all plain_char t \<Longrightarrow> strip_loop (t @ cs) = t @ strip_loop cs"
  by (induction t) (auto simp: plain_char_def)

lemma digit_final_is_kept: "strip_ansi (ESC @ ''7 x'') = ESC @ ''7 x''"
  by code_simp

text \<open>Stripping removes the control sequences that do not end in a digit. A text made of plain
  stretches and, between them, such CSI sequences and terminated OSC sequences loses the sequences and
  nothing else; the last stretch is kept too.\<close>

theorem strip_ansi_removes_sequences:
  assumes "\<And>c. c \<in> set (concat (map (\<lambda>(t, q). t @ q) segs) @ tail) \<Longrightarrow> rust_string c \<and> utf8_chars c = [c]"
    and "\<And>t q. (t, q) \<in> set segs \<Longrightarrow> list_all plain_char t \<and> (csi_sequence q \<or> osc_sequence q)" "list_all plain_char tail"
  shows "strip_ansi (concat (concat (map (\<lambda>(t, q). t @ q) segs) @ tail)) = concat (concat (map fst segs) @ tail)"
proof -
  let ?cs = "concat (map (\<lambda>(t, q). t @ q) segs) @ tail"
  have loop: "strip_loop ?cs = concat (map fst segs) @ tail"
    using assms(2)
  proof (induction segs)
    case Nil
    then show ?case using strip_plain [OF assms(3), of "[]"] by simp
  next
    case (Cons p segs)
    obtain t q where p: "p = (t, q)" by fastforce
    have "strip_loop (concat (map (\<lambda>(t, q). t @ q) segs) @ tail) = concat (map fst segs) @ tail"
      by (rule Cons.IH) (rule Cons.prems, simp)
    with p Cons.prems [of t q] show ?case by (auto simp: strip_plain strip_csi strip_osc)
  qed
  have chars: "utf8_chars (concat ?cs) = ?cs" using concat_chars [of ?cs] assms(1) by blast
  show ?thesis
  proof (cases "ESC \<notin> set ?cs \<and> C1_CSI \<notin> set ?cs")
    case True
    then have "strip_loop (?cs @ []) = ?cs @ []" by (subst strip_plain) (auto simp: list_all_iff plain_char_def)
    with loop True show ?thesis unfolding strip_ansi_def chars Let_def by simp
  next
    case False
    then show ?thesis unfolding strip_ansi_def chars Let_def loop by (simp only: if_False)
  qed
qed

theorem strip_ansi_removes_sequences_witness:
  "strip_ansi (ESC @ ''[31mred'' @ ESC @ ''[0m plain'') = ''red plain''"
proof -
  let ?c = "map (\<lambda>c. [c])"
  let ?segs = "[([] :: string list, [ESC, ''['', ''3'', ''1'', ''m'']), (?c ''red'', [ESC, ''['', ''0'', ''m''])]"
  have "strip_ansi (concat (concat (map (\<lambda>(t, q). t @ q) ?segs) @ ?c '' plain'')) = concat (concat (map fst ?segs) @ ?c '' plain'')"
  proof (rule strip_ansi_removes_sequences)
    show "rust_string c \<and> utf8_chars c = [c]" if "c \<in> set (concat (map (\<lambda>(t, q). t @ q) ?segs) @ ?c '' plain'')" for c
    proof -
      have "list_all (\<lambda>c. rust_string c \<and> utf8_chars c = [c]) (concat (map (\<lambda>(t, q). t @ q) ?segs) @ ?c '' plain'')" by code_simp
      with that show ?thesis by (simp only: list_all_iff)
    qed
    have "csi_sequence [ESC, ''['', ''3'', ''1'', ''m'']" unfolding csi_sequence_def
      by (rule exI [of _ ESC], rule exI [of _ "[''['']"], rule exI [of _ "[''3'', ''1'']"], rule exI [of _ "''m''"]) code_simp
    moreover have "csi_sequence [ESC, ''['', ''0'', ''m'']" unfolding csi_sequence_def
      by (rule exI [of _ ESC], rule exI [of _ "[''['']"], rule exI [of _ "[''0'']"], rule exI [of _ "''m''"]) code_simp
    moreover have "list_all plain_char (?c ''red'')" by code_simp
    ultimately show "list_all plain_char t \<and> (csi_sequence q \<or> osc_sequence q)" if "(t, q) \<in> set ?segs" for t q using that by auto
    show "list_all plain_char (?c '' plain'')" by code_simp
  qed
  then show ?thesis by simp
qed

end
