(* ===== verification/Ipc_Messages.thy ===== *)
theory Ipc_Messages
  imports Label
begin

text \<open>
  The runner-daemon messages (\<open>tp-proto/src/ipc.rs\<close>): the union, the hand-written parser with one
  definition per arm of its \<open>match\<close>, and the JSON that the derived serializer emits.
\<close>

section \<open>Enumerations\<close>

datatype pair_begin_err_reason = BeginErrAlreadyPending | BeginErrDaemonIdTaken | BeginErrRelayUnreachable | BeginErrInternal

fun pair_begin_err_reason_str :: "pair_begin_err_reason \<Rightarrow> string" where
  "pair_begin_err_reason_str BeginErrAlreadyPending = ''already-pending''"
| "pair_begin_err_reason_str BeginErrDaemonIdTaken = ''daemon-id-taken''"
| "pair_begin_err_reason_str BeginErrRelayUnreachable = ''relay-unreachable''"
| "pair_begin_err_reason_str BeginErrInternal = ''internal''"

definition pair_begin_err_reason_from_str :: "string \<Rightarrow> pair_begin_err_reason option" where
  "pair_begin_err_reason_from_str s =
    (if s = ''already-pending'' then Some BeginErrAlreadyPending
     else if s = ''daemon-id-taken'' then Some BeginErrDaemonIdTaken
     else if s = ''relay-unreachable'' then Some BeginErrRelayUnreachable
     else if s = ''internal'' then Some BeginErrInternal else None)"

datatype pair_error_reason = PairErrRelayUnreachable | PairErrRelayClosed | PairErrKxDecryptFailed | PairErrInternal

fun pair_error_reason_str :: "pair_error_reason \<Rightarrow> string" where
  "pair_error_reason_str PairErrRelayUnreachable = ''relay-unreachable''"
| "pair_error_reason_str PairErrRelayClosed = ''relay-closed''"
| "pair_error_reason_str PairErrKxDecryptFailed = ''kx-decrypt-failed''"
| "pair_error_reason_str PairErrInternal = ''internal''"

definition pair_error_reason_from_str :: "string \<Rightarrow> pair_error_reason option" where
  "pair_error_reason_from_str s =
    (if s = ''relay-unreachable'' then Some PairErrRelayUnreachable
     else if s = ''relay-closed'' then Some PairErrRelayClosed
     else if s = ''kx-decrypt-failed'' then Some PairErrKxDecryptFailed
     else if s = ''internal'' then Some PairErrInternal else None)"

datatype pair_remove_err_reason = RemoveErrNotFound | RemoveErrInternal

fun pair_remove_err_reason_str :: "pair_remove_err_reason \<Rightarrow> string" where
  "pair_remove_err_reason_str RemoveErrNotFound = ''not-found''"
| "pair_remove_err_reason_str RemoveErrInternal = ''internal''"

definition pair_remove_err_reason_from_str :: "string \<Rightarrow> pair_remove_err_reason option" where
  "pair_remove_err_reason_from_str s =
    (if s = ''not-found'' then Some RemoveErrNotFound
     else if s = ''internal'' then Some RemoveErrInternal else None)"

datatype pair_rename_err_reason = RenameErrNotFound | RenameErrInternal

fun pair_rename_err_reason_str :: "pair_rename_err_reason \<Rightarrow> string" where
  "pair_rename_err_reason_str RenameErrNotFound = ''not-found''"
| "pair_rename_err_reason_str RenameErrInternal = ''internal''"

definition pair_rename_err_reason_from_str :: "string \<Rightarrow> pair_rename_err_reason option" where
  "pair_rename_err_reason_from_str s =
    (if s = ''not-found'' then Some RenameErrNotFound
     else if s = ''internal'' then Some RenameErrInternal else None)"

datatype session_delete_err_reason = DeleteErrNotFound | DeleteErrInternal

fun session_delete_err_reason_str :: "session_delete_err_reason \<Rightarrow> string" where
  "session_delete_err_reason_str DeleteErrNotFound = ''not-found''"
| "session_delete_err_reason_str DeleteErrInternal = ''internal''"

definition session_delete_err_reason_from_str :: "string \<Rightarrow> session_delete_err_reason option" where
  "session_delete_err_reason_from_str s =
    (if s = ''not-found'' then Some DeleteErrNotFound
     else if s = ''internal'' then Some DeleteErrInternal else None)"

datatype session_prune_err_reason = PruneErrInternal

fun session_prune_err_reason_str :: "session_prune_err_reason \<Rightarrow> string" where
  "session_prune_err_reason_str PruneErrInternal = ''internal''"

definition session_prune_err_reason_from_str :: "string \<Rightarrow> session_prune_err_reason option" where
  "session_prune_err_reason_from_str s =
    (if s = ''internal'' then Some PruneErrInternal else None)"

datatype bye_reason = ByeSignal | ByeExit

fun bye_reason_str :: "bye_reason \<Rightarrow> string" where
  "bye_reason_str ByeSignal = ''signal''"
| "bye_reason_str ByeExit = ''exit''"

definition bye_reason_from_str :: "string \<Rightarrow> bye_reason option" where
  "bye_reason_from_str s =
    (if s = ''signal'' then Some ByeSignal
     else if s = ''exit'' then Some ByeExit else None)"

datatype record_kind = KindIo | KindEvent | KindMeta

fun record_kind_str :: "record_kind \<Rightarrow> string" where
  "record_kind_str KindIo = ''io''"
| "record_kind_str KindEvent = ''event''"
| "record_kind_str KindMeta = ''meta''"

definition record_kind_from_str :: "string \<Rightarrow> record_kind option" where
  "record_kind_from_str s =
    (if s = ''io'' then Some KindIo
     else if s = ''event'' then Some KindEvent
     else if s = ''meta'' then Some KindMeta else None)"

datatype namespace = NsClaude | NsTp | NsRunner | NsDaemon

fun namespace_str :: "namespace \<Rightarrow> string" where
  "namespace_str NsClaude = ''claude''"
| "namespace_str NsTp = ''tp''"
| "namespace_str NsRunner = ''runner''"
| "namespace_str NsDaemon = ''daemon''"

definition namespace_from_str :: "string \<Rightarrow> namespace option" where
  "namespace_from_str s =
    (if s = ''claude'' then Some NsClaude
     else if s = ''tp'' then Some NsTp
     else if s = ''runner'' then Some NsRunner
     else if s = ''daemon'' then Some NsDaemon else None)"

fun namespace_parse_opt :: "json option \<Rightarrow> namespace option option" where
  "namespace_parse_opt None = Some None"
| "namespace_parse_opt (Some (JString s)) = map_option Some (namespace_from_str s)"
| "namespace_parse_opt (Some _) = None"

datatype age_filter = AgeAll | OlderThan u64

definition parse_age_filter :: "json option \<Rightarrow> age_filter option" where
  "parse_age_filter v =
    Option.bind (Option.bind v as_object) (\<lambda>obj.
    Option.bind (Option.bind (hm_get obj ''kind'') as_str) (\<lambda>kind.
      if kind = ''all'' then Some AgeAll
      else if kind = ''olderThan''
      then map_option OlderThan (Option.bind (hm_get obj ''ms'') proto_is_non_negative_int)
      else None))"

fun age_to_json :: "age_filter \<Rightarrow> json" where
  "age_to_json AgeAll = JObject [(''kind'', JString ''all'')]"
| "age_to_json (OlderThan ms) = JObject [(''kind'', JString ''olderThan''), (''ms'', json_u64 ms)]"

fun parse_label_field :: "json option \<Rightarrow> label option" where
  "parse_label_field None = Some (decode_wire_label JNull)"
| "parse_label_field (Some JNull) = Some (decode_wire_label JNull)"
| "parse_label_field (Some (JString s)) = Some (decode_wire_label (JString s))"
| "parse_label_field (Some (JObject obj)) =
    (if hm_contains obj ''set'' then Some (decode_wire_label (JObject obj)) else None)"
| "parse_label_field (Some _) = None"

record doctor_relay_status =
  dr_daemon_id :: string
  dr_relay_url :: string
  dr_connected :: bool
  dr_peer_count :: u64
  dr_throttled :: "bool option"

definition parse_relay_status :: "json \<Rightarrow> doctor_relay_status option" where
  "parse_relay_status r =
    Option.bind (as_object r) (\<lambda>ro.
    Option.bind (req_string ro ''daemonId'') (\<lambda>daemon_id.
    Option.bind (req_string ro ''relayUrl'') (\<lambda>relay_url.
    Option.bind (req_bool ro ''connected'') (\<lambda>connected.
    Option.bind (Option.bind (hm_get ro ''peerCount'') proto_is_non_negative_int) (\<lambda>peer_count.
    Option.bind (opt_bool ro ''throttled'') (\<lambda>throttled.
      Some \<lparr>dr_daemon_id = daemon_id, dr_relay_url = relay_url, dr_connected = connected,
        dr_peer_count = peer_count, dr_throttled = throttled\<rparr>))))))"

definition relay_status_to_json :: "doctor_relay_status \<Rightarrow> json" where
  "relay_status_to_json s = JObject ([(''daemonId'', JString (dr_daemon_id s)),
     (''relayUrl'', JString (dr_relay_url s)), (''connected'', JBool (dr_connected s)),
     (''peerCount'', json_u64 (dr_peer_count s))] @ opt_field ''throttled'' JBool (dr_throttled s))"

text \<open>A field that may be absent, and must be valid when it is present.\<close>

definition opt_with :: "(json \<Rightarrow> 'a option) \<Rightarrow> json option \<Rightarrow> 'a option option" where
  "opt_with f v = (case v of None \<Rightarrow> Some None | Some x \<Rightarrow> map_option Some (f x))"

section \<open>The message union\<close>

datatype ipc_message =
    IpcHello string string u64 "string option" "string option" \<comment> \<open>sid, cwd, pid, worktreePath, claudeVersion\<close>
  | IpcRec string record_kind f64 string "namespace option" "string option" \<comment> \<open>sid, kind, ts, payload, ns, name\<close>
  | IpcBye string f64 "u64 option" "bye_reason option" \<comment> \<open>sid, exitCode, pid, reason\<close>
  | IpcAck string u64 \<comment> \<open>sid, seq\<close>
  | IpcInput string string \<comment> \<open>sid, data\<close>
  | IpcResize string u64 u64 \<comment> \<open>sid, cols, rows\<close>
  | IpcPairBegin string "string option" "label option" \<comment> \<open>relayUrl, daemonId, label\<close>
  | IpcPairBeginOk string string string \<comment> \<open>pairingId, qrString, daemonId\<close>
  | IpcPairBeginErr pair_begin_err_reason "string option" \<comment> \<open>reason, message\<close>
  | IpcPairCancel string \<comment> \<open>pairingId\<close>
  | IpcPairCompleted string string label \<comment> \<open>pairingId, daemonId, label\<close>
  | IpcPairCancelled string \<comment> \<open>pairingId\<close>
  | IpcPairError string pair_error_reason "string option" \<comment> \<open>pairingId, reason, message\<close>
  | IpcPairRemove string \<comment> \<open>daemonId\<close>
  | IpcPairRemoveOk string u64 \<comment> \<open>daemonId, notifiedPeers\<close>
  | IpcPairRemoveErr string pair_remove_err_reason "string option" \<comment> \<open>daemonId, reason, message\<close>
  | IpcPairRename string label \<comment> \<open>daemonId, label\<close>
  | IpcPairRenameOk string label u64 \<comment> \<open>daemonId, label, notifiedPeers\<close>
  | IpcPairRenameErr string pair_rename_err_reason "string option" \<comment> \<open>daemonId, reason, message\<close>
  | IpcSessionDelete string \<comment> \<open>sid\<close>
  | IpcSessionDeleteOk string bool \<comment> \<open>sid, wasRunning\<close>
  | IpcSessionDeleteErr string session_delete_err_reason "string option" \<comment> \<open>sid, reason, message\<close>
  | IpcSessionPrune age_filter bool bool \<comment> \<open>age, includeRunning, dryRun\<close>
  | IpcSessionPruneOk "string list" u64 bool \<comment> \<open>sids, runningKilled, dryRun\<close>
  | IpcSessionPruneErr session_prune_err_reason "string option" "string list" u64 \<comment> \<open>reason, message, partialSids, partialRunningKilled\<close>
  | IpcDoctorProbe
  | IpcDoctorProbeOk "doctor_relay_status list" \<comment> \<open>relays\<close>

definition parse_ipc_hello :: "json_object \<Rightarrow> ipc_message option" where
  "parse_ipc_hello obj =
    Option.bind (req_string obj ''sid'') (\<lambda>sid.
    Option.bind (req_string obj ''cwd'') (\<lambda>cwd.
    Option.bind (Option.bind (hm_get obj ''pid'') is_positive_int) (\<lambda>pid.
    Option.bind (opt_string obj ''worktreePath'') (\<lambda>worktree_path.
    Option.bind (opt_string obj ''claudeVersion'') (\<lambda>claude_version.
      Some (IpcHello sid cwd pid worktree_path claude_version))))))"

definition parse_ipc_rec :: "json_object \<Rightarrow> ipc_message option" where
  "parse_ipc_rec obj =
    Option.bind (req_string obj ''sid'') (\<lambda>sid.
    Option.bind (Option.bind (Option.bind (hm_get obj ''kind'') as_str) record_kind_from_str) (\<lambda>kind.
    Option.bind (Option.bind (hm_get obj ''ts'') is_number) (\<lambda>ts.
    Option.bind (req_string obj ''payload'') (\<lambda>payload.
    Option.bind (namespace_parse_opt (hm_get obj ''ns'')) (\<lambda>ns.
    Option.bind (opt_string obj ''name'') (\<lambda>nam.
      Some (IpcRec sid kind ts payload ns nam)))))))"

definition parse_ipc_bye :: "json_object \<Rightarrow> ipc_message option" where
  "parse_ipc_bye obj =
    Option.bind (req_string obj ''sid'') (\<lambda>sid.
    Option.bind (Option.bind (hm_get obj ''exitCode'') is_number) (\<lambda>exit_code.
    Option.bind (opt_with is_positive_int (hm_get obj ''pid'')) (\<lambda>pid.
    Option.bind (opt_with (\<lambda>v. Option.bind (as_str v) bye_reason_from_str) (hm_get obj ''reason'')) (\<lambda>reason.
      Some (IpcBye sid exit_code pid reason)))))"

definition parse_ipc_ack :: "json_object \<Rightarrow> ipc_message option" where
  "parse_ipc_ack obj =
    Option.bind (req_string obj ''sid'') (\<lambda>sid.
    Option.bind (Option.bind (hm_get obj ''seq'') proto_is_non_negative_int) (\<lambda>seq.
      Some (IpcAck sid seq)))"

definition parse_ipc_input :: "json_object \<Rightarrow> ipc_message option" where
  "parse_ipc_input obj =
    Option.bind (req_string obj ''sid'') (\<lambda>sid.
    Option.bind (req_string obj ''data'') (\<lambda>dat.
      Some (IpcInput sid dat)))"

definition parse_ipc_resize :: "json_object \<Rightarrow> ipc_message option" where
  "parse_ipc_resize obj =
    Option.bind (req_string obj ''sid'') (\<lambda>sid.
    Option.bind (Option.bind (hm_get obj ''cols'') is_terminal_dimension) (\<lambda>cols.
    Option.bind (Option.bind (hm_get obj ''rows'') is_terminal_dimension) (\<lambda>rows.
      Some (IpcResize sid cols rows))))"

definition parse_ipc_pair_begin :: "json_object \<Rightarrow> ipc_message option" where
  "parse_ipc_pair_begin obj =
    Option.bind (req_string obj ''relayUrl'') (\<lambda>relay_url.
    Option.bind (opt_string obj ''daemonId'') (\<lambda>daemon_id.
    Option.bind (opt_with (\<lambda>v. parse_label_field (Some v)) (hm_get obj ''label'')) (\<lambda>label.
      Some (IpcPairBegin relay_url daemon_id label))))"

definition parse_ipc_pair_begin_ok :: "json_object \<Rightarrow> ipc_message option" where
  "parse_ipc_pair_begin_ok obj =
    Option.bind (req_string obj ''pairingId'') (\<lambda>pairing_id.
    Option.bind (req_string obj ''qrString'') (\<lambda>qr_string.
    Option.bind (req_string obj ''daemonId'') (\<lambda>daemon_id.
      Some (IpcPairBeginOk pairing_id qr_string daemon_id))))"

definition parse_ipc_pair_begin_err :: "json_object \<Rightarrow> ipc_message option" where
  "parse_ipc_pair_begin_err obj =
    Option.bind (Option.bind (Option.bind (hm_get obj ''reason'') as_str) pair_begin_err_reason_from_str) (\<lambda>reason.
    Option.bind (opt_string obj ''message'') (\<lambda>message.
      Some (IpcPairBeginErr reason message)))"

definition parse_ipc_pair_cancel :: "json_object \<Rightarrow> ipc_message option" where
  "parse_ipc_pair_cancel obj =
    Option.bind (req_string obj ''pairingId'') (\<lambda>pairing_id.
      Some (IpcPairCancel pairing_id))"

definition parse_ipc_pair_completed :: "json_object \<Rightarrow> ipc_message option" where
  "parse_ipc_pair_completed obj =
    Option.bind (req_string obj ''pairingId'') (\<lambda>pairing_id.
    Option.bind (req_string obj ''daemonId'') (\<lambda>daemon_id.
    Option.bind (parse_label_field (hm_get obj ''label'')) (\<lambda>label.
      Some (IpcPairCompleted pairing_id daemon_id label))))"

definition parse_ipc_pair_cancelled :: "json_object \<Rightarrow> ipc_message option" where
  "parse_ipc_pair_cancelled obj =
    Option.bind (req_string obj ''pairingId'') (\<lambda>pairing_id.
      Some (IpcPairCancelled pairing_id))"

definition parse_ipc_pair_error :: "json_object \<Rightarrow> ipc_message option" where
  "parse_ipc_pair_error obj =
    Option.bind (req_string obj ''pairingId'') (\<lambda>pairing_id.
    Option.bind (Option.bind (Option.bind (hm_get obj ''reason'') as_str) pair_error_reason_from_str) (\<lambda>reason.
    Option.bind (opt_string obj ''message'') (\<lambda>message.
      Some (IpcPairError pairing_id reason message))))"

definition parse_ipc_pair_remove :: "json_object \<Rightarrow> ipc_message option" where
  "parse_ipc_pair_remove obj =
    Option.bind (req_string obj ''daemonId'') (\<lambda>daemon_id.
      Some (IpcPairRemove daemon_id))"

definition parse_ipc_pair_remove_ok :: "json_object \<Rightarrow> ipc_message option" where
  "parse_ipc_pair_remove_ok obj =
    Option.bind (req_string obj ''daemonId'') (\<lambda>daemon_id.
    Option.bind (Option.bind (hm_get obj ''notifiedPeers'') proto_is_non_negative_int) (\<lambda>notified_peers.
      Some (IpcPairRemoveOk daemon_id notified_peers)))"

definition parse_ipc_pair_remove_err :: "json_object \<Rightarrow> ipc_message option" where
  "parse_ipc_pair_remove_err obj =
    Option.bind (req_string obj ''daemonId'') (\<lambda>daemon_id.
    Option.bind (Option.bind (Option.bind (hm_get obj ''reason'') as_str) pair_remove_err_reason_from_str) (\<lambda>reason.
    Option.bind (opt_string obj ''message'') (\<lambda>message.
      Some (IpcPairRemoveErr daemon_id reason message))))"

definition parse_ipc_pair_rename :: "json_object \<Rightarrow> ipc_message option" where
  "parse_ipc_pair_rename obj =
    Option.bind (req_string obj ''daemonId'') (\<lambda>daemon_id.
    Option.bind (parse_label_field (hm_get obj ''label'')) (\<lambda>label.
      Some (IpcPairRename daemon_id label)))"

definition parse_ipc_pair_rename_ok :: "json_object \<Rightarrow> ipc_message option" where
  "parse_ipc_pair_rename_ok obj =
    Option.bind (req_string obj ''daemonId'') (\<lambda>daemon_id.
    Option.bind (parse_label_field (hm_get obj ''label'')) (\<lambda>label.
    Option.bind (Option.bind (hm_get obj ''notifiedPeers'') proto_is_non_negative_int) (\<lambda>notified_peers.
      Some (IpcPairRenameOk daemon_id label notified_peers))))"

definition parse_ipc_pair_rename_err :: "json_object \<Rightarrow> ipc_message option" where
  "parse_ipc_pair_rename_err obj =
    Option.bind (req_string obj ''daemonId'') (\<lambda>daemon_id.
    Option.bind (Option.bind (Option.bind (hm_get obj ''reason'') as_str) pair_rename_err_reason_from_str) (\<lambda>reason.
    Option.bind (opt_string obj ''message'') (\<lambda>message.
      Some (IpcPairRenameErr daemon_id reason message))))"

definition parse_ipc_session_delete :: "json_object \<Rightarrow> ipc_message option" where
  "parse_ipc_session_delete obj =
    Option.bind (req_string obj ''sid'') (\<lambda>sid.
      Some (IpcSessionDelete sid))"

definition parse_ipc_session_delete_ok :: "json_object \<Rightarrow> ipc_message option" where
  "parse_ipc_session_delete_ok obj =
    Option.bind (req_string obj ''sid'') (\<lambda>sid.
    Option.bind (req_bool obj ''wasRunning'') (\<lambda>was_running.
      Some (IpcSessionDeleteOk sid was_running)))"

definition parse_ipc_session_delete_err :: "json_object \<Rightarrow> ipc_message option" where
  "parse_ipc_session_delete_err obj =
    Option.bind (req_string obj ''sid'') (\<lambda>sid.
    Option.bind (Option.bind (Option.bind (hm_get obj ''reason'') as_str) session_delete_err_reason_from_str) (\<lambda>reason.
    Option.bind (opt_string obj ''message'') (\<lambda>message.
      Some (IpcSessionDeleteErr sid reason message))))"

definition parse_ipc_session_prune :: "json_object \<Rightarrow> ipc_message option" where
  "parse_ipc_session_prune obj =
    Option.bind (parse_age_filter (hm_get obj ''age'')) (\<lambda>age.
    Option.bind (req_bool obj ''includeRunning'') (\<lambda>include_running.
    Option.bind (req_bool obj ''dryRun'') (\<lambda>dry_run.
      Some (IpcSessionPrune age include_running dry_run))))"

definition parse_ipc_session_prune_ok :: "json_object \<Rightarrow> ipc_message option" where
  "parse_ipc_session_prune_ok obj =
    Option.bind (Option.bind (hm_get obj ''sids'') as_string_array) (\<lambda>sids.
    Option.bind (Option.bind (hm_get obj ''runningKilled'') proto_is_non_negative_int) (\<lambda>running_killed.
    Option.bind (req_bool obj ''dryRun'') (\<lambda>dry_run.
      Some (IpcSessionPruneOk sids running_killed dry_run))))"

definition parse_ipc_session_prune_err :: "json_object \<Rightarrow> ipc_message option" where
  "parse_ipc_session_prune_err obj =
    Option.bind (Option.bind (Option.bind (hm_get obj ''reason'') as_str) session_prune_err_reason_from_str) (\<lambda>reason.
    Option.bind (opt_string obj ''message'') (\<lambda>message.
    Option.bind (Option.bind (hm_get obj ''partialSids'') as_string_array) (\<lambda>partial_sids.
    Option.bind (Option.bind (hm_get obj ''partialRunningKilled'') proto_is_non_negative_int) (\<lambda>partial_running_killed.
      Some (IpcSessionPruneErr reason message partial_sids partial_running_killed)))))"

definition parse_ipc_doctor_probe_ok :: "json_object \<Rightarrow> ipc_message option" where
  "parse_ipc_doctor_probe_ok obj =
    Option.bind (Option.bind (Option.bind (hm_get obj ''relays'') as_array) (\<lambda>xs. collect_options (map parse_relay_status xs))) (\<lambda>relays.
      Some (IpcDoctorProbeOk relays))"

definition parse_ipc_message :: "json \<Rightarrow> ipc_message option" where
  "parse_ipc_message raw =
    Option.bind (as_object raw) (\<lambda>obj.
    Option.bind (Option.bind (hm_get obj ''t'') as_str) (\<lambda>t.
      if t = ''hello'' then parse_ipc_hello obj
      else if t = ''rec'' then parse_ipc_rec obj
      else if t = ''bye'' then parse_ipc_bye obj
      else if t = ''ack'' then parse_ipc_ack obj
      else if t = ''input'' then parse_ipc_input obj
      else if t = ''resize'' then parse_ipc_resize obj
      else if t = ''pair.begin'' then parse_ipc_pair_begin obj
      else if t = ''pair.begin.ok'' then parse_ipc_pair_begin_ok obj
      else if t = ''pair.begin.err'' then parse_ipc_pair_begin_err obj
      else if t = ''pair.cancel'' then parse_ipc_pair_cancel obj
      else if t = ''pair.completed'' then parse_ipc_pair_completed obj
      else if t = ''pair.cancelled'' then parse_ipc_pair_cancelled obj
      else if t = ''pair.error'' then parse_ipc_pair_error obj
      else if t = ''pair.remove'' then parse_ipc_pair_remove obj
      else if t = ''pair.remove.ok'' then parse_ipc_pair_remove_ok obj
      else if t = ''pair.remove.err'' then parse_ipc_pair_remove_err obj
      else if t = ''pair.rename'' then parse_ipc_pair_rename obj
      else if t = ''pair.rename.ok'' then parse_ipc_pair_rename_ok obj
      else if t = ''pair.rename.err'' then parse_ipc_pair_rename_err obj
      else if t = ''session.delete'' then parse_ipc_session_delete obj
      else if t = ''session.delete.ok'' then parse_ipc_session_delete_ok obj
      else if t = ''session.delete.err'' then parse_ipc_session_delete_err obj
      else if t = ''session.prune'' then parse_ipc_session_prune obj
      else if t = ''session.prune.ok'' then parse_ipc_session_prune_ok obj
      else if t = ''session.prune.err'' then parse_ipc_session_prune_err obj
      else if t = ''doctor.probe'' then Some IpcDoctorProbe
      else if t = ''doctor.probe.ok'' then parse_ipc_doctor_probe_ok obj
      else None))"

fun ipc_to_json :: "ipc_message \<Rightarrow> json" where
  "ipc_to_json (IpcHello sid cwd pid worktree_path claude_version) =
    JObject ([(''t'', JString ''hello''), (''sid'', JString sid), (''cwd'', JString cwd)]
      @ opt_field ''worktreePath'' JString worktree_path
      @ opt_field ''claudeVersion'' JString claude_version
      @ [(''pid'', json_u64 pid)])"
| "ipc_to_json (IpcRec sid kind ts payload ns nam) =
    JObject ([(''t'', JString ''rec''), (''sid'', JString sid), (''kind'', JString (record_kind_str kind)), (''ts'', json_f64 ts)]
      @ opt_field ''ns'' (\<lambda>n. JString (namespace_str n)) ns
      @ opt_field ''name'' JString nam
      @ [(''payload'', JString payload)])"
| "ipc_to_json (IpcBye sid exit_code pid reason) =
    JObject ([(''t'', JString ''bye''), (''sid'', JString sid), (''exitCode'', json_f64 exit_code)]
      @ opt_field ''pid'' json_u64 pid
      @ opt_field ''reason'' (\<lambda>r. JString (bye_reason_str r)) reason)"
| "ipc_to_json (IpcAck sid seq) =
    JObject [(''t'', JString ''ack''), (''sid'', JString sid), (''seq'', json_u64 seq)]"
| "ipc_to_json (IpcInput sid dat) =
    JObject [(''t'', JString ''input''), (''sid'', JString sid), (''data'', JString dat)]"
| "ipc_to_json (IpcResize sid cols rows) =
    JObject [(''t'', JString ''resize''), (''sid'', JString sid), (''cols'', json_u64 cols), (''rows'', json_u64 rows)]"
| "ipc_to_json (IpcPairBegin relay_url daemon_id label) =
    JObject ([(''t'', JString ''pair.begin''), (''relayUrl'', JString relay_url)]
      @ opt_field ''daemonId'' JString daemon_id
      @ opt_field ''label'' label_to_json label)"
| "ipc_to_json (IpcPairBeginOk pairing_id qr_string daemon_id) =
    JObject [(''t'', JString ''pair.begin.ok''), (''pairingId'', JString pairing_id), (''qrString'', JString qr_string), (''daemonId'', JString daemon_id)]"
| "ipc_to_json (IpcPairBeginErr reason message) =
    JObject ([(''t'', JString ''pair.begin.err''), (''reason'', JString (pair_begin_err_reason_str reason))]
      @ opt_field ''message'' JString message)"
| "ipc_to_json (IpcPairCancel pairing_id) =
    JObject [(''t'', JString ''pair.cancel''), (''pairingId'', JString pairing_id)]"
| "ipc_to_json (IpcPairCompleted pairing_id daemon_id label) =
    JObject [(''t'', JString ''pair.completed''), (''pairingId'', JString pairing_id), (''daemonId'', JString daemon_id), (''label'', label_to_json label)]"
| "ipc_to_json (IpcPairCancelled pairing_id) =
    JObject [(''t'', JString ''pair.cancelled''), (''pairingId'', JString pairing_id)]"
| "ipc_to_json (IpcPairError pairing_id reason message) =
    JObject ([(''t'', JString ''pair.error''), (''pairingId'', JString pairing_id), (''reason'', JString (pair_error_reason_str reason))]
      @ opt_field ''message'' JString message)"
| "ipc_to_json (IpcPairRemove daemon_id) =
    JObject [(''t'', JString ''pair.remove''), (''daemonId'', JString daemon_id)]"
| "ipc_to_json (IpcPairRemoveOk daemon_id notified_peers) =
    JObject [(''t'', JString ''pair.remove.ok''), (''daemonId'', JString daemon_id), (''notifiedPeers'', json_u64 notified_peers)]"
| "ipc_to_json (IpcPairRemoveErr daemon_id reason message) =
    JObject ([(''t'', JString ''pair.remove.err''), (''daemonId'', JString daemon_id), (''reason'', JString (pair_remove_err_reason_str reason))]
      @ opt_field ''message'' JString message)"
| "ipc_to_json (IpcPairRename daemon_id label) =
    JObject [(''t'', JString ''pair.rename''), (''daemonId'', JString daemon_id), (''label'', label_to_json label)]"
| "ipc_to_json (IpcPairRenameOk daemon_id label notified_peers) =
    JObject [(''t'', JString ''pair.rename.ok''), (''daemonId'', JString daemon_id), (''label'', label_to_json label), (''notifiedPeers'', json_u64 notified_peers)]"
| "ipc_to_json (IpcPairRenameErr daemon_id reason message) =
    JObject ([(''t'', JString ''pair.rename.err''), (''daemonId'', JString daemon_id), (''reason'', JString (pair_rename_err_reason_str reason))]
      @ opt_field ''message'' JString message)"
| "ipc_to_json (IpcSessionDelete sid) =
    JObject [(''t'', JString ''session.delete''), (''sid'', JString sid)]"
| "ipc_to_json (IpcSessionDeleteOk sid was_running) =
    JObject [(''t'', JString ''session.delete.ok''), (''sid'', JString sid), (''wasRunning'', JBool was_running)]"
| "ipc_to_json (IpcSessionDeleteErr sid reason message) =
    JObject ([(''t'', JString ''session.delete.err''), (''sid'', JString sid), (''reason'', JString (session_delete_err_reason_str reason))]
      @ opt_field ''message'' JString message)"
| "ipc_to_json (IpcSessionPrune age include_running dry_run) =
    JObject [(''t'', JString ''session.prune''), (''age'', age_to_json age), (''includeRunning'', JBool include_running), (''dryRun'', JBool dry_run)]"
| "ipc_to_json (IpcSessionPruneOk sids running_killed dry_run) =
    JObject [(''t'', JString ''session.prune.ok''), (''sids'', JArray (map JString sids)), (''runningKilled'', json_u64 running_killed), (''dryRun'', JBool dry_run)]"
| "ipc_to_json (IpcSessionPruneErr reason message partial_sids partial_running_killed) =
    JObject ([(''t'', JString ''session.prune.err''), (''reason'', JString (session_prune_err_reason_str reason))]
      @ opt_field ''message'' JString message
      @ [(''partialSids'', JArray (map JString partial_sids)), (''partialRunningKilled'', json_u64 partial_running_killed)])"
| "ipc_to_json IpcDoctorProbe =
    JObject [(''t'', JString ''doctor.probe'')]"
| "ipc_to_json (IpcDoctorProbeOk relays) =
    JObject [(''t'', JString ''doctor.probe.ok''), (''relays'', JArray (map relay_status_to_json relays))]"


text \<open>What the parser demands beyond the types.\<close>

fun ipc_message_ok :: "ipc_message \<Rightarrow> bool" where
  "ipc_message_ok (IpcHello _ _ pid _ _) \<longleftrightarrow> 0 < pid"
| "ipc_message_ok (IpcBye _ _ pid _) \<longleftrightarrow> pid \<noteq> Some 0"
| "ipc_message_ok (IpcResize _ cols rows) \<longleftrightarrow> 0 < cols \<and> cols \<le> MAX_TERMINAL_DIMENSION \<and> 0 < rows \<and> rows \<le> MAX_TERMINAL_DIMENSION"
| "ipc_message_ok (IpcPairBegin _ _ label) \<longleftrightarrow> (\<forall>l. label = Some l \<longrightarrow> label_ok l)"
| "ipc_message_ok (IpcPairCompleted _ _ label) \<longleftrightarrow> label_ok label"
| "ipc_message_ok (IpcPairRename _ label) \<longleftrightarrow> label_ok label"
| "ipc_message_ok (IpcPairRenameOk _ label _) \<longleftrightarrow> label_ok label"
| "ipc_message_ok _ \<longleftrightarrow> True"


section \<open>Lemmas\<close>

lemma pair_begin_err_reason_roundtrip [simp]: "pair_begin_err_reason_from_str (pair_begin_err_reason_str r) = Some r"
  by (cases r) (simp_all add: pair_begin_err_reason_from_str_def)

lemma pair_error_reason_roundtrip [simp]: "pair_error_reason_from_str (pair_error_reason_str r) = Some r"
  by (cases r) (simp_all add: pair_error_reason_from_str_def)

lemma pair_remove_err_reason_roundtrip [simp]: "pair_remove_err_reason_from_str (pair_remove_err_reason_str r) = Some r"
  by (cases r) (simp_all add: pair_remove_err_reason_from_str_def)

lemma pair_rename_err_reason_roundtrip [simp]: "pair_rename_err_reason_from_str (pair_rename_err_reason_str r) = Some r"
  by (cases r) (simp_all add: pair_rename_err_reason_from_str_def)

lemma session_delete_err_reason_roundtrip [simp]: "session_delete_err_reason_from_str (session_delete_err_reason_str r) = Some r"
  by (cases r) (simp_all add: session_delete_err_reason_from_str_def)

lemma session_prune_err_reason_roundtrip [simp]: "session_prune_err_reason_from_str (session_prune_err_reason_str r) = Some r"
  by (cases r) (simp_all add: session_prune_err_reason_from_str_def)

lemma bye_reason_roundtrip [simp]: "bye_reason_from_str (bye_reason_str r) = Some r"
  by (cases r) (simp_all add: bye_reason_from_str_def)

lemma record_kind_roundtrip [simp]: "record_kind_from_str (record_kind_str r) = Some r"
  by (cases r) (simp_all add: record_kind_from_str_def)

lemma namespace_roundtrip [simp]: "namespace_from_str (namespace_str r) = Some r"
  by (cases r) (simp_all add: namespace_from_str_def)

lemma namespace_opt_roundtrip [simp]: "namespace_parse_opt (Some (JString (namespace_str n))) = Some (Some n)"
  by simp

lemma age_roundtrip [simp]: "parse_age_filter (Some (age_to_json a)) = Some a"
  by (cases a) (simp_all add: parse_age_filter_def)

lemma label_field_roundtrip [simp]: "label_ok l \<Longrightarrow> parse_label_field (Some (label_to_json l)) = Some l"
  by (cases l) (auto simp: Let_def)

lemma label_field_ok: "parse_label_field v = Some l \<Longrightarrow> label_ok l"
  by (cases v rule: parse_label_field.cases) (auto intro: decode_wire_label_ok simp del: decode_wire_label.simps split: if_splits)

lemma relay_status_roundtrip [simp]: "parse_relay_status (relay_status_to_json s) = Some s"
  by (auto simp: parse_relay_status_def relay_status_to_json_def guard_defs opt_field_def
      intro!: doctor_relay_status.equality split: option.splits)

lemma relay_statuses_roundtrip [simp]: "collect_options (map (parse_relay_status \<circ> relay_status_to_json) ss) = Some ss"
  by (induction ss) auto

lemma positive_int_roundtrip [simp]: "is_positive_int (json_u64 n) = (if n = 0 then None else Some n)"
  by (simp add: is_positive_int_def word_gt_0)

lemma positive_int_ok: "is_positive_int v = Some n \<Longrightarrow> 0 < n"
  by (auto simp: is_positive_int_def split: option.splits if_splits)

lemma terminal_dimension_roundtrip [simp]:
  "0 < n \<Longrightarrow> n \<le> MAX_TERMINAL_DIMENSION \<Longrightarrow> is_terminal_dimension (json_u64 n) = Some n"
  by (simp add: is_terminal_dimension_def)

lemma terminal_dimension_ok: "is_terminal_dimension v = Some n \<Longrightarrow> 0 < n \<and> n \<le> MAX_TERMINAL_DIMENSION"
  by (auto simp: is_terminal_dimension_def positive_int_ok split: option.splits if_splits)

lemmas ipc_parse_defs = parse_ipc_message_def parse_ipc_hello_def parse_ipc_rec_def parse_ipc_bye_def parse_ipc_ack_def parse_ipc_input_def parse_ipc_resize_def parse_ipc_pair_begin_def parse_ipc_pair_begin_ok_def parse_ipc_pair_begin_err_def parse_ipc_pair_cancel_def parse_ipc_pair_completed_def parse_ipc_pair_cancelled_def parse_ipc_pair_error_def parse_ipc_pair_remove_def parse_ipc_pair_remove_ok_def parse_ipc_pair_remove_err_def parse_ipc_pair_rename_def parse_ipc_pair_rename_ok_def parse_ipc_pair_rename_err_def parse_ipc_session_delete_def parse_ipc_session_delete_ok_def parse_ipc_session_delete_err_def parse_ipc_session_prune_def parse_ipc_session_prune_ok_def parse_ipc_session_prune_err_def parse_ipc_doctor_probe_ok_def

lemma opt_with_simps [simp]:
  "opt_with f None = Some None"
  "opt_with f (Some x) = map_option Some (f x)"
  by (simp_all add: opt_with_def)

section \<open>Properties\<close>

lemma parse_ipc_roundtrip:
  assumes "ipc_message_ok m"
  shows "parse_ipc_message (ipc_to_json m) = Some m"
  using assms
  by (cases m) (auto simp: ipc_parse_defs guard_defs opt_field_def word_gt_0 split: option.splits)

lemma parse_ipc_ok:
  assumes "parse_ipc_message raw = Some m"
  shows "ipc_message_ok m"
  using assms
  by (auto simp: ipc_parse_defs opt_with_def positive_int_ok terminal_dimension_ok label_field_ok
      dest: positive_int_ok terminal_dimension_ok label_field_ok split: bind_splits if_splits option.splits)

text \<open>C26: The IPC guard admits exactly the well-formed messages. Every message with a positive pid,
  terminal dimensions between 1 and 65535 and proper labels is read back as it was written, and
  whatever JSON the parser accepts is such a message.\<close>

theorem ipc_messages_roundtrip:
  "(ipc_message_ok m \<longleftrightarrow> parse_ipc_message (ipc_to_json m) = Some m)
    \<and> (parse_ipc_message raw = None \<or> (\<exists>m'. parse_ipc_message raw = Some m' \<and> ipc_message_ok m'
        \<and> parse_ipc_message (ipc_to_json m') = Some m'))"
  using parse_ipc_roundtrip parse_ipc_ok by (cases "parse_ipc_message raw") blast+

end
