(* ===== verification/Ipc_Server.thy ===== *)
theory Ipc_Server
  imports Frame_Codec Ipc_Messages
begin

text \<open>
  The daemon's IPC listener (\<open>tp-daemon/src/ipc/server.rs\<close>): the registry of connections, the bounded
  outbound queue of each, and the read loop of a connection with its frame decoder.

  A handle of a connection outlives its registration, so the handles are a map and the registry a list
  of ids. The queue holds the messages, whose serialisation is \<open>serde\<close>'s. The owner's message handler is a
  function that also says whether it panicked. Binding the socket and re-binding it when its directory
  entry is gone are operations of the operating system.
\<close>

definition OUTBOUND_CAPACITY :: nat where
  "OUTBOUND_CAPACITY = 4096"

record connected_runner =
  cr_outbound :: "ipc_message list"
  cr_open :: bool
  cr_sid :: "string option"
  cr_decoder :: frame_decoder

record ipc_server =
  is_conns :: "(nat, connected_runner) hash_map"
  is_runners :: "nat list"
  is_next_id :: nat
  is_stopped :: bool

definition ipc_server_new :: ipc_server where
  "ipc_server_new = \<lparr>is_conns = hm_empty, is_runners = [], is_next_id = 1, is_stopped = False\<rparr>"

definition ipc_accept :: "ipc_server \<Rightarrow> nat \<times> ipc_server" where
  "ipc_accept srv =
    (let cid = is_next_id srv
     in (cid, srv\<lparr>is_next_id := cid + 1, is_runners := is_runners srv @ [cid],
           is_conns := hm_insert cid \<lparr>cr_outbound = [], cr_open = True, cr_sid = None, cr_decoder = decoder_new\<rparr> (is_conns srv)\<rparr>))"

definition set_conn_sid :: "nat \<Rightarrow> string \<Rightarrow> ipc_server \<Rightarrow> ipc_server" where
  "set_conn_sid cid sid srv = srv\<lparr>is_conns := hm_modify cid (\<lambda>c. c\<lparr>cr_sid := Some sid\<rparr>) (is_conns srv)\<rparr>"

text \<open>\<open>try_send\<close> on the bounded queue: it fails when the queue is full or its reader is gone.\<close>

definition ipc_send :: "nat \<Rightarrow> ipc_message \<Rightarrow> ipc_server \<Rightarrow> bool \<times> ipc_server" where
  "ipc_send cid msg srv =
    (case hm_get (is_conns srv) cid of
       None \<Rightarrow> (False, srv)
     | Some c \<Rightarrow>
         if cr_open c \<and> length (cr_outbound c) < OUTBOUND_CAPACITY
         then (True, srv\<lparr>is_conns := hm_insert cid (c\<lparr>cr_outbound := cr_outbound c @ [msg]\<rparr>) (is_conns srv)\<rparr>)
         else (False, srv))"

text \<open>The writer task takes the oldest frame.\<close>

definition ipc_write :: "nat \<Rightarrow> ipc_server \<Rightarrow> ipc_message option \<times> ipc_server" where
  "ipc_write cid srv =
    (case hm_get (is_conns srv) cid of
       None \<Rightarrow> (None, srv)
     | Some c \<Rightarrow>
         (case cr_outbound c of
            [] \<Rightarrow> (None, srv)
          | m # ms \<Rightarrow> (Some m, srv\<lparr>is_conns := hm_insert cid (c\<lparr>cr_outbound := ms\<rparr>) (is_conns srv)\<rparr>)))"

definition find_runner_by_sid :: "string \<Rightarrow> ipc_server \<Rightarrow> nat option" where
  "find_runner_by_sid sid srv =
    find (\<lambda>cid. Option.bind (hm_get (is_conns srv) cid) cr_sid = Some sid) (is_runners srv)"

definition ipc_stop :: "ipc_server \<Rightarrow> ipc_server" where
  "ipc_stop srv = srv\<lparr>is_stopped := True, is_runners := []\<rparr>"

section \<open>The read loop\<close>

text \<open>
  Frames of one chunk, in order. A frame that is not JSON or not a message is skipped. When the handler
  panics the \<open>break\<close> leaves the loop over the frames of this chunk only.
\<close>

fun process_frames ::
  "(u8 list \<Rightarrow> json option) \<Rightarrow> (nat \<Rightarrow> string \<Rightarrow> 's \<Rightarrow> 's) \<Rightarrow> (nat \<Rightarrow> ipc_message \<Rightarrow> u8 list option \<Rightarrow> 's \<Rightarrow> bool \<times> 's)
    \<Rightarrow> nat \<Rightarrow> decoded_frame list \<Rightarrow> 's \<Rightarrow> 's" where
  "process_frames from_slice set_sid on_message cid [] s = s"
| "process_frames from_slice set_sid on_message cid (frame # frames) s =
    (case Option.bind (from_slice (df_json frame)) parse_ipc_message of
       None \<Rightarrow> process_frames from_slice set_sid on_message cid frames s
     | Some msg \<Rightarrow>
         let s = (case msg of IpcHello sid _ _ _ _ \<Rightarrow> set_sid cid sid s | _ \<Rightarrow> s);
             (panicked, s) = on_message cid msg (df_binary frame) s
         in if panicked then s else process_frames from_slice set_sid on_message cid frames s)"

text \<open>The teardown of a connection; the registry says whether the disconnect handler is called.\<close>

definition ipc_conn_teardown :: "nat \<Rightarrow> ipc_server \<Rightarrow> bool \<times> ipc_server" where
  "ipc_conn_teardown cid srv =
    (cid \<in> set (is_runners srv),
     srv\<lparr>is_runners := removeAll cid (is_runners srv), is_conns := hm_modify cid (\<lambda>c. c\<lparr>cr_open := False\<rparr>) (is_conns srv)\<rparr>)"

text \<open>
  One successful read of a connection: decode the chunk, then either tear the connection down (\<open>False\<close>) or
  process the frames and stay in the loop. \<open>get\<close> and \<open>put\<close> reach the server inside the daemon's state.
\<close>

definition handle_chunk ::
  "(u8 list \<Rightarrow> json option) \<Rightarrow> ('s \<Rightarrow> ipc_server) \<Rightarrow> (ipc_server \<Rightarrow> 's \<Rightarrow> 's)
    \<Rightarrow> (nat \<Rightarrow> ipc_message \<Rightarrow> u8 list option \<Rightarrow> 's \<Rightarrow> bool \<times> 's) \<Rightarrow> nat \<Rightarrow> u8 list \<Rightarrow> 's \<Rightarrow> bool \<times> 's" where
  "handle_chunk from_slice get put on_message cid chunk s =
    (case hm_get (is_conns (get s)) cid of
       None \<Rightarrow> (False, s)
     | Some c \<Rightarrow>
         let (r, d) = decoder_decode (cr_decoder c) chunk;
             s = put ((get s)\<lparr>is_conns := hm_insert cid (c\<lparr>cr_decoder := d\<rparr>) (is_conns (get s))\<rparr>) s
         in case r of
              Inl _ \<Rightarrow> (False, s)
            | Inr frames \<Rightarrow>
                (True, process_frames from_slice (\<lambda>cid sid s. put (set_conn_sid cid sid (get s)) s) on_message cid frames s))"

end
