(* ===== verification/Sid.thy ===== *)
theory Sid
  imports Prelude
begin

text \<open>
  Session ids as path components (\<open>tp-proto/src/socket_path.rs\<close>): the allowlist check and the
  reduction of an arbitrary branch name to an allowed id.

  The source walks over Unicode characters; the model walks over the bytes. A character outside ASCII
  is a run of bytes outside the allowlist, and the walk turns a run into one hyphen, so both agree.
\<close>

definition is_ascii_alphanumeric :: "char \<Rightarrow> bool" where
  "is_ascii_alphanumeric c \<longleftrightarrow> (let n = of_char c :: nat in
     48 \<le> n \<and> n \<le> 57 \<or> 65 \<le> n \<and> n \<le> 90 \<or> 97 \<le> n \<and> n \<le> 122)"

definition sid_char :: "char \<Rightarrow> bool" where
  "sid_char c \<longleftrightarrow> is_ascii_alphanumeric c \<or> c = CHR ''_'' \<or> c = CHR ''-''"

definition is_safe_sid :: "string \<Rightarrow> bool" where
  "is_safe_sid sid \<longleftrightarrow> sid \<noteq> [] \<and> list_all sid_char sid"

definition invalid_sid :: "string \<Rightarrow> string" where
  "invalid_sid sid = ''invalid sid '' @ [char_of (39 :: nat)] @ sid @ [char_of (39 :: nat)]
    @ '': must match [A-Za-z0-9_-]+ (no path separator, '' @ [char_of (39 :: nat)] @ ''..''
    @ [char_of (39 :: nat)] @ '', or empty)''"

definition assert_safe_sid :: "string \<Rightarrow> string + unit" where
  "assert_safe_sid sid = (if is_safe_sid sid then Inr () else Inl (invalid_sid sid))"

section \<open>Sanitizing\<close>

definition ends_hyphen :: "string \<Rightarrow> bool" where
  "ends_hyphen s \<longleftrightarrow> s \<noteq> [] \<and> last s = CHR ''-''"

text \<open>First pass: a run of characters outside the allowlist becomes one hyphen.\<close>

definition clean_char :: "string \<Rightarrow> char \<Rightarrow> string" where
  "clean_char cleaned c =
    (if sid_char c then cleaned @ [c] else if \<not> ends_hyphen cleaned then cleaned @ ''-'' else cleaned)"

text \<open>Second pass: runs of hyphens collapse.\<close>

definition collapse_char :: "string \<Rightarrow> char \<Rightarrow> string" where
  "collapse_char collapsed c = (if c = CHR ''-'' \<and> ends_hyphen collapsed then collapsed else collapsed @ [c])"

definition trim_hyphens :: "string \<Rightarrow> string" where
  "trim_hyphens s = rev (dropWhile (\<lambda>c. c = CHR ''-'') (rev (dropWhile (\<lambda>c. c = CHR ''-'') s)))"

definition sanitize_for_sid :: "string \<Rightarrow> string" where
  "sanitize_for_sid label =
    (let cleaned = foldl clean_char [] label;
         collapsed = foldl collapse_char [] cleaned;
         trimmed = trim_hyphens collapsed
     in if trimmed = [] then ''wt'' else trimmed)"

section \<open>Lemmas\<close>

lemma clean_safe: "list_all sid_char s \<Longrightarrow> list_all sid_char (foldl clean_char s label)"
  by (induction label arbitrary: s) (auto simp: clean_char_def sid_char_def)

lemma collapse_safe: "list_all sid_char s \<Longrightarrow> list_all sid_char t \<Longrightarrow> list_all sid_char (foldl collapse_char s t)"
  by (induction t arbitrary: s) (auto simp: collapse_char_def)

lemma set_trim_hyphens: "set (trim_hyphens s) \<subseteq> set s"
  by (auto simp: trim_hyphens_def dest!: set_dropWhileD)

text \<open>No two hyphens in a row.\<close>

fun no_double :: "string \<Rightarrow> bool" where
  "no_double (c # d # s) \<longleftrightarrow> \<not> (c = CHR ''-'' \<and> d = CHR ''-'') \<and> no_double (d # s)"
| "no_double _ \<longleftrightarrow> True"

lemma no_double_snoc: "no_double (s @ [c]) \<longleftrightarrow> no_double s \<and> \<not> (c = CHR ''-'' \<and> ends_hyphen s)"
  by (induction s rule: no_double.induct) (auto simp: ends_hyphen_def)

lemma no_double_append: "no_double (s @ t) \<Longrightarrow> no_double s \<and> no_double t"
  by (induction s rule: no_double.induct; cases t) auto

lemma collapse_no_double: "no_double s \<Longrightarrow> no_double (foldl collapse_char s t)"
  by (induction t arbitrary: s) (auto simp: collapse_char_def no_double_snoc)

lemma foldl_clean_safe: "list_all sid_char t \<Longrightarrow> foldl clean_char s t = s @ t"
  by (induction t arbitrary: s) (auto simp: clean_char_def)

lemma foldl_collapse_id: "no_double (s @ t) \<Longrightarrow> foldl collapse_char s t = s @ t"
proof (induction t arbitrary: s)
  case (Cons c t)
  have "no_double (s @ [c])" using no_double_append [of "s @ [c]" t] Cons.prems by simp
  then have "collapse_char s c = s @ [c]" by (auto simp: collapse_char_def no_double_snoc)
  then show ?case using Cons by simp
qed simp

lemma trim_hyphens_suffix:
  "dropWhile (\<lambda>c. c = CHR ''-'') s = trim_hyphens s @ rev (takeWhile (\<lambda>c. c = CHR ''-'') (rev (dropWhile (\<lambda>c. c = CHR ''-'') s)))"
  (is "?d = _")
proof -
  have "rev (takeWhile (\<lambda>c. c = CHR ''-'') (rev ?d) @ dropWhile (\<lambda>c. c = CHR ''-'') (rev ?d)) = ?d" by simp
  then show ?thesis by (simp only: rev_append trim_hyphens_def)
qed

lemma trim_hyphens_split: "\<exists>a b. s = a @ trim_hyphens s @ b"
  using trim_hyphens_suffix [of s] takeWhile_dropWhile_id [of "\<lambda>c. c = CHR ''-''" s] by metis

lemma trim_hyphens_ends:
  assumes "trim_hyphens s \<noteq> []"
  shows "hd (trim_hyphens s) \<noteq> CHR ''-''" "last (trim_hyphens s) \<noteq> CHR ''-''"
proof -
  let ?d = "dropWhile (\<lambda>c. c = CHR ''-'') s"
  show "last (trim_hyphens s) \<noteq> CHR ''-''"
    using assms hd_dropWhile [of "\<lambda>c. c = CHR ''-''" "rev ?d"] by (simp add: trim_hyphens_def last_rev)
  have "?d = [] \<Longrightarrow> trim_hyphens s = []" by (simp only: trim_hyphens_def rev.simps dropWhile.simps)
  with assms have "?d \<noteq> []" by blast
  then have "hd ?d \<noteq> CHR ''-''" by (rule hd_dropWhile)
  moreover have "hd ?d = hd (trim_hyphens s)"
    by (subst trim_hyphens_suffix) (rule hd_append2 [OF assms])
  ultimately show "hd (trim_hyphens s) \<noteq> CHR ''-''" by metis
qed

lemma trim_hyphens_id: "s \<noteq> [] \<Longrightarrow> hd s \<noteq> CHR ''-'' \<Longrightarrow> last s \<noteq> CHR ''-'' \<Longrightarrow> trim_hyphens s = s"
  using dropWhile_eq_self_iff [of "\<lambda>c. c = CHR ''-''" s] dropWhile_eq_self_iff [of "\<lambda>c. c = CHR ''-''" "rev s"]
  by (simp add: trim_hyphens_def hd_rev)

lemma safe_sid_path:
  assumes "is_safe_sid sid"
  shows "CHR ''/'' \<notin> set sid" "CHR ''.'' \<notin> set sid"
  using assms by (auto simp: is_safe_sid_def list_all_iff sid_char_def is_ascii_alphanumeric_def Let_def)

text \<open>C34: A sanitized branch name is always a session id the guard accepts: not empty, only letters,
  digits, underscores and hyphens, so without path separator or dot, with no hyphen at either end and
  no two in a row; and sanitizing it again changes nothing.\<close>

theorem sanitize_for_sid_is_safe:
  "assert_safe_sid (sanitize_for_sid label) = Inr () \<and> CHR ''/'' \<notin> set (sanitize_for_sid label) \<and>
   CHR ''.'' \<notin> set (sanitize_for_sid label) \<and> no_double (sanitize_for_sid label) \<and>
   hd (sanitize_for_sid label) \<noteq> CHR ''-'' \<and> last (sanitize_for_sid label) \<noteq> CHR ''-'' \<and>
   sanitize_for_sid (sanitize_for_sid label) = sanitize_for_sid label"
proof -
  define c where "c = foldl collapse_char [] (foldl clean_char [] label)"
  let ?s = "sanitize_for_sid label"
  have safe: "list_all sid_char c" unfolding c_def by (intro collapse_safe clean_safe) auto
  have "no_double c" unfolding c_def by (intro collapse_no_double) simp
  with trim_hyphens_split [of c] have nd: "no_double (trim_hyphens c)" by (metis no_double_append)
  have s: "?s = (if trim_hyphens c = [] then ''wt'' else trim_hyphens c)"
    by (simp add: sanitize_for_sid_def Let_def c_def)
  have ok: "is_safe_sid ?s"
    using safe set_trim_hyphens [of c] unfolding s
    by (auto simp: is_safe_sid_def list_all_iff sid_char_def is_ascii_alphanumeric_def)
  have ends: "no_double ?s" "hd ?s \<noteq> CHR ''-''" "last ?s \<noteq> CHR ''-''"
    using nd trim_hyphens_ends [of c] by (auto simp: s)
  have "sanitize_for_sid ?s = ?s"
    using ok ends by (simp add: sanitize_for_sid_def [of ?s] is_safe_sid_def foldl_clean_safe foldl_collapse_id trim_hyphens_id)
  with ok ends safe_sid_path [OF ok] show ?thesis by (simp add: assert_safe_sid_def)
qed

end
