(* ===== verification/Store.thy ===== *)
theory Store
  imports Session_Db Sid Label Crypto
begin

text \<open>
  The daemon's store (\<open>tp-daemon/src/store/store.rs\<close>, \<open>pairing_row_guard.rs\<close>, \<open>schema.rs\<close>): sessions,
  pairings, confirmations and push tokens in one SQLite database, one record database per session,
  and the bounded cache of open session databases.

  \<^item> A table is the list of its rows in rowid order. A pairing or push-token row is the raw row the
    code reads, every column an \<open>option\<close>, since the guards decide which rows are usable.
  \<^item> The files of the \<open>sessions\<close> directory are a map from path (relative to it) to content. Sidecar
    files come and go with SQLite's journal; they carry no content here. An open handle is the path of
    its file: one whose file was unlinked finds no records here, while SQLite keeps the unlinked file.
  \<^item> \<open>store_env\<close> is what an operation meets: the clock, the error SQLite reports for a statement, the
    error of opening a session file and of each unlink attempt. Every \<open>?\<close> of the source is a branch.
\<close>

section \<open>Data\<close>

record session_meta =
  sm_sid :: string
  sm_state :: string
  sm_worktree_path :: "string option"
  sm_cwd :: string
  sm_created_at :: int
  sm_updated_at :: int
  sm_claude_version :: "string option"
  sm_last_seq :: int

record pairing_summary =
  psm_daemon_id :: string
  psm_relay_url :: string
  psm_created_at :: int
  psm_label :: label

record save_pairing_input =
  sp_daemon_id :: string
  sp_relay_url :: string
  sp_relay_token :: string
  sp_registration_proof :: string
  sp_public_key :: "u8 list"
  sp_secret_key :: "u8 list"
  sp_pairing_secret :: "u8 list"
  sp_label :: "label option"
  sp_pairing_id :: string
  sp_hostname :: string

record pairing_confirmation =
  pc_daemon_id :: string
  pc_frontend_id :: string
  pc_pct :: "u8 list"
  pc_frontend_pk :: "u8 list"
  pc_confirmed_at :: int

datatype push_platform = PIos | PAndroid

fun platform_as_str :: "push_platform \<Rightarrow> string" where
  "platform_as_str PIos = ''ios''"
| "platform_as_str PAndroid = ''android''"

definition platform_parse :: "string \<Rightarrow> push_platform option" where
  "platform_parse s = (if s = ''ios'' then Some PIos else if s = ''android'' then Some PAndroid else None)"

record push_token_entry =
  pte_frontend_id :: string
  pte_daemon_id :: string
  pte_sealed :: string
  pte_platform :: push_platform

record push_token_row =
  ptr_frontend_id :: "string option"
  ptr_daemon_id :: "string option"
  ptr_sealed :: "string option"
  ptr_platform :: "string option"
  ptr_updated_at :: int

section \<open>The pairing row guard\<close>

definition PAIRING_KEY_BYTES :: nat where
  "PAIRING_KEY_BYTES = 32"

record stored_pairing =
  spd_daemon_id :: string
  spd_relay_url :: string
  spd_relay_token :: string
  spd_registration_proof :: string
  spd_public_key :: "u8 list"
  spd_secret_key :: "u8 list"
  spd_pairing_secret :: "u8 list"
  spd_label :: label
  spd_pairing_id :: string
  spd_hostname :: string

record raw_pairing_row =
  rp_daemon_id :: "string option"
  rp_relay_url :: "string option"
  rp_relay_token :: "string option"
  rp_registration_proof :: "string option"
  rp_created_at :: "int option"
  rp_public_key :: "u8 list option"
  rp_secret_key :: "u8 list option"
  rp_pairing_secret :: "u8 list option"
  rp_label :: "string option"
  rp_pairing_id :: "string option"
  rp_hostname :: "string option"

definition is_non_empty :: "string option \<Rightarrow> bool" where
  "is_non_empty s \<longleftrightarrow> (case s of Some v \<Rightarrow> v \<noteq> [] | None \<Rightarrow> False)"

definition to_key_bytes :: "u8 list option \<Rightarrow> nat \<Rightarrow> u8 list option" where
  "to_key_bytes v len = (case v of None \<Rightarrow> None | Some bytes \<Rightarrow> if length bytes = len then Some bytes else None)"

definition nullable_json :: "string option \<Rightarrow> json" where
  "nullable_json s = (case s of Some s \<Rightarrow> JString s | None \<Rightarrow> JNull)"

definition unwrap_or_default :: "string option \<Rightarrow> string" where
  "unwrap_or_default s = (case s of Some v \<Rightarrow> v | None \<Rightarrow> [])"

definition parse_stored_pairing :: "raw_pairing_row \<Rightarrow> stored_pairing option" where
  "parse_stored_pairing raw =
    (if \<not> is_non_empty (rp_daemon_id raw) then None
     else if \<not> is_non_empty (rp_relay_url raw) then None
     else if \<not> is_non_empty (rp_relay_token raw) then None
     else if \<not> is_non_empty (rp_registration_proof raw) then None
     else
       Option.bind (rp_created_at raw) (\<lambda>_.
       Option.bind (to_key_bytes (rp_public_key raw) PAIRING_KEY_BYTES) (\<lambda>public_key.
       Option.bind (to_key_bytes (rp_secret_key raw) PAIRING_KEY_BYTES) (\<lambda>secret_key.
       Option.bind (to_key_bytes (rp_pairing_secret raw) PAIRING_KEY_BYTES) (\<lambda>pairing_secret.
         Some \<lparr>spd_daemon_id = unwrap_or_default (rp_daemon_id raw), spd_relay_url = unwrap_or_default (rp_relay_url raw),
           spd_relay_token = unwrap_or_default (rp_relay_token raw),
           spd_registration_proof = unwrap_or_default (rp_registration_proof raw),
           spd_public_key = public_key, spd_secret_key = secret_key, spd_pairing_secret = pairing_secret,
           spd_label = decode_wire_label (nullable_json (rp_label raw)),
           spd_pairing_id = unwrap_or_default (rp_pairing_id raw), spd_hostname = unwrap_or_default (rp_hostname raw)\<rparr>)))))"

section \<open>State, errors and environment\<close>

datatype io_kind = IoNotFound | IoBusy | IoPermissionDenied | IoOther string

datatype store_error = Sqlite string | InvalidSid string | Io io_kind

text \<open>The statements the store executes; those of a loop carry the value they are bound to.\<close>

datatype sql_stmt = Insert_session | Update_state | Update_last_seq | Select_session | Select_sessions
  | Delete_session_row string | Select_prunable | Insert_pairing | Update_label | Select_pairings
  | Begin_transaction | Delete_tokens_of_daemon | Delete_confirmations_of_daemon | Delete_pairing_row | Commit
  | Insert_confirmation | Select_confirmation | Count_confirmations | Sweep_confirmations
  | Select_unidentified | Update_pairing_id string | Insert_push_token | Select_push_tokens
  | Delete_push_token_row string | Delete_push_tokens_of | Select_summaries

datatype dir_file = Records_file records_table | Other_file

record session_db =
  sdb_path :: string

record meta_db =
  md_sessions :: "session_meta list"
  md_pairings :: "raw_pairing_row list"
  md_confirmations :: "pairing_confirmation list"
  md_push_tokens :: "push_token_row list"

record store =
  st_meta :: meta_db
  st_session_dbs :: "(string, session_db) hash_map"
  st_order :: "string list"
  st_max_open :: nat
  st_disk :: "(string, dir_file) hash_map"

record store_env =
  se_now :: int
  se_sql :: "sql_stmt \<Rightarrow> string option"
  se_open :: "string \<Rightarrow> string option"
  se_unlink :: "string \<Rightarrow> nat \<Rightarrow> io_kind option"
  se_read_dir :: bool

definition sql_run :: "store_env \<Rightarrow> sql_stmt \<Rightarrow> 'a \<Rightarrow> store_error + 'a" where
  "sql_run env stmt x = (case se_sql env stmt of Some e \<Rightarrow> Inl (Sqlite e) | None \<Rightarrow> Inr x)"

definition DEFAULT_MAX_OPEN_SESSION_DBS :: nat where
  "DEFAULT_MAX_OPEN_SESSION_DBS = 32"

section \<open>Sessions\<close>

text \<open>
  The file that \<open>sessions/<sid>.sqlite\<close> names, relative to the directory \<open>sessions\<close>: one component after the
  other is entered, \<open>.\<close> and empty ones are skipped, \<open>..\<close> goes up, and the directory's own name leads back into
  it; joining an absolute path replaces the directory. Symbolic links are not followed, and a path that climbs
  beyond the vault and comes back by its name is not recognised.
\<close>

fun enter :: "string \<Rightarrow> string list \<Rightarrow> string list" where
  "enter c dir =
    (if c = [] \<or> c = ''.'' then dir
     else if c = ''..'' then (if dir = [] \<or> last dir = ''..'' then dir @ [c] else butlast dir)
     else if dir = [''..''] \<and> c = ''sessions'' then []
     else dir @ [c])"

fun join_path :: "string list \<Rightarrow> string" where
  "join_path [] = []"
| "join_path [c] = c"
| "join_path (c # d # cs) = c @ ''/'' @ join_path (d # cs)"

definition session_db_path :: "string \<Rightarrow> string" where
  "session_db_path sid =
    (let name = sid @ ''.sqlite''; cs = str_split (CHR ''/'') name
     in (if take 1 name = ''/'' then ''/'' @ join_path (filter (\<lambda>c. c \<noteq> [] \<and> c \<noteq> ''.'') cs) else join_path (fold enter cs [])))"

text \<open>\<open>SessionDb::open\<close> creates the file, with an empty \<open>records\<close> table, when there is none.\<close>

definition session_db_open :: "store_env \<Rightarrow> string \<Rightarrow> (string, dir_file) hash_map
    \<Rightarrow> store_error + (session_db \<times> (string, dir_file) hash_map)" where
  "session_db_open env path disk =
    (case se_open env path of
       Some e \<Rightarrow> Inl (Sqlite e)
     | None \<Rightarrow>
         (case hm_get disk path of
            None \<Rightarrow> Inr (\<lparr>sdb_path = path\<rparr>, hm_insert path (Records_file records_table_new) disk)
          | Some (Records_file _) \<Rightarrow> Inr (\<lparr>sdb_path = path\<rparr>, disk)
          | Some Other_file \<Rightarrow> Inl (Sqlite ''file is not a database'')))"

definition touch :: "string \<Rightarrow> store \<Rightarrow> store" where
  "touch sid st = st\<lparr>st_order := remove1 sid (st_order st) @ [sid]\<rparr>"

text \<open>The eviction loop: close the least recently used databases beyond the cap.\<close>

fun evict_loop :: "nat \<Rightarrow> (string, session_db) hash_map \<Rightarrow> string list \<Rightarrow> (string, session_db) hash_map \<times> string list" where
  "evict_loop cap dbs [] = (dbs, [])"
| "evict_loop cap dbs (oldest # order) =
    (if length dbs > cap then evict_loop cap (hm_remove oldest dbs) order else (dbs, oldest # order))"

definition track_session_db :: "string \<Rightarrow> session_db \<Rightarrow> store \<Rightarrow> store" where
  "track_session_db sid db st =
    (let dbs = hm_insert sid db (st_session_dbs st);
         order = remove1 sid (st_order st) @ [sid]
     in if st_max_open st = 0 then st\<lparr>st_session_dbs := dbs, st_order := order\<rparr>
        else let (dbs, order) = evict_loop (st_max_open st) dbs order
             in st\<lparr>st_session_dbs := dbs, st_order := order\<rparr>)"

definition create_session ::
  "store_env \<Rightarrow> string \<Rightarrow> string \<Rightarrow> string option \<Rightarrow> string option \<Rightarrow> store \<Rightarrow> (store_error + unit) \<times> store" where
  "create_session env sid cwd worktree_path claude_version st =
    (case assert_safe_sid sid of
       Inl e \<Rightarrow> (Inl (InvalidSid e), st)
     | Inr _ \<Rightarrow>
         let now = se_now env;
             new = \<lparr>sm_sid = sid, sm_state = ''running'', sm_worktree_path = worktree_path, sm_cwd = cwd,
               sm_created_at = now, sm_updated_at = now, sm_claude_version = claude_version, sm_last_seq = 0\<rparr>;
             upd = (\<lambda>r. r\<lparr>sm_state := sm_state new, sm_worktree_path := sm_worktree_path new, sm_cwd := sm_cwd new,
               sm_updated_at := sm_updated_at new, sm_claude_version := sm_claude_version new\<rparr>)
         in (case sql_run env Insert_session (sql_upsert sm_sid new upd (md_sessions (st_meta st))) of
               Inl e \<Rightarrow> (Inl e, st)
             | Inr rows \<Rightarrow>
                 let st = st\<lparr>st_meta := (st_meta st)\<lparr>md_sessions := rows\<rparr>\<rparr>
                 in (case session_db_open env (session_db_path sid) (st_disk st) of
                       Inl e \<Rightarrow> (Inl e, st)
                     | Inr (db, disk) \<Rightarrow> (Inr (), track_session_db sid db (st\<lparr>st_disk := disk\<rparr>)))))"

definition ensure_session_db :: "store_env \<Rightarrow> string \<Rightarrow> store \<Rightarrow> bool \<times> store" where
  "ensure_session_db env sid st =
    (if hm_contains (st_session_dbs st) sid then (True, touch sid st)
     else (case session_db_open env (session_db_path sid) (st_disk st) of
         Inr (db, disk) \<Rightarrow> (True, track_session_db sid db (st\<lparr>st_disk := disk\<rparr>))
       | Inl _ \<Rightarrow> (False, st)))"

definition get_session_db :: "store_env \<Rightarrow> string \<Rightarrow> store \<Rightarrow> session_db option \<times> store" where
  "get_session_db env sid st =
    (let (ok, st) = ensure_session_db env sid st
     in if ok then (hm_get (st_session_dbs st) sid, st) else (None, st))"

definition update_sessions :: "(session_meta list \<Rightarrow> session_meta list) \<Rightarrow> store \<Rightarrow> store" where
  "update_sessions f st = st\<lparr>st_meta := (st_meta st)\<lparr>md_sessions := f (md_sessions (st_meta st))\<rparr>\<rparr>"

definition store_unit :: "store_error + store \<Rightarrow> store \<Rightarrow> (store_error + unit) \<times> store" where
  "store_unit r st = (case r of Inl e \<Rightarrow> (Inl e, st) | Inr st' \<Rightarrow> (Inr (), st'))"

definition update_session_state :: "store_env \<Rightarrow> string \<Rightarrow> string \<Rightarrow> store \<Rightarrow> (store_error + unit) \<times> store" where
  "update_session_state env sid state st =
    store_unit (sql_run env Update_state
      (update_sessions (sql_update (\<lambda>r. sm_sid r = sid) (\<lambda>r. r\<lparr>sm_state := state, sm_updated_at := se_now env\<rparr>)) st)) st"

definition update_last_seq :: "store_env \<Rightarrow> string \<Rightarrow> int \<Rightarrow> store \<Rightarrow> (store_error + unit) \<times> store" where
  "update_last_seq env sid seq st =
    store_unit (sql_run env Update_last_seq
      (update_sessions (sql_update (\<lambda>r. sm_sid r = sid) (\<lambda>r. r\<lparr>sm_last_seq := seq, sm_updated_at := se_now env\<rparr>)) st)) st"

definition get_session :: "store_env \<Rightarrow> string \<Rightarrow> store \<Rightarrow> store_error + session_meta option" where
  "get_session env sid st = sql_run env Select_session (find (\<lambda>r. sm_sid r = sid) (md_sessions (st_meta st)))"

definition list_sessions :: "store_env \<Rightarrow> store \<Rightarrow> store_error + session_meta list" where
  "list_sessions env st = sql_run env Select_sessions (sort_key (\<lambda>r. - sm_created_at r) (md_sessions (st_meta st)))"

section \<open>Deleting sessions\<close>

definition remove_file :: "store_env \<Rightarrow> string \<Rightarrow> nat \<Rightarrow> (string, dir_file) hash_map \<Rightarrow> io_kind + (string, dir_file) hash_map" where
  "remove_file env path attempt disk =
    (case se_unlink env path attempt of
       Some e \<Rightarrow> Inl e
     | None \<Rightarrow> if hm_contains disk path then Inr (hm_remove path disk) else Inl IoNotFound)"

definition MAX_ATTEMPTS :: nat where
  "MAX_ATTEMPTS = 6"

text \<open>The retry loop, with the number of attempts left; sleeping is not modelled.\<close>

fun unlink_loop :: "store_env \<Rightarrow> string \<Rightarrow> nat \<Rightarrow> (string, dir_file) hash_map \<Rightarrow> (store_error + unit) \<times> (string, dir_file) hash_map" where
  "unlink_loop env path 0 disk = (Inr (), disk)"
| "unlink_loop env path (Suc left) disk =
    (case remove_file env path (MAX_ATTEMPTS - Suc left) disk of
       Inr disk' \<Rightarrow> (Inr (), disk')
     | Inl IoNotFound \<Rightarrow> (Inr (), disk)
     | Inl IoBusy \<Rightarrow> unlink_loop env path left disk
     | Inl IoPermissionDenied \<Rightarrow> unlink_loop env path left disk
     | Inl (IoOther e) \<Rightarrow> (Inl (Io (IoOther e)), disk))"

definition unlink_retry :: "store_env \<Rightarrow> string \<Rightarrow> (string, dir_file) hash_map \<Rightarrow> (store_error + unit) \<times> (string, dir_file) hash_map" where
  "unlink_retry env path disk = unlink_loop env path MAX_ATTEMPTS disk"

fun unlink_all :: "store_env \<Rightarrow> string list \<Rightarrow> (string, dir_file) hash_map \<Rightarrow> (store_error + unit) \<times> (string, dir_file) hash_map" where
  "unlink_all env [] disk = (Inr (), disk)"
| "unlink_all env (path # paths) disk =
    (case unlink_retry env path disk of
       (Inl e, disk) \<Rightarrow> (Inl e, disk)
     | (Inr _, disk) \<Rightarrow> unlink_all env paths disk)"

definition forget_session_db :: "string \<Rightarrow> store \<Rightarrow> store" where
  "forget_session_db sid st =
    (if hm_contains (st_session_dbs st) sid
     then st\<lparr>st_session_dbs := hm_remove sid (st_session_dbs st), st_order := remove1 sid (st_order st)\<rparr>
     else st)"

definition delete_session :: "store_env \<Rightarrow> string \<Rightarrow> store \<Rightarrow> (store_error + unit) \<times> store" where
  "delete_session env sid st =
    (let st = forget_session_db sid st
     in (case sql_run env (Delete_session_row sid) (update_sessions (sql_delete (\<lambda>r. sm_sid r = sid)) st) of
           Inl e \<Rightarrow> (Inl e, st)
         | Inr st \<Rightarrow>
             let db_path = session_db_path sid;
                 (r, disk) = unlink_all env [db_path, db_path @ ''-wal'', db_path @ ''-shm''] (st_disk st)
             in (r, st\<lparr>st_disk := disk\<rparr>)))"

definition ends_with :: "string \<Rightarrow> string \<Rightarrow> bool" where
  "ends_with s p \<longleftrightarrow> length p \<le> length s \<and> drop (length s - length p) s = p"

definition is_sidecar :: "string \<Rightarrow> bool" where
  "is_sidecar name \<longleftrightarrow> ends_with name ''.sqlite-wal'' \<or> ends_with name ''.sqlite-shm''"

definition sidecar_base :: "string \<Rightarrow> string" where
  "sidecar_base name = take (length name - 4) name"

definition sidecar_sid :: "string \<Rightarrow> string" where
  "sidecar_sid name = take (length (sidecar_base name) - length ''.sqlite'') (sidecar_base name)"

definition keep_sidecar :: "string list \<Rightarrow> store \<Rightarrow> string \<Rightarrow> bool" where
  "keep_sidecar entries st name \<longleftrightarrow>
    \<not> is_sidecar name \<or> sidecar_base name \<in> set entries \<or> hm_contains (st_session_dbs st) (sidecar_sid name)"

fun sweep_loop :: "store_env \<Rightarrow> string list \<Rightarrow> string list \<Rightarrow> nat \<Rightarrow> store \<Rightarrow> (store_error + nat) \<times> store" where
  "sweep_loop env entries [] removed st = (Inr removed, st)"
| "sweep_loop env entries (name # names) removed st =
    (if keep_sidecar entries st name then sweep_loop env entries names removed st
     else (case unlink_retry env name (st_disk st) of
         (Inl e, disk) \<Rightarrow> (Inl e, st\<lparr>st_disk := disk\<rparr>)
       | (Inr _, disk) \<Rightarrow> sweep_loop env entries names (removed + 1) (st\<lparr>st_disk := disk\<rparr>)))"

text \<open>\<open>read_dir\<close> lists the entries of the directory itself, not of others.\<close>

definition dir_entries :: "(string, dir_file) hash_map \<Rightarrow> string list" where
  "dir_entries disk = filter (\<lambda>name. CHR ''/'' \<notin> set name) (hm_keys disk)"

definition sweep_orphaned_sidecars :: "store_env \<Rightarrow> store \<Rightarrow> (store_error + nat) \<times> store" where
  "sweep_orphaned_sidecars env st =
    (if \<not> se_read_dir env then (Inr 0, st)
     else let entries = dir_entries (st_disk st) in sweep_loop env entries entries 0 st)"

definition prunable :: "int \<Rightarrow> session_meta \<Rightarrow> bool" where
  "prunable cutoff r \<longleftrightarrow> sm_state r \<noteq> ''running'' \<and> sm_updated_at r < cutoff"

fun prune_loop :: "store_env \<Rightarrow> string list \<Rightarrow> store \<Rightarrow> (store_error + unit) \<times> store" where
  "prune_loop env [] st = (Inr (), st)"
| "prune_loop env (sid # sids) st =
    (case delete_session env sid st of
       (Inl e, st) \<Rightarrow> (Inl e, st)
     | (Inr _, st) \<Rightarrow> prune_loop env sids st)"

definition prune_old_sessions :: "store_env \<Rightarrow> int \<Rightarrow> store \<Rightarrow> (store_error + nat) \<times> store" where
  "prune_old_sessions env max_age_ms st =
    (if max_age_ms \<le> 0 then (Inr 0, st)
     else
       let cutoff = se_now env - max_age_ms
       in (case sql_run env Select_prunable (map sm_sid (filter (prunable cutoff) (md_sessions (st_meta st)))) of
             Inl e \<Rightarrow> (Inl e, st)
           | Inr sids \<Rightarrow>
               (case prune_loop env sids st of
                  (Inl e, st) \<Rightarrow> (Inl e, st)
                | (Inr _, st) \<Rightarrow> (Inr (length sids), st))))"

section \<open>Pairings\<close>

definition update_pairings :: "(raw_pairing_row list \<Rightarrow> raw_pairing_row list) \<Rightarrow> store \<Rightarrow> store" where
  "update_pairings f st = st\<lparr>st_meta := (st_meta st)\<lparr>md_pairings := f (md_pairings (st_meta st))\<rparr>\<rparr>"

definition none_if_empty :: "string \<Rightarrow> string option" where
  "none_if_empty s = (if s = [] then None else Some s)"

definition coalesce :: "'a option \<Rightarrow> 'a option \<Rightarrow> 'a option" where
  "coalesce a b = (case a of Some x \<Rightarrow> Some x | None \<Rightarrow> b)"

definition save_pairing :: "store_env \<Rightarrow> save_pairing_input \<Rightarrow> store \<Rightarrow> (store_error + unit) \<times> store" where
  "save_pairing env data st =
    (let label_sql = Option.bind (sp_label data) label_to_nullable;
         new = \<lparr>rp_daemon_id = Some (sp_daemon_id data), rp_relay_url = Some (sp_relay_url data),
           rp_relay_token = Some (sp_relay_token data), rp_registration_proof = Some (sp_registration_proof data),
           rp_created_at = Some (se_now env), rp_public_key = Some (sp_public_key data),
           rp_secret_key = Some (sp_secret_key data), rp_pairing_secret = Some (sp_pairing_secret data),
           rp_label = label_sql, rp_pairing_id = none_if_empty (sp_pairing_id data),
           rp_hostname = none_if_empty (sp_hostname data)\<rparr>;
         upd = (\<lambda>r. new\<lparr>rp_created_at := rp_created_at r, rp_pairing_id := coalesce (rp_pairing_id new) (rp_pairing_id r),
           rp_hostname := coalesce (rp_hostname new) (rp_hostname r)\<rparr>)
     in store_unit (sql_run env Insert_pairing (update_pairings (sql_upsert rp_daemon_id new upd) st)) st)"

definition update_pairing_label :: "store_env \<Rightarrow> string \<Rightarrow> label \<Rightarrow> store \<Rightarrow> (store_error + unit) \<times> store" where
  "update_pairing_label env daemon_id label st =
    store_unit (sql_run env Update_label (update_pairings
      (sql_update (\<lambda>r. rp_daemon_id r = Some daemon_id) (\<lambda>r. r\<lparr>rp_label := label_to_nullable label\<rparr>)) st)) st"

text \<open>\<open>NULL\<close> sorts before every value in SQLite.\<close>

definition sort_by_created_at :: "raw_pairing_row list \<Rightarrow> raw_pairing_row list" where
  "sort_by_created_at rows =
    filter (\<lambda>r. rp_created_at r = None) rows @ sort_key (\<lambda>r. the (rp_created_at r)) (filter (\<lambda>r. rp_created_at r \<noteq> None) rows)"

definition load_pairings :: "store_env \<Rightarrow> store \<Rightarrow> store_error + stored_pairing list" where
  "load_pairings env st =
    sql_run env Select_pairings (List.map_filter parse_stored_pairing (sort_by_created_at (md_pairings (st_meta st))))"

text \<open>
  A transaction: the statements run one after the other on the connection's working copy, the first error ends
  them; \<open>commit\<close> makes the working copy the database, and a transaction that is dropped without it, on an error
  of a statement or of the commit, is rolled back.
\<close>

fun tx_execute :: "store_env \<Rightarrow> (sql_stmt \<times> (meta_db \<Rightarrow> meta_db)) list \<Rightarrow> meta_db \<Rightarrow> store_error option \<times> meta_db" where
  "tx_execute env [] tx = (None, tx)"
| "tx_execute env ((stmt, f) # stmts) tx =
    (case sql_run env stmt (f tx) of Inl e \<Rightarrow> (Some e, tx) | Inr tx \<Rightarrow> tx_execute env stmts tx)"

definition transaction :: "store_env \<Rightarrow> (sql_stmt \<times> (meta_db \<Rightarrow> meta_db)) list \<Rightarrow> store \<Rightarrow> (store_error + unit) \<times> store" where
  "transaction env stmts st =
    (case sql_run env Begin_transaction (st_meta st) of
       Inl e \<Rightarrow> (Inl e, st)
     | Inr tx \<Rightarrow>
         (case tx_execute env stmts tx of
            (Some e, tx) \<Rightarrow> (Inl e, st)
          | (None, tx) \<Rightarrow> store_unit (sql_run env Commit (st\<lparr>st_meta := tx\<rparr>)) st))"

definition delete_pairing :: "store_env \<Rightarrow> string \<Rightarrow> store \<Rightarrow> (store_error + unit) \<times> store" where
  "delete_pairing env daemon_id st = transaction env
    [(Delete_tokens_of_daemon, \<lambda>tx. tx\<lparr>md_push_tokens := sql_delete (\<lambda>r. ptr_daemon_id r = Some daemon_id) (md_push_tokens tx)\<rparr>),
     (Delete_confirmations_of_daemon, \<lambda>tx. tx\<lparr>md_confirmations := sql_delete (\<lambda>r. pc_daemon_id r = daemon_id) (md_confirmations tx)\<rparr>),
     (Delete_pairing_row, \<lambda>tx. tx\<lparr>md_pairings := sql_delete (\<lambda>r. rp_daemon_id r = Some daemon_id) (md_pairings tx)\<rparr>)] st"

section \<open>Confirmations\<close>

definition update_confirmations :: "(pairing_confirmation list \<Rightarrow> pairing_confirmation list) \<Rightarrow> store \<Rightarrow> store" where
  "update_confirmations f st = st\<lparr>st_meta := (st_meta st)\<lparr>md_confirmations := f (md_confirmations (st_meta st))\<rparr>\<rparr>"

definition save_pairing_confirmation :: "store_env \<Rightarrow> pairing_confirmation \<Rightarrow> store \<Rightarrow> (store_error + unit) \<times> store" where
  "save_pairing_confirmation env data st =
    store_unit (sql_run env Insert_confirmation
      (update_confirmations (sql_replace (\<lambda>r. (pc_daemon_id r, pc_frontend_id r)) data) st)) st"

definition get_pairing_confirmation :: "store_env \<Rightarrow> string \<Rightarrow> string \<Rightarrow> store \<Rightarrow> store_error + pairing_confirmation option" where
  "get_pairing_confirmation env daemon_id frontend_id st =
    sql_run env Select_confirmation
      (find (\<lambda>r. pc_daemon_id r = daemon_id \<and> pc_frontend_id r = frontend_id) (md_confirmations (st_meta st)))"

definition count_pairing_confirmations :: "store_env \<Rightarrow> string \<Rightarrow> store \<Rightarrow> store_error + nat" where
  "count_pairing_confirmations env daemon_id st =
    sql_run env Count_confirmations (length (filter (\<lambda>r. pc_daemon_id r = daemon_id) (md_confirmations (st_meta st))))"

text \<open>
  \<open>daemon_id NOT IN (SELECT daemon_id FROM pairings)\<close>. A \<open>NULL\<close> in the list makes the test unknown
  for every id that is not in it, so no row is deleted then.
\<close>

definition orphaned :: "store \<Rightarrow> pairing_confirmation \<Rightarrow> bool" where
  "orphaned st r \<longleftrightarrow> (let ids = map rp_daemon_id (md_pairings (st_meta st))
     in Some (pc_daemon_id r) \<notin> set ids \<and> None \<notin> set ids)"

definition sweep_orphaned_confirmations :: "store_env \<Rightarrow> store \<Rightarrow> (store_error + nat) \<times> store" where
  "sweep_orphaned_confirmations env st =
    (case sql_run env Sweep_confirmations (update_confirmations (sql_delete (orphaned st)) st) of
       Inl e \<Rightarrow> (Inl e, st)
     | Inr st' \<Rightarrow> (Inr (length (filter (orphaned st) (md_confirmations (st_meta st)))), st'))"

section \<open>Pairing ids of old rows\<close>

definition unidentified :: "raw_pairing_row \<Rightarrow> bool" where
  "unidentified r \<longleftrightarrow> rp_pairing_id r = None \<or> rp_pairing_id r = Some []"

text \<open>Reading a \<open>NULL\<close> daemon id as a \<open>String\<close> is an error.\<close>

fun collect_ids :: "string option list \<Rightarrow> store_error + string list" where
  "collect_ids [] = Inr []"
| "collect_ids (None # ids) = Inl (Sqlite ''Invalid column type Null'')"
| "collect_ids (Some i # ids) = (case collect_ids ids of Inl e \<Rightarrow> Inl e | Inr is \<Rightarrow> Inr (i # is))"

fun migrate_loop :: "crypto_api \<Rightarrow> store_env \<Rightarrow> string list \<Rightarrow> store \<Rightarrow> (store_error + unit) \<times> store" where
  "migrate_loop api env [] st = (Inr (), st)"
| "migrate_loop api env (daemon_id # ids) st =
    (case sql_run env (Update_pairing_id daemon_id) (update_pairings
        (sql_update (\<lambda>r. rp_daemon_id r = Some daemon_id)
          (\<lambda>r. r\<lparr>rp_pairing_id := Some (derive_legacy_pairing_id api daemon_id)\<rparr>)) st) of
       Inl e \<Rightarrow> (Inl e, st)
     | Inr st \<Rightarrow> migrate_loop api env ids st)"

definition migrate_pairing_ids :: "crypto_api \<Rightarrow> store_env \<Rightarrow> store \<Rightarrow> (store_error + nat) \<times> store" where
  "migrate_pairing_ids api env st =
    (case sql_run env Select_unidentified (map rp_daemon_id (filter unidentified (md_pairings (st_meta st)))) of
       Inl e \<Rightarrow> (Inl e, st)
     | Inr raw \<Rightarrow>
         (case collect_ids raw of
            Inl e \<Rightarrow> (Inl e, st)
          | Inr ids \<Rightarrow>
              (case migrate_loop api env ids st of
                 (Inl e, st) \<Rightarrow> (Inl e, st)
               | (Inr _, st) \<Rightarrow> (Inr (length ids), st))))"

section \<open>Push tokens\<close>

definition update_push_tokens :: "(push_token_row list \<Rightarrow> push_token_row list) \<Rightarrow> store \<Rightarrow> store" where
  "update_push_tokens f st = st\<lparr>st_meta := (st_meta st)\<lparr>md_push_tokens := f (md_push_tokens (st_meta st))\<rparr>\<rparr>"

definition save_push_token :: "store_env \<Rightarrow> string \<Rightarrow> string \<Rightarrow> string \<Rightarrow> push_platform \<Rightarrow> store \<Rightarrow> (store_error + unit) \<times> store" where
  "save_push_token env frontend_id daemon_id sealed platform st =
    store_unit (sql_run env Insert_push_token (update_push_tokens (sql_replace ptr_frontend_id
      \<lparr>ptr_frontend_id = Some frontend_id, ptr_daemon_id = Some daemon_id, ptr_sealed = Some sealed,
       ptr_platform = Some (platform_as_str platform), ptr_updated_at = se_now env\<rparr>) st)) st"

definition filter_non_empty :: "string option \<Rightarrow> string option" where
  "filter_non_empty s = Option.bind s (\<lambda>v. if v = [] then None else Some v)"

definition valid_token :: "push_token_row \<Rightarrow> push_token_entry option" where
  "valid_token row =
    Option.bind (filter_non_empty (ptr_frontend_id row)) (\<lambda>frontend_id.
    Option.bind (filter_non_empty (ptr_daemon_id row)) (\<lambda>daemon_id.
    Option.bind (filter_non_empty (ptr_sealed row)) (\<lambda>sealed.
    Option.bind (Option.bind (ptr_platform row) platform_parse) (\<lambda>platform.
      Some \<lparr>pte_frontend_id = frontend_id, pte_daemon_id = daemon_id, pte_sealed = sealed, pte_platform = platform\<rparr>))))"

definition corrupt_ids :: "push_token_row list \<Rightarrow> string list" where
  "corrupt_ids rows =
    List.map_filter (\<lambda>r. if valid_token r = None then filter_non_empty (ptr_frontend_id r) else None) rows"

definition delete_push_token :: "store_env \<Rightarrow> string \<Rightarrow> store \<Rightarrow> (store_error + unit) \<times> store" where
  "delete_push_token env frontend_id st =
    store_unit (sql_run env (Delete_push_token_row frontend_id)
      (update_push_tokens (sql_delete (\<lambda>r. ptr_frontend_id r = Some frontend_id)) st)) st"

fun purge_loop :: "store_env \<Rightarrow> string list \<Rightarrow> store \<Rightarrow> (store_error + unit) \<times> store" where
  "purge_loop env [] st = (Inr (), st)"
| "purge_loop env (fid # fids) st =
    (case delete_push_token env fid st of
       (Inl e, st) \<Rightarrow> (Inl e, st)
     | (Inr _, st) \<Rightarrow> purge_loop env fids st)"

definition load_push_tokens :: "store_env \<Rightarrow> store \<Rightarrow> (store_error + push_token_entry list) \<times> store" where
  "load_push_tokens env st =
    (case sql_run env Select_push_tokens (md_push_tokens (st_meta st)) of
       Inl e \<Rightarrow> (Inl e, st)
     | Inr rows \<Rightarrow>
         (case purge_loop env (corrupt_ids rows) st of
            (Inl e, st) \<Rightarrow> (Inl e, st)
          | (Inr _, st) \<Rightarrow> (Inr (List.map_filter valid_token rows), st)))"

definition delete_push_tokens_for_daemon :: "store_env \<Rightarrow> string \<Rightarrow> store \<Rightarrow> (store_error + unit) \<times> store" where
  "delete_push_tokens_for_daemon env daemon_id st =
    store_unit (sql_run env Delete_push_tokens_of
      (update_push_tokens (sql_delete (\<lambda>r. ptr_daemon_id r = Some daemon_id)) st)) st"

text \<open>Reading a \<open>NULL\<close> column as a \<open>String\<close> or \<open>i64\<close> is an error.\<close>

definition to_summary :: "raw_pairing_row \<Rightarrow> pairing_summary option" where
  "to_summary r =
    Option.bind (rp_daemon_id r) (\<lambda>daemon_id.
    Option.bind (rp_relay_url r) (\<lambda>relay_url.
    Option.bind (rp_created_at r) (\<lambda>created_at.
      Some \<lparr>psm_daemon_id = daemon_id, psm_relay_url = relay_url, psm_created_at = created_at,
        psm_label = decode_wire_label (nullable_json (rp_label r))\<rparr>)))"

definition list_pairings :: "store_env \<Rightarrow> store \<Rightarrow> store_error + pairing_summary list" where
  "list_pairings env st =
    (case sql_run env Select_summaries (map to_summary (sort_by_created_at (md_pairings (st_meta st)))) of
       Inl e \<Rightarrow> Inl e
     | Inr rows \<Rightarrow> (case collect_options rows of None \<Rightarrow> Inl (Sqlite ''Invalid column type Null'') | Some ps \<Rightarrow> Inr ps))"

section \<open>Opening and closing\<close>

text \<open>The column an \<open>ALTER TABLE \<dots> ADD COLUMN\<close> statement adds.\<close>

fun str_find :: "string \<Rightarrow> string \<Rightarrow> nat option" where
  "str_find p [] = (if p = [] then Some 0 else None)"
| "str_find p (c # s) = (if starts_with (c # s) p then Some 0 else map_option Suc (str_find p s))"

definition extract_add_column_name :: "string \<Rightarrow> string option" where
  "extract_add_column_name sql =
    (case str_find ''add column'' (map ascii_lower sql) of
       None \<Rightarrow> None
     | Some idx \<Rightarrow>
         let after = trim_start (drop (idx + length ''add column'') sql);
             name = takeWhile (\<lambda>c. is_ascii_alphanumeric c \<or> c = CHR ''_'') after
         in if name = [] then None else Some name)"

definition PAIRINGS_MIGRATIONS :: "string list" where
  "PAIRINGS_MIGRATIONS =
    [''ALTER TABLE pairings ADD COLUMN label TEXT;'', ''ALTER TABLE pairings ADD COLUMN pairing_id TEXT;'',
     ''ALTER TABLE pairings ADD COLUMN hostname TEXT;'']"

text \<open>
  The migration loop of \<open>Store::open\<close>, given the columns found by the probe; \<open>run\<close> is the result of
  executing a statement. It returns the statements that were executed with success.
\<close>

fun run_migrations :: "(string \<Rightarrow> string option) \<Rightarrow> string list \<Rightarrow> string list \<Rightarrow> store_error + string list" where
  "run_migrations run cols [] = Inr []"
| "run_migrations run cols (sql # sqls) =
    (if (case extract_add_column_name sql of Some col \<Rightarrow> col \<in> set cols | None \<Rightarrow> False) then run_migrations run cols sqls
     else (case run sql of
         None \<Rightarrow> (case run_migrations run cols sqls of Inl e \<Rightarrow> Inl e | Inr done_sqls \<Rightarrow> Inr (sql # done_sqls))
       | Some err \<Rightarrow>
           let msg = map ascii_lower err in
           if str_find ''duplicate column'' msg = None \<and> str_find ''already exists'' msg = None then Inl (Sqlite err)
           else run_migrations run cols sqls))"

definition store_open :: "meta_db \<Rightarrow> (string, dir_file) hash_map \<Rightarrow> nat option \<Rightarrow> store" where
  "store_open meta disk max_open_session_dbs =
    \<lparr>st_meta = meta, st_session_dbs = hm_empty, st_order = [],
     st_max_open = (case max_open_session_dbs of Some n \<Rightarrow> n | None \<Rightarrow> DEFAULT_MAX_OPEN_SESSION_DBS), st_disk = disk\<rparr>"

definition store_reset_for_test :: "store \<Rightarrow> store" where
  "store_reset_for_test st =
    st\<lparr>st_session_dbs := hm_empty, st_order := [],
       st_meta := \<lparr>md_sessions = [], md_pairings = [], md_confirmations = [], md_push_tokens = []\<rparr>,
       st_disk := filter (\<lambda>(path, _). CHR ''/'' \<in> set path) (st_disk st)\<rparr>"

section \<open>Records of a session\<close>

text \<open>
  Working on the records of a session through its database handle. The file behind an open handle
  always exists (\<open>Store_Inv\<close>), so the last branch is never taken.
\<close>

definition with_records :: "store_env \<Rightarrow> string \<Rightarrow> (records_table \<Rightarrow> 'a \<times> records_table) \<Rightarrow> store \<Rightarrow> 'a option \<times> store" where
  "with_records env sid f st =
    (let (db, st) = get_session_db env sid st
     in case db of
          None \<Rightarrow> (None, st)
        | Some db \<Rightarrow>
            (case hm_get (st_disk st) (sdb_path db) of
               Some (Records_file t) \<Rightarrow>
                 let (r, t) = f t in (Some r, st\<lparr>st_disk := hm_insert (sdb_path db) (Records_file t) (st_disk st)\<rparr>)
             | _ \<Rightarrow> (None, st)))"

end
