(* ===== verification/Store_Inv.thy ===== *)
theory Store_Inv
  imports Store
begin

text \<open>
  The invariant of the daemon's store: every table keeps its keys unique, the cache of open session
  databases agrees with its recency order and respects its cap, every open database has the path its
  session id names, and every session file holds well-formed records. Every operation keeps it, whatever
  SQLite, the file system and the clock do. That the file behind an open database is still there is not
  part of it: \<open>get_session_db\<close> does not check the id it is given, two ids can name one file
  (\<open>unsafe_sid_names_another_session\<close>), and deleting one session can so unlink the file of another.
\<close>

section \<open>Key uniqueness\<close>

named_theorems table_simps \<open>what the SQL operations do to the keys of a table\<close>

lemma keys_upsert [table_simps]:
  assumes "\<And>r. key (upd r) = key r \<or> key (upd r) = key new"
  shows "distinct (map key rows) \<Longrightarrow> distinct (map key (sql_upsert key new upd rows))"
proof -
  have "key (if key r = key new then upd r else r) = key r" for r using assms [of r] by auto
  then have "map key (map (\<lambda>r. if key r = key new then upd r else r) rows) = map key rows" by simp
  then show "distinct (map key rows) \<Longrightarrow> distinct (map key (sql_upsert key new upd rows))"
    unfolding sql_upsert_def by (simp del: map_map)
qed

lemma keys_replace [table_simps]: "distinct (map key rows) \<Longrightarrow> distinct (map key (sql_replace key new rows))"
  by (auto simp: sql_replace_def distinct_map_filter)

lemma keys_update [table_simps]:
  assumes "\<And>r. key (upd r) = key r"
  shows "map key (sql_update cond upd rows) = map key rows"
  using assms by (simp add: sql_update_def)

lemma keys_delete [table_simps]: "distinct (map key rows) \<Longrightarrow> distinct (map key (sql_delete cond rows))"
  by (simp add: sql_delete_def distinct_map_filter)

definition confirmation_key :: "pairing_confirmation \<Rightarrow> string \<times> string" where
  "confirmation_key r = (pc_daemon_id r, pc_frontend_id r)"

definition meta_ok :: "meta_db \<Rightarrow> bool" where
  "meta_ok md \<longleftrightarrow> distinct (map sm_sid (md_sessions md)) \<and> distinct (map rp_daemon_id (md_pairings md)) \<and>
     distinct (map confirmation_key (md_confirmations md)) \<and> distinct (map ptr_frontend_id (md_push_tokens md))"

definition disk_ok :: "(string, dir_file) hash_map \<Rightarrow> bool" where
  "disk_ok disk \<longleftrightarrow> hm_ok disk \<and> (\<forall>p t. map_of disk p = Some (Records_file t) \<longrightarrow> records_ok t)"

definition cache_ok :: "store \<Rightarrow> bool" where
  "cache_ok st \<longleftrightarrow> hm_ok (st_session_dbs st) \<and> distinct (st_order st) \<and> set (st_order st) = dom (map_of (st_session_dbs st)) \<and>
     (0 < st_max_open st \<longrightarrow> length (st_session_dbs st) \<le> st_max_open st)"

definition handles_ok :: "store \<Rightarrow> bool" where
  "handles_ok st \<longleftrightarrow> (\<forall>sid db. map_of (st_session_dbs st) sid = Some db \<longrightarrow>
     sdb_path db = session_db_path sid)"

definition store_inv :: "store \<Rightarrow> bool" where
  "store_inv st \<longleftrightarrow> meta_ok (st_meta st) \<and> disk_ok (st_disk st) \<and> cache_ok st \<and> handles_ok st"

lemma length_hm_dom: "hm_ok m \<Longrightarrow> distinct xs \<Longrightarrow> set xs = dom (map_of m) \<Longrightarrow> length m = length xs"
  unfolding hm_ok_def by (metis distinct_card dom_map_of_conv_image_fst length_map set_map)

section \<open>The cache of open databases\<close>

lemma evict_loop_spec:
  assumes "hm_ok dbs" "distinct order" "set order = dom (map_of dbs)"
  shows "snd (evict_loop cap dbs order) = lastn cap order \<and> hm_ok (fst (evict_loop cap dbs order)) \<and>
    map_of (fst (evict_loop cap dbs order)) = map_of dbs |` set (lastn cap order)"
  using assms
proof (induction cap dbs order rule: evict_loop.induct)
  case (1 cap dbs)
  then have "dom (map_of dbs) = {}" by simp
  then have "dbs = []" by (simp add: dom_map_of_conv_image_fst)
  then show ?case by (simp add: lastn_def)
next
  case (2 cap dbs oldest order)
  have len: "length dbs = Suc (length order)" using length_hm_dom [OF 2(2-4)] by simp
  show ?case
  proof (cases "length dbs > cap")
    case True
    have rest: "set order = dom (map_of (AList.delete oldest dbs))" using 2(3,4) by auto
    have "distinct order" using 2(3) by simp
    note IH = 2(1) [OF True hm_ok_remove [OF 2(2)] this rest]
    have "lastn cap (oldest # order) = lastn cap order" using True len by (simp add: lastn_def Suc_diff_le)
    moreover have "oldest \<notin> set (lastn cap order)" using 2(3) set_lastn [of cap order] by auto
    ultimately show ?thesis using IH True by (auto simp: restrict_map_def fun_eq_iff)
  next
    case False
    then have "lastn cap (oldest # order) = oldest # order" using len by (simp add: lastn_def)
    with False 2(2,4) show ?thesis by (auto simp: restrict_map_def fun_eq_iff domIff)
  qed
qed

lemma track_session_db_spec:
  fixes sid :: string and st :: store
  assumes "cache_ok st"
  defines "order \<equiv> remove1 sid (st_order st) @ [sid]"
  defines "kept \<equiv> (if st_max_open st = 0 then order else lastn (st_max_open st) order)"
  shows "st_order (track_session_db sid db st) = kept \<and> hm_ok (st_session_dbs (track_session_db sid db st)) \<and>
    map_of (st_session_dbs (track_session_db sid db st)) = ((map_of (st_session_dbs st))(sid \<mapsto> db)) |` set kept"
proof -
  let ?dbs = "hm_insert sid db (st_session_dbs st)"
  have "distinct order" "set order = insert sid (set (st_order st))"
    using assms(1) by (auto simp: order_def cache_ok_def)
  then have ok: "hm_ok ?dbs" "distinct order" "set order = dom (map_of ?dbs)"
    using assms(1) by (auto simp: cache_ok_def)
  from evict_loop_spec [OF this, of "st_max_open st"] show ?thesis
    using ok by (auto simp: track_session_db_def Let_def kept_def order_def split_beta restrict_map_def fun_eq_iff domIff)
qed

lemma last_kept:
  assumes "kept = (if cap = 0 then xs @ [x] else lastn cap (xs @ [x]))"
  shows "kept \<noteq> []" "last kept = x" "x \<in> set kept"
proof -
  show "kept \<noteq> []" using assms by (auto simp: lastn_def)
  show "last kept = x" using assms by (auto simp: lastn_def)
  with \<open>kept \<noteq> []\<close> show "x \<in> set kept" by (metis last_in_set)
qed

lemma cache_ok_track:
  assumes "cache_ok st"
  shows "cache_ok (track_session_db sid db st)"
proof -
  let ?st = "track_session_db sid db st"
  let ?order = "remove1 sid (st_order st) @ [sid]"
  let ?kept = "if st_max_open st = 0 then ?order else lastn (st_max_open st) ?order"
  note spec = track_session_db_spec [OF assms, of sid db]
  have d: "distinct ?order" using assms by (auto simp: cache_ok_def)
  then have d: "distinct ?kept" unfolding lastn_def by (simp only: distinct_drop if_True if_False split: if_split) blast
  have "set ?kept \<subseteq> set ?order" using set_lastn [of "st_max_open st" ?order] by (simp only: split: if_split) blast
  then have dom: "set ?kept \<subseteq> insert sid (dom (map_of (st_session_dbs st)))"
    using assms unfolding cache_ok_def by auto
  then have s: "set (st_order ?st) = dom (map_of (st_session_dbs ?st))"
  proof -
    have "dom (map_of (st_session_dbs ?st)) = insert sid (dom (map_of (st_session_dbs st))) \<inter> set ?kept"
      using spec by (simp only: dom_restrict dom_fun_upd option.distinct if_False)
    moreover have "st_order ?st = ?kept" using spec by blast
    ultimately show ?thesis using dom by (simp only:) blast
  qed
  have "st_max_open ?st = st_max_open st" by (simp add: track_session_db_def Let_def split_beta)
  moreover have "length (st_session_dbs ?st) = length ?kept"
    using length_hm_dom [of "st_session_dbs ?st" ?kept] spec s d by simp
  ultimately show ?thesis
    using spec s d lastn_length [of "st_max_open st" ?order] unfolding cache_ok_def by auto
qed

lemma handles_ok_track:
  assumes "handles_ok st" "cache_ok st" "sdb_path db = session_db_path sid"
  shows "handles_ok (track_session_db sid db st)"
  using track_session_db_spec [OF assms(2), of sid db] assms(1,3)
  by (auto simp: handles_ok_def restrict_map_def split: if_splits)

lemma session_db_open_Inr:
  assumes "session_db_open env path disk = Inr (db, disk')" "disk_ok disk"
  shows "sdb_path db = path" "disk_ok disk'" "\<exists>t. map_of disk' path = Some (Records_file t)"
    "map_of disk p = Some f \<Longrightarrow> map_of disk' p = Some f"
  using assms by (auto simp: session_db_open_def disk_ok_def split: option.splits dir_file.splits if_splits)

lemma store_fields_track [simp]:
  "st_meta (track_session_db sid db st) = st_meta st" "st_disk (track_session_db sid db st) = st_disk st"
  "st_max_open (track_session_db sid db st) = st_max_open st"
  by (simp_all add: track_session_db_def Let_def split_beta)

lemma store_inv_open:
  assumes "store_inv st" "session_db_open env (session_db_path sid) (st_disk st) = Inr (db, disk)"
  shows "store_inv (track_session_db sid db (st\<lparr>st_disk := disk\<rparr>))"
proof -
  have disk: "disk_ok (st_disk st)" using assms(1) by (simp add: store_inv_def)
  note opened = session_db_open_Inr [OF assms(2) disk]
  let ?st = "st\<lparr>st_disk := disk\<rparr>"
  have c: "cache_ok ?st" using assms(1) by (simp add: store_inv_def cache_ok_def)
  have "handles_ok ?st" using assms(1) by (simp add: store_inv_def handles_ok_def)
  from handles_ok_track [OF this c opened(1)] cache_ok_track [OF c] opened(2) assms(1)
  show ?thesis by (simp add: store_inv_def)
qed

lemma store_inv_touch: "store_inv st \<Longrightarrow> hm_contains (st_session_dbs st) sid \<Longrightarrow> store_inv (touch sid st)"
  by (auto simp: store_inv_def touch_def cache_ok_def handles_ok_def)

lemma store_inv_ensure: "store_inv st \<Longrightarrow> store_inv (snd (ensure_session_db env sid st))"
  using store_inv_open [of st env sid]
  by (auto simp: ensure_session_db_def store_inv_touch split: sum.splits)

lemma store_inv_get_session_db: "store_inv st \<Longrightarrow> store_inv (snd (get_session_db env sid st))"
  using store_inv_ensure [of st env sid] by (auto simp: get_session_db_def split: prod.splits)

section \<open>Every operation keeps the invariant\<close>

lemma store_inv_meta: "store_inv st \<Longrightarrow> meta_ok md \<Longrightarrow> store_inv (st\<lparr>st_meta := md\<rparr>)"
  by (simp add: store_inv_def cache_ok_def handles_ok_def)

lemma store_inv_update_sessions:
  "store_inv st \<Longrightarrow> distinct (map sm_sid (f (md_sessions (st_meta st)))) \<Longrightarrow> store_inv (update_sessions f st)"
  unfolding update_sessions_def by (rule store_inv_meta) (auto simp: store_inv_def meta_ok_def)

lemma store_inv_update_pairings:
  "store_inv st \<Longrightarrow> distinct (map rp_daemon_id (f (md_pairings (st_meta st)))) \<Longrightarrow> store_inv (update_pairings f st)"
  unfolding update_pairings_def by (rule store_inv_meta) (auto simp: store_inv_def meta_ok_def)

lemma store_inv_update_confirmations:
  "store_inv st \<Longrightarrow> distinct (map confirmation_key (f (md_confirmations (st_meta st)))) \<Longrightarrow> store_inv (update_confirmations f st)"
  unfolding update_confirmations_def by (rule store_inv_meta) (auto simp: store_inv_def meta_ok_def)

lemma store_inv_update_push_tokens:
  "store_inv st \<Longrightarrow> distinct (map ptr_frontend_id (f (md_push_tokens (st_meta st)))) \<Longrightarrow> store_inv (update_push_tokens f st)"
  unfolding update_push_tokens_def by (rule store_inv_meta) (auto simp: store_inv_def meta_ok_def)

lemma store_inv_keys:
  assumes "store_inv st"
  shows "distinct (map sm_sid (md_sessions (st_meta st)))" "distinct (map rp_daemon_id (md_pairings (st_meta st)))"
    "distinct (map confirmation_key (md_confirmations (st_meta st)))" "distinct (map ptr_frontend_id (md_push_tokens (st_meta st)))"
  using assms by (auto simp: store_inv_def meta_ok_def)

lemmas store_inv_tables = store_inv_update_sessions store_inv_update_pairings store_inv_update_confirmations store_inv_update_push_tokens

lemma store_inv_unit: "store_inv st \<Longrightarrow> store_inv st' \<Longrightarrow> store_inv (snd (store_unit (sql_run env stmt st') st))"
  by (simp add: store_unit_def sql_run_def split: option.split)

lemma sql_run_Inr [simp]: "sql_run env stmt x = Inr y \<longleftrightarrow> se_sql env stmt = None \<and> y = x"
  by (auto simp: sql_run_def split: option.split)

lemma sql_run_Inl [simp]: "sql_run env stmt x = Inl e \<longleftrightarrow> (\<exists>m. se_sql env stmt = Some m \<and> e = Sqlite m)"
  by (auto simp: sql_run_def split: option.split)

lemma unlink_loop_disk: "snd (unlink_loop env path n disk) \<in> {disk, AList.delete path disk}"
  by (induction n) (auto simp: remove_file_def split: sum.splits option.splits io_kind.splits if_splits)

lemma unlink_retry_disk: "snd (unlink_retry env path disk) \<in> {disk, AList.delete path disk}"
  unfolding unlink_retry_def by (rule unlink_loop_disk)

lemma disk_ok_delete: "disk_ok disk \<Longrightarrow> disk_ok (AList.delete path disk)"
  by (auto simp: disk_ok_def split: if_splits)

lemma unlink_retry_keeps:
  assumes "unlink_retry env path disk = (r, disk')"
  shows "disk_ok disk \<Longrightarrow> disk_ok disk'" "p \<noteq> path \<Longrightarrow> map_of disk' p = map_of disk p"
  using unlink_retry_disk [of env path disk] assms disk_ok_delete by auto

lemma unlink_all_keeps:
  "unlink_all env paths disk = (r, disk') \<Longrightarrow> (disk_ok disk \<longrightarrow> disk_ok disk') \<and> (p \<notin> set paths \<longrightarrow> map_of disk' p = map_of disk p)"
proof (induction paths arbitrary: disk)
  case (Cons path paths)
  obtain r1 disk1 where 1: "unlink_retry env path disk = (r1, disk1)" by fastforce
  show ?case
    using Cons.prems Cons.IH [of disk1] unlink_retry_keeps [OF 1] 1 by (cases r1) auto
qed simp

lemma store_inv_forget:
  assumes "store_inv st"
  shows "store_inv (forget_session_db sid st)" "map_of (st_session_dbs (forget_session_db sid st)) sid = None"
proof -
  have "length (AList.delete sid (st_session_dbs st)) \<le> length (st_session_dbs st)" by (rule AList.length_delete_le)
  then show "store_inv (forget_session_db sid st)"
    using assms by (auto simp: forget_session_db_def store_inv_def cache_ok_def handles_ok_def split: if_splits)
qed (simp add: forget_session_db_def)

lemma store_inv_disk: "store_inv st \<Longrightarrow> disk_ok disk \<Longrightarrow> store_inv (st\<lparr>st_disk := disk\<rparr>)"
  by (simp add: store_inv_def cache_ok_def handles_ok_def)

lemma store_inv_delete_session:
  assumes "store_inv st"
  shows "store_inv (snd (delete_session env sid st))"
proof -
  let ?st1 = "forget_session_db sid st"
  note 1 = store_inv_forget [OF assms, of sid]
  let ?st2 = "update_sessions (sql_delete (\<lambda>r. sm_sid r = sid)) ?st1"
  have 2: "store_inv ?st2" using 1(1) store_inv_keys(1) by (intro store_inv_update_sessions keys_delete) auto
  obtain r disk where u: "unlink_all env [session_db_path sid, session_db_path sid @ ''-wal'', session_db_path sid @ ''-shm''] (st_disk ?st2) = (r, disk)"
    by fastforce
  have "disk_ok disk" using unlink_all_keeps [OF u] 2 by (auto simp: store_inv_def)
  then have "store_inv (?st2\<lparr>st_disk := disk\<rparr>)" by (rule store_inv_disk [OF 2])
  moreover have "snd (delete_session env sid st) \<in> {?st1, ?st2\<lparr>st_disk := disk\<rparr>}"
    using u by (simp add: delete_session_def Let_def del: unlink_all.simps split: sum.split)
  ultimately show ?thesis using 1(1) by auto
qed

lemma store_inv_prune: "store_inv st \<Longrightarrow> store_inv (snd (prune_old_sessions env age st))"
proof -
  have loop: "store_inv st \<Longrightarrow> store_inv (snd (prune_loop env sids st))" for sids st
  proof (induction sids arbitrary: st)
    case (Cons sid sids)
    then show ?case using store_inv_delete_session [of st env sid] by (auto split: prod.splits sum.splits)
  qed simp
  have "store_inv st'" if "prune_loop env sids st = (r, st')" "store_inv st" for sids st r st'
    using loop [OF that(2), of sids] that(1) by simp
  then show "store_inv st \<Longrightarrow> ?thesis"
    by (auto simp: prune_old_sessions_def Let_def split: sum.splits prod.splits)
qed

lemma store_inv_create_session:
  assumes "store_inv st"
  shows "store_inv (snd (create_session env sid cwd wp cv st))"
proof (cases "assert_safe_sid sid")
  case (Inr u)
  let ?new = "\<lparr>sm_sid = sid, sm_state = ''running'', sm_worktree_path = wp, sm_cwd = cwd, sm_created_at = se_now env,
    sm_updated_at = se_now env, sm_claude_version = cv, sm_last_seq = 0\<rparr>"
  let ?upd = "\<lambda>r. r\<lparr>sm_state := sm_state ?new, sm_worktree_path := sm_worktree_path ?new, sm_cwd := sm_cwd ?new,
    sm_updated_at := sm_updated_at ?new, sm_claude_version := sm_claude_version ?new\<rparr>"
  let ?st = "update_sessions (sql_upsert sm_sid ?new ?upd) st"
  have st: "store_inv ?st" using assms store_inv_keys(1) by (intro store_inv_update_sessions keys_upsert) auto
  then have "store_inv (track_session_db sid db (?st\<lparr>st_disk := disk\<rparr>))"
    if "session_db_open env (session_db_path sid) (st_disk ?st) = Inr (db, disk)" for db disk
    using store_inv_open that by blast
  with st assms Inr show ?thesis
    by (auto simp: create_session_def Let_def update_sessions_def split: sum.splits)
qed (simp add: create_session_def assms)

lemma ends_with_iff: "ends_with s p \<longleftrightarrow> (\<exists>r. s = r @ p)"
  unfolding ends_with_def by (auto intro!: exI [of _ "take (length s - length p) s"]) (metis append_take_drop_id)

lemma sweep_loop_inv:
  "store_inv st \<Longrightarrow> store_inv (snd (sweep_loop env entries names n st))"
proof (induction names arbitrary: n st)
  case (Cons name names)
  show ?case
  proof (cases "keep_sidecar entries st name")
    case False
    obtain r disk where u: "unlink_retry env name (st_disk st) = (r, disk)" by fastforce
    have "store_inv (st\<lparr>st_disk := disk\<rparr>)"
      using Cons.prems unlink_retry_keeps(1) [OF u] by (intro store_inv_disk) (auto simp: store_inv_def)
    with False u Cons.IH show ?thesis by (cases r) auto
  qed (use Cons in simp)
qed simp

lemma store_inv_sweep: "store_inv st \<Longrightarrow> store_inv (snd (sweep_orphaned_sidecars env st))"
  by (simp add: sweep_orphaned_sidecars_def Let_def sweep_loop_inv)

lemma store_inv_meta_ops:
  assumes "store_inv st"
  shows "store_inv (snd (update_session_state env sid state st))" "store_inv (snd (update_last_seq env sid seq st))"
    "store_inv (snd (save_pairing env data st))" "store_inv (snd (update_pairing_label env did label st))"
    "store_inv (snd (save_pairing_confirmation env conf st))" "store_inv (snd (sweep_orphaned_confirmations env st))"
    "store_inv (snd (save_push_token env fid did sealed platform st))" "store_inv (snd (delete_push_token env fid st))"
    "store_inv (snd (delete_push_tokens_for_daemon env did st))"
proof -
  note k = store_inv_keys [OF assms]
  have ck: "confirmation_key = (\<lambda>r. (pc_daemon_id r, pc_frontend_id r))" by (simp add: confirmation_key_def fun_eq_iff)
  show "store_inv (snd (update_session_state env sid state st))" "store_inv (snd (update_last_seq env sid seq st))"
    unfolding update_session_state_def update_last_seq_def
    using assms k(1) by (intro store_inv_unit store_inv_update_sessions; simp add: keys_update)+
  show "store_inv (snd (save_pairing env data st))"
    unfolding save_pairing_def Let_def
    using assms k(2) by (intro store_inv_unit store_inv_update_pairings keys_upsert) simp_all
  show "store_inv (snd (update_pairing_label env did label st))"
    unfolding update_pairing_label_def
    using assms k(2) by (intro store_inv_unit store_inv_update_pairings; simp add: keys_update)
  show "store_inv (snd (save_push_token env fid did sealed platform st))" "store_inv (snd (delete_push_token env fid st))"
    "store_inv (snd (delete_push_tokens_for_daemon env did st))"
    unfolding save_push_token_def delete_push_token_def delete_push_tokens_for_daemon_def
    using assms k(4) by (intro store_inv_unit store_inv_update_push_tokens keys_replace keys_delete; simp)+
  show "store_inv (snd (save_pairing_confirmation env conf st))"
    unfolding save_pairing_confirmation_def ck [symmetric]
    using assms k(3) by (intro store_inv_unit store_inv_update_confirmations keys_replace) simp_all
  have "store_inv (update_confirmations (sql_delete (orphaned st)) st)"
    using assms k(3) by (intro store_inv_update_confirmations keys_delete) simp_all
  then show "store_inv (snd (sweep_orphaned_confirmations env st))"
    using assms by (simp add: sweep_orphaned_confirmations_def sql_run_def split: option.split)
qed

lemma store_inv_delete_pairing: "store_inv st \<Longrightarrow> store_inv (snd (delete_pairing env did st))"
  by (auto simp: delete_pairing_def transaction_def store_unit_def keys_delete store_inv_def meta_ok_def cache_ok_def handles_ok_def
      split: sum.splits)

lemma store_inv_migrate: "store_inv st \<Longrightarrow> store_inv (snd (migrate_pairing_ids api env st))"
proof -
  have loop: "store_inv st \<Longrightarrow> store_inv (snd (migrate_loop api env ids st))" for ids st
  proof (induction ids arbitrary: st)
    case (Cons i ids)
    then show ?case using store_inv_keys(2) by (auto intro!: Cons.IH store_inv_tables simp: keys_update split: sum.split)
  qed simp
  have "store_inv st'" if "migrate_loop api env ids st = (r, st')" "store_inv st" for ids st r st'
    using loop [OF that(2), of ids] that(1) by simp
  then show "store_inv st \<Longrightarrow> ?thesis"
    by (auto simp: migrate_pairing_ids_def split: sum.splits prod.splits)
qed

lemma store_inv_load_push_tokens: "store_inv st \<Longrightarrow> store_inv (snd (load_push_tokens env st))"
proof -
  have loop: "store_inv st \<Longrightarrow> store_inv (snd (purge_loop env ids st))" for ids st
  proof (induction ids arbitrary: st)
    case (Cons i ids)
    then show ?case using store_inv_meta_ops(8) [of st env i] by (auto split: sum.splits prod.splits)
  qed simp
  have "store_inv st'" if "purge_loop env ids st = (r, st')" "store_inv st" for ids st r st'
    using loop [OF that(2), of ids] that(1) by simp
  then show "store_inv st \<Longrightarrow> ?thesis"
    by (auto simp: load_push_tokens_def split: sum.splits prod.splits)
qed

lemma store_inv_with_records:
  assumes "store_inv st" "\<And>t. records_ok t \<Longrightarrow> records_ok (snd (f t))"
  shows "store_inv (snd (with_records env sid f st))"
proof -
  obtain db st1 where g: "get_session_db env sid st = (db, st1)" by fastforce
  have 1: "store_inv st1" using store_inv_get_session_db [OF assms(1), of env sid] g by simp
  have "store_inv (st1\<lparr>st_disk := hm_insert p (Records_file (snd (f t))) (st_disk st1)\<rparr>)"
    if "map_of (st_disk st1) p = Some (Records_file t)" for p t
    using 1 that assms(2) unfolding store_inv_def disk_ok_def cache_ok_def handles_ok_def by auto
  with 1 show ?thesis
    by (auto simp: with_records_def g Let_def split: option.split dir_file.split prod.split) (metis snd_conv)
qed

section \<open>Reachable stores\<close>

text \<open>
  One operation of the store, in any environment. The last two steps are SQLite's: the sidecar files
  of its journals appear and disappear.
\<close>

inductive store_step :: "store \<Rightarrow> store \<Rightarrow> bool" where
  create: "store_step st (snd (create_session env sid cwd wp cv st))"
| get_db: "store_step st (snd (get_session_db env sid st))"
| append: "store_step st (snd (with_records env sid (sdb_append fault kind ts payload ns name) st))"
| set_state: "store_step st (snd (update_session_state env sid state st))"
| set_seq: "store_step st (snd (update_last_seq env sid seq st))"
| delete: "store_step st (snd (delete_session env sid st))"
| prune: "store_step st (snd (prune_old_sessions env age st))"
| sweep: "store_step st (snd (sweep_orphaned_sidecars env st))"
| save_pairing: "store_step st (snd (save_pairing env data st))"
| set_label: "store_step st (snd (update_pairing_label env did label st))"
| delete_pairing: "store_step st (snd (delete_pairing env did st))"
| confirm: "store_step st (snd (save_pairing_confirmation env conf st))"
| sweep_confirmations: "store_step st (snd (sweep_orphaned_confirmations env st))"
| migrate: "store_step st (snd (migrate_pairing_ids api env st))"
| save_token: "store_step st (snd (save_push_token env fid did sealed platform st))"
| load_tokens: "store_step st (snd (load_push_tokens env st))"
| delete_token: "store_step st (snd (delete_push_token env fid st))"
| delete_tokens: "store_step st (snd (delete_push_tokens_for_daemon env did st))"
| sidecar_created: "is_sidecar name \<Longrightarrow> store_step st (st\<lparr>st_disk := hm_insert name Other_file (st_disk st)\<rparr>)"
| sidecar_removed: "is_sidecar name \<Longrightarrow> store_step st (st\<lparr>st_disk := hm_remove name (st_disk st)\<rparr>)"

lemma store_inv_sidecar:
  assumes "store_inv st"
  shows "store_inv (st\<lparr>st_disk := hm_insert name Other_file (st_disk st)\<rparr>)"
    "store_inv (st\<lparr>st_disk := hm_remove name (st_disk st)\<rparr>)"
proof -
  have "disk_ok (st_disk st)" using assms(1) by (simp add: store_inv_def)
  then have "disk_ok (hm_insert name Other_file (st_disk st))" "disk_ok (hm_remove name (st_disk st))"
    by (auto simp: disk_ok_def disk_ok_delete)
  then show "store_inv (st\<lparr>st_disk := hm_insert name Other_file (st_disk st)\<rparr>)"
    "store_inv (st\<lparr>st_disk := hm_remove name (st_disk st)\<rparr>)"
    by (auto intro: store_inv_disk [OF assms(1)])
qed

lemma store_step_inv: "store_step st st' \<Longrightarrow> store_inv st \<Longrightarrow> store_inv st'"
  by (induction rule: store_step.induct)
    (simp_all add: store_inv_create_session store_inv_get_session_db store_inv_with_records records_ok_append
      store_inv_meta_ops store_inv_delete_session store_inv_prune store_inv_sweep store_inv_delete_pairing
      store_inv_migrate store_inv_load_push_tokens store_inv_sidecar)

definition store_init :: "store \<Rightarrow> bool" where
  "store_init st \<longleftrightarrow> (\<exists>meta disk max_open. meta_ok meta \<and> disk_ok disk \<and> st = store_open meta disk max_open)"

lemma store_init_inv: "store_init st \<Longrightarrow> store_inv st"
  by (auto simp: store_init_def store_inv_def store_open_def cache_ok_def handles_ok_def)

interpretation store_sys: step_system store_init store_step store_inv
  by unfold_locales (simp_all add: store_init_inv store_step_inv)

text \<open>C29: In every state the store can reach, whatever its environment does, session ids, daemon ids,
  confirmations and push-token owners are unique; the open databases are exactly those in the recency
  order, each once, and no more than the cap when there is one; every open database is the one its
  session id names; and every session file on disk holds well-formed records.\<close>

theorem store_stays_consistent:
  assumes "meta_ok meta" "disk_ok disk" "store_step\<^sup>*\<^sup>* (store_open meta disk max_open) st"
  shows "distinct (map sm_sid (md_sessions (st_meta st))) \<and> distinct (map rp_daemon_id (md_pairings (st_meta st))) \<and>
    distinct (map (\<lambda>r. (pc_daemon_id r, pc_frontend_id r)) (md_confirmations (st_meta st))) \<and>
    distinct (map ptr_frontend_id (md_push_tokens (st_meta st))) \<and>
    distinct (st_order st) \<and> set (st_order st) = set (hm_keys (st_session_dbs st)) \<and>
    (st_max_open st = 0 \<or> length (st_session_dbs st) \<le> st_max_open st) \<and>
    {(sid, db). hm_get (st_session_dbs st) sid = Some db} \<subseteq> {(sid, db). sdb_path db = session_db_path sid} \<and>
    {t. \<exists>p. hm_get (st_disk st) p = Some (Records_file t)} \<subseteq> {t. records_ok t}"
proof -
  have "store_init (store_open meta disk max_open)" using assms(1,2) by (auto simp: store_init_def)
  from store_sys.reachable_inv [OF this assms(3)] have inv: "store_inv st" .
  have ck: "confirmation_key = (\<lambda>r. (pc_daemon_id r, pc_frontend_id r))" by (simp add: confirmation_key_def fun_eq_iff)
  have h: "handles_ok st" and d: "disk_ok (st_disk st)" and c: "cache_ok st" using inv by (simp_all add: store_inv_def)
  have "{(sid, db). hm_get (st_session_dbs st) sid = Some db} \<subseteq> {(sid, db). sdb_path db = session_db_path sid}"
    "{t. \<exists>p. hm_get (st_disk st) p = Some (Records_file t)} \<subseteq> {t. records_ok t}"
    using h d unfolding handles_ok_def disk_ok_def by auto
  moreover have "set (hm_keys (st_session_dbs st)) = dom (map_of (st_session_dbs st))" by (simp add: dom_map_of_conv_image_fst)
  then have "distinct (st_order st) \<and> set (st_order st) = set (hm_keys (st_session_dbs st)) \<and>
      (st_max_open st = 0 \<or> length (st_session_dbs st) \<le> st_max_open st)"
    using c unfolding cache_ok_def by (cases "st_max_open st") auto
  ultimately show ?thesis
    using store_inv_keys [OF inv] unfolding ck by (auto simp del: set_map)
qed

text \<open>Safe session ids name files of their own; an unsafe one, which only \<open>create_session\<close> refuses, can name the
  file of another session.\<close>

lemma safe_sid_file: "CHR ''/'' \<notin> set sid \<Longrightarrow> session_db_path sid = sid @ ''.sqlite''"
proof -
  assume no: "CHR ''/'' \<notin> set sid"
  have "sid @ ''.sqlite'' \<notin> {[], ''.'', ''..''}" by (cases sid rule: rev_cases) auto
  moreover have "take 1 (sid @ ''.sqlite'') \<noteq> ''/''" using no by (cases sid) auto
  ultimately show ?thesis using no by (simp add: session_db_path_def Let_def str_split_single)
qed

lemma unsafe_sid_names_another_session: "session_db_path ''./b'' = session_db_path ''b'' \<and> session_db_path ''../sessions/b'' = session_db_path ''b''"
  by code_simp

end
