(* ===== verification/Store_Props.thy ===== *)
theory Store_Props
  imports Store_Inv
begin

text \<open>
  What the store promises its callers: sessions keep their history, pruning and deletion touch what they
  name and nothing else, a saved pairing is loaded back, the push-token table heals itself.
\<close>

section \<open>A concrete store\<close>

definition no_faults :: "int \<Rightarrow> store_env" where
  "no_faults now = \<lparr>se_now = now, se_sql = (\<lambda>_. None), se_open = (\<lambda>_. None), se_unlink = (\<lambda>_ _. None), se_read_dir = True\<rparr>"

definition empty_meta :: meta_db where
  "empty_meta = \<lparr>md_sessions = [], md_pairings = [], md_confirmations = [], md_push_tokens = []\<rparr>"

definition demo_store :: store where
  "demo_store = snd (create_session (no_faults 5) ''b'' ''/w'' None None
     (snd (create_session (no_faults 1) ''a'' ''/v'' None (Some ''1.0'') (store_open empty_meta [] (Some 1)))))"

lemma demo_store_reachable: "store_step\<^sup>*\<^sup>* (store_open empty_meta [] (Some 1)) demo_store"
  unfolding demo_store_def by (blast intro: store_step.create converse_rtranclp_into_rtranclp)

lemma empty_ok: "meta_ok empty_meta" "disk_ok []"
  by (simp_all add: meta_ok_def empty_meta_def disk_ok_def)

lemma demo_store_inv: "store_inv demo_store"
  using store_sys.reachable_inv [OF _ demo_store_reachable] empty_ok by (auto simp: store_init_def)

theorem store_stays_consistent_witness:
  "map sm_sid (md_sessions (st_meta demo_store)) = [''a'', ''b''] \<and> length (st_session_dbs demo_store) \<le> 1 \<and>
   set (st_order demo_store) = set (hm_keys (st_session_dbs demo_store))"
proof -
  have "map sm_sid (md_sessions (st_meta demo_store)) = [''a'', ''b''] \<and> st_max_open demo_store = 1" by code_simp
  with store_stays_consistent [OF empty_ok demo_store_reachable] show ?thesis by auto
qed

section \<open>Sessions\<close>

lemma find_sql_update:
  assumes "\<And>r. key r = k \<Longrightarrow> key (upd r) = k"
  shows "find (\<lambda>r. key r = k) (sql_update (\<lambda>r. key r = k) upd rows) = map_option upd (find (\<lambda>r. key r = k) rows)"
  using assms by (induction rows) (auto simp: sql_update_def)

lemma find_sql_upsert:
  assumes "\<And>r. key r = k \<Longrightarrow> key (upd r) = k" "key new = k"
  shows "find (\<lambda>r. key r = k) (sql_upsert key new upd rows) =
    Some (case find (\<lambda>r. key r = k) rows of None \<Rightarrow> new | Some old \<Rightarrow> upd old)"
proof (cases "k \<in> set (map key rows)")
  case True
  then obtain old where "find (\<lambda>r. key r = k) rows = Some old"
    by (cases "find (\<lambda>r. key r = k) rows") (auto simp: find_None_iff)
  moreover have "sql_upsert key new upd rows = sql_update (\<lambda>r. key r = k) upd rows"
    using True assms(2) by (simp add: sql_upsert_def sql_update_def)
  moreover have "find (\<lambda>r. key r = k) (sql_update (\<lambda>r. key r = k) upd rows) = map_option upd (find (\<lambda>r. key r = k) rows)"
    by (rule find_sql_update) (rule assms(1))
  ultimately show ?thesis by simp
next
  case False
  then have none: "find (\<lambda>r. key r = k) rows = None" by (auto simp: find_None_iff)
  then have "find (\<lambda>r. key r = k) (rows @ [new]) = Some new" using assms(2) by (induction rows) (auto split: if_splits)
  with False none assms(2) show ?thesis by (simp add: sql_upsert_def)
qed

lemma find_sql_upsert_other:
  assumes "\<And>r. key r = key new \<Longrightarrow> key (upd r) = key new" "key new \<noteq> k"
  shows "find (\<lambda>r. key r = k) (sql_upsert key new upd rows) = find (\<lambda>r. key r = k) rows"
proof -
  have "find (\<lambda>r. key r = k) (map (\<lambda>r. if key r = key new then upd r else r) rows) = find (\<lambda>r. key r = k) rows"
    using assms by (induction rows) auto
  moreover have "find (\<lambda>r. key r = k) (rows @ [new]) = find (\<lambda>r. key r = k) rows"
    using assms by (induction rows) auto
  ultimately show ?thesis by (simp add: sql_upsert_def)
qed

definition session_of :: "store \<Rightarrow> string \<Rightarrow> session_meta option" where
  "session_of st sid = find (\<lambda>r. sm_sid r = sid) (md_sessions (st_meta st))"

lemma get_session_eq: "se_sql env Select_session = None \<Longrightarrow> get_session env sid st = Inr (session_of st sid)"
  by (simp add: get_session_def session_of_def)

text \<open>C30: A runner that says hello again keeps its session's history. When \<open>create_session\<close> succeeds, the
  row of the session is running with the new directory, worktree and version, and if there was a row
  before it keeps its creation time and its last sequence number; every other session is as before; and
  the session's database is open and the most recently used.\<close>

theorem hello_again_keeps_the_cursor:
  assumes "store_inv st" "create_session env sid cwd wp cv st = (Inr (), st')"
  shows "session_of st' sid = Some (case session_of st sid of
      Some old \<Rightarrow> old\<lparr>sm_state := ''running'', sm_worktree_path := wp, sm_cwd := cwd, sm_updated_at := se_now env,
        sm_claude_version := cv\<rparr>
    | None \<Rightarrow> \<lparr>sm_sid = sid, sm_state = ''running'', sm_worktree_path = wp, sm_cwd = cwd, sm_created_at = se_now env,
        sm_updated_at = se_now env, sm_claude_version = cv, sm_last_seq = 0\<rparr>) \<and>
    (session_of st')(sid := None) = (session_of st)(sid := None) \<and> is_safe_sid sid \<and>
    hm_get (st_session_dbs st') sid = Some \<lparr>sdb_path = session_db_path sid\<rparr> \<and> last (st_order st') = sid"
proof -
  let ?new = "\<lparr>sm_sid = sid, sm_state = ''running'', sm_worktree_path = wp, sm_cwd = cwd, sm_created_at = se_now env,
    sm_updated_at = se_now env, sm_claude_version = cv, sm_last_seq = 0\<rparr>"
  let ?upd = "\<lambda>r. r\<lparr>sm_state := ''running'', sm_worktree_path := wp, sm_cwd := cwd, sm_updated_at := se_now env,
    sm_claude_version := cv\<rparr>"
  let ?rows = "sql_upsert sm_sid ?new ?upd (md_sessions (st_meta st))"
  from assms(2) obtain db disk where safe: "is_safe_sid sid"
    and opened: "session_db_open env (session_db_path sid) (st_disk st) = Inr (db, disk)"
    and st': "st' = track_session_db sid db (st\<lparr>st_meta := (st_meta st)\<lparr>md_sessions := ?rows\<rparr>, st_disk := disk\<rparr>)"
    by (auto simp: create_session_def Let_def assert_safe_sid_def split: if_splits sum.splits)
  let ?st = "st\<lparr>st_meta := (st_meta st)\<lparr>md_sessions := ?rows\<rparr>, st_disk := disk\<rparr>"
  have rows: "md_sessions (st_meta st') = ?rows" by (simp add: st')
  have c: "cache_ok ?st" using assms(1) by (simp add: store_inv_def cache_ok_def)
  note spec = track_session_db_spec [OF c, of sid db]
  let ?kept = "if st_max_open ?st = 0 then remove1 sid (st_order ?st) @ [sid]
    else lastn (st_max_open ?st) (remove1 sid (st_order ?st) @ [sid])"
  note kept = last_kept [of ?kept "st_max_open ?st" "remove1 sid (st_order ?st)" sid, OF refl]
  have "map_of (st_session_dbs st') sid = Some db" "last (st_order st') = sid"
    using spec kept unfolding st' by (simp_all only: restrict_map_def fun_upd_same if_True)
  moreover have "db = \<lparr>sdb_path = session_db_path sid\<rparr>"
    using session_db_open_Inr(1) [OF opened] assms(1) by (simp add: store_inv_def)
  moreover have "session_of st' sid = Some (case session_of st sid of Some old \<Rightarrow> ?upd old | None \<Rightarrow> ?new)"
    using find_sql_upsert [where key = sm_sid and upd = ?upd and new = ?new and k = sid and rows = "md_sessions (st_meta st)"]
    unfolding session_of_def rows by (simp split: option.split)
  moreover have "session_of st' k = session_of st k" if "k \<noteq> sid" for k
    using find_sql_upsert_other [where key = sm_sid and upd = ?upd and new = ?new and k = k and rows = "md_sessions (st_meta st)"] that
    unfolding session_of_def rows by simp
  ultimately show ?thesis using safe by (auto simp: fun_eq_iff split: option.split)
qed

theorem hello_again_keeps_the_cursor_witness:
  "\<exists>st'. create_session (no_faults 9) ''a'' ''/w'' None None demo_store = (Inr (), st') \<and>
    map_option sm_created_at (session_of st' ''a'') = Some 1 \<and> map_option sm_updated_at (session_of st' ''a'') = Some 9 \<and>
    last (st_order st') = ''a''"
proof -
  have "fst (create_session (no_faults 9) ''a'' ''/w'' None None demo_store) = Inr ()" by code_simp
  then obtain st' where st': "create_session (no_faults 9) ''a'' ''/w'' None None demo_store = (Inr (), st')"
    by (cases "create_session (no_faults 9) ''a'' ''/w'' None None demo_store") simp
  have "map_option sm_created_at (session_of demo_store ''a'') = Some 1" by code_simp
  then show ?thesis
    using hello_again_keeps_the_cursor [OF demo_store_inv st'] st' by (auto simp: no_faults_def split: option.splits)
qed

section \<open>Pruning\<close>

lemma delete_session_rows:
  assumes "delete_session env sid st = (r, st')"
  shows "st_meta st' = st_meta st \<and> (\<exists>e. r = Inl e) \<or>
    st_meta st' = (st_meta st)\<lparr>md_sessions := filter (\<lambda>s. sm_sid s \<noteq> sid) (md_sessions (st_meta st))\<rparr>"
proof -
  have f: "st_meta (forget_session_db sid st) = st_meta st" by (simp add: forget_session_db_def)
  show ?thesis
    using assms f by (auto simp: delete_session_def Let_def update_sessions_def sql_delete_def simp del: unlink_all.simps
        split: sum.splits prod.splits)
qed

lemma prune_loop_rows:
  assumes "prune_loop env sids st = (r, st')"
  shows "(\<exists>done_sids. set done_sids \<subseteq> set sids \<and>
      md_sessions (st_meta st') = filter (\<lambda>s. sm_sid s \<notin> set done_sids) (md_sessions (st_meta st)) \<and>
      (r = Inr () \<longrightarrow> set done_sids = set sids))"
  using assms
proof (induction sids arbitrary: st)
  case (Cons sid sids)
  obtain r1 st1 where d: "delete_session env sid st = (r1, st1)" by fastforce
  show ?case
  proof (cases r1)
    case (Inl e)
    then have "st1 = st'" "r = Inl e" using Cons.prems d by auto
    with delete_session_rows [OF d] consider "md_sessions (st_meta st') = md_sessions (st_meta st)"
      | "md_sessions (st_meta st') = filter (\<lambda>s. sm_sid s \<noteq> sid) (md_sessions (st_meta st))" by auto
    then show ?thesis
    proof cases
      case 1 with \<open>r = Inl e\<close> show ?thesis by (intro exI [of _ "[]"]) simp
    next
      case 2 with \<open>r = Inl e\<close> show ?thesis by (intro exI [of _ "[sid]"]) simp
    qed
  next
    case (Inr u)
    then obtain done_sids where "set done_sids \<subseteq> set sids"
        "md_sessions (st_meta st') = filter (\<lambda>s. sm_sid s \<notin> set done_sids) (md_sessions (st_meta st1))"
        "r = Inr () \<longrightarrow> set done_sids = set sids"
      using Cons.IH [of st1] Cons.prems d by auto
    moreover have "md_sessions (st_meta st1) = filter (\<lambda>s. sm_sid s \<noteq> sid) (md_sessions (st_meta st))"
      using delete_session_rows [OF d] Inr by auto
    ultimately show ?thesis by (intro exI [of _ "sid # done_sids"]) (auto intro: filter_cong)
  qed
qed (auto intro!: exI [of _ "[]"])

text \<open>C31: Pruning deletes what it should and nothing else. Whatever fails on the way, every session that
  is running, or was updated at or after the cutoff, or any session at all when the age is not positive,
  is still there afterwards; and when the call succeeds, exactly the others are gone and the count is
  their number.\<close>

theorem prune_spares_live_sessions:
  assumes "store_inv st" "prune_old_sessions env age st = (r, st')"
  shows "filter (\<lambda>s. \<not> (0 < age \<and> prunable (se_now env - age) s)) (md_sessions (st_meta st')) =
      filter (\<lambda>s. \<not> (0 < age \<and> prunable (se_now env - age) s)) (md_sessions (st_meta st)) \<and>
    (\<forall>n. r = Inr n \<longrightarrow>
      md_sessions (st_meta st') = filter (\<lambda>s. \<not> (0 < age \<and> prunable (se_now env - age) s)) (md_sessions (st_meta st)) \<and>
      n = length (filter (\<lambda>s. 0 < age \<and> prunable (se_now env - age) s) (md_sessions (st_meta st))))"
proof (cases "age \<le> 0")
  case True
  with assms(2) show ?thesis by (auto simp: prune_old_sessions_def)
next
  case False
  let ?p = "prunable (se_now env - age)" and ?rows = "md_sessions (st_meta st)"
  show ?thesis
  proof (cases "se_sql env Select_prunable")
    case (Some e)
    with assms(2) False show ?thesis by (auto simp: prune_old_sessions_def sql_run_def)
  next
    case None
    let ?sids = "map sm_sid (filter ?p ?rows)"
    obtain r1 st1 where l: "prune_loop env ?sids st = (r1, st1)" by fastforce
    have st1: "st1 = st'" "r = Inr n \<Longrightarrow> r1 = Inr () \<and> n = length ?sids" for n
      using assms(2) False None l by (auto simp: prune_old_sessions_def sql_run_def Let_def split: sum.splits)
    have key: "sm_sid s \<in> set ?sids \<longleftrightarrow> ?p s" if "s \<in> set ?rows" for s
      using that store_inv_keys(1) [OF assms(1)] by (auto simp: distinct_map inj_on_def)
    obtain ds where ds: "set ds \<subseteq> set ?sids" "md_sessions (st_meta st') = filter (\<lambda>s. sm_sid s \<notin> set ds) ?rows"
        "r1 = Inr () \<longrightarrow> set ds = set ?sids"
      using prune_loop_rows [OF l] unfolding st1(1) by auto
    have "filter (\<lambda>s. \<not> ?p s) (filter (\<lambda>s. sm_sid s \<notin> set ds) ?rows) = filter (\<lambda>s. \<not> ?p s) ?rows"
      using ds(1) key unfolding filter_filter by (intro filter_cong) auto
    moreover have "md_sessions (st_meta st') = filter (\<lambda>s. \<not> ?p s) ?rows" if "r = Inr n" for n
      using ds(2,3) st1(2) [OF that] key by (auto intro: filter_cong)
    ultimately show ?thesis using False ds(2) st1(2) by auto
  qed
qed

definition demo_stopped :: store where
  "demo_stopped = snd (update_session_state (no_faults 6) ''a'' ''stopped'' demo_store)"

theorem prune_spares_live_sessions_witness:
  "\<exists>st'. prune_old_sessions (no_faults 100) 10 demo_stopped = (Inr 1, st') \<and> map sm_sid (md_sessions (st_meta st')) = [''b'']"
proof -
  have "fst (prune_old_sessions (no_faults 100) 10 demo_stopped) = Inr 1" by code_simp
  then obtain st' where st': "prune_old_sessions (no_faults 100) 10 demo_stopped = (Inr 1, st')"
    by (cases "prune_old_sessions (no_faults 100) 10 demo_stopped") simp
  have "store_inv demo_stopped" unfolding demo_stopped_def by (rule store_inv_meta_ops(1) [OF demo_store_inv])
  note prune_spares_live_sessions [OF this st']
  moreover have "map sm_sid (filter (\<lambda>s. \<not> (0 < (10 :: int) \<and> prunable (se_now (no_faults 100) - 10) s)) (md_sessions (st_meta demo_stopped))) = [''b'']"
    by code_simp
  ultimately show ?thesis using st' by simp
qed

section \<open>Pairings\<close>

text \<open>Deleting a pairing is all or nothing. Whichever statement SQLite refuses, the commit included,
  the tables are untouched; otherwise the pairing, its confirmations and its push tokens are gone
  together, and every other row stays.\<close>

theorem delete_pairing_is_atomic:
  "(\<exists>e. delete_pairing env did st = (Inl e, st)) \<or>
   delete_pairing env did st = (Inr (), st\<lparr>st_meta := (st_meta st)\<lparr>
     md_push_tokens := filter (\<lambda>r. ptr_daemon_id r \<noteq> Some did) (md_push_tokens (st_meta st)),
     md_confirmations := filter (\<lambda>r. pc_daemon_id r \<noteq> did) (md_confirmations (st_meta st)),
     md_pairings := filter (\<lambda>r. rp_daemon_id r \<noteq> Some did) (md_pairings (st_meta st))\<rparr>\<rparr>)"
  by (auto simp: delete_pairing_def transaction_def sql_run_def store_unit_def sql_delete_def split: option.split)

lemma map_filter_sorted: "set (sort_by_created_at rows) = set rows" "distinct (map rp_daemon_id rows) \<Longrightarrow> distinct (map rp_daemon_id (sort_by_created_at rows))"
proof -
  show s: "set (sort_by_created_at rows) = set rows" by (auto simp: sort_by_created_at_def)
  have "length (sort_by_created_at rows) = length rows"
    using sum_length_filter_compl [of "\<lambda>r. rp_created_at r = None" rows] by (simp add: sort_by_created_at_def)
  then show "distinct (map rp_daemon_id rows) \<Longrightarrow> distinct (map rp_daemon_id (sort_by_created_at rows))"
    using s by (metis card_distinct distinct_card length_map set_map)
qed

lemma parse_stored_pairing_id: "parse_stored_pairing raw = Some p \<Longrightarrow> rp_daemon_id raw = Some (spd_daemon_id p)"
  by (auto simp: parse_stored_pairing_def is_non_empty_def unwrap_or_default_def bind_eq_Some_conv
      split: if_splits option.splits)

lemma map_filter_find:
  assumes "\<And>raw p. f raw = Some p \<Longrightarrow> key raw = Some (key' p)"
  shows "filter (\<lambda>p. key' p = k) (List.map_filter f rows) = List.map_filter f (filter (\<lambda>raw. key raw = Some k) rows)"
proof (induction rows)
  case (Cons r rows)
  then show ?case using assms [of r] by (cases "f r") (auto simp: List.map_filter_simps)
qed (simp add: List.map_filter_simps)

definition pairing_input_ok :: "save_pairing_input \<Rightarrow> bool" where
  "pairing_input_ok data \<longleftrightarrow> sp_daemon_id data \<noteq> [] \<and> sp_relay_url data \<noteq> [] \<and> sp_relay_token data \<noteq> [] \<and>
     sp_registration_proof data \<noteq> [] \<and> length (sp_public_key data) = 32 \<and> length (sp_secret_key data) = 32 \<and>
     length (sp_pairing_secret data) = 32 \<and> (case sp_label data of Some l \<Rightarrow> label_ok l | None \<Rightarrow> True)"

definition pairing_row_of :: "store \<Rightarrow> string \<Rightarrow> raw_pairing_row option" where
  "pairing_row_of st did = find (\<lambda>r. rp_daemon_id r = Some did) (md_pairings (st_meta st))"

lemma label_nullable_roundtrip: "label_ok l \<Longrightarrow> decode_wire_label (nullable_json (label_to_nullable l)) = l"
  by (cases l) (simp_all add: nullable_json_def Let_def)

lemma find_filter_distinct: "find P rows = Some r \<Longrightarrow> r \<in> set rows \<and> P r"
  by (auto simp: find_Some_iff)

lemma load_pairings_row:
  assumes "store_inv st" "se_sql env Select_pairings = None"
    "find (\<lambda>r. rp_daemon_id r = Some did) (md_pairings (st_meta st)) = Some row" "parse_stored_pairing row = Some p"
  shows "\<exists>ps. load_pairings env st = Inr ps \<and> filter (\<lambda>p. spd_daemon_id p = did) ps = [p]"
proof -
  let ?rows = "md_pairings (st_meta st)"
  from assms(3) have row: "row \<in> set ?rows" "rp_daemon_id row = Some did" by (auto dest: find_filter_distinct)
  have "filter (\<lambda>r. rp_daemon_id r = Some did) (sort_by_created_at ?rows) = [row]"
    using filter_key_distinct [OF map_filter_sorted(2) [OF store_inv_keys(2) [OF assms(1)]], of row "Some did"] row
    by (simp add: map_filter_sorted(1))
  then have "filter (\<lambda>p. spd_daemon_id p = did) (List.map_filter parse_stored_pairing (sort_by_created_at ?rows)) =
      List.map_filter parse_stored_pairing [row]"
    by (subst map_filter_find [where key = rp_daemon_id]) (simp_all add: parse_stored_pairing_id)
  then show ?thesis using assms(2,4) by (simp add: load_pairings_def List.map_filter_simps sql_run_def)
qed

text \<open>C32: A saved pairing is loaded back. After \<open>save_pairing\<close> of a well-formed pairing succeeds,
  \<open>load_pairings\<close> returns it exactly once, with the keys, relay, token, proof and label that were saved;
  an empty pairing id or hostname does not overwrite the one stored before. (The schema makes
  \<open>created_at\<close> non-null, which the last assumption says of the row that is replaced.) So the guard that drops
  corrupt rows never drops a row this code wrote.\<close>

theorem saved_pairing_is_loaded:
  assumes "store_inv st" "pairing_input_ok data" "save_pairing env data st = (Inr (), st')" "se_sql env Select_pairings = None"
    and "\<And>r. pairing_row_of st (sp_daemon_id data) = Some r \<Longrightarrow> rp_created_at r \<noteq> None"
  shows "\<exists>ps. load_pairings env st' = Inr ps \<and> filter (\<lambda>p. spd_daemon_id p = sp_daemon_id data) ps =
    [\<lparr>spd_daemon_id = sp_daemon_id data, spd_relay_url = sp_relay_url data, spd_relay_token = sp_relay_token data,
      spd_registration_proof = sp_registration_proof data, spd_public_key = sp_public_key data,
      spd_secret_key = sp_secret_key data, spd_pairing_secret = sp_pairing_secret data,
      spd_label = (case sp_label data of Some l \<Rightarrow> l | None \<Rightarrow> LUnset),
      spd_pairing_id = (if sp_pairing_id data \<noteq> [] then sp_pairing_id data
        else unwrap_or_default (Option.bind (pairing_row_of st (sp_daemon_id data)) rp_pairing_id)),
      spd_hostname = (if sp_hostname data \<noteq> [] then sp_hostname data
        else unwrap_or_default (Option.bind (pairing_row_of st (sp_daemon_id data)) rp_hostname))\<rparr>]"
proof -
  let ?did = "Some (sp_daemon_id data)"
  let ?new = "\<lparr>rp_daemon_id = ?did, rp_relay_url = Some (sp_relay_url data), rp_relay_token = Some (sp_relay_token data),
    rp_registration_proof = Some (sp_registration_proof data), rp_created_at = Some (se_now env),
    rp_public_key = Some (sp_public_key data), rp_secret_key = Some (sp_secret_key data),
    rp_pairing_secret = Some (sp_pairing_secret data), rp_label = Option.bind (sp_label data) label_to_nullable,
    rp_pairing_id = none_if_empty (sp_pairing_id data), rp_hostname = none_if_empty (sp_hostname data)\<rparr>"
  let ?upd = "\<lambda>r. ?new\<lparr>rp_created_at := rp_created_at r, rp_pairing_id := coalesce (rp_pairing_id ?new) (rp_pairing_id r),
    rp_hostname := coalesce (rp_hostname ?new) (rp_hostname r)\<rparr>"
  let ?rows = "md_pairings (st_meta st')"
  have rows: "?rows = sql_upsert rp_daemon_id ?new ?upd (md_pairings (st_meta st))"
    using assms(3) by (auto simp: save_pairing_def store_unit_def update_pairings_def Let_def split: sum.splits)
  define row where "row = (case pairing_row_of st (sp_daemon_id data) of None \<Rightarrow> ?new | Some old \<Rightarrow> ?upd old)"
  have found: "find (\<lambda>r. rp_daemon_id r = ?did) ?rows = Some row"
    unfolding rows row_def pairing_row_of_def by (rule find_sql_upsert) simp_all
  have row: "rp_daemon_id row = ?did" using found by (auto dest: find_filter_distinct)
  have inv: "store_inv st'" using store_inv_meta_ops(3) [OF assms(1), of env data] assms(3) by simp
  have fields: "rp_relay_url row = Some (sp_relay_url data)" "rp_relay_token row = Some (sp_relay_token data)"
      "rp_registration_proof row = Some (sp_registration_proof data)" "rp_public_key row = Some (sp_public_key data)"
      "rp_secret_key row = Some (sp_secret_key data)" "rp_pairing_secret row = Some (sp_pairing_secret data)"
      "rp_label row = Option.bind (sp_label data) label_to_nullable"
    by (simp_all add: row_def split: option.split)
  have "rp_created_at row \<noteq> None" using assms(5) by (auto simp: row_def split: option.split)
  then obtain created where created: "rp_created_at row = Some created" by auto
  have label: "decode_wire_label (nullable_json (rp_label row)) = (case sp_label data of Some l \<Rightarrow> l | None \<Rightarrow> LUnset)"
    using assms(2) label_nullable_roundtrip
    by (cases "sp_label data") (simp_all add: fields pairing_input_ok_def, simp add: nullable_json_def)
  have ids: "unwrap_or_default (rp_pairing_id row) = (if sp_pairing_id data \<noteq> [] then sp_pairing_id data
        else unwrap_or_default (Option.bind (pairing_row_of st (sp_daemon_id data)) rp_pairing_id))"
      "unwrap_or_default (rp_hostname row) = (if sp_hostname data \<noteq> [] then sp_hostname data
        else unwrap_or_default (Option.bind (pairing_row_of st (sp_daemon_id data)) rp_hostname))"
    by (auto simp: row_def none_if_empty_def coalesce_def unwrap_or_default_def split: option.split)
  have "parse_stored_pairing row = Some \<lparr>spd_daemon_id = sp_daemon_id data, spd_relay_url = sp_relay_url data,
      spd_relay_token = sp_relay_token data, spd_registration_proof = sp_registration_proof data,
      spd_public_key = sp_public_key data, spd_secret_key = sp_secret_key data, spd_pairing_secret = sp_pairing_secret data,
      spd_label = decode_wire_label (nullable_json (rp_label row)), spd_pairing_id = unwrap_or_default (rp_pairing_id row),
      spd_hostname = unwrap_or_default (rp_hostname row)\<rparr>"
    using assms(2) row fields(1-6) created
    by (simp add: parse_stored_pairing_def is_non_empty_def to_key_bytes_def PAIRING_KEY_BYTES_def pairing_input_ok_def)
      (simp add: unwrap_or_default_def)
  from load_pairings_row [OF inv assms(4) found this] show ?thesis unfolding label ids .
qed

definition demo_pairing_input :: save_pairing_input where
  "demo_pairing_input = \<lparr>sp_daemon_id = ''daemon-1'', sp_relay_url = ''wss://r'', sp_relay_token = ''t'',
    sp_registration_proof = ''p'', sp_public_key = replicate 32 1, sp_secret_key = replicate 32 2,
    sp_pairing_secret = replicate 32 3, sp_label = Some LUnset, sp_pairing_id = ''id'', sp_hostname = ''h''\<rparr>"

theorem saved_pairing_is_loaded_witness:
  "\<exists>st' ps. save_pairing (no_faults 7) (demo_pairing_input\<lparr>sp_pairing_id := []\<rparr>)
      (snd (save_pairing (no_faults 6) demo_pairing_input demo_store)) = (Inr (), st') \<and>
    load_pairings (no_faults 7) st' = Inr ps \<and>
    map spd_pairing_id (filter (\<lambda>p. spd_daemon_id p = ''daemon-1'') ps) = [''id'']"
proof -
  let ?st = "snd (save_pairing (no_faults 6) demo_pairing_input demo_store)"
  let ?data = "demo_pairing_input\<lparr>sp_pairing_id := []\<rparr>"
  have "fst (save_pairing (no_faults 7) ?data ?st) = Inr ()" by code_simp
  then obtain st' where st': "save_pairing (no_faults 7) ?data ?st = (Inr (), st')"
    by (cases "save_pairing (no_faults 7) ?data ?st") simp
  have ok: "pairing_input_ok ?data" by code_simp
  have row: "map_option rp_created_at (pairing_row_of ?st (sp_daemon_id ?data)) = Some (Some 6) \<and>
      Option.bind (pairing_row_of ?st (sp_daemon_id ?data)) rp_pairing_id = Some ''id''" by code_simp
  have "sp_daemon_id ?data = ''daemon-1''" "sp_pairing_id ?data = []" by code_simp+
  moreover have "se_sql (no_faults 7) Select_pairings = None" by (simp add: no_faults_def)
  ultimately show ?thesis
    using saved_pairing_is_loaded [OF store_inv_meta_ops(3) [OF demo_store_inv] ok st'] st' row
    by (fastforce simp: unwrap_or_default_def)
qed

section \<open>Push tokens\<close>

lemma purge_loop_rows:
  "purge_loop env fids st = (Inr (), st') \<Longrightarrow>
    st' = update_push_tokens (filter (\<lambda>r. ptr_frontend_id r \<notin> Some ` set fids)) st"
proof (induction fids arbitrary: st)
  case (Cons fid fids)
  from Cons.prems obtain st1 where 1: "delete_push_token env fid st = (Inr (), st1)" "purge_loop env fids st1 = (Inr (), st')"
    by (auto split: prod.splits sum.splits)
  then have "st1 = update_push_tokens (filter (\<lambda>r. ptr_frontend_id r \<noteq> Some fid)) st"
    by (auto simp: delete_push_token_def store_unit_def sql_delete_def update_push_tokens_def split: sum.splits)
  then show ?case
    using Cons.IH [OF 1(2)] by (auto simp: update_push_tokens_def intro: filter_cong)
qed (simp add: update_push_tokens_def)

lemma valid_token_Some:
  assumes "valid_token r = Some t"
  shows "ptr_frontend_id r = Some (pte_frontend_id t)" "pte_frontend_id t \<noteq> []" "ptr_daemon_id r = Some (pte_daemon_id t)"
    "ptr_sealed r = Some (pte_sealed t)" "ptr_platform r = Some (platform_as_str (pte_platform t))"
  using assms by (auto simp: valid_token_def filter_non_empty_def bind_eq_Some_conv platform_parse_def split: if_splits)

lemma map_filter_cong_filter:
  "(\<And>r. r \<in> set rows \<Longrightarrow> f r \<noteq> None \<Longrightarrow> P r) \<Longrightarrow> List.map_filter f (filter P rows) = List.map_filter f rows"
proof (induction rows)
  case (Cons r rows)
  then show ?case by (cases "f r") (auto simp: List.map_filter_simps)
qed (simp add: List.map_filter_simps)

lemma corrupt_ids_iff:
  "fid \<in> set (corrupt_ids rows) \<longleftrightarrow> (\<exists>q \<in> set rows. valid_token q = None \<and> ptr_frontend_id q = Some fid \<and> fid \<noteq> [])"
proof (induction rows)
  case (Cons r rows)
  then show ?case
    by (cases "ptr_frontend_id r")
      (auto simp: corrupt_ids_def List.map_filter_simps filter_non_empty_def split: option.split)
qed (simp add: corrupt_ids_def List.map_filter_simps)

lemma load_push_tokens_heals:
  assumes "store_inv st" "load_push_tokens env st = (Inr ts, st')"
  shows "ts = List.map_filter valid_token (md_push_tokens (st_meta st))"
    and "md_push_tokens (st_meta st') = filter (\<lambda>r. valid_token r \<noteq> None \<or> filter_non_empty (ptr_frontend_id r) = None)
      (md_push_tokens (st_meta st))"
    and "load_push_tokens env st' = (Inr ts, st')"
proof -
  let ?rows = "md_push_tokens (st_meta st)" and ?keep = "\<lambda>r. valid_token r \<noteq> None \<or> filter_non_empty (ptr_frontend_id r) = None"
  from assms(2) have sel: "se_sql env Select_push_tokens = None" and ts: "ts = List.map_filter valid_token ?rows"
    and purge: "purge_loop env (corrupt_ids ?rows) st = (Inr (), st')"
    by (auto simp: load_push_tokens_def split: sum.splits prod.splits)
  have keep: "ptr_frontend_id r \<notin> Some ` set (corrupt_ids ?rows) \<longleftrightarrow> ?keep r" if "r \<in> set ?rows" for r
  proof -
    have "q = r" if "q \<in> set ?rows" "ptr_frontend_id q = ptr_frontend_id r" for q
      using store_inv_keys(4) [OF assms(1)] that \<open>r \<in> set ?rows\<close> by (auto simp: distinct_map inj_on_def)
    then have "fid \<in> set (corrupt_ids ?rows) \<longleftrightarrow> valid_token r = None \<and> fid \<noteq> []" if "ptr_frontend_id r = Some fid" for fid
      using that \<open>r \<in> set ?rows\<close> unfolding corrupt_ids_iff by metis
    then have "ptr_frontend_id r \<in> Some ` set (corrupt_ids ?rows) \<longleftrightarrow> valid_token r = None \<and> (\<exists>fid. ptr_frontend_id r = Some fid \<and> fid \<noteq> [])"
      by (cases "ptr_frontend_id r") auto
    then show ?thesis by (auto simp: filter_non_empty_def bind_eq_None_conv)
  qed
  have rows': "md_push_tokens (st_meta st') = filter ?keep ?rows"
    unfolding purge_loop_rows [OF purge] using filter_cong [OF refl keep] by (simp add: update_push_tokens_def)
  have "corrupt_ids (filter ?keep ?rows) = []"
    by (auto simp: corrupt_ids_def List.map_filter_def filter_empty_conv)
  moreover have "List.map_filter valid_token (filter ?keep ?rows) = List.map_filter valid_token ?rows"
    by (rule map_filter_cong_filter) simp
  ultimately have "load_push_tokens env st' = (Inr ts, st')"
    using sel ts by (simp add: load_push_tokens_def sql_run_def rows')
  with ts rows' show "ts = List.map_filter valid_token ?rows" "md_push_tokens (st_meta st') = filter ?keep ?rows"
    "load_push_tokens env st' = (Inr ts, st')" by blast+
qed

text \<open>Loading the push tokens heals the table. The tokens returned are exactly the valid rows; the
  corrupt rows that name a frontend are gone afterwards and no valid row is lost, so loading again
  returns the same tokens and changes nothing.\<close>

theorem loading_tokens_heals_once:
  assumes "store_inv st" "load_push_tokens env st = (Inr ts, st')"
  shows "ts = List.map_filter valid_token (md_push_tokens (st_meta st)) \<and>
    md_push_tokens (st_meta st') = filter (\<lambda>r. valid_token r \<noteq> None \<or> filter_non_empty (ptr_frontend_id r) = None)
      (md_push_tokens (st_meta st)) \<and>
    load_push_tokens env st' = (Inr ts, st')"
  using load_push_tokens_heals [OF assms] by blast

definition demo_tokens :: store where
  "demo_tokens = update_push_tokens (\<lambda>_. [
     \<lparr>ptr_frontend_id = Some ''f'', ptr_daemon_id = Some ''d'', ptr_sealed = Some ''s'', ptr_platform = Some ''ios'', ptr_updated_at = 1\<rparr>,
     \<lparr>ptr_frontend_id = Some ''g'', ptr_daemon_id = Some ''d'', ptr_sealed = Some ''s'', ptr_platform = Some ''tv'', ptr_updated_at = 1\<rparr>])
     demo_store"

lemma demo_tokens_inv: "store_inv demo_tokens"
  unfolding demo_tokens_def by (rule store_inv_update_push_tokens [OF demo_store_inv]) simp

theorem loading_tokens_heals_once_witness:
  "\<exists>ts st'. load_push_tokens (no_faults 1) demo_tokens = (Inr ts, st') \<and> map pte_frontend_id ts = [''f''] \<and>
    map ptr_frontend_id (md_push_tokens (st_meta st')) = [Some ''f''] \<and> load_push_tokens (no_faults 1) st' = (Inr ts, st')"
proof -
  have "map_sum id (map pte_frontend_id) (fst (load_push_tokens (no_faults 1) demo_tokens)) = (Inr [''f''] :: store_error + string list)"
    by code_simp
  then obtain ts st' where l: "load_push_tokens (no_faults 1) demo_tokens = (Inr ts, st')" "map pte_frontend_id ts = [''f'']"
    by (cases "load_push_tokens (no_faults 1) demo_tokens"; cases "fst (load_push_tokens (no_faults 1) demo_tokens)") auto
  from loading_tokens_heals_once [OF demo_tokens_inv l(1)]
  have heal: "md_push_tokens (st_meta st') = filter (\<lambda>r. valid_token r \<noteq> None \<or> filter_non_empty (ptr_frontend_id r) = None)
      (md_push_tokens (st_meta demo_tokens))" "load_push_tokens (no_faults 1) st' = (Inr ts, st')" by blast+
  have "map ptr_frontend_id (filter (\<lambda>r. valid_token r \<noteq> None \<or> filter_non_empty (ptr_frontend_id r) = None)
      (md_push_tokens (st_meta demo_tokens))) = [Some ''f'']" by code_simp
  with l heal show ?thesis by metis
qed

end
