(* ===== verification/Push_Notifier.thy ===== *)
theory Push_Notifier
  imports Store_Props Utf8 Messages Ipc_Messages
begin

text \<open>
  The daemon's push notifier (\<open>tp-daemon/src/push/notifier.rs\<close>) and its store-backed dependencies
  (\<open>StorePushNotifierDeps\<close> in \<open>transport/relay_manager.rs\<close>).

  The trait \<open>PushNotifierDeps\<close> is the locale \<open>push_deps\<close>: what the notifier needs of the place where
  tokens are persisted. The notifier's operations take the persisting and deleting functions as
  arguments and pass the state behind them.
\<close>

section \<open>Truncation of a text\<close>

definition ELLIPSIS :: string where
  "ELLIPSIS = bytes_to_string [0xE2, 0x80, 0xA6]"

definition truncate_text :: "string \<Rightarrow> nat \<Rightarrow> string" where
  "truncate_text s max_chars =
    (let chars = utf8_chars s
     in if length chars \<le> max_chars then s else concat (take (max_chars - 1) chars) @ ELLIPSIS)"

section \<open>Push messages\<close>

definition NOTIFY_EVENTS :: "string list" where
  "NOTIFY_EVENTS = [''Notification'', ''PermissionRequest'', ''Elicitation'']"

definition is_notify_event :: "string \<Rightarrow> bool" where
  "is_notify_event event_name \<longleftrightarrow> event_name \<in> set NOTIFY_EVENTS"

definition TIME_SENSITIVE_EVENTS :: "string list" where
  "TIME_SENSITIVE_EVENTS = [''Notification'', ''PermissionRequest'', ''Elicitation'']"

definition interruption_level_for :: "string \<Rightarrow> interruption_level" where
  "interruption_level_for event_name = (if event_name \<in> set TIME_SENSITIVE_EVENTS then TimeSensitive else Active)"

record push_message =
  pm_title :: string
  pm_body :: string

definition str_contains :: "string \<Rightarrow> string \<Rightarrow> bool" where
  "str_contains s p \<longleftrightarrow> str_find p s \<noteq> None"

text \<open>
  \<open>to_lowercase\<close> on ASCII letters. Outside ASCII only U+212A (to \<open>k\<close>) and U+0130 (to \<open>i\<close> followed by a
  combining dot) give ASCII letters, and no match of the words below can use them.
\<close>

definition regex_permission :: "string \<Rightarrow> bool" where
  "regex_permission s \<longleftrightarrow> str_contains (map ascii_lower s) ''permission''"

definition regex_wait_idle :: "string \<Rightarrow> bool" where
  "regex_wait_idle s \<longleftrightarrow> (let lower = map ascii_lower s in str_contains lower ''wait'' \<or> str_contains lower ''idle'')"

definition payload_str :: "json option \<Rightarrow> string \<Rightarrow> string option" where
  "payload_str payload key = Option.bind payload (\<lambda>p. Option.bind (as_object p) (\<lambda>obj. Option.bind (hm_get obj key) as_str))"

definition build_push_message :: "string \<Rightarrow> json option \<Rightarrow> push_message" where
  "build_push_message event_name payload =
    (if event_name = ''Notification'' then
       let trimmed = str_trim (unwrap_or_default (payload_str payload ''message''))
       in if trimmed \<noteq> []
          then \<lparr>pm_title = (if regex_permission trimmed then ''Permission needed''
                  else if regex_wait_idle trimmed then ''Waiting for input'' else ''Claude needs attention''),
                pm_body = truncate_text trimmed 178\<rparr>
          else \<lparr>pm_title = ''Claude needs attention'', pm_body = ''Tap to open the session''\<rparr>
     else if event_name = ''PermissionRequest'' then
       \<lparr>pm_title = ''Permission needed'',
        pm_body = (case payload_str payload ''tool_name'' of
            Some t \<Rightarrow> ''Approve '' @ truncate_text t 160 @ '' to continue''
          | None \<Rightarrow> ''Tool permission approval required'')\<rparr>
     else if event_name = ''Elicitation'' then
       let question = unwrap_or_default (case payload_str payload ''message'' of
               Some m \<Rightarrow> Some m | None \<Rightarrow> payload_str payload ''question'');
           trimmed = str_trim question
       in \<lparr>pm_title = ''Response needed'',
           pm_body = (if trimmed \<noteq> [] then truncate_text trimmed 178 else ''Claude is waiting for your answer'')\<rparr>
     else \<lparr>pm_title = ''Claude needs attention'', pm_body = ''Tap to open the session''\<rparr>)"

section \<open>The notifier\<close>

record token_entry =
  te_sealed :: string
  te_platform :: string
  te_daemon_id :: string

record record_info =
  rec_sid :: string
  rec_kind :: record_kind
  rec_name :: "string option"
  rec_payload :: "json option"

record sent_push =
  snt_frontend_id :: string
  snt_sealed :: string
  snt_title :: string
  snt_body :: string
  snt_level :: interruption_level
  snt_sid :: string
  snt_event :: string
  snt_daemon_id :: string

type_synonym notifier = "(string, token_entry) hash_map"

definition notifier_new :: "(string \<times> token_entry) list \<Rightarrow> notifier" where
  "notifier_new loaded = foldl (\<lambda>tokens (frontend_id, e). hm_insert frontend_id e tokens) hm_empty loaded"

definition register_sealed_token ::
  "(string \<Rightarrow> token_entry \<Rightarrow> 'd \<Rightarrow> 'd) \<Rightarrow> string \<Rightarrow> string \<Rightarrow> string \<Rightarrow> string \<Rightarrow> notifier \<times> 'd \<Rightarrow> notifier \<times> 'd" where
  "register_sealed_token persist frontend_id daemon_id sealed platform s =
    (let e = \<lparr>te_sealed = sealed, te_platform = platform, te_daemon_id = daemon_id\<rparr>
     in (hm_insert frontend_id e (fst s), persist frontend_id e (snd s)))"

definition unregister_token :: "(string \<Rightarrow> 'd \<Rightarrow> 'd) \<Rightarrow> string \<Rightarrow> notifier \<times> 'd \<Rightarrow> notifier \<times> 'd" where
  "unregister_token delete frontend_id s = (hm_remove frontend_id (fst s), delete frontend_id (snd s))"

definition handle_unseal_failed :: "(string \<Rightarrow> 'd \<Rightarrow> 'd) \<Rightarrow> string \<Rightarrow> notifier \<times> 'd \<Rightarrow> notifier \<times> 'd" where
  "handle_unseal_failed delete frontend_id s =
    (if \<not> hm_contains (fst s) frontend_id then s
     else (hm_remove frontend_id (fst s), delete frontend_id (snd s)))"

definition handle_token_dead :: "(string \<Rightarrow> 'd \<Rightarrow> 'd) \<Rightarrow> string \<Rightarrow> notifier \<times> 'd \<Rightarrow> notifier \<times> 'd" where
  "handle_token_dead delete frontend_id s =
    (if \<not> hm_contains (fst s) frontend_id then s
     else (hm_remove frontend_id (fst s), delete frontend_id (snd s)))"

definition token_count :: "notifier \<Rightarrow> nat" where
  "token_count tokens = length tokens"

definition on_record :: "notifier \<Rightarrow> record_info \<Rightarrow> sent_push list" where
  "on_record tokens rec =
    (if rec_kind rec \<noteq> KindEvent then []
     else (case rec_name rec of
         None \<Rightarrow> []
       | Some name \<Rightarrow>
           if \<not> is_notify_event name then []
           else if tokens = [] then []
           else
             let msg = build_push_message name (rec_payload rec); level = interruption_level_for name
             in map (\<lambda>(frontend_id, e). \<lparr>snt_frontend_id = frontend_id, snt_sealed = te_sealed e, snt_title = pm_title msg,
                  snt_body = pm_body msg, snt_level = level, snt_sid = rec_sid rec, snt_event = name,
                  snt_daemon_id = te_daemon_id e\<rparr>) tokens))"

section \<open>The store behind the notifier\<close>

definition store_persist_token :: "store_env \<Rightarrow> string \<Rightarrow> token_entry \<Rightarrow> store \<Rightarrow> store" where
  "store_persist_token env frontend_id e st =
    (case platform_parse (te_platform e) of
       None \<Rightarrow> st
     | Some p \<Rightarrow> snd (save_push_token env frontend_id (te_daemon_id e) (te_sealed e) p st))"

definition store_load_tokens :: "store_env \<Rightarrow> store \<Rightarrow> (string \<times> token_entry) list \<times> store" where
  "store_load_tokens env st =
    (let (r, st) = load_push_tokens env st
     in (case r of
           Inl _ \<Rightarrow> []
         | Inr ts \<Rightarrow> map (\<lambda>t. (pte_frontend_id t, \<lparr>te_sealed = pte_sealed t,
             te_platform = platform_as_str (pte_platform t), te_daemon_id = pte_daemon_id t\<rparr>)) ts, st))"

definition store_delete_token :: "store_env \<Rightarrow> string \<Rightarrow> store \<Rightarrow> store" where
  "store_delete_token env frontend_id st = snd (delete_push_token env frontend_id st)"

section \<open>The contract of the token store\<close>

datatype token_op = Register string token_entry | Unregister string | Unseal_failed string | Token_dead string

fun token_step :: "('e \<Rightarrow> string \<Rightarrow> token_entry \<Rightarrow> 'd \<Rightarrow> 'd) \<Rightarrow> ('e \<Rightarrow> string \<Rightarrow> 'd \<Rightarrow> 'd) \<Rightarrow> notifier \<times> 'd \<Rightarrow> 'e \<times> token_op \<Rightarrow> notifier \<times> 'd" where
  "token_step persist delete s (e, opn) = (case opn of
     Register f t \<Rightarrow> register_sealed_token (persist e) f (te_daemon_id t) (te_sealed t) (te_platform t) s
   | Unregister f \<Rightarrow> unregister_token (delete e) f s
   | Unseal_failed f \<Rightarrow> handle_unseal_failed (delete e) f s
   | Token_dead f \<Rightarrow> handle_token_dead (delete e) f s)"

fun op_valid :: "(string \<Rightarrow> token_entry \<Rightarrow> bool) \<Rightarrow> token_op \<Rightarrow> bool" where
  "op_valid valid (Register f t) \<longleftrightarrow> valid f t"
| "op_valid valid _ \<longleftrightarrow> True"

lemma token_entry_eta [simp]: "\<lparr>te_sealed = te_sealed t, te_platform = te_platform t, te_daemon_id = te_daemon_id t\<rparr> = (t :: token_entry)"
  by simp

text \<open>
  \<open>PushNotifierDeps\<close>: the environment of a call (\<open>ok e\<close> when it reports no error), the table of the tokens
  that a load would return, and what each call does to it. A token with an empty field or an unknown
  platform is not \<open>valid\<close>; nothing is promised of it.
\<close>

locale push_deps =
  fixes persist :: "'e \<Rightarrow> string \<Rightarrow> token_entry \<Rightarrow> 'd \<Rightarrow> 'd"
    and delete :: "'e \<Rightarrow> string \<Rightarrow> 'd \<Rightarrow> 'd"
    and load :: "'e \<Rightarrow> 'd \<Rightarrow> (string \<times> token_entry) list \<times> 'd"
    and table :: "'d \<Rightarrow> string \<Rightarrow> token_entry option"
    and inv :: "'d \<Rightarrow> bool"
    and ok :: "'e \<Rightarrow> bool"
    and valid :: "string \<Rightarrow> token_entry \<Rightarrow> bool"
  assumes persist_law: "ok e \<Longrightarrow> inv d \<Longrightarrow> valid f t \<Longrightarrow> inv (persist e f t d) \<and> table (persist e f t d) = (table d)(f \<mapsto> t)"
    and delete_law: "ok e \<Longrightarrow> inv d \<Longrightarrow> inv (delete e f d) \<and> table (delete e f d) = (table d)(f := None)"
    and load_law: "ok e \<Longrightarrow> inv d \<Longrightarrow> inv (snd (load e d)) \<and> table (snd (load e d)) = table d \<and>
      distinct (map fst (fst (load e d))) \<and> map_of (fst (load e d)) = table d"
begin

definition in_step :: "notifier \<times> 'd \<Rightarrow> bool" where
  "in_step s \<longleftrightarrow> inv (snd s) \<and> map_of (fst s) = table (snd s)"

lemma in_step_token_step:
  assumes "in_step s" "ok e" "op_valid valid opn"
  shows "in_step (token_step persist delete s (e, opn))"
proof -
  have del: "in_step (hm_remove f (fst s), delete e f (snd s))" for f
    using assms delete_law [of e "snd s" f] by (auto simp: in_step_def AList.delete_conv')
  show ?thesis
    using assms del persist_law [of e "snd s"]
    by (cases opn) (auto simp: in_step_def register_sealed_token_def unregister_token_def handle_unseal_failed_def
        handle_token_dead_def Let_def update_conv')
qed

lemma in_step_run:
  assumes "in_step s" "\<And>e opn. (e, opn) \<in> set ops \<Longrightarrow> ok e \<and> op_valid valid opn"
  shows "in_step (foldl (token_step persist delete) s ops)"
  using assms
proof (induction ops arbitrary: s)
  case (Cons p ops)
  then have "in_step (token_step persist delete s p)"
    using in_step_token_step [OF Cons.prems(1), of "fst p" "snd p"] Cons.prems(2) [of "fst p" "snd p"] by simp
  then have "in_step (foldl (token_step persist delete) (token_step persist delete s p) ops)"
    by (rule Cons.IH) (rule Cons.prems(2), simp)
  then show ?case by simp
qed simp

lemma notifier_new_distinct: "distinct (map fst l) \<Longrightarrow> map_of (notifier_new l) = map_of l"
proof (induction l rule: rev_induct)
  case (snoc p l)
  then have "map_of l (fst p) = None" by (auto simp: map_of_eq_None_iff)
  with snoc show ?case
    by (cases p) (auto simp: notifier_new_def fun_eq_iff map_add_def update_conv' split: option.split)
qed (simp add: notifier_new_def)

lemma in_step_start: "inv d \<Longrightarrow> ok e \<Longrightarrow> in_step (notifier_new (fst (load e d)), snd (load e d))"
  using load_law [of e d] notifier_new_distinct by (auto simp: in_step_def)

lemma restart:
  assumes "inv d" "ok e" "ok e'" "\<And>e opn. (e, opn) \<in> set ops \<Longrightarrow> ok e \<and> op_valid valid opn"
    and "(tokens, d') = foldl (token_step persist delete) (notifier_new (fst (load e d)), snd (load e d)) ops"
  shows "map_of (notifier_new (fst (load e' d'))) = map_of tokens"
proof -
  have "in_step (tokens, d')" unfolding assms(5) by (rule in_step_run [OF in_step_start]) (use assms in auto)
  then show ?thesis using load_law [of e' d'] assms(3) notifier_new_distinct by (auto simp: in_step_def)
qed

end

text \<open>The store keeps this contract while SQLite reports no error.\<close>

definition env_ok :: "store_env \<Rightarrow> bool" where
  "env_ok env \<longleftrightarrow> (\<forall>stmt. se_sql env stmt = None)"

definition token_valid :: "string \<Rightarrow> token_entry \<Rightarrow> bool" where
  "token_valid f e \<longleftrightarrow> f \<noteq> [] \<and> te_sealed e \<noteq> [] \<and> te_daemon_id e \<noteq> [] \<and> platform_parse (te_platform e) \<noteq> None"

definition entry_of_token :: "push_token_entry \<Rightarrow> token_entry" where
  "entry_of_token t = \<lparr>te_sealed = pte_sealed t, te_platform = platform_as_str (pte_platform t), te_daemon_id = pte_daemon_id t\<rparr>"

definition token_table :: "store \<Rightarrow> string \<Rightarrow> token_entry option" where
  "token_table st f = Option.bind (find (\<lambda>r. ptr_frontend_id r = Some f) (md_push_tokens (st_meta st)))
     (\<lambda>r. map_option entry_of_token (valid_token r))"

lemma map_of_valid_tokens:
  assumes "distinct (map ptr_frontend_id rows)"
  shows "map_of (map (\<lambda>t. (pte_frontend_id t, entry_of_token t)) (List.map_filter valid_token rows)) f =
      Option.bind (find (\<lambda>r. ptr_frontend_id r = Some f) rows) (\<lambda>r. map_option entry_of_token (valid_token r))"
    and "distinct (map pte_frontend_id (List.map_filter valid_token rows))"
    and "f \<in> set (map pte_frontend_id (List.map_filter valid_token rows)) \<Longrightarrow> Some f \<in> set (map ptr_frontend_id rows)"
proof -
  have mem: "Some (pte_frontend_id t) \<in> ptr_frontend_id ` set rs" if "t \<in> set (List.map_filter valid_token rs)" for t rs
  proof -
    from that obtain r where "r \<in> set rs" "valid_token r = Some t" by (auto simp: List.map_filter_def)
    then show ?thesis using valid_token_Some(1) [of r t] by (metis image_eqI)
  qed
  show "f \<in> set (map pte_frontend_id (List.map_filter valid_token rows)) \<Longrightarrow> Some f \<in> set (map ptr_frontend_id rows)"
    using mem by auto
  show "distinct (map pte_frontend_id (List.map_filter valid_token rows))"
    using assms
  proof (induction rows)
    case (Cons r rows)
    then show ?case using mem [of _ rows] valid_token_Some(1) [of r]
      by (cases "valid_token r") (auto simp: List.map_filter_simps)
  qed (simp add: List.map_filter_simps)
  show "map_of (map (\<lambda>t. (pte_frontend_id t, entry_of_token t)) (List.map_filter valid_token rows)) f =
      Option.bind (find (\<lambda>r. ptr_frontend_id r = Some f) rows) (\<lambda>r. map_option entry_of_token (valid_token r))"
    using assms
  proof (induction rows)
    case (Cons r rows)
    have "map_of (map (\<lambda>t. (pte_frontend_id t, entry_of_token t)) (List.map_filter valid_token rows)) f = None"
      if "ptr_frontend_id r = Some f"
      using Cons.prems mem [of _ rows] that by (force simp: map_of_eq_None_iff)
    with Cons show ?case using valid_token_Some(1) [of r]
      by (cases "valid_token r") (auto simp: List.map_filter_simps)
  qed (simp add: List.map_filter_simps)
qed

lemma store_load_tokens_eq:
  assumes "env_ok env" "store_inv st"
  shows "fst (store_load_tokens env st) = map (\<lambda>t. (pte_frontend_id t, entry_of_token t)) (List.map_filter valid_token (md_push_tokens (st_meta st)))"
    and "md_push_tokens (st_meta (snd (store_load_tokens env st))) =
      filter (\<lambda>r. valid_token r \<noteq> None \<or> filter_non_empty (ptr_frontend_id r) = None) (md_push_tokens (st_meta st))"
proof -
  have purge: "\<exists>st'. purge_loop env fids st = (Inr (), st')" for fids st
    using assms(1) by (induction fids arbitrary: st) (auto simp: delete_push_token_def store_unit_def sql_run_def env_ok_def)
  then obtain ts st' where load: "load_push_tokens env st = (Inr ts, st')"
    using assms(1) purge [of "corrupt_ids (md_push_tokens (st_meta st))" st]
    by (fastforce simp: load_push_tokens_def sql_run_def env_ok_def)
  show "fst (store_load_tokens env st) = map (\<lambda>t. (pte_frontend_id t, entry_of_token t)) (List.map_filter valid_token (md_push_tokens (st_meta st)))"
    "md_push_tokens (st_meta (snd (store_load_tokens env st))) =
      filter (\<lambda>r. valid_token r \<noteq> None \<or> filter_non_empty (ptr_frontend_id r) = None) (md_push_tokens (st_meta st))"
    using load_push_tokens_heals [OF assms(2) load] by (simp_all add: store_load_tokens_def load entry_of_token_def)
qed

lemma find_sql_replace:
  "find (\<lambda>r. key r = k) (sql_replace key new rows) = (if key new = k then Some new else find (\<lambda>r. key r = k) rows)"
  by (induction rows) (auto simp: sql_replace_def)

lemma find_sql_delete:
  "find (\<lambda>r. key r = k) (sql_delete (\<lambda>r. key r = k') rows) = (if k = k' then None else find (\<lambda>r. key r = k) rows)"
  by (induction rows) (auto simp: sql_delete_def)

lemma platform_as_str_parse: "platform_parse s = Some p \<Longrightarrow> platform_as_str p = s"
  by (auto simp: platform_parse_def split: if_splits)

lemma find_heal:
  assumes "distinct (map key rows)" "\<And>r. r \<in> set rows \<Longrightarrow> \<not> keep r \<Longrightarrow> f r = None"
  shows "Option.bind (find (\<lambda>r. key r = k) (filter keep rows)) f = Option.bind (find (\<lambda>r. key r = k) rows) f"
  using assms
proof (induction rows)
  case (Cons r rows)
  have "find (\<lambda>r. key r = k) (filter keep rows) = None" if "key r = k"
    using Cons.prems(1) that by (simp add: find_None_iff) (metis image_eqI)
  with Cons show ?case by auto
qed simp

interpretation store_tokens: push_deps store_persist_token store_delete_token store_load_tokens token_table store_inv env_ok token_valid
proof unfold_locales
  fix e d f t assume *: "env_ok e" "store_inv d" "token_valid f t"
  then obtain p where p: "platform_parse (te_platform t) = Some p" by (auto simp: token_valid_def)
  let ?row = "\<lparr>ptr_frontend_id = Some f, ptr_daemon_id = Some (te_daemon_id t), ptr_sealed = Some (te_sealed t),
    ptr_platform = Some (platform_as_str p), ptr_updated_at = se_now e\<rparr>"
  have "valid_token ?row = Some \<lparr>pte_frontend_id = f, pte_daemon_id = te_daemon_id t, pte_sealed = te_sealed t, pte_platform = p\<rparr>"
    using *(3) p platform_as_str_parse [OF p] by (simp add: valid_token_def filter_non_empty_def token_valid_def)
  moreover have "md_push_tokens (st_meta (store_persist_token e f t d)) = sql_replace ptr_frontend_id ?row (md_push_tokens (st_meta d))"
    using *(1) p by (simp add: store_persist_token_def save_push_token_def store_unit_def sql_run_def env_ok_def update_push_tokens_def)
  ultimately have "token_table (store_persist_token e f t d) = (token_table d)(f \<mapsto> t)"
    using platform_as_str_parse [OF p] by (auto simp: token_table_def fun_eq_iff find_sql_replace entry_of_token_def)
  moreover have "store_inv (store_persist_token e f t d)"
    using * p store_inv_meta_ops by (simp add: store_persist_token_def)
  ultimately show "store_inv (store_persist_token e f t d) \<and> token_table (store_persist_token e f t d) = (token_table d)(f \<mapsto> t)" by blast
next
  fix e d f assume *: "env_ok e" "store_inv d"
  have "md_push_tokens (st_meta (store_delete_token e f d)) = sql_delete (\<lambda>r. ptr_frontend_id r = Some f) (md_push_tokens (st_meta d))"
    using *(1) by (simp add: store_delete_token_def delete_push_token_def store_unit_def sql_run_def env_ok_def update_push_tokens_def)
  then show "store_inv (store_delete_token e f d) \<and> token_table (store_delete_token e f d) = (token_table d)(f := None)"
    using * store_inv_meta_ops by (auto simp: token_table_def fun_eq_iff find_sql_delete store_delete_token_def)
next
  fix e d assume *: "env_ok e" "store_inv d"
  note load = store_load_tokens_eq [OF *]
  note keys = store_inv_keys(4) [OF *(2)]
  have "token_table (snd (store_load_tokens e d)) = token_table d"
    unfolding token_table_def load(2) by (rule ext, rule find_heal [OF keys]) auto
  moreover have "store_inv (snd (store_load_tokens e d))"
    using store_inv_load_push_tokens [OF *(2), of e] by (auto simp: store_load_tokens_def split: prod.splits)
  ultimately show "store_inv (snd (store_load_tokens e d)) \<and> token_table (snd (store_load_tokens e d)) = token_table d \<and>
      distinct (map fst (fst (store_load_tokens e d))) \<and> map_of (fst (store_load_tokens e d)) = token_table d"
    using map_of_valid_tokens [OF keys] by (simp add: load(1) token_table_def fun_eq_iff comp_def)
qed

text \<open>The tokens survive a restart. Start the notifier on a consistent store, let any sequence of
  registrations of valid tokens, removals, unseal failures and dead-token reports follow (each in an
  environment where SQLite reports no error): a notifier started on the store that results has
  exactly the tokens the running one has in memory.\<close>

theorem tokens_survive_restart:
  assumes "store_inv st" "env_ok env" "env_ok env'"
    and "\<And>e opn. (e, opn) \<in> set ops \<Longrightarrow> env_ok e \<and> op_valid token_valid opn"
    and "(tokens, st') = foldl (token_step store_persist_token store_delete_token)
      (notifier_new (fst (store_load_tokens env st)), snd (store_load_tokens env st)) ops"
  shows "hm_get (notifier_new (fst (store_load_tokens env' st'))) = hm_get tokens"
  using store_tokens.restart [OF assms] .

theorem tokens_survive_restart_witness:
  "\<exists>st'. (hm_insert ''h'' \<lparr>te_sealed = ''x'', te_platform = ''android'', te_daemon_id = ''d''\<rparr> hm_empty, st') =
      foldl (token_step store_persist_token store_delete_token)
        (notifier_new (fst (store_load_tokens (no_faults 1) demo_tokens)), snd (store_load_tokens (no_faults 1) demo_tokens))
        [(no_faults 2, Register ''h'' \<lparr>te_sealed = ''x'', te_platform = ''android'', te_daemon_id = ''d''\<rparr>), (no_faults 3, Token_dead ''f'')] \<and>
    hm_get (notifier_new (fst (store_load_tokens (no_faults 4) st'))) ''h'' =
      Some \<lparr>te_sealed = ''x'', te_platform = ''android'', te_daemon_id = ''d''\<rparr>"
proof -
  let ?t = "\<lparr>te_sealed = ''x'', te_platform = ''android'', te_daemon_id = ''d''\<rparr>"
  let ?ops = "[(no_faults 2, Register ''h'' ?t), (no_faults 3, Token_dead ''f'')]"
  let ?run = "foldl (token_step store_persist_token store_delete_token)
    (notifier_new (fst (store_load_tokens (no_faults 1) demo_tokens)), snd (store_load_tokens (no_faults 1) demo_tokens)) ?ops"
  have "fst ?run = [(''h'', ?t)]" by code_simp
  then obtain st' where run: "(hm_insert ''h'' ?t hm_empty, st') = ?run" by (cases ?run) auto
  have "env_ok (no_faults n)" for n by (simp add: env_ok_def no_faults_def)
  then have ok: "env_ok e \<and> op_valid token_valid opn" if "(e, opn) \<in> set ?ops" for e opn
    using that by (auto simp: token_valid_def platform_parse_def)
  have "hm_get (notifier_new (fst (store_load_tokens (no_faults 4) st'))) = hm_get (hm_insert ''h'' ?t hm_empty)"
    by (rule tokens_survive_restart [OF demo_tokens_inv _ _ ok run]) (simp_all add: env_ok_def no_faults_def)
  with run show ?thesis by auto
qed

section \<open>Truncation\<close>

lemma rust_string_ELLIPSIS: "rust_string ELLIPSIS"
  by code_simp

lemma utf8_chars_ELLIPSIS: "utf8_chars ELLIPSIS = [ELLIPSIS]"
  by code_simp

text \<open>Truncation works on characters. The text of a notification is cut to at most \<open>n\<close> characters
  (counting the ellipsis) and stays valid UTF-8: no character is cut in half. A text that fits is
  unchanged, a longer one is a prefix of itself and the ellipsis.\<close>

theorem truncate_counts_characters:
  assumes "rust_string s" "0 < n"
  shows "rust_string (truncate_text s n) \<and> length (utf8_chars (truncate_text s n)) = min n (length (utf8_chars s)) \<and>
    (truncate_text s n = s \<or> (\<exists>kept rest. s = kept @ rest \<and> truncate_text s n = kept @ ELLIPSIS))"
proof -
  let ?kept = "concat (take (n - 1) (utf8_chars s))"
  have "rust_string ?kept \<and> utf8_chars ?kept = take (n - 1) (utf8_chars s)"
    by (rule concat_chars, rule utf8_chars_each [OF assms(1)], erule in_set_takeD)
  then have kept: "rust_string ?kept" "utf8_chars ?kept = take (n - 1) (utf8_chars s)" by blast+
  have "s = ?kept @ concat (drop (n - 1) (utf8_chars s))"
    by (simp add: utf8_chars_concat flip: concat_append)
  then show ?thesis
    using assms kept rust_string_ELLIPSIS utf8_chars_ELLIPSIS
    by (cases "length (utf8_chars s) \<le> n") (simp_all add: truncate_text_def Let_def rust_string_append utf8_chars_append, blast)
qed

theorem truncate_counts_characters_witness:
  "rust_string (ELLIPSIS @ ''abc'') \<and> 0 < (3 :: nat) \<and> truncate_text (ELLIPSIS @ ''abc'') 3 = ELLIPSIS @ ''a'' @ ELLIPSIS \<and>
    length (utf8_chars (truncate_text (ELLIPSIS @ ''abc'') 3)) = 3"
proof -
  have "rust_string (ELLIPSIS @ ''abc'')" by code_simp
  moreover have "truncate_text (ELLIPSIS @ ''abc'') 3 = ELLIPSIS @ ''a'' @ ELLIPSIS" by code_simp
  moreover have "length (utf8_chars (ELLIPSIS @ ''abc'')) = 4" by code_simp
  ultimately show ?thesis using truncate_counts_characters [of "ELLIPSIS @ ''abc''" 3] by simp
qed

end
