(* ===== verification/Session_Manager.thy ===== *)
theory Session_Manager
  imports Prelude
begin

text \<open>
  The supervisor of runner processes (\<open>tp-daemon/src/session/manager.rs\<close>).

  A spawned child is known by a number that stands for the identity of its \<open>Arc\<close>; the operating system
  decides whether it runs, has exited or cannot be polled. The exit monitor of a child is a task that
  ends with one critical section on the runner map, \<open>monitor_exit\<close>; until then it is in the list of
  pending monitors. Calls of the exit handler are recorded.
\<close>

section \<open>State\<close>

datatype child_status = Running | Exited "int option" | Poll_error

record child =
  cd_pid :: nat
  cd_status :: child_status
  cd_reaped :: bool

record runner_info =
  ri_sid :: string
  ri_pid :: u32
  ri_cwd :: string
  ri_worktree_path :: "string option"
  ri_claude_version :: "string option"
  ri_connected_at :: nat
  ri_process :: "nat option"

record spawn_runner_options =
  so_socket_path :: "string option"
  so_worktree_path :: "string option"
  so_cols :: "u32 option"
  so_rows :: "u32 option"
  so_claude_args :: "string list option"

definition default_options :: spawn_runner_options where
  "default_options = \<lparr>so_socket_path = None, so_worktree_path = None, so_cols = None, so_rows = None, so_claude_args = None\<rparr>"

record session_manager =
  mg_runners :: "(string, runner_info) hash_map"
  mg_children :: "child list"
  mg_monitors :: "(string \<times> nat) list"
  mg_due :: "(string \<times> int) list"
  mg_exit_calls :: "(string \<times> int) list"
  mg_signals :: "nat list"

definition manager_new :: session_manager where
  "manager_new = \<lparr>mg_runners = hm_empty, mg_children = [], mg_monitors = [], mg_due = [], mg_exit_calls = [], mg_signals = []\<rparr>"

section \<open>Operations\<close>

definition get_runner :: "string \<Rightarrow> session_manager \<Rightarrow> runner_info option" where
  "get_runner sid mg = hm_get (mg_runners mg) sid"

definition list_runners :: "session_manager \<Rightarrow> runner_info list" where
  "list_runners mg = map snd (mg_runners mg)"

definition active_count :: "session_manager \<Rightarrow> nat" where
  "active_count mg = length (mg_runners mg)"

definition tracked_process :: "string \<Rightarrow> session_manager \<Rightarrow> nat option" where
  "tracked_process sid mg = Option.bind (hm_get (mg_runners mg) sid) ri_process"

definition register_runner ::
  "nat \<Rightarrow> string \<Rightarrow> u32 \<Rightarrow> string \<Rightarrow> string option \<Rightarrow> string option \<Rightarrow> session_manager \<Rightarrow> session_manager" where
  "register_runner now sid pid cwd worktree_path claude_version mg =
    mg\<lparr>mg_runners := hm_insert sid
      \<lparr>ri_sid = sid, ri_pid = pid, ri_cwd = cwd, ri_worktree_path = worktree_path, ri_claude_version = claude_version,
       ri_connected_at = now, ri_process = tracked_process sid mg\<rparr> (mg_runners mg)\<rparr>"

definition unregister_runner :: "string \<Rightarrow> session_manager \<Rightarrow> session_manager" where
  "unregister_runner sid mg = mg\<lparr>mg_runners := hm_remove sid (mg_runners mg)\<rparr>"

definition opt_arg :: "string \<Rightarrow> string option \<Rightarrow> string list" where
  "opt_arg flag v = (case v of None \<Rightarrow> [] | Some s \<Rightarrow> [flag, s])"

definition spawn_args :: "string list \<Rightarrow> string \<Rightarrow> string \<Rightarrow> spawn_runner_options \<Rightarrow> string list" where
  "spawn_args base_cmd sid cwd opts =
    base_cmd @ [''--sid'', sid, ''--cwd'', cwd]
    @ opt_arg ''--socket-path'' (so_socket_path opts)
    @ opt_arg ''--worktree-path'' (so_worktree_path opts)
    @ opt_arg ''--cols'' (map_option (\<lambda>c. show_nat (unat c)) (so_cols opts))
    @ opt_arg ''--rows'' (map_option (\<lambda>r. show_nat (unat r)) (so_rows opts))
    @ (case so_claude_args opts of None \<Rightarrow> [] | Some args \<Rightarrow> if args = [] then [] else ''--'' # args)"

text \<open>
  What spawning meets: the injected runner command, the located default command and the result of
  \<open>Command::spawn\<close> with the child's pid.
\<close>

record spawn_env =
  sv_injected :: "string list option"
  sv_default :: "string + string list"
  sv_spawn :: "string list \<Rightarrow> string + u32"
  sv_now :: nat

definition spawn_runner ::
  "spawn_env \<Rightarrow> string \<Rightarrow> string \<Rightarrow> spawn_runner_options \<Rightarrow> session_manager \<Rightarrow> (string + u32) \<times> session_manager" where
  "spawn_runner env sid cwd opts mg =
    (case (case sv_injected env of Some cmd \<Rightarrow> Inr cmd | None \<Rightarrow> sv_default env) of
       Inl e \<Rightarrow> (Inl e, mg)
     | Inr base_cmd \<Rightarrow>
         (case spawn_args base_cmd sid cwd opts of
            [] \<Rightarrow> (Inl ''empty runner command'', mg)
          | program # rest \<Rightarrow>
              (case sv_spawn env (program # rest) of
                 Inl e \<Rightarrow> (Inl e, mg)
               | Inr pid \<Rightarrow>
                   let tracked = length (mg_children mg)
                   in (Inr pid, mg\<lparr>mg_children := mg_children mg @ [\<lparr>cd_pid = unat pid, cd_status = Running, cd_reaped = False\<rparr>],
                         mg_runners := hm_insert sid
                           \<lparr>ri_sid = sid, ri_pid = pid, ri_cwd = cwd, ri_worktree_path = so_worktree_path opts,
                            ri_claude_version = None, ri_connected_at = sv_now env, ri_process = Some tracked\<rparr> (mg_runners mg),
                         mg_monitors := mg_monitors mg @ [(sid, tracked)]\<rparr>))))"

text \<open>The exit code the monitor's polling loop ends with, \<open>None\<close> while the child runs.\<close>

fun exit_code :: "child_status \<Rightarrow> int option" where
  "exit_code Running = None"
| "exit_code (Exited code) = Some (case code of Some c \<Rightarrow> c | None \<Rightarrow> 0)"
| "exit_code Poll_error = Some 0"

text \<open>\<open>try_wait\<close>: once it has returned an exit status, the child has no pid any more.\<close>

definition poll_child :: "nat \<Rightarrow> session_manager \<Rightarrow> int option \<times> session_manager" where
  "poll_child p mg =
    (let c = mg_children mg ! p
     in (exit_code (cd_status c),
         case cd_status c of Exited _ \<Rightarrow> mg\<lparr>mg_children := (mg_children mg)[p := c\<lparr>cd_reaped := True\<rparr>]\<rparr> | _ \<Rightarrow> mg))"

text \<open>
  The end of a monitor: the generation guard, which holds the lock on the runner map, and the call of the
  exit handler, made after the lock is released when the guard says so.
\<close>

definition monitor_guard :: "string \<Rightarrow> nat \<Rightarrow> session_manager \<Rightarrow> bool \<times> session_manager" where
  "monitor_guard sid tracked mg =
    (let should_notify = (case hm_get (mg_runners mg) sid of
           None \<Rightarrow> False
         | Some current \<Rightarrow> (case ri_process current of Some p \<Rightarrow> p = tracked | None \<Rightarrow> True));
         mg = mg\<lparr>mg_monitors := remove1 (sid, tracked) (mg_monitors mg)\<rparr>
     in (should_notify, if should_notify then mg\<lparr>mg_runners := hm_remove sid (mg_runners mg)\<rparr> else mg))"

definition call_handler :: "string \<Rightarrow> int \<Rightarrow> session_manager \<Rightarrow> session_manager" where
  "call_handler sid code mg = mg\<lparr>mg_exit_calls := mg_exit_calls mg @ [(sid, code)]\<rparr>"

text \<open>Both with nothing in between.\<close>

definition monitor_exit :: "string \<Rightarrow> nat \<Rightarrow> int \<Rightarrow> session_manager \<Rightarrow> session_manager" where
  "monitor_exit sid tracked code mg =
    (let (should_notify, mg) = monitor_guard sid tracked mg in if should_notify then call_handler sid code mg else mg)"

text \<open>\<open>kill_runner\<close>: SIGTERM to the tracked child unless it has been reaped; true when there is one.\<close>

definition kill_runner :: "string \<Rightarrow> session_manager \<Rightarrow> bool \<times> session_manager" where
  "kill_runner sid mg =
    (case tracked_process sid mg of
       None \<Rightarrow> (False, mg)
     | Some p \<Rightarrow>
         (True, if cd_reaped (mg_children mg ! p) then mg
                else mg\<lparr>mg_signals := mg_signals mg @ [cd_pid (mg_children mg ! p)]\<rparr>))"

text \<open>
  \<open>wait_for_exit\<close>: one turn of its loop, with the process it took from the runner map when it was called
  (\<open>tracked_process\<close>); \<open>None\<close> while the child runs.
\<close>

definition wait_for_exit :: "nat option \<Rightarrow> session_manager \<Rightarrow> session_manager option" where
  "wait_for_exit process mg =
    (case process of
       None \<Rightarrow> Some mg
     | Some p \<Rightarrow> (case poll_child p mg of (None, _) \<Rightarrow> None | (Some _, mg) \<Rightarrow> Some mg))"

section \<open>The supervisor as a transition system\<close>

inductive mgr_step :: "session_manager \<Rightarrow> session_manager \<Rightarrow> bool" where
  spawn: "mgr_step mg (snd (spawn_runner env sid cwd opts mg))"
| register: "mgr_step mg (register_runner now sid pid cwd wp cv mg)"
| unregister: "mgr_step mg (unregister_runner sid mg)"
| kill: "mgr_step mg (snd (kill_runner sid mg))"
| child_exits: "p < length (mg_children mg) \<Longrightarrow> cd_status (mg_children mg ! p) = Running \<Longrightarrow>
    mgr_step mg (mg\<lparr>mg_children := (mg_children mg)[p := (mg_children mg ! p)\<lparr>cd_status := st\<rparr>]\<rparr>)"
| monitor: "(sid, p) \<in> set (mg_monitors mg) \<Longrightarrow> poll_child p mg = (Some code, mg') \<Longrightarrow>
    monitor_guard sid p mg' = (notify, mg'') \<Longrightarrow>
    mgr_step mg (mg''\<lparr>mg_due := (if notify then mg_due mg'' @ [(sid, code)] else mg_due mg'')\<rparr>)"
| call: "mg_due mg = xs @ (sid, code) # ys \<Longrightarrow> mgr_step mg (call_handler sid code (mg\<lparr>mg_due := xs @ ys\<rparr>))"
| wait: "wait_for_exit process mg = Some mg' \<Longrightarrow> mgr_step mg mg'"

text \<open>
  Every tracked child has a monitor, each child at most one, and a child is tracked under one session
  only.
\<close>

definition mgr_inv :: "session_manager \<Rightarrow> bool" where
  "mgr_inv mg \<longleftrightarrow> hm_ok (mg_runners mg) \<and> distinct (map snd (mg_monitors mg)) \<and>
     (\<forall>(sid, p) \<in> set (mg_monitors mg). p < length (mg_children mg)) \<and>
     (\<forall>sid info. map_of (mg_runners mg) sid = Some info \<longrightarrow> ri_sid info = sid \<and>
        (\<forall>p. ri_process info = Some p \<longrightarrow> (sid, p) \<in> set (mg_monitors mg)))"

lemma mgr_inv_new: "mgr_inv manager_new"
  by (simp add: mgr_inv_def manager_new_def)

lemma mgr_inv_spawn: "mgr_inv mg \<Longrightarrow> mgr_inv (snd (spawn_runner env sid cwd opts mg))"
  by (fastforce simp: spawn_runner_def mgr_inv_def Let_def split: sum.split list.split option.splits)

lemma mgr_inv_register: "mgr_inv mg \<Longrightarrow> mgr_inv (register_runner now sid pid cwd wp cv mg)"
  by (auto simp: register_runner_def mgr_inv_def tracked_process_def bind_eq_Some_conv)

lemma mgr_inv_unregister: "mgr_inv mg \<Longrightarrow> mgr_inv (unregister_runner sid mg)"
  by (auto simp: unregister_runner_def mgr_inv_def split: if_splits)

lemma mgr_inv_kill: "mgr_inv mg \<Longrightarrow> mgr_inv (snd (kill_runner sid mg))"
  by (auto simp: kill_runner_def mgr_inv_def split: option.split)

lemma mgr_inv_poll: "mgr_inv mg \<Longrightarrow> poll_child p mg = (r, mg') \<Longrightarrow> mgr_inv mg' \<and> mg_monitors mg' = mg_monitors mg \<and>
    mg_runners mg' = mg_runners mg \<and> mg_exit_calls mg' = mg_exit_calls mg"
  by (auto simp: poll_child_def mgr_inv_def Let_def split: child_status.splits)

lemma mgr_inv_guard: "mgr_inv mg \<Longrightarrow> monitor_guard sid p mg = (notify, mg') \<Longrightarrow> mgr_inv mg'"
proof -
  assume inv: "mgr_inv mg" and guard: "monitor_guard sid p mg = (notify, mg')"
  have "distinct (map snd (remove1 (sid, p) (mg_monitors mg)))"
    using inv by (auto simp: mgr_inv_def distinct_map intro: inj_on_diff)
  moreover have "set (remove1 (sid, p) (mg_monitors mg)) = set (mg_monitors mg) - {(sid, p)}"
    using inv by (simp add: mgr_inv_def distinct_map)
  ultimately show ?thesis
    using inv guard unfolding monitor_guard_def mgr_inv_def Let_def by (auto split: option.splits if_splits)
qed

lemma mgr_inv_wait: "mgr_inv mg \<Longrightarrow> wait_for_exit process mg = Some mg' \<Longrightarrow> mgr_inv mg'"
  using mgr_inv_poll by (fastforce simp: wait_for_exit_def split: option.splits prod.splits)

lemma mgr_step_inv: "mgr_step mg mg' \<Longrightarrow> mgr_inv mg \<Longrightarrow> mgr_inv mg'"
proof (induction rule: mgr_step.induct)
  case (child_exits p mg st)
  then show ?case by (simp add: mgr_inv_def)
next
  case (monitor sid p mg code mg' notify mg'')
  then have "mgr_inv mg''" using mgr_inv_poll mgr_inv_guard by blast
  then show ?case by (simp add: mgr_inv_def)
next
  case (call mg xs sid code ys)
  then show ?case by (simp add: mgr_inv_def call_handler_def)
qed (auto simp: mgr_inv_spawn mgr_inv_register mgr_inv_unregister mgr_inv_kill mgr_inv_wait)

interpretation mgr_sys: step_system "\<lambda>mg. mg = manager_new" mgr_step mgr_inv
  by unfold_locales (simp_all add: mgr_inv_new mgr_step_inv)

lemmas mgr_reachable = mgr_sys.reachable_inv [OF refl]

section \<open>Crashes and restarts\<close>

text \<open>A child whose monitor has had its last turn is never watched again: monitors are only added for new children.\<close>

lemma ended_monitor_is_gone:
  assumes "mgr_step\<^sup>*\<^sup>* mg later" "p < length (mg_children mg)" "p \<notin> snd ` set (mg_monitors mg)"
  shows "p < length (mg_children later) \<and> p \<notin> snd ` set (mg_monitors later)"
  using assms(1)
proof (induction rule: rtranclp_induct)
  case (step mg1 mg2)
  from step.hyps(2) step.IH show ?case
  proof cases
    case (spawn env sid cwd opts)
    with step.IH show ?thesis by (auto simp: spawn_runner_def Let_def split: sum.splits list.splits)
  next
    case (monitor sid q code mg' notify mg'')
    then have "set (mg_monitors mg2) \<subseteq> set (mg_monitors mg1)" "length (mg_children mg2) = length (mg_children mg1)"
      by (auto simp: monitor_guard_def poll_child_def Let_def split: child_status.splits if_splits dest: notin_set_remove1 set_mp [OF set_remove1_subset])
    with step.IH show ?thesis by auto
  next
    case (wait process)
    with step.IH show ?thesis
      by (auto simp: wait_for_exit_def poll_child_def Let_def split: option.splits prod.splits child_status.splits)
  qed (auto simp: register_runner_def unregister_runner_def kill_runner_def call_handler_def split: option.splits)
qed (use assms(2,3) in simp)

text \<open>C35: The exit of a runner is noticed, exactly once, and an old generation never harms a new one. In
  every reachable state a child tracked for a session has its own monitor pending, alone in watching
  that child. When the child has ended, the monitor's guard takes the session out of the runner map, the
  exit handler is then called with the child's code, and from the guard on no monitor ever watches that
  child again, so that it is not reported a second time. The turn of a monitor whose child is no longer
  the one tracked, because the session was restarted, changes nothing but the list of monitors.\<close>

theorem runner_exit_is_noticed_once:
  assumes "mgr_step\<^sup>*\<^sup>* manager_new mg" "tracked_process sid mg = Some p"
  shows "filter (\<lambda>m. snd m = p) (mg_monitors mg) = [(sid, p)] \<and>
    (cd_status (mg_children mg ! p) \<noteq> Running \<longrightarrow>
      (\<exists>code mg' mg''. poll_child p mg = (Some code, mg') \<and> monitor_guard sid p mg' = (True, mg'') \<and> get_runner sid mg'' = None \<and>
        mgr_step mg (mg''\<lparr>mg_due := mg_due mg'' @ [(sid, code)]\<rparr>) \<and>
        mgr_step (mg''\<lparr>mg_due := mg_due mg'' @ [(sid, code)]\<rparr>) (monitor_exit sid p code mg') \<and>
        mg_exit_calls (monitor_exit sid p code mg') = mg_exit_calls mg @ [(sid, code)] \<and>
        (\<forall>later. mgr_step\<^sup>*\<^sup>* (mg''\<lparr>mg_due := mg_due mg'' @ [(sid, code)]\<rparr>) later \<longrightarrow> p \<notin> snd ` set (mg_monitors later)))) \<and>
    (\<forall>q code. q \<noteq> p \<longrightarrow> monitor_exit sid q code mg = mg\<lparr>mg_monitors := remove1 (sid, q) (mg_monitors mg)\<rparr>)"
proof (intro conjI impI allI)
  have inv: "mgr_inv mg" by (rule mgr_reachable [OF assms(1)])
  from assms(2) obtain info where info: "map_of (mg_runners mg) sid = Some info" "ri_process info = Some p"
    by (auto simp: tracked_process_def bind_eq_Some_conv)
  with inv have mon: "(sid, p) \<in> set (mg_monitors mg)" and d: "distinct (map snd (mg_monitors mg))" and n: "p < length (mg_children mg)"
    by (fastforce simp: mgr_inv_def)+
  then show watch: "filter (\<lambda>m. snd m = p) (mg_monitors mg) = [(sid, p)]" by (intro filter_key_distinct) simp_all
  show "monitor_exit sid q code mg = mg\<lparr>mg_monitors := remove1 (sid, q) (mg_monitors mg)\<rparr>" if "q \<noteq> p" for q code
    using info that by (simp add: monitor_exit_def monitor_guard_def)
  assume "cd_status (mg_children mg ! p) \<noteq> Running"
  then obtain code where code: "exit_code (cd_status (mg_children mg ! p)) = Some code"
    by (cases "cd_status (mg_children mg ! p)") auto
  obtain mg' where mg': "poll_child p mg = (Some code, mg')" using code by (simp add: poll_child_def Let_def)
  note poll = mgr_inv_poll [OF inv mg']
  define mg'' where "mg'' = mg'\<lparr>mg_monitors := remove1 (sid, p) (mg_monitors mg'), mg_runners := hm_remove sid (mg_runners mg')\<rparr>"
  have guard: "monitor_guard sid p mg' = (True, mg'')" using poll info by (simp add: monitor_guard_def mg''_def)
  let ?due = "mg''\<lparr>mg_due := mg_due mg'' @ [(sid, code)]\<rparr>"
  have exit: "monitor_exit sid p code mg' = call_handler sid code mg''" by (simp add: monitor_exit_def guard)
  have turn: "mgr_step mg ?due" using mgr_step.monitor [OF mon mg' guard] by simp
  moreover have "mgr_step ?due (monitor_exit sid p code mg')"
    using mgr_step.call [of ?due "mg_due mg''" sid code "[]"] by (simp add: exit)
  moreover have "p \<notin> snd ` set (mg_monitors later)" if "mgr_step\<^sup>*\<^sup>* ?due later" for later
  proof -
    have "set (mg_monitors ?due) = set (mg_monitors mg) - {(sid, p)}" using d poll by (simp add: mg''_def distinct_map)
    moreover have "q = (sid, p)" if "q \<in> set (mg_monitors mg)" "snd q = p" for q
      using that mon d by (force simp: distinct_map inj_on_def)
    ultimately have "p \<notin> snd ` set (mg_monitors ?due)" by auto
    moreover have "p < length (mg_children ?due)"
      using n mg' by (auto simp: mg''_def poll_child_def Let_def split: child_status.splits)
    ultimately show ?thesis using ended_monitor_is_gone [OF that] by blast
  qed
  moreover have "get_runner sid mg'' = None" "mg_exit_calls (monitor_exit sid p code mg') = mg_exit_calls mg @ [(sid, code)]"
    using poll by (simp_all add: exit mg''_def get_runner_def call_handler_def)
  ultimately show "\<exists>code mg' mg''. poll_child p mg = (Some code, mg') \<and> monitor_guard sid p mg' = (True, mg'') \<and> get_runner sid mg'' = None \<and>
        mgr_step mg (mg''\<lparr>mg_due := mg_due mg'' @ [(sid, code)]\<rparr>) \<and>
        mgr_step (mg''\<lparr>mg_due := mg_due mg'' @ [(sid, code)]\<rparr>) (monitor_exit sid p code mg') \<and>
        mg_exit_calls (monitor_exit sid p code mg') = mg_exit_calls mg @ [(sid, code)] \<and>
        (\<forall>later. mgr_step\<^sup>*\<^sup>* (mg''\<lparr>mg_due := mg_due mg'' @ [(sid, code)]\<rparr>) later \<longrightarrow> p \<notin> snd ` set (mg_monitors later))"
    using mg' guard by blast
qed

definition demo_spawn :: spawn_env where
  "demo_spawn = \<lparr>sv_injected = Some [''tp-runner''], sv_default = Inl ''not found'', sv_spawn = (\<lambda>_. Inr 42), sv_now = 0\<rparr>"

definition demo_manager :: session_manager where
  "demo_manager = snd (spawn_runner demo_spawn ''s'' ''/w'' default_options manager_new)"

definition demo_crashed :: session_manager where
  "demo_crashed = demo_manager\<lparr>mg_children := (mg_children demo_manager)[0 := (mg_children demo_manager ! 0)\<lparr>cd_status := Exited (Some 1)\<rparr>]\<rparr>"

lemma demo_manager_reachable: "mgr_step\<^sup>*\<^sup>* manager_new demo_manager"
  unfolding demo_manager_def by (blast intro: mgr_step.spawn)

lemma demo_crashed_reachable: "mgr_step\<^sup>*\<^sup>* manager_new demo_crashed"
proof -
  have "0 < length (mg_children demo_manager) \<and> cd_status (mg_children demo_manager ! 0) = Running" by code_simp
  then have "mgr_step demo_manager demo_crashed" unfolding demo_crashed_def by (blast intro: mgr_step.child_exits)
  with demo_manager_reachable show ?thesis by (rule rtranclp.rtrancl_into_rtrancl)
qed

theorem runner_exit_is_noticed_once_witness:
  "\<exists>code mg' mg''. poll_child 0 demo_crashed = (Some code, mg') \<and> monitor_guard ''s'' 0 mg' = (True, mg'') \<and> get_runner ''s'' mg'' = None"
proof -
  have "tracked_process ''s'' demo_crashed = Some 0" "cd_status (mg_children demo_crashed ! 0) = Exited (Some 1)" by code_simp+
  with runner_exit_is_noticed_once [OF demo_crashed_reachable, of "''s''" 0] show ?thesis by auto
qed

text \<open>A runner that registered itself is torn down by another's exit. When the tracked entry of a
  session was unregistered and a runner this daemon did not spawn has since registered the same session,
  the end of the old child's monitor still removes that live entry and reports the session as ended,
  although the entry tracks no child at all.\<close>

theorem exit_removes_registered_only_runner:
  assumes "tracked_process sid mg = Some p"
  shows "let mg' = register_runner now sid pid cwd wp cv (unregister_runner sid mg) in
    get_runner sid mg' \<noteq> None \<and> tracked_process sid mg' = None \<and>
    get_runner sid (monitor_exit sid p code mg') = None \<and>
    mg_exit_calls (monitor_exit sid p code mg') = mg_exit_calls mg @ [(sid, code)]"
  by (simp add: register_runner_def unregister_runner_def monitor_exit_def monitor_guard_def call_handler_def get_runner_def tracked_process_def)

theorem exit_removes_registered_only_runner_witness:
  "mg_exit_calls (monitor_exit ''s'' 0 1 (register_runner 0 ''s'' 7 ''/w'' None None (unregister_runner ''s'' demo_manager))) =
    mg_exit_calls demo_manager @ [(''s'', 1)]"
proof -
  have "tracked_process ''s'' demo_manager = Some 0" by code_simp
  from exit_removes_registered_only_runner [OF this] show ?thesis by (simp add: Let_def)
qed

end
