(* ===== verification/Worktree.thy ===== *)
theory Worktree
  imports Utf8
begin

text \<open>
  The git worktree manager (\<open>tp-daemon/src/worktree/manager.rs\<close>): validation of branches and paths, the
  porcelain parser, and the git commands of each operation.

  An absolute path is the list of its components. \<open>git_api\<close> stands for the git program and the file
  system: the result of a git command, \<open>std::fs::canonicalize\<close> of a directory and whether a directory can be
  written to. Each operation also returns the git commands it ran, in order.
\<close>

section \<open>Paths\<close>

type_synonym path = "string list"

definition path_components :: "string \<Rightarrow> path" where
  "path_components s = filter (\<lambda>c. c \<noteq> [] \<and> c \<noteq> ''.'') (str_split (CHR ''/'') s)"

definition path_display :: "path \<Rightarrow> string" where
  "path_display p = (if p = [] then ''/'' else concat (map (\<lambda>c. CHR ''/'' # c) p))"

definition lexically_normalize :: "path \<Rightarrow> path" where
  "lexically_normalize p = foldl (\<lambda>out c. if c = ''..'' then butlast out else out @ [c]) [] p"

definition resolve_against :: "path \<Rightarrow> string \<Rightarrow> path" where
  "resolve_against repo_root s =
    lexically_normalize (if starts_with s ''/'' then path_components s else repo_root @ path_components s)"

record git_result =
  gr_success :: bool
  gr_code :: "int option"
  gr_stdout :: "u8 list"
  gr_stderr :: "u8 list"

record git_api =
  ga_run :: "string list \<Rightarrow> path option \<Rightarrow> string + git_result"
  ga_realpath :: "path \<Rightarrow> path option"
  ga_writable_dir :: "path \<Rightarrow> bool"

definition canonicalize_leaf_lexical :: "git_api \<Rightarrow> path \<Rightarrow> path" where
  "canonicalize_leaf_lexical ga absolute =
    (let leaf = (if absolute = [] then [] else [last absolute])
     in case ga_realpath ga (butlast absolute) of Some real_parent \<Rightarrow> real_parent @ leaf | None \<Rightarrow> absolute)"

section \<open>Running git\<close>

definition show_int :: "int \<Rightarrow> string" where
  "show_int i = (if i < 0 then ''-'' @ show_nat (nat (- i)) else show_nat (nat i))"

definition first_arg :: "string list \<Rightarrow> string" where
  "first_arg args = (case args of [] \<Rightarrow> [] | a # _ \<Rightarrow> a)"

definition git_output :: "git_api \<Rightarrow> string list \<Rightarrow> path option \<Rightarrow> string + string" where
  "git_output ga args cwd =
    (case ga_run ga args cwd of
       Inl e \<Rightarrow> Inl (''git '' @ first_arg args @ '' could not run: '' @ e)
     | Inr out \<Rightarrow>
         if \<not> gr_success out then
           let stderr = str_trim (from_utf8_lossy (gr_stderr out));
               status = (case gr_code out of Some c \<Rightarrow> show_int c | None \<Rightarrow> ''null'')
           in Inl (if stderr = [] then ''git '' @ first_arg args @ '' exited '' @ status
                   else ''git '' @ first_arg args @ '' exited '' @ status @ '': '' @ stderr)
         else Inr (from_utf8_lossy (gr_stdout out)))"

definition git_run :: "git_api \<Rightarrow> string list \<Rightarrow> path option \<Rightarrow> string + unit" where
  "git_run ga args cwd =
    (case ga_run ga args cwd of
       Inl e \<Rightarrow> Inl (''git '' @ first_arg args @ '' could not run: '' @ e)
     | Inr out \<Rightarrow>
         if \<not> gr_success out then Inl (''git '' @ first_arg args @ '' failed: '' @ str_trim (from_utf8_lossy (gr_stderr out)))
         else Inr ())"

definition check_ref_format :: "string \<Rightarrow> string list" where
  "check_ref_format branch = [''check-ref-format'', ''--branch'', branch]"

definition validate_branch_name :: "git_api \<Rightarrow> string \<Rightarrow> string + unit" where
  "validate_branch_name ga branch =
    (case ga_run ga (check_ref_format branch) None of
       Inl e \<Rightarrow> Inl (''cannot validate branch name (git could not run): '' @ e)
     | Inr out \<Rightarrow>
         if \<not> gr_success out then
           Inl (''Invalid branch name: '' @ [CHR 0x27] @ branch @ [CHR 0x27] @ ''. Branch names cannot contain spaces, '' @
             [CHR 0x27] @ ''..'' @ [CHR 0x27] @ '', '' @ [CHR 0x27] @ ''~'' @ [CHR 0x27] @ '', '' @ [CHR 0x27] @ ''^'' @
             [CHR 0x27] @ '', '' @ [CHR 0x27] @ '':'' @ [CHR 0x27] @ '', control characters, or start/end with '' @
             [CHR 0x27] @ ''.'' @ [CHR 0x27] @ '' or '' @ [CHR 0x27] @ ''/'' @ [CHR 0x27] @ ''.'')
         else Inr ())"

definition validate_path_permissions :: "git_api \<Rightarrow> path \<Rightarrow> string + unit" where
  "validate_path_permissions ga p =
    (let parent = butlast p
     in if ga_writable_dir ga parent then Inr ()
        else Inl (''Cannot create worktree at '' @ [CHR 0x27] @ path_display p @ [CHR 0x27] @ '': parent directory '' @ [CHR 0x27] @
          path_display parent @ [CHR 0x27] @ '' does not exist or is not writable.''))"

section \<open>Listing\<close>

record worktree_info =
  wt_path :: string
  wt_branch :: "string option"
  wt_head :: string
  wt_is_main :: bool

record partial_worktree =
  pw_path :: "string option"
  pw_branch :: "string option option"
  pw_head :: "string option"
  pw_is_main :: bool

definition partial_default :: partial_worktree where
  "partial_default = \<lparr>pw_path = None, pw_branch = None, pw_head = None, pw_is_main = False\<rparr>"

definition into_worktree_info :: "partial_worktree \<Rightarrow> worktree_info option" where
  "into_worktree_info p =
    (case (pw_path p, pw_branch p, pw_head p) of
       (Some pt, Some branch, Some head) \<Rightarrow> Some \<lparr>wt_path = pt, wt_branch = branch, wt_head = head, wt_is_main = pw_is_main p\<rparr>
     | _ \<Rightarrow> None)"

definition strip_prefix :: "string \<Rightarrow> string \<Rightarrow> string option" where
  "strip_prefix p s = (if starts_with s p then Some (drop (length p) s) else None)"

definition flush_partial :: "worktree_info list \<Rightarrow> partial_worktree \<Rightarrow> worktree_info list" where
  "flush_partial wts current = wts @ (case into_worktree_info current of Some wt \<Rightarrow> [wt] | None \<Rightarrow> [])"

definition list_line :: "worktree_info list \<times> partial_worktree \<Rightarrow> string \<Rightarrow> worktree_info list \<times> partial_worktree" where
  "list_line acc line =
    (let (wts, current) = acc
     in case strip_prefix ''worktree '' line of
          Some p \<Rightarrow> (flush_partial wts current, \<lparr>pw_path = Some p, pw_branch = Some None, pw_head = None, pw_is_main = False\<rparr>)
        | None \<Rightarrow>
          (case strip_prefix ''HEAD '' line of
             Some head \<Rightarrow> (wts, current\<lparr>pw_head := Some head\<rparr>)
           | None \<Rightarrow>
             (case strip_prefix ''branch '' line of
                Some reference \<Rightarrow>
                  (wts, current\<lparr>pw_branch := Some (Some (case strip_prefix ''refs/heads/'' reference of Some b \<Rightarrow> b | None \<Rightarrow> reference))\<rparr>)
              | None \<Rightarrow>
                if line = ''detached'' then (wts, current)
                else if line = ''bare'' then (wts, current\<lparr>pw_is_main := True\<rparr>)
                else if line = [] then (flush_partial wts current, partial_default)
                else (wts, current))))"

definition mark_main :: "worktree_info list \<Rightarrow> worktree_info list" where
  "mark_main wts = (case wts of [] \<Rightarrow> [] | w # ws \<Rightarrow> if \<exists>v \<in> set wts. wt_is_main v then wts else w\<lparr>wt_is_main := True\<rparr> # ws)"

definition parse_porcelain :: "string \<Rightarrow> worktree_info list" where
  "parse_porcelain result =
    (if str_trim result = [] then []
     else let (wts, current) = foldl list_line ([], partial_default) (str_split (CHR 0x0A) result)
          in mark_main (flush_partial wts current))"

section \<open>The manager\<close>

record worktree_manager =
  wm_repo_root :: path

definition worktree_list :: "git_api \<Rightarrow> worktree_manager \<Rightarrow> worktree_info list" where
  "worktree_list ga wm =
    (case git_output ga [''worktree'', ''list'', ''--porcelain''] (Some (wm_repo_root wm)) of
       Inl _ \<Rightarrow> []
     | Inr result \<Rightarrow> parse_porcelain result)"

definition worktree_base :: "worktree_manager \<Rightarrow> path" where
  "worktree_base wm = butlast (wm_repo_root wm)"

definition resolved_target :: "git_api \<Rightarrow> worktree_manager \<Rightarrow> string \<Rightarrow> path" where
  "resolved_target ga wm p = canonicalize_leaf_lexical ga (resolve_against (wm_repo_root wm) p)"

definition validate_path_containment :: "git_api \<Rightarrow> worktree_manager \<Rightarrow> string \<Rightarrow> string + unit" where
  "validate_path_containment ga wm p =
    (let base = worktree_base wm;
         resolved = resolved_target ga wm p
     in if resolved \<noteq> base \<and> \<not> starts_with (path_display resolved) (path_display base @ ''/'')
        then Inl (''Refusing to create worktree at '' @ [CHR 0x27] @ p @ [CHR 0x27] @ '': resolved path '' @ [CHR 0x27] @
          path_display resolved @ [CHR 0x27] @ '' is outside the worktree base directory '' @ [CHR 0x27] @ path_display base @
          [CHR 0x27] @ ''.'')
        else Inr ())"

definition wm_canonicalize :: "git_api \<Rightarrow> worktree_manager \<Rightarrow> string \<Rightarrow> string" where
  "wm_canonicalize ga wm p = path_display (resolved_target ga wm p)"

type_synonym git_calls = "(string list \<times> path option) list"

definition add_args :: "bool \<Rightarrow> string \<Rightarrow> string \<Rightarrow> string option \<Rightarrow> string list" where
  "add_args branch_exists p branch base_branch =
    (if branch_exists then [''worktree'', ''add'', ''--'', p, branch]
     else case base_branch of
         Some base \<Rightarrow> [''worktree'', ''add'', ''-b'', branch, ''--'', p, base]
       | None \<Rightarrow> [''worktree'', ''add'', ''-b'', branch, ''--'', p])"

definition worktree_add :: "git_api \<Rightarrow> worktree_manager \<Rightarrow> string \<Rightarrow> string \<Rightarrow> string option \<Rightarrow> git_calls \<times> (string + worktree_info)" where
  "worktree_add ga wm p branch base_branch =
    (let root = Some (wm_repo_root wm);
         calls = [(check_ref_format branch, None)]
     in case validate_branch_name ga branch of
          Inl e \<Rightarrow> (calls, Inl e)
        | Inr _ \<Rightarrow>
          let calls = calls @ (case base_branch of Some b \<Rightarrow> [(check_ref_format b, None)] | None \<Rightarrow> [])
          in (case (case base_branch of Some b \<Rightarrow> validate_branch_name ga b | None \<Rightarrow> Inr ()) of
                Inl e \<Rightarrow> (calls, Inl e)
              | Inr _ \<Rightarrow>
                (case validate_path_containment ga wm p of
                   Inl e \<Rightarrow> (calls, Inl e)
                 | Inr _ \<Rightarrow>
                   let absolute_path = resolve_against (wm_repo_root wm) p
                   in (case validate_path_permissions ga absolute_path of
                         Inl e \<Rightarrow> (calls, Inl e)
                       | Inr _ \<Rightarrow>
                         let verify = [''rev-parse'', ''--verify'', branch];
                             branch_exists = (case git_output ga verify root of Inr _ \<Rightarrow> True | Inl _ \<Rightarrow> False);
                             args = add_args branch_exists p branch base_branch;
                             calls = calls @ [(verify, root), (args, root)]
                         in (case git_run ga args root of
                               Inl e \<Rightarrow> (calls, Inl e)
                             | Inr _ \<Rightarrow>
                               let calls = calls @ [([''rev-parse'', ''HEAD''], Some absolute_path)]
                               in (case git_output ga [''rev-parse'', ''HEAD''] (Some absolute_path) of
                                     Inl e \<Rightarrow> (calls, Inl e)
                                   | Inr head \<Rightarrow> (calls, Inr \<lparr>wt_path = path_display absolute_path, wt_branch = Some branch,
                                       wt_head = str_trim head, wt_is_main = False\<rparr>)))))))"

definition remove_args :: "bool \<Rightarrow> string \<Rightarrow> string list" where
  "remove_args force p = [''worktree'', ''remove''] @ (if force then [''--force''] else []) @ [''--'', p]"

definition worktree_remove :: "git_api \<Rightarrow> worktree_manager \<Rightarrow> string \<Rightarrow> bool \<Rightarrow> git_calls \<times> (string + unit)" where
  "worktree_remove ga wm p force =
    (case validate_path_containment ga wm p of
       Inl e \<Rightarrow> ([], Inl e)
     | Inr _ \<Rightarrow> ([(remove_args force p, Some (wm_repo_root wm))], git_run ga (remove_args force p) (Some (wm_repo_root wm))))"

definition worktree_prune :: "git_api \<Rightarrow> worktree_manager \<Rightarrow> git_calls \<times> (string + unit)" where
  "worktree_prune ga wm =
    ([([''worktree'', ''prune''], Some (wm_repo_root wm))], git_run ga [''worktree'', ''prune''] (Some (wm_repo_root wm)))"

section \<open>Containment\<close>

definition comp_ok :: "string \<Rightarrow> bool" where
  "comp_ok c \<longleftrightarrow> c \<noteq> [] \<and> CHR ''/'' \<notin> set c"

text \<open>Documented behaviour of \<open>canonicalize\<close>: the result is an absolute path of ordinary components.\<close>

definition realpath_lawful :: "git_api \<Rightarrow> bool" where
  "realpath_lawful ga \<longleftrightarrow> (\<forall>p q. ga_realpath ga p = Some q \<longrightarrow> list_all comp_ok q)"

lemma str_split_sep: "c \<in> set (str_split ch s) \<Longrightarrow> ch \<notin> set c"
  by (induction s arbitrary: c) (auto split: if_splits list.splits)

lemma path_components_ok: "list_all comp_ok (path_components s)"
  using str_split_sep by (auto simp: path_components_def list_all_iff comp_ok_def)

lemma lexically_normalize_ok: "list_all comp_ok p \<Longrightarrow> list_all comp_ok (lexically_normalize p)"
proof -
  have "list_all comp_ok p \<Longrightarrow> list_all comp_ok out \<Longrightarrow>
      list_all comp_ok (foldl (\<lambda>out c. if c = ''..'' then butlast out else out @ [c]) out p)" for out
  proof (induction p arbitrary: out)
    case (Cons c p)
    have "list_all comp_ok (butlast out)" using Cons.prems(2) by (auto simp: list_all_iff dest: in_set_butlastD)
    then show ?case using Cons by simp
  qed simp
  then show "list_all comp_ok p \<Longrightarrow> list_all comp_ok (lexically_normalize p)" by (simp add: lexically_normalize_def)
qed

lemma resolve_against_ok: "list_all comp_ok root \<Longrightarrow> list_all comp_ok (resolve_against root s)"
  by (simp add: resolve_against_def lexically_normalize_ok path_components_ok)

lemma resolved_target_ok:
  "realpath_lawful ga \<Longrightarrow> list_all comp_ok (wm_repo_root wm) \<Longrightarrow> list_all comp_ok (resolved_target ga wm p)"
  using resolve_against_ok [of "wm_repo_root wm" p]
  by (auto simp: resolved_target_def canonicalize_leaf_lexical_def realpath_lawful_def Let_def list_all_iff split: option.splits)

lemma no_slash_split:
  assumes "a @ CHR ''/'' # x = b @ y" "CHR ''/'' \<notin> set a" "CHR ''/'' \<notin> set b" "y = [] \<or> hd y = CHR ''/''" "y \<noteq> []"
  shows "a = b"
proof -
  have "takeWhile (\<lambda>c. c \<noteq> CHR ''/'') (a @ CHR ''/'' # x) = a" using assms(2) by (subst takeWhile_append2) auto
  moreover have "takeWhile (\<lambda>c. c \<noteq> CHR ''/'') (b @ y) = b"
  proof -
    obtain l where "y = CHR ''/'' # l" using assms(4,5) by (cases y) auto
    then show ?thesis using assms(3) by (simp add: takeWhile_append)
  qed
  ultimately show ?thesis using assms(1) by simp
qed

abbreviation slash_concat :: "path \<Rightarrow> string" where
  "slash_concat p \<equiv> concat (map (\<lambda>c. CHR ''/'' # c) p)"

lemma display_prefix:
  assumes "list_all comp_ok base" "list_all comp_ok r" "starts_with (slash_concat r) (slash_concat base @ ''/'')"
  shows "\<exists>t. t \<noteq> [] \<and> r = base @ t"
  using assms
proof (induction base arbitrary: r)
  case Nil
  then show ?case by (cases r) (auto simp: starts_with_iff)
next
  case (Cons b bs)
  obtain z where z: "slash_concat r = slash_concat (b # bs) @ ''/'' @ z" using Cons.prems(3) by (auto simp: starts_with_iff)
  then obtain c cs where r: "r = c # cs" by (cases r) auto
  have "c @ slash_concat cs = b @ (slash_concat bs @ ''/'' @ z)" using z r by simp
  moreover obtain x where x: "slash_concat bs @ ''/'' @ z = CHR ''/'' # x" by (cases bs) auto
  ultimately have eq: "b @ CHR ''/'' # x = c @ slash_concat cs" by simp
  have "slash_concat cs \<noteq> []"
  proof
    assume "slash_concat cs = []"
    with eq have "CHR ''/'' \<in> set c" by (metis append_Nil2 in_set_conv_decomp)
    with Cons.prems(2) r show False by (simp add: comp_ok_def)
  qed
  moreover have "slash_concat cs = [] \<or> hd (slash_concat cs) = CHR ''/''" by (cases cs) auto
  ultimately have "b = c" using no_slash_split [OF eq] Cons.prems(1,2) r by (simp add: comp_ok_def)
  then have "slash_concat cs = slash_concat bs @ ''/'' @ z" using eq x by simp
  then have "starts_with (slash_concat cs) (slash_concat bs @ ''/'')" by (auto simp: starts_with_iff)
  with Cons.IH [of cs] Cons.prems r \<open>b = c\<close> show ?case by auto
qed

lemma contained:
  assumes "realpath_lawful ga" "list_all comp_ok (wm_repo_root wm)" "worktree_base wm \<noteq> []"
    "validate_path_containment ga wm p = Inr ()"
  shows "\<exists>t. resolved_target ga wm p = worktree_base wm @ t"
proof (cases "resolved_target ga wm p = worktree_base wm")
  case False
  have base: "list_all comp_ok (worktree_base wm)"
    using assms(2) by (auto simp: worktree_base_def list_all_iff dest: in_set_butlastD)
  from False assms(4) have pre: "starts_with (path_display (resolved_target ga wm p)) (path_display (worktree_base wm) @ ''/'')"
    by (auto simp: validate_path_containment_def Let_def split: if_splits)
  moreover from this have "resolved_target ga wm p \<noteq> []"
    using assms(3) base by (cases "worktree_base wm") (auto simp: path_display_def starts_with_iff comp_ok_def)
  ultimately have "starts_with (slash_concat (resolved_target ga wm p)) (slash_concat (worktree_base wm) @ ''/'')"
    using assms(3) by (simp add: path_display_def)
  from display_prefix [OF base resolved_target_ok [OF assms(1,2)] this] show ?thesis by blast
qed auto

definition changes_worktrees :: "string list \<Rightarrow> bool" where
  "changes_worktrees args \<longleftrightarrow> take 2 args = [''worktree'', ''add''] \<or> take 2 args = [''worktree'', ''remove'']"

text \<open>C36: Every \<open>git worktree add\<close> and \<open>git worktree remove\<close> that is run has passed the containment check. Let
  the repository's parent directory not be the root directory. For every path and branch a frontend may
  send, such a command runs in the repository, names the path right after \<open>--\<close>, so that it cannot be
  read as an option, and the path as the check resolves it (joined to the repository, \<open>..\<close> collapsed
  lexically, then the links of its parent followed) lies in the parent directory of the repository.
  Because \<open>..\<close> is collapsed before links are followed, the directory git itself reaches may be
  another one: see \<open>symlink_parent_slips_past\<close> below.\<close>

theorem worktree_changes_stay_in_base:
  assumes "realpath_lawful ga" "list_all comp_ok (wm_repo_root wm)" "worktree_base wm \<noteq> []"
    and "(args, cwd) \<in> set (fst (worktree_add ga wm p branch base)) \<or> (args, cwd) \<in> set (fst (worktree_remove ga wm p force))"
    and "changes_worktrees args"
  shows "(\<exists>t. resolved_target ga wm p = worktree_base wm @ t) \<and> cwd = Some (wm_repo_root wm) \<and>
    (\<exists>opts rest. args = opts @ [''--'', p] @ rest \<and> set opts \<subseteq> {''worktree'', ''add'', ''remove'', ''--force'', ''-b'', branch})"
proof -
  have shape: "validate_path_containment ga wm p = Inr () \<and> cwd = Some (wm_repo_root wm) \<and>
      (args = remove_args force p \<or> (\<exists>b. args = add_args b p branch base))"
    using assms(4,5)
    by (auto simp: worktree_add_def worktree_remove_def Let_def check_ref_format_def changes_worktrees_def
        split: sum.splits option.splits if_splits)
  have "\<exists>opts rest. args = opts @ [''--'', p] @ rest \<and> set opts \<subseteq> {''worktree'', ''add'', ''remove'', ''--force'', ''-b'', branch}"
    if "args = add_args b p branch base" for b
    using that by (intro exI [of _ "if b then [''worktree'', ''add''] else [''worktree'', ''add'', ''-b'', branch]"]
        exI [of _ "if b then [branch] else case base of Some x \<Rightarrow> [x] | None \<Rightarrow> []"]) (auto simp: add_args_def split: option.split)
  moreover have "\<exists>opts rest. args = opts @ [''--'', p] @ rest \<and> set opts \<subseteq> {''worktree'', ''add'', ''remove'', ''--force'', ''-b'', branch}"
    if "args = remove_args force p"
    using that by (intro exI [of _ "[''worktree'', ''remove''] @ (if force then [''--force''] else [])"] exI [of _ "[]"]) (auto simp: remove_args_def)
  ultimately have "\<exists>opts rest. args = opts @ [''--'', p] @ rest \<and> set opts \<subseteq> {''worktree'', ''add'', ''remove'', ''--force'', ''-b'', branch}"
    using shape by metis
  with shape contained [OF assms(1-3), of p] show ?thesis by (simp only: simp_thms)
qed

definition demo_git :: git_api where
  "demo_git = \<lparr>ga_run = (\<lambda>args cwd. if first_arg args = ''rev-parse'' then Inl ''fault''
      else Inr \<lparr>gr_success = True, gr_code = Some 0, gr_stdout = [], gr_stderr = []\<rparr>),
    ga_realpath = (\<lambda>p. let q = foldl (\<lambda>out c. if c = ''..'' then butlast out
        else if out @ [c] = [''w'', ''repo'', ''link''] then [''etc'', ''x''] else out @ [c]) [] p in if list_all comp_ok q then Some q else None),
    ga_writable_dir = (\<lambda>_. True)\<rparr>"

definition demo_manager_wt :: worktree_manager where
  "demo_manager_wt = \<lparr>wm_repo_root = [''w'', ''repo'']\<rparr>"

lemma demo_git_lawful: "realpath_lawful demo_git"
  by (auto simp: realpath_lawful_def demo_git_def Let_def split: if_splits)

theorem worktree_changes_stay_in_base_witness:
  "([''worktree'', ''add'', ''-b'', ''b'', ''--'', ''../x''], Some [''w'', ''repo'']) \<in> set (fst (worktree_add demo_git demo_manager_wt ''../x'' ''b'' None)) \<and>
   (\<exists>t. resolved_target demo_git demo_manager_wt ''../x'' = [''w''] @ t)"
proof -
  have 1: "([''worktree'', ''add'', ''-b'', ''b'', ''--'', ''../x''], Some [''w'', ''repo'']) \<in> set (fst (worktree_add demo_git demo_manager_wt ''../x'' ''b'' None))"
    by code_simp
  have 2: "changes_worktrees [''worktree'', ''add'', ''-b'', ''b'', ''--'', ''../x'']" by code_simp
  have 3: "list_all comp_ok (wm_repo_root demo_manager_wt)" "worktree_base demo_manager_wt \<noteq> []" by code_simp+
  from worktree_changes_stay_in_base [OF demo_git_lawful 3 disjI1 [OF 1] 2] 1 show ?thesis
    by (simp add: worktree_base_def demo_manager_wt_def)
qed

text \<open>
  Two limits of the check. A repository directly below the root directory has \<open>/\<close> as base, which the
  string test turns into the prefix \<open>//\<close>, so that every path is refused. And \<open>..\<close> is removed
  before symbolic links are followed, so a path through a link is accepted although the kernel resolves it elsewhere.
\<close>

text \<open>C40: For a repository directly below the root directory no worktree can be created or removed: the
  check accepts no path at all except the root directory itself.\<close>

theorem root_level_repository_refuses_all:
  assumes "realpath_lawful ga" "list_all comp_ok (wm_repo_root wm)" "length (wm_repo_root wm) = 1"
  shows "validate_path_containment ga wm p = Inr () \<longleftrightarrow> resolved_target ga wm p = []"
proof -
  have base: "worktree_base wm = []" using assms(3) by (cases "wm_repo_root wm") (auto simp: worktree_base_def)
  have "\<not> starts_with (path_display r) ''//''" if "list_all comp_ok r" for r
    using that by (cases r; cases "hd r") (auto simp: path_display_def starts_with_iff comp_ok_def)
  then show ?thesis using resolved_target_ok [OF assms(1,2), of p]
    by (auto simp: validate_path_containment_def Let_def base) (simp add: path_display_def)
qed

theorem root_level_repository_refuses_all_witness:
  "validate_path_containment demo_git \<lparr>wm_repo_root = [''app'']\<rparr> ''../app-wt'' \<noteq> Inr ()"
  using root_level_repository_refuses_all [OF demo_git_lawful, of "\<lparr>wm_repo_root = [''app'']\<rparr>" "''../app-wt''"]
  by (simp add: comp_ok_def) code_simp

lemma symlink_parent_slips_past:
  "validate_path_containment demo_git demo_manager_wt ''link/../evil'' = Inr () \<and>
   ga_realpath demo_git (wm_repo_root demo_manager_wt @ butlast (path_components ''link/../evil'')) = Some [''etc'']"
  by code_simp

section \<open>The porcelain format\<close>

text \<open>The lines of a worktree that is neither bare, locked nor prunable, in git's documented format.\<close>

definition porcelain_lines :: "worktree_info \<Rightarrow> string list" where
  "porcelain_lines w = [''worktree '' @ wt_path w, ''HEAD '' @ wt_head w,
    (case wt_branch w of Some b \<Rightarrow> ''branch refs/heads/'' @ b | None \<Rightarrow> ''detached''), []]"

definition porcelain :: "worktree_info list \<Rightarrow> string" where
  "porcelain wts = concat (map (\<lambda>l. l @ [CHR 0x0A]) (concat (map porcelain_lines wts)))"

definition line_ok :: "string \<Rightarrow> bool" where
  "line_ok l \<longleftrightarrow> CHR 0x0A \<notin> set l"

definition worktree_ok :: "worktree_info \<Rightarrow> bool" where
  "worktree_ok w \<longleftrightarrow> line_ok (wt_path w) \<and> line_ok (wt_head w) \<and> (\<forall>b. wt_branch w = Some b \<longrightarrow> line_ok b) \<and> \<not> wt_is_main w"

lemma str_split_line: "CHR 0x0A \<notin> set l \<Longrightarrow> str_split (CHR 0x0A) (l @ CHR 0x0A # s) = l # str_split (CHR 0x0A) s"
  by (induction l) auto

lemma str_split_lines: "list_all line_ok ls \<Longrightarrow> str_split (CHR 0x0A) (concat (map (\<lambda>l. l @ [CHR 0x0A]) ls)) = ls @ [[]]"
  by (induction ls) (auto simp: str_split_line line_ok_def)

lemma porcelain_lines_ok: "worktree_ok w \<Longrightarrow> list_all line_ok (porcelain_lines w)"
  by (auto simp: porcelain_lines_def worktree_ok_def line_ok_def split: option.split)

lemma strip_prefix_append [simp]: "strip_prefix p (p @ s) = Some s"
  by (simp add: strip_prefix_def starts_with_iff)

lemma list_line_eqs:
  "list_line (wts, cur) (''worktree '' @ p) =
    (flush_partial wts cur, \<lparr>pw_path = Some p, pw_branch = Some None, pw_head = None, pw_is_main = False\<rparr>)"
  "list_line (wts, cur) (''HEAD '' @ h) = (wts, cur\<lparr>pw_head := Some h\<rparr>)"
  "list_line (wts, cur) (''branch refs/heads/'' @ b) = (wts, cur\<lparr>pw_branch := Some (Some b)\<rparr>)"
  "list_line (wts, cur) ''detached'' = (wts, cur)"
  "list_line (wts, cur) [] = (flush_partial wts cur, partial_default)"
  by (simp_all add: list_line_def strip_prefix_def starts_with_def Let_def)

lemma list_lines_worktree:
  assumes "worktree_ok w"
  shows "foldl list_line (wts, partial_default) (porcelain_lines w) = (wts @ [w], partial_default)"
  using assms
  by (cases "wt_branch w")
    (simp_all add: porcelain_lines_def list_line_eqs [unfolded append_Cons append_Nil] flush_partial_def into_worktree_info_def partial_default_def worktree_ok_def)

lemma list_lines_all:
  "list_all worktree_ok ws \<Longrightarrow> foldl list_line (wts, partial_default) (concat (map porcelain_lines ws)) = (wts @ ws, partial_default)"
  by (induction ws arbitrary: wts) (auto simp: list_lines_worktree)

lemma strip_codes_keeps: "c \<in> set s \<Longrightarrow> \<not> (\<exists>w \<in> set ws. c \<in> set w) \<Longrightarrow> c \<in> set (strip_codes ws s)"
proof (induction ws s rule: strip_codes.induct)
  case (1 ws s)
  show ?case
  proof (cases "find (\<lambda>w. w \<noteq> [] \<and> starts_with s w) ws")
    case None
    then show ?thesis using 1 by (simp add: strip_codes_None)
  next
    case (Some w)
    then have w: "w \<in> set ws" "s = w @ drop (length w) s" by (auto simp: find_Some_iff starts_with_iff)
    then have "c \<in> set (drop (length w) s)" using 1(2,3) by (metis Un_iff set_append)
    then show ?thesis using 1(1) [OF Some] 1(3) by (simp add: strip_codes_Some [OF Some])
  qed
qed

lemma str_trim_letter: "CHR ''w'' \<in> set s \<Longrightarrow> str_trim s \<noteq> []"
proof -
  assume "CHR ''w'' \<in> set s"
  moreover have no: "\<not> (\<exists>v \<in> set ws_codes. CHR ''w'' \<in> set v)" by code_simp
  ultimately have "CHR ''w'' \<in> set (str_trim s)"
    unfolding str_trim_def trim_end_def trim_start_def set_rev
    by (intro strip_codes_keeps) (auto intro: strip_codes_keeps)
  then show ?thesis by auto
qed

text \<open>The main worktree of a bare repository has no \<open>HEAD\<close> line: it is dropped with its \<open>bare\<close> mark, and
  the next worktree is taken for the main one.\<close>

lemma bare_worktree_is_not_listed:
  "parse_porcelain (concat (map (\<lambda>l. l @ [CHR 0x0A]) [''worktree /r'', ''bare'', [], ''worktree /w'', ''HEAD a1'', ''detached'', []])) =
    [\<lparr>wt_path = ''/w'', wt_branch = None, wt_head = ''a1'', wt_is_main = True\<rparr>]" (is "parse_porcelain (concat (map ?f ?ls)) = ?ws")
proof -
  have "str_split (CHR 0x0A) (concat (map ?f ?ls)) = ?ls @ [[]]" by (rule str_split_lines) (simp add: line_ok_def)
  moreover have "str_trim (concat (map ?f ?ls)) \<noteq> []" by (rule str_trim_letter) simp
  moreover have "(let (wts, current) = foldl list_line ([], partial_default) (?ls @ [[]]) in mark_main (flush_partial wts current)) = ?ws"
    by code_simp
  ultimately show ?thesis unfolding parse_porcelain_def by (simp only: if_False)
qed

text \<open>The listing reads worktrees that are neither bare, locked nor prunable back. From the lines above,
  for worktrees whose paths, heads and branches hold no line break, the parser returns exactly those
  worktrees, detached ones without a branch, the first one marked as the main worktree.\<close>

theorem porcelain_roundtrip:
  assumes "list_all worktree_ok ws"
  shows "parse_porcelain (porcelain ws) = mark_main ws"
proof (cases "ws = []")
  case True
  then show ?thesis 
    by (simp add: porcelain_def parse_porcelain_def mark_main_def list_line_eqs(5) flush_partial_def into_worktree_info_def partial_default_def)
next
  case False
  then have "CHR ''w'' \<in> set (porcelain ws)"
    by (cases ws) (simp_all add: porcelain_def porcelain_lines_def)
  then have "str_trim (porcelain ws) \<noteq> []" by (rule str_trim_letter)
  moreover have "str_split (CHR 0x0A) (porcelain ws) = concat (map porcelain_lines ws) @ [[]]"
    unfolding porcelain_def by (rule str_split_lines) (use assms porcelain_lines_ok in \<open>auto simp: list_all_iff\<close>)
  ultimately show ?thesis
    using list_lines_all [OF assms, of "[]"]
    by (simp add: parse_porcelain_def list_line_eqs(5)) (simp add: flush_partial_def into_worktree_info_def partial_default_def)
qed

theorem porcelain_roundtrip_witness:
  "parse_porcelain (porcelain [\<lparr>wt_path = ''/r'', wt_branch = Some ''main'', wt_head = ''a1'', wt_is_main = False\<rparr>,
      \<lparr>wt_path = ''/r-wt'', wt_branch = None, wt_head = ''b2'', wt_is_main = False\<rparr>]) =
    [\<lparr>wt_path = ''/r'', wt_branch = Some ''main'', wt_head = ''a1'', wt_is_main = True\<rparr>,
     \<lparr>wt_path = ''/r-wt'', wt_branch = None, wt_head = ''b2'', wt_is_main = False\<rparr>]"
  by (subst porcelain_roundtrip) (simp_all add: worktree_ok_def line_ok_def mark_main_def)

end
