(* ===== verification/Dispatcher.thy ===== *)
theory Dispatcher
  imports Export_Formatter Ipc_Server Push_Notifier Session_Manager Worktree
begin

text \<open>
  The command dispatcher of the daemon (\<open>tp-daemon/src/ipc/command_dispatcher.rs\<close>): the handlers of the IPC
  messages of runners and of the command line, and those of the control messages a frontend sends over
  the relay, on the store, the session manager, the IPC server and the push notifier.

  \<^item> A relay client is known by a number; what is asked of it (\<open>RelayLink\<close>) is recorded in order as a
    \<open>link_call\<close>. So are the calls of the local record observer, the pushes handed to the relay manager, the
    worktree operations and the pairing messages handed to the pairing runtime.
  \<^item> A spawned future is a \<open>task\<close>, the list of the steps it has left. A step is what runs between two
    \<open>await\<close>s: \<open>run_step\<close> runs it and gives the steps it puts before the rest of the task. One turn of the
    polling loop of \<open>wait_for_exit\<close> is a step that comes back while the child runs. Every control message
    runs in a task of its own.
  \<^item> \<open>denv\<close> is what a handler meets: the clock, the faults of SQLite, process spawning, the relay clients of
    the moment, their labels and confirmation tags, and the collaborators the dispatcher is given.
\<close>

section \<open>State\<close>

datatype link_call =
    PublishToPeer string string json
  | PublishRecord string u64 json
  | PublishState string json
  | PublishRemoved string json
  | SubscribeTo string
  | UnsubscribeFrom string

datatype task_step =
    Emit nat link_call
  | Unsubscribe_all string
  | Broadcast_state string
  | Broadcast_removed string
  | Relay_control nat json string
  | Hello_reply nat string "json list" "label option"
  | Pair_remove_reply nat string
  | Pair_rename_reply nat string label
  | Doctor_reply nat
  | Restart_wait "nat option" nat string string session_meta
  | Wt_wait worktree_manager nat string string bool "string list" "nat option" string "string list"
  | Wt_finish worktree_manager nat string string bool

record dispatcher =
  ds_store :: store
  ds_mgr :: session_manager
  ds_tokens :: notifier
  ds_ipc :: ipc_server
  ds_tasks :: "task_step list list"
  ds_calls :: "(nat \<times> link_call) list"
  ds_observed :: "(string \<times> record_kind \<times> u8 list \<times> string option) list"
  ds_pushes :: "sent_push list"
  ds_git :: git_calls
  ds_pair_calls :: "(nat \<times> ipc_message) list"

record denv =
  de_store :: store_env
  de_db :: "string option"
  de_now :: u64
  de_spawn :: spawn_env
  de_socket_path :: "string option"
  de_links :: "nat list"
  de_label :: "nat \<Rightarrow> label option"
  de_pct :: "nat \<Rightarrow> string \<Rightarrow> string option"
  de_json :: json_api
  de_from_slice :: "u8 list \<Rightarrow> json option"
  de_crypto :: crypto_api
  de_observer :: bool
  de_worktrees :: "worktree_manager option"
  de_git :: git_api
  de_relay_health :: "doctor_relay_status list"
  de_remove_pairing :: "string \<Rightarrow> dispatcher \<Rightarrow> (string + u64) \<times> dispatcher"
  de_rename_pairing :: "string \<Rightarrow> label \<Rightarrow> dispatcher \<Rightarrow> (string + u64) \<times> dispatcher"

section \<open>Helpers\<close>

definition RELAY_CHANNEL_META :: string where
  "RELAY_CHANNEL_META = ''__meta__''"

definition RELAY_CHANNEL_CONTROL :: string where
  "RELAY_CHANNEL_CONTROL = ''__control__''"

definition NO_REPO_MESSAGE :: string where
  "NO_REPO_MESSAGE = ''No repository configured for worktree management''"

definition json_int :: "int \<Rightarrow> json" where
  "json_int i = JNumber (if i < 0 then NegInt i else PosInt (word_of_int i))"

definition json_opt_string :: "string option \<Rightarrow> json" where
  "json_opt_string s = (case s of Some v \<Rightarrow> JString v | None \<Rightarrow> JNull)"

fun as_i64 :: "json \<Rightarrow> int option" where
  "as_i64 (JNumber (PosInt n)) = (if unat n < 2 ^ 63 then Some (int (unat n)) else None)"
| "as_i64 (JNumber (NegInt i)) = Some i"
| "as_i64 _ = None"

text \<open>\<open>f as i64\<close> and \<open>n as i64\<close>: the first saturates, the second wraps.\<close>

definition f64_as_i64 :: "f64 \<Rightarrow> int" where
  "f64_as_i64 f = max (- (2 ^ 63)) (min (f64_trunc f) (2 ^ 63 - 1))"

definition u64_as_i64 :: "u64 \<Rightarrow> int" where
  "u64_as_i64 n = (if unat n < 2 ^ 63 then int (unat n) else int (unat n) - 2 ^ 64)"

definition base36_digit :: "nat \<Rightarrow> char" where
  "base36_digit d = (if d < 10 then char_of (48 + d) else char_of (87 + d))"

fun base36_loop :: "nat \<Rightarrow> string" where
  "base36_loop n = (if n = 0 then [] else base36_loop (n div 36) @ [base36_digit (n mod 36)])"

declare base36_loop.simps [simp del]

definition to_base36 :: "u64 \<Rightarrow> string" where
  "to_base36 n = (if n = 0 then ''0'' else base36_loop (unat n))"

definition to_namespace :: "string option \<Rightarrow> string option" where
  "to_namespace v = (case v of
     Some n \<Rightarrow> if n \<in> set [''claude'', ''tp'', ''runner'', ''daemon''] then Some n else None
   | None \<Rightarrow> None)"

definition to_wire_session_meta :: "session_meta \<Rightarrow> json" where
  "to_wire_session_meta meta =
    JObject ([(''sid'', JString (sm_sid meta)),
      (''state'', JString (if sm_state meta \<in> set [''running'', ''stopped'', ''error''] then sm_state meta else ''error'')),
      (''cwd'', JString (sm_cwd meta)), (''createdAt'', json_int (sm_created_at meta)),
      (''updatedAt'', json_int (sm_updated_at meta)), (''lastSeq'', json_int (sm_last_seq meta))]
      @ opt_field ''worktreePath'' JString (sm_worktree_path meta)
      @ opt_field ''claudeVersion'' JString (sm_claude_version meta))"

definition worktree_info_json :: "worktree_info \<Rightarrow> json" where
  "worktree_info_json wt = JObject [(''path'', JString (wt_path wt)), (''branch'', json_opt_string (wt_branch wt)),
     (''head'', JString (wt_head wt)), (''isMain'', JBool (wt_is_main wt))]"

definition to_session_rec :: "crypto_api \<Rightarrow> string \<Rightarrow> stored_record \<Rightarrow> json" where
  "to_session_rec api sid r =
    JObject ([(''t'', JString ''rec''), (''sid'', JString sid), (''seq'', json_int (sr_seq r)), (''k'', JString (sr_kind r))]
      @ opt_field ''ns'' JString (to_namespace (sr_ns r)) @ opt_field ''n'' JString (sr_name r)
      @ [(''d'', JString (b64_std_enc api (sr_payload r))), (''ts'', json_int (sr_ts r))])"

definition stored_record_json :: "stored_record \<Rightarrow> json" where
  "stored_record_json r =
    JObject [(''seq'', json_int (sr_seq r)), (''kind'', JString (sr_kind r)), (''ts'', json_int (sr_ts r)),
      (''ns'', json_opt_string (sr_ns r)), (''name'', json_opt_string (sr_name r)),
      (''payload'', JObject (map (\<lambda>(i, b). (show_nat i, JNumber (PosInt (ucast b)))) (enumerate 0 (sr_payload r))))]"

fun store_error_message :: "store_error \<Rightarrow> string" where
  "store_error_message (Sqlite e) = e"
| "store_error_message (InvalidSid e) = e"
| "store_error_message (Io k) = (case k of IoNotFound \<Rightarrow> ''entity not found'' | IoBusy \<Rightarrow> ''resource busy''
     | IoPermissionDenied \<Rightarrow> ''permission denied'' | IoOther e \<Rightarrow> e)"

definition ok_flatten :: "store_error + 'a option \<Rightarrow> 'a option" where
  "ok_flatten r = (case r of Inr v \<Rightarrow> v | Inl _ \<Rightarrow> None)"

definition ok_or_nil :: "store_error + 'a list \<Rightarrow> 'a list" where
  "ok_or_nil r = (case r of Inr xs \<Rightarrow> xs | Inl _ \<Rightarrow> [])"

definition lookup_session :: "denv \<Rightarrow> string \<Rightarrow> dispatcher \<Rightarrow> session_meta option" where
  "lookup_session env sid ds = ok_flatten (get_session (de_store env) sid (ds_store ds))"

definition spawn_task :: "task_step list \<Rightarrow> dispatcher \<Rightarrow> dispatcher" where
  "spawn_task steps ds = ds\<lparr>ds_tasks := ds_tasks ds @ [steps]\<rparr>"

definition send_ipc :: "nat \<Rightarrow> ipc_message \<Rightarrow> dispatcher \<Rightarrow> dispatcher" where
  "send_ipc c msg ds = ds\<lparr>ds_ipc := snd (ipc_send c msg (ds_ipc ds))\<rparr>"

definition set_store :: "store \<Rightarrow> dispatcher \<Rightarrow> dispatcher" where
  "set_store st ds = ds\<lparr>ds_store := st\<rparr>"

definition update_mgr :: "(session_manager \<Rightarrow> session_manager) \<Rightarrow> dispatcher \<Rightarrow> dispatcher" where
  "update_mgr f ds = ds\<lparr>ds_mgr := f (ds_mgr ds)\<rparr>"

definition ds_create_session ::
  "denv \<Rightarrow> string \<Rightarrow> string \<Rightarrow> spawn_runner_options \<Rightarrow> dispatcher \<Rightarrow> (string + unit) \<times> dispatcher" where
  "ds_create_session env sid cwd opts ds =
    (let (r, mg) = spawn_runner (de_spawn env) sid cwd (opts\<lparr>so_socket_path := de_socket_path env\<rparr>) (ds_mgr ds)
     in (map_sum (\<lambda>e. e) (\<lambda>_. ()) r, ds\<lparr>ds_mgr := mg\<rparr>))"

section \<open>IPC handlers\<close>

definition ipc_handle_hello :: "denv \<Rightarrow> string \<Rightarrow> string \<Rightarrow> string option \<Rightarrow> string option \<Rightarrow> u64 \<Rightarrow> dispatcher \<Rightarrow> dispatcher" where
  "ipc_handle_hello env sid cwd worktree_path claude_version pid ds =
    (let (r, st) = create_session (de_store env) sid cwd worktree_path claude_version (ds_store ds);
         ds = set_store st ds
     in case r of
          Inl _ \<Rightarrow> ds
        | Inr _ \<Rightarrow>
            let pid32 = (if unat pid < 2 ^ 32 then word_of_nat (unat pid) else - 1);
                ds = update_mgr (register_runner (unat (de_now env)) sid pid32 cwd worktree_path claude_version) ds
            in spawn_task (map (\<lambda>l. Emit l (SubscribeTo sid)) (de_links env) @ [Broadcast_state sid]) ds)"

definition rec_payload_bytes :: "crypto_api \<Rightarrow> string \<Rightarrow> u8 list option \<Rightarrow> u8 list \<times> string" where
  "rec_payload_bytes api payload binary =
    (case binary of
       Some bytes \<Rightarrow> (bytes, b64_std_enc api bytes)
     | None \<Rightarrow> (case b64_std_dec api payload of Inr bs \<Rightarrow> bs | Inl _ \<Rightarrow> [], payload))"

definition rec_wire ::
  "string \<Rightarrow> int \<Rightarrow> record_kind \<Rightarrow> namespace option \<Rightarrow> string option \<Rightarrow> string \<Rightarrow> f64 \<Rightarrow> json" where
  "rec_wire sid seq kind ns name ws_payload ts =
    JObject ([(''t'', JString ''rec''), (''sid'', JString sid), (''seq'', json_int seq), (''k'', JString (record_kind_str kind))]
      @ opt_field ''ns'' (\<lambda>n. JString (namespace_str n)) ns @ opt_field ''n'' JString name
      @ [(''d'', JString ws_payload), (''ts'', json_f64 ts)])"

definition seq_u64 :: "int \<Rightarrow> u64" where
  "seq_u64 seq = (if seq < 0 then 0 else word_of_int seq)"

definition rec_push_payload :: "denv \<Rightarrow> record_kind \<Rightarrow> u8 list \<Rightarrow> json option" where
  "rec_push_payload env kind bytes =
    (if kind = KindEvent \<and> bytes \<noteq> [] then Option.bind (de_from_slice env bytes) (\<lambda>v. if as_object v = None then None else Some v)
     else None)"

definition handle_rec ::
  "denv \<Rightarrow> nat \<Rightarrow> string \<Rightarrow> record_kind \<Rightarrow> f64 \<Rightarrow> string \<Rightarrow> namespace option \<Rightarrow> string option \<Rightarrow> u8 list option
    \<Rightarrow> dispatcher \<Rightarrow> dispatcher" where
  "handle_rec env c sid kind ts payload ns name binary ds =
    (let (payload_bytes, ws_payload) = rec_payload_bytes (de_crypto env) payload binary;
         (r, st) = with_records (de_store env) sid
           (sdb_append (de_db env) (record_kind_str kind) (f64_as_i64 ts) payload_bytes (map_option namespace_str ns) name) (ds_store ds);
         ds = set_store st ds
     in case r of
          None \<Rightarrow> ds
        | Some (Inl _) \<Rightarrow> ds
        | Some (Inr seq) \<Rightarrow>
            let ds = set_store (snd (update_last_seq (de_store env) sid seq (ds_store ds))) ds;
                ds = send_ipc c (IpcAck sid (seq_u64 seq)) ds;
                wire = rec_wire sid seq kind ns name ws_payload ts;
                ds = spawn_task (map (\<lambda>l. Emit l (PublishRecord sid (seq_u64 seq) wire)) (de_links env)) ds;
                ds = (if de_observer env then ds\<lparr>ds_observed := ds_observed ds @ [(sid, kind, payload_bytes, name)]\<rparr> else ds)
            in ds\<lparr>ds_pushes := ds_pushes ds @ on_record (ds_tokens ds)
                 \<lparr>rec_sid = sid, rec_kind = kind, rec_name = name, rec_payload = rec_push_payload env kind payload_bytes\<rparr>\<rparr>)"

definition bye_state :: "bye_reason option \<Rightarrow> f64 \<Rightarrow> string" where
  "bye_state reason code = (if reason = Some ByeSignal \<or> f64_mant code = 0 then ''stopped'' else ''error'')"

definition handle_bye :: "denv \<Rightarrow> string \<Rightarrow> f64 \<Rightarrow> u64 option \<Rightarrow> bye_reason option \<Rightarrow> dispatcher \<Rightarrow> dispatcher" where
  "handle_bye env sid code pid reason ds =
    (if (case (pid, get_runner sid (ds_mgr ds)) of (Some p, Some current) \<Rightarrow> unat (ri_pid current) \<noteq> unat p | _ \<Rightarrow> False) then ds
     else
       let ds = set_store (snd (update_session_state (de_store env) sid (bye_state reason code) (ds_store ds))) ds;
           ds = update_mgr (unregister_runner sid) ds
       in spawn_task [Broadcast_state sid] ds)"

definition stop_runner :: "string \<Rightarrow> dispatcher \<Rightarrow> dispatcher" where
  "stop_runner sid ds = update_mgr (\<lambda>mg. unregister_runner sid (snd (kill_runner sid mg))) ds"

definition handle_session_delete :: "denv \<Rightarrow> nat \<Rightarrow> string \<Rightarrow> dispatcher \<Rightarrow> dispatcher" where
  "handle_session_delete env c sid ds =
    (case lookup_session env sid ds of
       None \<Rightarrow> send_ipc c (IpcSessionDeleteErr sid DeleteErrNotFound None) ds
     | Some meta \<Rightarrow>
         let was_running = sm_state meta = ''running'';
             ds = (if was_running then stop_runner sid ds else ds);
             (r, st) = delete_session (de_store env) sid (ds_store ds);
             ds = set_store st ds
         in case r of
              Inl e \<Rightarrow> send_ipc c (IpcSessionDeleteErr sid DeleteErrInternal (Some (store_error_message e))) ds
            | Inr _ \<Rightarrow>
                send_ipc c (IpcSessionDeleteOk sid was_running)
                  (spawn_task (Broadcast_removed sid # map (\<lambda>l. Emit l (UnsubscribeFrom sid)) (de_links env)) ds))"

definition prune_candidate :: "int option \<Rightarrow> bool \<Rightarrow> session_meta \<Rightarrow> bool" where
  "prune_candidate cutoff include_running s \<longleftrightarrow>
    \<not> (sm_state s = ''running'' \<and> \<not> include_running) \<and> (case cutoff of None \<Rightarrow> True | Some limit \<Rightarrow> sm_updated_at s < limit)"

fun prune_sessions ::
  "denv \<Rightarrow> nat \<Rightarrow> session_meta list \<Rightarrow> string list \<Rightarrow> u64 \<Rightarrow> dispatcher \<Rightarrow> dispatcher" where
  "prune_sessions env c [] deleted killed ds = send_ipc c (IpcSessionPruneOk deleted killed False) ds"
| "prune_sessions env c (s # ss) deleted killed ds =
    (let sid = sm_sid s;
         (ds, killed) = (if sm_state s = ''running'' then (stop_runner sid ds, killed + 1) else (ds, killed));
         (r, st) = delete_session (de_store env) sid (ds_store ds);
         ds = set_store st ds
     in case r of
          Inl e \<Rightarrow> send_ipc c (IpcSessionPruneErr PruneErrInternal (Some (store_error_message e)) deleted killed) ds
        | Inr _ \<Rightarrow>
            prune_sessions env c ss (deleted @ [sid]) killed
              (spawn_task (Broadcast_removed sid # map (\<lambda>l. Emit l (UnsubscribeFrom sid)) (de_links env)) ds))"

definition handle_session_prune :: "denv \<Rightarrow> nat \<Rightarrow> age_filter \<Rightarrow> bool \<Rightarrow> bool \<Rightarrow> dispatcher \<Rightarrow> dispatcher" where
  "handle_session_prune env c age include_running dry_run ds =
    (let cutoff = (case age of OlderThan ms \<Rightarrow> Some (u64_as_i64 (saturating_sub (de_now env) ms)) | AgeAll \<Rightarrow> None);
         candidates = filter (prune_candidate cutoff include_running) (ok_or_nil (list_sessions (de_store env) (ds_store ds)))
     in if dry_run then send_ipc c (IpcSessionPruneOk (map sm_sid candidates) 0 True) ds
        else prune_sessions env c candidates [] 0 ds)"

definition guard_pairing_exists :: "denv \<Rightarrow> string \<Rightarrow> dispatcher \<Rightarrow> bool" where
  "guard_pairing_exists env daemon_id ds \<longleftrightarrow>
    (\<exists>p \<in> set (ok_or_nil (list_pairings (de_store env) (ds_store ds))). psm_daemon_id p = daemon_id)"

definition handle_pair_remove :: "denv \<Rightarrow> nat \<Rightarrow> string \<Rightarrow> dispatcher \<Rightarrow> dispatcher" where
  "handle_pair_remove env c daemon_id ds =
    (if \<not> guard_pairing_exists env daemon_id ds then send_ipc c (IpcPairRemoveErr daemon_id RemoveErrNotFound None) ds
     else spawn_task [Pair_remove_reply c daemon_id] ds)"

definition handle_pair_rename :: "denv \<Rightarrow> nat \<Rightarrow> string \<Rightarrow> label \<Rightarrow> dispatcher \<Rightarrow> dispatcher" where
  "handle_pair_rename env c daemon_id label ds =
    (if \<not> guard_pairing_exists env daemon_id ds then send_ipc c (IpcPairRenameErr daemon_id RenameErrNotFound None) ds
     else spawn_task [Pair_rename_reply c daemon_id label] ds)"

definition handle_doctor_probe :: "nat \<Rightarrow> dispatcher \<Rightarrow> dispatcher" where
  "handle_doctor_probe c ds = spawn_task [Doctor_reply c] ds"

definition forward_to_runner :: "string \<Rightarrow> ipc_message \<Rightarrow> dispatcher \<Rightarrow> dispatcher" where
  "forward_to_runner sid msg ds =
    (case find_runner_by_sid sid (ds_ipc ds) of Some target \<Rightarrow> send_ipc target msg ds | None \<Rightarrow> ds)"

definition dispatch_ipc :: "denv \<Rightarrow> nat \<Rightarrow> ipc_message \<Rightarrow> u8 list option \<Rightarrow> dispatcher \<Rightarrow> dispatcher" where
  "dispatch_ipc env c msg binary ds =
    (case msg of
       IpcPairBegin _ _ _ \<Rightarrow> ds\<lparr>ds_pair_calls := ds_pair_calls ds @ [(c, msg)]\<rparr>
     | IpcPairCancel _ \<Rightarrow> ds\<lparr>ds_pair_calls := ds_pair_calls ds @ [(c, msg)]\<rparr>
     | IpcPairRemove daemon_id \<Rightarrow> handle_pair_remove env c daemon_id ds
     | IpcPairRename daemon_id label \<Rightarrow> handle_pair_rename env c daemon_id label ds
     | IpcSessionDelete sid \<Rightarrow> handle_session_delete env c sid ds
     | IpcSessionPrune age include_running dry_run \<Rightarrow> handle_session_prune env c age include_running dry_run ds
     | IpcDoctorProbe \<Rightarrow> handle_doctor_probe c ds
     | IpcHello sid cwd pid worktree_path claude_version \<Rightarrow> ipc_handle_hello env sid cwd worktree_path claude_version pid ds
     | IpcRec sid kind ts payload ns name \<Rightarrow> handle_rec env c sid kind ts payload ns name binary ds
     | IpcBye sid code pid reason \<Rightarrow> handle_bye env sid code pid reason ds
     | IpcInput sid _ \<Rightarrow> forward_to_runner sid msg ds
     | IpcResize sid _ _ \<Rightarrow> forward_to_runner sid msg ds
     | _ \<Rightarrow> ds)"

end
