(* ===== verification/Relay_Control.thy ===== *)
theory Relay_Control
  imports Dispatcher
begin

text \<open>
  The control messages a frontend sends over the relay and the tasks of the command dispatcher
  (\<open>tp-daemon/src/ipc/command_dispatcher.rs\<close>, \<open>dispatch_relay_control\<close> and below). A handler gives the
  steps its task has left after the part that runs before its first \<open>await\<close>.
\<close>

section \<open>Relay control handlers\<close>

definition msg_str :: "json \<Rightarrow> string \<Rightarrow> string option" where
  "msg_str msg key = Option.bind (json_get msg key) as_str"

definition sid_of :: "json \<Rightarrow> string" where
  "sid_of msg = (case msg_str msg ''sid'' of Some s \<Rightarrow> s | None \<Rightarrow> [])"

definition reply :: "nat \<Rightarrow> string \<Rightarrow> string \<Rightarrow> json \<Rightarrow> task_step" where
  "reply relay frontend_id sid msg = Emit relay (PublishToPeer frontend_id sid msg)"

definition error_msg :: "string \<Rightarrow> string \<Rightarrow> json" where
  "error_msg e m = JObject [(''t'', JString ''err''), (''e'', JString e), (''m'', JString m)]"

definition reply_error :: "nat \<Rightarrow> string \<Rightarrow> string \<Rightarrow> string \<Rightarrow> string \<Rightarrow> task_step" where
  "reply_error relay frontend_id sid e m = reply relay frontend_id sid (error_msg e m)"

definition not_found :: "string \<Rightarrow> string" where
  "not_found sid = ''Session '' @ sid @ '' not found''"

definition no_runner :: "string \<Rightarrow> string" where
  "no_runner sid = ''No runner for session '' @ sid"

definition or_message :: "string \<Rightarrow> string \<Rightarrow> string" where
  "or_message message fallback = (if message = [] then fallback else message)"

definition relay_hello :: "denv \<Rightarrow> nat \<Rightarrow> string \<Rightarrow> dispatcher \<Rightarrow> task_step list \<times> dispatcher" where
  "relay_hello env relay frontend_id ds =
    ([Hello_reply relay frontend_id
        (map to_wire_session_meta (ok_or_nil (list_sessions (de_store env) (ds_store ds)))) (de_label env relay)], ds)"

definition hello_msg :: "json list \<Rightarrow> label option \<Rightarrow> string option \<Rightarrow> json" where
  "hello_msg sessions daemon_label pct =
    JObject [(''t'', JString ''hello''), (''v'', JNumber (PosInt 1)),
      (''d'', JObject ([(''sessions'', JArray sessions)] @ opt_field ''daemonLabel'' label_to_json daemon_label
         @ opt_field ''pct'' JString pct))]"

definition state_msg :: "string \<Rightarrow> session_meta \<Rightarrow> json" where
  "state_msg sid meta = JObject [(''t'', JString ''state''), (''sid'', JString sid), (''d'', to_wire_session_meta meta)]"

definition relay_attach :: "denv \<Rightarrow> nat \<Rightarrow> string \<Rightarrow> string \<Rightarrow> dispatcher \<Rightarrow> task_step list \<times> dispatcher" where
  "relay_attach env relay frontend_id sid ds =
    (case lookup_session env sid ds of
       Some meta \<Rightarrow> ([reply relay frontend_id sid (state_msg sid meta)], ds)
     | None \<Rightarrow> ([reply_error relay frontend_id sid ''NOT_FOUND'' (not_found sid)], ds))"

definition handle_relay_resume ::
  "denv \<Rightarrow> nat \<Rightarrow> string \<Rightarrow> string \<Rightarrow> int \<Rightarrow> dispatcher \<Rightarrow> task_step list \<times> dispatcher" where
  "handle_relay_resume env relay frontend_id sid cursor ds =
    (let (records, st) = with_records (de_store env) sid
           (\<lambda>t. (case get_records_from (de_db env) cursor 1000 t of Inr rs \<Rightarrow> rs | Inl _ \<Rightarrow> [], t)) (ds_store ds);
         ds = set_store st ds
     in case records of
          None \<Rightarrow> ([reply_error relay frontend_id sid ''NOT_FOUND'' (not_found sid)], ds)
        | Some records \<Rightarrow>
            ([reply relay frontend_id sid (JObject [(''t'', JString ''batch''), (''sid'', JString sid),
                (''d'', JArray (map (to_session_rec (de_crypto env) sid) records))])], ds))"

definition relay_resize :: "nat \<Rightarrow> string \<Rightarrow> json \<Rightarrow> dispatcher \<Rightarrow> task_step list \<times> dispatcher" where
  "relay_resize relay frontend_id msg ds =
    (let sid = sid_of msg;
         dim = (\<lambda>k. case Option.bind (json_get msg k) as_u64 of Some n \<Rightarrow> n | None \<Rightarrow> 0)
     in case find_runner_by_sid sid (ds_ipc ds) of
          Some target \<Rightarrow> ([], send_ipc target (IpcResize sid (dim ''cols'') (dim ''rows'')) ds)
        | None \<Rightarrow> ([reply_error relay frontend_id sid ''NO_RUNNER'' (no_runner sid)], ds))"

definition opt_u32 :: "json \<Rightarrow> string \<Rightarrow> u32 option" where
  "opt_u32 msg k = Option.bind (Option.bind (json_get msg k) as_u64) (\<lambda>n. if unat n < 2 ^ 32 then Some (word_of_nat (unat n)) else None)"

definition relay_session_create :: "denv \<Rightarrow> nat \<Rightarrow> string \<Rightarrow> json \<Rightarrow> dispatcher \<Rightarrow> task_step list \<times> dispatcher" where
  "relay_session_create env relay frontend_id msg ds =
    (let sid = (case msg_str msg ''sid'' of Some s \<Rightarrow> s | None \<Rightarrow> ''session-'' @ to_base36 (de_now env));
         cwd = (case msg_str msg ''cwd'' of Some s \<Rightarrow> s | None \<Rightarrow> []);
         (r, ds) = (case assert_safe_sid sid of
              Inl e \<Rightarrow> (Inl e, ds)
            | Inr _ \<Rightarrow> ds_create_session env sid cwd (default_options\<lparr>so_cols := opt_u32 msg ''cols'', so_rows := opt_u32 msg ''rows''\<rparr>) ds)
     in case r of
          Inr _ \<Rightarrow> (map (\<lambda>l. Emit l (SubscribeTo sid)) (de_links env)
              @ [reply relay frontend_id sid (JObject [(''t'', JString ''session.create.ok''), (''sid'', JString sid)])], ds)
        | Inl message \<Rightarrow>
            ([reply_error relay frontend_id sid ''SESSION_ERROR'' (or_message message ''Failed to create session'')], ds))"

definition relay_session_stop :: "nat \<Rightarrow> string \<Rightarrow> string \<Rightarrow> dispatcher \<Rightarrow> task_step list \<times> dispatcher" where
  "relay_session_stop relay frontend_id sid ds =
    (let (killed, mg) = kill_runner sid (ds_mgr ds);
         ds = ds\<lparr>ds_mgr := mg\<rparr>
     in if killed then ([], ds) else ([reply_error relay frontend_id sid ''NO_RUNNER'' (no_runner sid)], ds))"

definition restart_finish ::
  "denv \<Rightarrow> nat \<Rightarrow> string \<Rightarrow> string \<Rightarrow> session_meta \<Rightarrow> dispatcher \<Rightarrow> task_step list \<times> dispatcher" where
  "restart_finish env relay frontend_id sid session ds =
    (let ds = update_mgr (unregister_runner sid) ds;
         (r, ds) = ds_create_session env sid (sm_cwd session) (default_options\<lparr>so_worktree_path := sm_worktree_path session\<rparr>) ds
     in case r of
          Inr _ \<Rightarrow> ([], ds)
        | Inl message \<Rightarrow>
            ([reply_error relay frontend_id sid ''SESSION_ERROR'' (or_message message ''Failed to restart session'')], ds))"

definition restart_wait ::
  "denv \<Rightarrow> nat option \<Rightarrow> nat \<Rightarrow> string \<Rightarrow> string \<Rightarrow> session_meta \<Rightarrow> dispatcher \<Rightarrow> task_step list \<times> dispatcher" where
  "restart_wait env process relay frontend_id sid session ds =
    (case wait_for_exit process (ds_mgr ds) of
       None \<Rightarrow> ([Restart_wait process relay frontend_id sid session], ds)
     | Some mg \<Rightarrow> restart_finish env relay frontend_id sid session (ds\<lparr>ds_mgr := mg\<rparr>))"

definition unmanaged_message :: "string \<Rightarrow> string" where
  "unmanaged_message sid = ''Cannot restart session '' @ sid @ '': it is not managed by this daemon ''
     @ ''(passthrough/registered-only) and cannot be safely killed before respawning.''"

definition handle_relay_session_restart :: "denv \<Rightarrow> nat \<Rightarrow> string \<Rightarrow> string \<Rightarrow> dispatcher \<Rightarrow> task_step list \<times> dispatcher" where
  "handle_relay_session_restart env relay frontend_id sid ds =
    (case lookup_session env sid ds of
       None \<Rightarrow> ([reply_error relay frontend_id sid ''NOT_FOUND'' (not_found sid)], ds)
     | Some session \<Rightarrow>
         (if (case get_runner sid (ds_mgr ds) of Some info \<Rightarrow> ri_process info = None | None \<Rightarrow> False)
          then ([reply_error relay frontend_id sid ''SESSION_ERROR'' (unmanaged_message sid)], ds)
          else
            let ds = update_mgr (\<lambda>mg. snd (kill_runner sid mg)) ds
            in restart_wait env (tracked_process sid (ds_mgr ds)) relay frontend_id sid session ds))"

definition delete_err :: "string \<Rightarrow> string \<Rightarrow> string option \<Rightarrow> json" where
  "delete_err sid reason message = JObject ([(''t'', JString ''session.delete.err''), (''sid'', JString sid),
     (''reason'', JString reason)] @ opt_field ''message'' JString message)"

definition relay_session_delete :: "denv \<Rightarrow> nat \<Rightarrow> string \<Rightarrow> string \<Rightarrow> dispatcher \<Rightarrow> task_step list \<times> dispatcher" where
  "relay_session_delete env relay frontend_id sid ds =
    (case lookup_session env sid ds of
       None \<Rightarrow> ([reply relay frontend_id sid (delete_err sid ''not-found'' None)], ds)
     | Some meta \<Rightarrow>
         let was_running = sm_state meta = ''running'';
             ds = (if was_running then stop_runner sid ds else ds);
             (r, st) = delete_session (de_store env) sid (ds_store ds);
             ds = set_store st ds
         in case r of
              Inl e \<Rightarrow> ([reply relay frontend_id sid (delete_err sid ''internal'' (Some (store_error_message e)))], ds)
            | Inr _ \<Rightarrow> ([Broadcast_removed sid, Unsubscribe_all sid,
                reply relay frontend_id sid (JObject [(''t'', JString ''session.delete.ok''), (''sid'', JString sid),
                  (''wasRunning'', JBool was_running)])], ds))"

definition export_limit :: "int option \<Rightarrow> int" where
  "export_limit limit = min (case limit of Some l \<Rightarrow> l | None \<Rightarrow> 50000) 50000"

definition export_filter :: "json \<Rightarrow> records_filter" where
  "export_filter msg =
    (let range = (\<lambda>k. Option.bind (Option.bind (json_get msg ''timeRange'') (\<lambda>tr. json_get tr k)) as_i64)
     in \<lparr>rf_kinds = map_option (List.map_filter as_str) (Option.bind (json_get msg ''recordTypes'') as_array),
         rf_from = range ''from'', rf_to = range ''to'',
         rf_limit = Some (export_limit (Option.bind (json_get msg ''limit'') as_i64) + 1)\<rparr>)"

definition export_truncated :: "json \<Rightarrow> stored_record list \<Rightarrow> bool" where
  "export_truncated msg fetched \<longleftrightarrow> int (length fetched) > export_limit (Option.bind (json_get msg ''limit'') as_i64)"

definition exported_msg :: "json_api \<Rightarrow> string \<Rightarrow> json \<Rightarrow> session_meta \<Rightarrow> stored_record list \<Rightarrow> json" where
  "exported_msg ja sid msg session fetched =
    (let format = (case msg_str msg ''format'' of Some f \<Rightarrow> f | None \<Rightarrow> ''markdown'');
         truncated = export_truncated msg fetched;
         limit = export_limit (Option.bind (json_get msg ''limit'') as_i64);
         records = (if truncated then take (nat limit) fetched else fetched);
         exported = (\<lambda>fmt d. JObject [(''t'', JString ''session.exported''), (''sid'', JString sid),
            (''format'', JString fmt), (''d'', JString d)])
     in if format = ''json''
        then exported ''json'' (ja_to_string ja (JObject [(''meta'', to_wire_session_meta session),
               (''records'', JArray (map stored_record_json records)), (''truncated'', JBool truncated)]))
        else exported ''markdown'' (format_markdown ja \<lparr>em_sid = sm_sid session, em_cwd = sm_cwd session,
               em_state = sm_state session, em_created_at_ms = sm_created_at session\<rparr> records truncated))"

definition export_session :: "denv \<Rightarrow> nat \<Rightarrow> string \<Rightarrow> json \<Rightarrow> dispatcher \<Rightarrow> task_step list \<times> dispatcher" where
  "export_session env relay frontend_id msg ds =
    (let sid = sid_of msg
     in case lookup_session env sid ds of
          None \<Rightarrow> ([reply_error relay frontend_id sid ''NOT_FOUND'' (not_found sid)], ds)
        | Some session \<Rightarrow>
            let (fetched, st) = with_records (de_store env) sid
                  (\<lambda>t. (case get_records_filtered (de_db env) (export_filter msg) t of Inr rs \<Rightarrow> rs | Inl _ \<Rightarrow> [], t)) (ds_store ds);
                ds = set_store st ds
            in (case fetched of
                  None \<Rightarrow> ([reply_error relay frontend_id sid ''NOT_FOUND'' (''Session DB for '' @ sid @ '' not found'')], ds)
                | Some fetched \<Rightarrow> ([reply relay frontend_id sid (exported_msg (de_json env) sid msg session fetched)], ds)))"

definition handle_relay_session_export :: "denv \<Rightarrow> nat \<Rightarrow> string \<Rightarrow> json \<Rightarrow> dispatcher \<Rightarrow> task_step list \<times> dispatcher" where
  "handle_relay_session_export env relay frontend_id msg ds =
    (let sid = sid_of msg;
         limit = Option.bind (json_get msg ''limit'') as_i64
     in case limit of
          Some l \<Rightarrow> if l \<le> 0
            then ([reply_error relay frontend_id sid ''BAD_REQUEST'' (''limit must be a positive integer, got '' @ show_int l)], ds)
            else export_session env relay frontend_id msg ds
        | None \<Rightarrow> export_session env relay frontend_id msg ds)"

definition wt_error :: "nat \<Rightarrow> string \<Rightarrow> string \<Rightarrow> string \<Rightarrow> task_step" where
  "wt_error relay frontend_id message fallback =
    reply relay frontend_id RELAY_CHANNEL_CONTROL (error_msg ''WORKTREE_ERROR'' (or_message message fallback))"

definition with_worktree_manager ::
  "denv \<Rightarrow> nat \<Rightarrow> string \<Rightarrow> (worktree_manager \<Rightarrow> dispatcher \<Rightarrow> task_step list \<times> dispatcher) \<Rightarrow> dispatcher
    \<Rightarrow> task_step list \<times> dispatcher" where
  "with_worktree_manager env relay frontend_id run ds =
    (case de_worktrees env of
       None \<Rightarrow> ([reply relay frontend_id RELAY_CHANNEL_CONTROL (error_msg ''NO_REPO'' NO_REPO_MESSAGE)], ds)
     | Some wm \<Rightarrow> run wm ds)"

definition git_step :: "git_calls \<times> (string + 'a) \<Rightarrow> dispatcher \<Rightarrow> (string + 'a) \<times> dispatcher" where
  "git_step r ds = (snd r, ds\<lparr>ds_git := ds_git ds @ fst r\<rparr>)"

definition worktree_list_run :: "denv \<Rightarrow> nat \<Rightarrow> string \<Rightarrow> worktree_manager \<Rightarrow> dispatcher \<Rightarrow> task_step list \<times> dispatcher" where
  "worktree_list_run env relay frontend_id wm ds =
    ([reply relay frontend_id RELAY_CHANNEL_CONTROL
        (JObject [(''t'', JString ''worktree.list''), (''d'', JArray (map worktree_info_json (worktree_list (de_git env) wm)))])], ds)"

definition worktree_create_run ::
  "denv \<Rightarrow> nat \<Rightarrow> string \<Rightarrow> string \<Rightarrow> string option \<Rightarrow> string option \<Rightarrow> worktree_manager \<Rightarrow> dispatcher
    \<Rightarrow> task_step list \<times> dispatcher" where
  "worktree_create_run env relay frontend_id branch base_branch path wm ds =
    (let sid = sanitize_for_sid branch @ ''-'' @ to_base36 (de_now env);
         (r, ds) = git_step (worktree_add (de_git env) wm (case path of Some p \<Rightarrow> p | None \<Rightarrow> sid) branch base_branch) ds
     in case r of
          Inl e \<Rightarrow> ([wt_error relay frontend_id e ''Failed to create worktree''], ds)
        | Inr wt \<Rightarrow>
            let (created, ds) = ds_create_session env sid (wt_path wt) (default_options\<lparr>so_worktree_path := Some (wt_path wt)\<rparr>) ds
            in (case created of
                  Inl create_err \<Rightarrow>
                    ([wt_error relay frontend_id create_err ''Failed to create worktree''],
                     snd (git_step (worktree_remove (de_git env) wm (wt_path wt) True) ds))
                | Inr _ \<Rightarrow>
                    (map (\<lambda>l. Emit l (SubscribeTo sid)) (de_links env)
                     @ [reply relay frontend_id RELAY_CHANNEL_CONTROL
                          (JObject [(''t'', JString ''worktree.created''), (''d'', worktree_info_json wt), (''sid'', JString sid)])], ds)))"

text \<open>The path a runner works in: the live map first, then the stored row.\<close>

definition runner_worktree :: "denv \<Rightarrow> dispatcher \<Rightarrow> runner_info \<Rightarrow> string option" where
  "runner_worktree env ds info =
    (case ri_worktree_path info of
       Some p \<Rightarrow> Some p
     | None \<Rightarrow> Option.bind (lookup_session env (ri_sid info) ds) sm_worktree_path)"

definition blockers :: "denv \<Rightarrow> worktree_manager \<Rightarrow> string \<Rightarrow> dispatcher \<Rightarrow> (string \<times> bool) list" where
  "blockers env wm path ds =
    (let target = wm_canonicalize (de_git env) wm path
     in List.map_filter (\<lambda>info. case runner_worktree env ds info of
          None \<Rightarrow> None
        | Some p \<Rightarrow> if wm_canonicalize (de_git env) wm p = target then Some (ri_sid info, ri_process info \<noteq> None) else None)
        (list_runners (ds_mgr ds)))"

definition wt_finish :: "denv \<Rightarrow> worktree_manager \<Rightarrow> nat \<Rightarrow> string \<Rightarrow> string \<Rightarrow> bool \<Rightarrow> dispatcher \<Rightarrow> task_step list \<times> dispatcher" where
  "wt_finish env wm relay frontend_id path force ds =
    (let (r, ds) = git_step (worktree_remove (de_git env) wm path force) ds
     in case r of
          Inl e \<Rightarrow> ([wt_error relay frontend_id e ''Failed to remove worktree''], ds)
        | Inr _ \<Rightarrow> ([reply relay frontend_id RELAY_CHANNEL_CONTROL
            (JObject [(''t'', JString ''worktree.removed''), (''path'', JString path)])], ds))"

definition wt_stopped :: "denv \<Rightarrow> string \<Rightarrow> dispatcher \<Rightarrow> dispatcher" where
  "wt_stopped env sid ds =
    (let ds = update_mgr (unregister_runner sid) ds
     in set_store (snd (update_session_state (de_store env) sid ''stopped'' (ds_store ds))) ds)"

fun wt_kill ::
  "denv \<Rightarrow> worktree_manager \<Rightarrow> nat \<Rightarrow> string \<Rightarrow> string \<Rightarrow> bool \<Rightarrow> string list \<Rightarrow> string list \<Rightarrow> dispatcher
    \<Rightarrow> task_step list \<times> dispatcher" where
  "wt_kill env wm relay frontend_id path force all [] ds =
    (concat (map (\<lambda>l. map (\<lambda>sid. Emit l (UnsubscribeFrom sid)) all) (de_links env))
     @ [Wt_finish wm relay frontend_id path force], ds)"
| "wt_kill env wm relay frontend_id path force all (sid # sids) ds =
    (let ds = update_mgr (\<lambda>mg. snd (kill_runner sid mg)) ds;
         process = tracked_process sid (ds_mgr ds)
     in case wait_for_exit process (ds_mgr ds) of
          None \<Rightarrow> ([Wt_wait wm relay frontend_id path force all process sid sids], ds)
        | Some mg \<Rightarrow> wt_kill env wm relay frontend_id path force all sids (wt_stopped env sid (ds\<lparr>ds_mgr := mg\<rparr>)))"

definition wt_wait ::
  "denv \<Rightarrow> worktree_manager \<Rightarrow> nat \<Rightarrow> string \<Rightarrow> string \<Rightarrow> bool \<Rightarrow> string list \<Rightarrow> nat option \<Rightarrow> string \<Rightarrow> string list \<Rightarrow> dispatcher
    \<Rightarrow> task_step list \<times> dispatcher" where
  "wt_wait env wm relay frontend_id path force all process sid sids ds =
    (case wait_for_exit process (ds_mgr ds) of
       None \<Rightarrow> ([Wt_wait wm relay frontend_id path force all process sid sids], ds)
     | Some mg \<Rightarrow> wt_kill env wm relay frontend_id path force all sids (wt_stopped env sid (ds\<lparr>ds_mgr := mg\<rparr>)))"

definition sid_list :: "string list \<Rightarrow> string" where
  "sid_list sids = join '', '' sids"

definition worktree_remove_run ::
  "denv \<Rightarrow> nat \<Rightarrow> string \<Rightarrow> string \<Rightarrow> bool \<Rightarrow> worktree_manager \<Rightarrow> dispatcher \<Rightarrow> task_step list \<times> dispatcher" where
  "worktree_remove_run env relay frontend_id path force wm ds =
    (let bs = blockers env wm path ds;
         unkillable = filter (\<lambda>b. \<not> snd b) bs
     in if bs = [] then wt_finish env wm relay frontend_id path force ds
        else if \<not> force then
          ([wt_error relay frontend_id (''Cannot remove worktree: '' @ show_nat (length bs) @ '' running session(s) (''
              @ sid_list (map fst bs) @ ''). Use force to kill and remove.'') ''Failed to remove worktree''], ds)
        else if unkillable \<noteq> [] then
          ([wt_error relay frontend_id (''Cannot force-remove worktree: session(s) ('' @ sid_list (map fst unkillable)
              @ '') are not managed by this daemon and cannot be killed.'') ''Failed to remove worktree''], ds)
        else wt_kill env wm relay frontend_id path force (map fst bs) (map fst bs) ds)"

definition dispatch_relay_control :: "denv \<Rightarrow> nat \<Rightarrow> json \<Rightarrow> string \<Rightarrow> dispatcher \<Rightarrow> task_step list \<times> dispatcher" where
  "dispatch_relay_control env relay msg frontend_id ds =
    (let t = (case msg_str msg ''t'' of Some s \<Rightarrow> s | None \<Rightarrow> []);
         sid = sid_of msg
     in if t = ''hello'' then relay_hello env relay frontend_id ds
        else if t = ''attach'' then relay_attach env relay frontend_id sid ds
        else if t = ''resume'' then
          handle_relay_resume env relay frontend_id sid
            (case Option.bind (json_get msg ''c'') as_i64 of Some c \<Rightarrow> c | None \<Rightarrow> 0) ds
        else if t = ''resize'' then relay_resize relay frontend_id msg ds
        else if t = ''ping'' then ([reply relay frontend_id RELAY_CHANNEL_CONTROL (JObject [(''t'', JString ''pong'')])], ds)
        else if t = ''session.create'' then relay_session_create env relay frontend_id msg ds
        else if t = ''session.stop'' then relay_session_stop relay frontend_id sid ds
        else if t = ''session.restart'' then handle_relay_session_restart env relay frontend_id sid ds
        else if t = ''session.delete'' then relay_session_delete env relay frontend_id sid ds
        else if t = ''session.export'' then handle_relay_session_export env relay frontend_id msg ds
        else if t = ''worktree.list'' then with_worktree_manager env relay frontend_id (worktree_list_run env relay frontend_id) ds
        else if t = ''worktree.create'' then
          with_worktree_manager env relay frontend_id
            (worktree_create_run env relay frontend_id (case msg_str msg ''branch'' of Some b \<Rightarrow> b | None \<Rightarrow> [])
               (msg_str msg ''baseBranch'') (msg_str msg ''path'')) ds
        else if t = ''worktree.remove'' then
          with_worktree_manager env relay frontend_id
            (worktree_remove_run env relay frontend_id (case msg_str msg ''path'' of Some p \<Rightarrow> p | None \<Rightarrow> [])
               (case Option.bind (json_get msg ''force'') as_bool of Some b \<Rightarrow> b | None \<Rightarrow> False)) ds
        else ([], ds))"

section \<open>Tasks\<close>

definition broadcast_session_state :: "denv \<Rightarrow> string \<Rightarrow> dispatcher \<Rightarrow> task_step list" where
  "broadcast_session_state env sid ds =
    (case lookup_session env sid ds of
       None \<Rightarrow> []
     | Some meta \<Rightarrow> map (\<lambda>l. Emit l (PublishState RELAY_CHANNEL_META (state_msg sid meta))) (de_links env))"

definition broadcast_session_removed :: "denv \<Rightarrow> string \<Rightarrow> task_step list" where
  "broadcast_session_removed env sid =
    map (\<lambda>l. Emit l (PublishRemoved sid (JObject [(''t'', JString ''session.removed''), (''sid'', JString sid)]))) (de_links env)"

definition pair_remove_reply :: "string \<Rightarrow> string + u64 \<Rightarrow> ipc_message" where
  "pair_remove_reply daemon_id r = (case r of
     Inr notified \<Rightarrow> IpcPairRemoveOk daemon_id notified
   | Inl e \<Rightarrow> IpcPairRemoveErr daemon_id RemoveErrInternal (Some e))"

definition pair_rename_reply :: "string \<Rightarrow> label \<Rightarrow> string + u64 \<Rightarrow> ipc_message" where
  "pair_rename_reply daemon_id label r = (case r of
     Inr notified \<Rightarrow> IpcPairRenameOk daemon_id label notified
   | Inl e \<Rightarrow> IpcPairRenameErr daemon_id RenameErrInternal (Some e))"

fun run_step :: "denv \<Rightarrow> task_step \<Rightarrow> dispatcher \<Rightarrow> task_step list \<times> dispatcher" where
  "run_step env (Emit l call) ds = ([], ds\<lparr>ds_calls := ds_calls ds @ [(l, call)]\<rparr>)"
| "run_step env (Unsubscribe_all sid) ds = (map (\<lambda>l. Emit l (UnsubscribeFrom sid)) (de_links env), ds)"
| "run_step env (Broadcast_state sid) ds = (broadcast_session_state env sid ds, ds)"
| "run_step env (Broadcast_removed sid) ds = (broadcast_session_removed env sid, ds)"
| "run_step env (Relay_control relay msg frontend_id) ds = dispatch_relay_control env relay msg frontend_id ds"
| "run_step env (Hello_reply relay frontend_id sessions label) ds =
    ([reply relay frontend_id RELAY_CHANNEL_META (hello_msg sessions label (de_pct env relay frontend_id))], ds)"
| "run_step env (Pair_remove_reply c daemon_id) ds =
    (let (r, ds) = de_remove_pairing env daemon_id ds in ([], send_ipc c (pair_remove_reply daemon_id r) ds))"
| "run_step env (Pair_rename_reply c daemon_id label) ds =
    (let (r, ds) = de_rename_pairing env daemon_id label ds in ([], send_ipc c (pair_rename_reply daemon_id label r) ds))"
| "run_step env (Doctor_reply c) ds = ([], send_ipc c (IpcDoctorProbeOk (de_relay_health env)) ds)"
| "run_step env (Restart_wait process relay frontend_id sid session) ds = restart_wait env process relay frontend_id sid session ds"
| "run_step env (Wt_wait wm relay frontend_id path force all process sid sids) ds =
    wt_wait env wm relay frontend_id path force all process sid sids ds"
| "run_step env (Wt_finish wm relay frontend_id path force) ds = wt_finish env wm relay frontend_id path force ds"

text \<open>The scheduler lets task \<open>i\<close> run its next step.\<close>

definition run_task :: "denv \<Rightarrow> nat \<Rightarrow> dispatcher \<Rightarrow> dispatcher" where
  "run_task env i ds =
    (case ds_tasks ds ! i of
       [] \<Rightarrow> ds
     | s # rest \<Rightarrow> let (new, ds) = run_step env s ds in ds\<lparr>ds_tasks := (ds_tasks ds)[i := new @ rest]\<rparr>)"

end
