(* ===== verification/Relay_Manager.thy ===== *)
theory Relay_Manager
  imports Relay_Client Relay_Control
begin

text \<open>
  The pool of relay connections (\<open>tp-daemon/src/transport/relay_manager.rs\<close>): the callbacks it gives its
  clients, adding, registering and reconnecting clients, removing and renaming pairings, and the routing
  of push notifications.

  \<^item> A client object is known by a number, its index in \<open>rm_objects\<close>; the pool \<open>rm_clients\<close> lists the
    numbers of the clients in use. The test factory is not modelled.
  \<^item> What happens outside the pool, its store and its push tokens is recorded: frames for a runner
    (\<open>rm_inputs\<close>) and control messages for the dispatcher (\<open>rm_controls\<close>).
  \<^item> \<open>remove_pairing\<close> is split at its awaits: \<open>remove_begin\<close> takes the re-entrancy guard and finds the
    client, \<open>remove_rest\<close> notifies, deletes the row and disposes. Other operations run as one step.
\<close>

section \<open>State\<close>

record relay_manager =
  rm_objects :: "relay_client list"
  rm_clients :: "nat list"
  rm_removing :: "string list"
  rm_store :: store
  rm_tokens :: notifier
  rm_inputs :: "(nat \<times> ipc_message) list"
  rm_controls :: "(nat \<times> json \<times> string) list"

record manager_env =
  me_store :: store_env
  me_client :: client_env
  me_now :: int
  me_runner :: "string \<Rightarrow> nat option"
  me_handshake :: "string \<Rightarrow> bool"

definition relay_manager_new :: "store \<Rightarrow> notifier \<Rightarrow> relay_manager" where
  "relay_manager_new st tokens = \<lparr>rm_objects = [], rm_clients = [], rm_removing = [], rm_store = st, rm_tokens = tokens,
     rm_inputs = [], rm_controls = []\<rparr>"

definition rm_client :: "nat \<Rightarrow> relay_manager \<Rightarrow> relay_client" where
  "rm_client i rm = rm_objects rm ! i"

definition rm_update :: "nat \<Rightarrow> (relay_client \<Rightarrow> relay_client) \<Rightarrow> relay_manager \<Rightarrow> relay_manager" where
  "rm_update i f rm = rm\<lparr>rm_objects := (rm_objects rm)[i := f (rm_client i rm)]\<rparr>"

definition client_daemon_id :: "relay_manager \<Rightarrow> nat \<Rightarrow> string" where
  "client_daemon_id rm i = cf_daemon_id (rc_config (rm_client i rm))"

definition find_client :: "string \<Rightarrow> relay_manager \<Rightarrow> nat option" where
  "find_client daemon_id rm = find (\<lambda>i. client_daemon_id rm i = daemon_id) (rm_clients rm)"

definition find_client_by_frontend :: "string \<Rightarrow> relay_manager \<Rightarrow> nat option" where
  "find_client_by_frontend frontend_id rm =
    find (\<lambda>i. frontend_id \<in> set (list_peer_frontend_ids (rm_client i rm))) (rm_clients rm)"

definition list_daemon_ids :: "relay_manager \<Rightarrow> string list" where
  "list_daemon_ids rm = map (client_daemon_id rm) (rm_clients rm)"

definition client_count :: "relay_manager \<Rightarrow> nat" where
  "client_count rm = length (rm_clients rm)"

definition to_array_32 :: "u8 list \<Rightarrow> u8 list" where
  "to_array_32 bytes = take 32 (bytes @ replicate 32 0)"

fun wire_platform_str :: "platform \<Rightarrow> string" where
  "wire_platform_str Ios = ''ios''"
| "wire_platform_str Android = ''android''"

section \<open>Callbacks\<close>

definition session_sids :: "store_env \<Rightarrow> store \<Rightarrow> string list" where
  "session_sids env st = map sm_sid (ok_or_nil (list_sessions env st))"

definition joined_hello :: "manager_env \<Rightarrow> label option \<Rightarrow> string \<Rightarrow> nat \<Rightarrow> relay_manager \<Rightarrow> json" where
  "joined_hello env label frontend_id i rm =
    JObject [(''t'', JString ''hello''), (''v'', JNumber (PosInt 1)),
      (''d'', JObject ([(''sessions'', JArray (map to_wire_session_meta (ok_or_nil (list_sessions (me_store env) (rm_store rm))))),
         (''daemonLabel'', label_to_json (case label of Some l \<Rightarrow> l | None \<Rightarrow> LUnset))]
         @ opt_field ''pct'' JString (peer_pct_b64 frontend_id (rm_client i rm))))]"

definition handle_frontend_joined :: "manager_env \<Rightarrow> string \<Rightarrow> label option \<Rightarrow> relay_manager \<Rightarrow> relay_manager" where
  "handle_frontend_joined env frontend_id label rm =
    (case find_client_by_frontend frontend_id rm of
       None \<Rightarrow> rm
     | Some i \<Rightarrow>
         rm_update i (\<lambda>c. fold rc_subscribe (session_sids (me_store env) (rm_store rm))
           (publish_to_peer (me_client env) frontend_id RELAY_CHANNEL_META (joined_hello env label frontend_id i rm) c)) rm)"

definition CR :: string where "CR = [char_of (13 :: nat)]"

definition no_runner_msg :: "string \<Rightarrow> json" where
  "no_runner_msg sid = JObject [(''t'', JString ''err''), (''e'', JString ''NO_RUNNER''), (''m'', JString (no_runner sid))]"

definition on_input :: "manager_env \<Rightarrow> input_kind \<Rightarrow> string \<Rightarrow> string \<Rightarrow> string \<Rightarrow> relay_manager \<Rightarrow> relay_manager" where
  "on_input env kind sid data frontend_id rm =
    (case me_runner env sid of
       Some runner \<Rightarrow>
         let payload = (if kind = Chat then b64_std_enc (ce_crypto (me_client env)) (as_bytes (data @ CR)) else data)
         in rm\<lparr>rm_inputs := rm_inputs rm @ [(runner, IpcInput sid payload)]\<rparr>
     | None \<Rightarrow>
         if frontend_id = [] then rm
         else (case find_client_by_frontend frontend_id rm of
                 Some i \<Rightarrow> rm_update i (publish_to_peer (me_client env) frontend_id sid (no_runner_msg sid)) rm
               | None \<Rightarrow> rm))"

definition on_control_message :: "json \<Rightarrow> string \<Rightarrow> relay_manager \<Rightarrow> relay_manager" where
  "on_control_message msg frontend_id rm =
    (case find_client_by_frontend frontend_id rm of
       Some i \<Rightarrow> rm\<lparr>rm_controls := rm_controls rm @ [(i, msg, frontend_id)]\<rparr>
     | None \<Rightarrow> rm)"

definition on_peer_confirmed :: "manager_env \<Rightarrow> string \<Rightarrow> string \<Rightarrow> u8 list \<Rightarrow> u8 list \<Rightarrow> relay_manager \<Rightarrow> relay_manager" where
  "on_peer_confirmed env daemon_id frontend_id pct frontend_pk rm =
    (if daemon_id = [] then rm
     else rm\<lparr>rm_store := snd (save_pairing_confirmation (me_store env)
       \<lparr>pc_daemon_id = daemon_id, pc_frontend_id = frontend_id, pc_pct = pct, pc_frontend_pk = frontend_pk, pc_confirmed_at = me_now env\<rparr>
       (rm_store rm))\<rparr>)"

definition with_tokens :: "(notifier \<times> store \<Rightarrow> notifier \<times> store) \<Rightarrow> relay_manager \<Rightarrow> relay_manager" where
  "with_tokens f rm = (let (tokens, st) = f (rm_tokens rm, rm_store rm) in rm\<lparr>rm_tokens := tokens, rm_store := st\<rparr>)"

section \<open>Pairings\<close>

text \<open>\<open>remove_pairing\<close> up to its first await: \<open>Inl\<close> when another removal of this id is under way.\<close>

definition remove_begin :: "manager_env \<Rightarrow> string \<Rightarrow> relay_manager \<Rightarrow> (unit + nat option) \<times> relay_manager" where
  "remove_begin env daemon_id rm =
    (if daemon_id \<in> set (rm_removing rm)
     then (Inl (), rm\<lparr>rm_store := snd (delete_pairing (me_store env) daemon_id (rm_store rm))\<rparr>)
     else (Inr (find_client daemon_id rm), rm\<lparr>rm_removing := daemon_id # rm_removing rm\<rparr>))"

fun notify_peers :: "manager_env \<Rightarrow> (string \<Rightarrow> relay_client \<Rightarrow> bool \<times> relay_client) \<Rightarrow> string list \<Rightarrow> nat \<Rightarrow> relay_client \<Rightarrow> nat \<times> relay_client" where
  "notify_peers env send [] n c = (n, c)"
| "notify_peers env send (fid # fids) n c =
    (let (sent, c) = send fid c in notify_peers env send fids (if sent then n + 1 else n) c)"

definition notify_unpair :: "manager_env \<Rightarrow> bool \<Rightarrow> nat option \<Rightarrow> relay_manager \<Rightarrow> nat \<times> relay_manager" where
  "notify_unpair env notify_peer client rm =
    (case client of
       Some i \<Rightarrow>
         if notify_peer
         then let (n, c) = notify_peers env (\<lambda>fid. send_unpair_notice (me_client env) fid UserInitiated)
                (list_peer_frontend_ids (rm_client i rm)) 0 (rm_client i rm)
              in (n, rm_update i (\<lambda>_. c) rm)
         else (0, rm)
     | None \<Rightarrow> (0, rm))"

definition drop_client :: "nat option \<Rightarrow> relay_manager \<Rightarrow> relay_manager" where
  "drop_client client rm =
    (case client of
       Some i \<Rightarrow> (rm_update i dispose rm)\<lparr>rm_clients := remove1 i (rm_clients rm)\<rparr>
     | None \<Rightarrow> rm)"

definition remove_rest :: "manager_env \<Rightarrow> string \<Rightarrow> bool \<Rightarrow> nat option \<Rightarrow> relay_manager \<Rightarrow> nat \<times> relay_manager" where
  "remove_rest env daemon_id notify_peer client rm =
    (let (notified, rm) = notify_unpair env notify_peer client rm;
         rm = drop_client client (rm\<lparr>rm_store := snd (delete_pairing (me_store env) daemon_id (rm_store rm))\<rparr>)
     in (notified, rm\<lparr>rm_removing := removeAll daemon_id (rm_removing rm)\<rparr>))"

definition remove_pairing :: "manager_env \<Rightarrow> string \<Rightarrow> bool \<Rightarrow> relay_manager \<Rightarrow> nat \<times> relay_manager" where
  "remove_pairing env daemon_id notify_peer rm =
    (case remove_begin env daemon_id rm of
       (Inl _, rm) \<Rightarrow> (0, rm)
     | (Inr client, rm) \<Rightarrow> remove_rest env daemon_id notify_peer client rm)"

definition rename_pairing :: "manager_env \<Rightarrow> string \<Rightarrow> label \<Rightarrow> relay_manager \<Rightarrow> nat \<times> relay_manager" where
  "rename_pairing env daemon_id label rm =
    (let rm = rm\<lparr>rm_store := snd (update_pairing_label (me_store env) daemon_id label (rm_store rm))\<rparr>
     in case find_client daemon_id rm of
          None \<Rightarrow> (0, rm)
        | Some i \<Rightarrow>
            let (n, c) = notify_peers env (\<lambda>fid. send_rename_notice (me_client env) fid label)
                  (list_peer_frontend_ids (rm_client i rm)) 0 (rm_client i rm)
            in (n, rm_update i (\<lambda>_. c) rm))"

text \<open>The event bag of a client, \<open>build_events\<close>, applied to one event.\<close>

fun build_events :: "manager_env \<Rightarrow> label option \<Rightarrow> string \<Rightarrow> client_event \<Rightarrow> relay_manager \<Rightarrow> relay_manager" where
  "build_events env label daemon_id (On_input kind sid data fid) rm = on_input env kind sid data fid rm"
| "build_events env label daemon_id (On_control_message msg fid) rm = on_control_message msg fid rm"
| "build_events env label daemon_id (On_peer_confirmed fid pct pk) rm = on_peer_confirmed env daemon_id fid pct pk rm"
| "build_events env label daemon_id (On_frontend_joined fid) rm = handle_frontend_joined env fid label rm"
| "build_events env label daemon_id (On_push_token_sealed fid sealed platform) rm =
    with_tokens (register_sealed_token (store_persist_token (me_store env)) fid daemon_id sealed (wire_platform_str platform)) rm"
| "build_events env label daemon_id (On_push_unseal_failed fid) rm =
    with_tokens (handle_unseal_failed (store_delete_token (me_store env)) fid) rm"
| "build_events env label daemon_id (On_push_token_dead fid) rm =
    with_tokens (handle_token_dead (store_delete_token (me_store env)) fid) rm"
| "build_events env label daemon_id (On_unpair fid reason) rm = snd (remove_pairing env daemon_id False rm)"
| "build_events env label daemon_id (On_rename fid lbl) rm =
    rm\<lparr>rm_store := snd (update_pairing_label (me_store env) daemon_id lbl (rm_store rm))\<rparr>"
| "build_events env label daemon_id On_connected rm = rm"
| "build_events env label daemon_id On_disconnected rm = rm"
| "build_events env label daemon_id (On_relay_throttled m) rm = rm"
| "build_events env label daemon_id (On_presence online sids) rm = rm"

section \<open>Clients\<close>

text \<open>
  \<open>connect\<close> awaited on a client that no other task holds yet; \<open>me_handshake\<close> says whether the relay at a
  URL accepts the WebSocket.
\<close>

definition rc_connect :: "client_env \<Rightarrow> bool \<Rightarrow> relay_client \<Rightarrow> relay_client" where
  "rc_connect env accepted c =
    (if rc_disposed c then c
     else
       let c = connect_start env c; gen = rc_generation c
       in if accepted then connect_open env gen (connect_check gen c) else connect_failed gen c)"

definition subscribe_all :: "store_env \<Rightarrow> store \<Rightarrow> relay_client \<Rightarrow> relay_client" where
  "subscribe_all env st c = fold rc_subscribe ([RELAY_CHANNEL_META, RELAY_CHANNEL_CONTROL] @ session_sids env st) c"

definition pairing_input :: "relay_client_config \<Rightarrow> label \<Rightarrow> save_pairing_input" where
  "pairing_input cfg existing =
    \<lparr>sp_daemon_id = cf_daemon_id cfg, sp_relay_url = cf_relay_url cfg, sp_relay_token = cf_token cfg,
     sp_registration_proof = cf_registration_proof cfg, sp_public_key = public_key (cf_key_pair cfg),
     sp_secret_key = secret_key (cf_key_pair cfg), sp_pairing_secret = cf_pairing_secret cfg,
     sp_label = Some (case cf_label cfg of Some l \<Rightarrow> l | None \<Rightarrow> existing),
     sp_pairing_id = cf_pairing_id cfg, sp_hostname = cf_hostname cfg\<rparr>"

definition existing_label :: "store_env \<Rightarrow> string \<Rightarrow> store \<Rightarrow> label" where
  "existing_label env daemon_id st =
    (case find (\<lambda>p. psm_daemon_id p = daemon_id) (ok_or_nil (list_pairings env st)) of Some p \<Rightarrow> psm_label p | None \<Rightarrow> LUnset)"

definition add_client :: "manager_env \<Rightarrow> relay_client_config \<Rightarrow> relay_manager \<Rightarrow> (store_error + nat) \<times> relay_manager" where
  "add_client env cfg rm =
    (let c = subscribe_all (me_store env) (rm_store rm) (rc_connect (me_client env) (me_handshake env (cf_relay_url cfg)) (client_new cfg));
         i = length (rm_objects rm);
         (r, st) = save_pairing (me_store env) (pairing_input cfg (existing_label (me_store env) (cf_daemon_id cfg) (rm_store rm))) (rm_store rm);
         rm = rm\<lparr>rm_store := st\<rparr>
     in case r of
          Inl e \<Rightarrow> (Inl e, rm\<lparr>rm_objects := rm_objects rm @ [dispose c]\<rparr>)
        | Inr _ \<Rightarrow> (Inr i, rm\<lparr>rm_objects := rm_objects rm @ [c], rm_clients := rm_clients rm @ [i]\<rparr>))"

definition register_client :: "manager_env \<Rightarrow> nat \<Rightarrow> relay_manager \<Rightarrow> relay_manager" where
  "register_client env i rm =
    rm_update i (subscribe_all (me_store env) (rm_store rm)) (rm\<lparr>rm_clients := rm_clients rm @ [i]\<rparr>)"

definition saved_config :: "stored_pairing \<Rightarrow> relay_client_config" where
  "saved_config p = \<lparr>cf_relay_url = spd_relay_url p, cf_daemon_id = spd_daemon_id p, cf_token = spd_relay_token p,
     cf_registration_proof = spd_registration_proof p,
     cf_key_pair = \<lparr>public_key = to_array_32 (spd_public_key p), secret_key = to_array_32 (spd_secret_key p)\<rparr>,
     cf_pairing_secret = spd_pairing_secret p, cf_label = Some (spd_label p), cf_pairing_id = spd_pairing_id p,
     cf_hostname = spd_hostname p\<rparr>"

fun reconnect_loop :: "manager_env \<Rightarrow> stored_pairing list \<Rightarrow> nat \<Rightarrow> relay_manager \<Rightarrow> nat \<times> relay_manager" where
  "reconnect_loop env [] n rm = (n, rm)"
| "reconnect_loop env (p # ps) n rm =
    (let (r, rm) = add_client env (saved_config p) rm in reconnect_loop env ps (case r of Inr _ \<Rightarrow> n + 1 | Inl _ \<Rightarrow> n) rm)"

definition reconnect_saved :: "manager_env \<Rightarrow> relay_manager \<Rightarrow> nat \<times> relay_manager" where
  "reconnect_saved env rm = reconnect_loop env (ok_or_nil (load_pairings (me_store env) (rm_store rm))) 0 rm"

section \<open>Push routing\<close>

definition push_targets :: "string option \<Rightarrow> relay_manager \<Rightarrow> nat list" where
  "push_targets owner rm =
    (case owner of
       None \<Rightarrow> rm_clients rm
     | Some did \<Rightarrow> (case find_client did rm of Some i \<Rightarrow> [i] | None \<Rightarrow> rm_clients rm))"

definition dispatch_push ::
  "string \<Rightarrow> string \<Rightarrow> string \<Rightarrow> string \<Rightarrow> interruption_level option \<Rightarrow> (string \<times> string option \<times> string) option
    \<Rightarrow> relay_manager \<Rightarrow> relay_manager" where
  "dispatch_push frontend_id sealed title body level data rm =
    fold (\<lambda>i. rm_update i (\<lambda>c. snd (send_push frontend_id sealed title body level data c)))
      (push_targets (Option.bind data (\<lambda>(sid, did, event). did)) rm) rm"

definition rm_stop :: "relay_manager \<Rightarrow> relay_manager" where
  "rm_stop rm = fold (\<lambda>i. rm_update i dispose) (rm_clients rm) (rm\<lparr>rm_clients := []\<rparr>)"

section \<open>The pool as a transition system\<close>

inductive rm_step :: "crypto_api \<Rightarrow> relay_manager \<Rightarrow> relay_manager \<Rightarrow> bool" for api where
  client_acts: "i < length (rm_objects rm) \<Longrightarrow> client_step api (rm_client i rm) c \<Longrightarrow> rm_step api rm (rm_update i (\<lambda>_. c) rm)"
| event: "ce_crypto (me_client env) = api \<Longrightarrow> rm_step api rm (build_events env label did ev rm)"
| adds: "ce_crypto (me_client env) = api \<Longrightarrow> rm_step api rm (snd (add_client env cfg rm))"
| creates: "client_inv api c \<Longrightarrow> rm_step api rm (rm\<lparr>rm_objects := rm_objects rm @ [c]\<rparr>)"
| registers: "i < length (rm_objects rm) \<Longrightarrow> i \<notin> set (rm_clients rm) \<Longrightarrow> rm_step api rm (register_client env i rm)"
| reconnects: "ce_crypto (me_client env) = api \<Longrightarrow> rm_step api rm (snd (reconnect_saved env rm))"
| begins_removal: "rm_step api rm (snd (remove_begin env did rm))"
| removes: "rm_step api rm (snd (remove_rest env did notify client rm))"
| renames: "ce_crypto (me_client env) = api \<Longrightarrow> rm_step api rm (snd (rename_pairing env did label rm))"
| routes: "rm_step api rm (dispatch_push fid sealed title body level data rm)"
| stops: "rm_step api rm (rm_stop rm)"
| store_acts: "store_step (rm_store rm) st \<Longrightarrow> rm_step api rm (rm\<lparr>rm_store := st\<rparr>)"

definition pool_ok :: "crypto_api \<Rightarrow> relay_manager \<Rightarrow> bool" where
  "pool_ok api rm \<longleftrightarrow> distinct (rm_clients rm) \<and> (\<forall>i \<in> set (rm_clients rm). i < length (rm_objects rm)) \<and>
     (\<forall>c \<in> set (rm_objects rm). client_inv api c)"

definition rm_inv :: "crypto_api \<Rightarrow> relay_manager \<Rightarrow> bool" where
  "rm_inv api rm \<longleftrightarrow> pool_ok api rm \<and> store_inv (rm_store rm)"

lemma rm_inv_store: "rm_inv api rm \<Longrightarrow> store_inv st \<Longrightarrow> rm_inv api (rm\<lparr>rm_store := st\<rparr>)"
  by (simp add: rm_inv_def pool_ok_def)

lemma rm_inv_fields: "rm_inv api rm \<Longrightarrow> rm_inv api (rm\<lparr>rm_removing := r\<rparr>)" "rm_inv api rm \<Longrightarrow> rm_inv api (rm\<lparr>rm_inputs := is\<rparr>)"
  "rm_inv api rm \<Longrightarrow> rm_inv api (rm\<lparr>rm_controls := cs\<rparr>)" "rm_inv api rm \<Longrightarrow> rm_inv api (rm\<lparr>rm_tokens := ts\<rparr>)"
  by (simp_all add: rm_inv_def pool_ok_def)

lemma rm_inv_client: "rm_inv api rm \<Longrightarrow> i < length (rm_objects rm) \<Longrightarrow> client_inv api (rm_client i rm)"
  by (simp add: rm_inv_def pool_ok_def rm_client_def)

lemma rm_inv_update:
  assumes "rm_inv api rm" "\<And>c. client_inv api c \<Longrightarrow> client_inv api (f c)"
  shows "rm_inv api (rm_update i f rm)"
proof (cases "i < length (rm_objects rm)")
  case True
  with assms show ?thesis
    using set_update_subset_insert [of "rm_objects rm" i "f (rm_client i rm)"]
    unfolding rm_inv_def pool_ok_def rm_update_def rm_client_def by auto
qed (use assms in \<open>simp add: rm_update_def rm_inv_def pool_ok_def list_update_beyond\<close>)

lemma rm_inv_update_const:
  assumes "rm_inv api rm" "client_inv api c"
  shows "rm_inv api (rm_update i (\<lambda>_. c) rm)"
  using assms by (intro rm_inv_update) simp_all

lemma rm_inv_fold: "(\<And>x rm. rm_inv api rm \<Longrightarrow> rm_inv api (f x rm)) \<Longrightarrow> rm_inv api rm \<Longrightarrow> rm_inv api (fold f xs rm)"
  by (induction xs arbitrary: rm) auto

lemma client_inv_fold: "(\<And>x c. client_inv api c \<Longrightarrow> client_inv api (f x c)) \<Longrightarrow> client_inv api c \<Longrightarrow> client_inv api (fold f xs c)"
  by (induction xs arbitrary: c) auto

lemma client_inv_ops:
  "client_inv api c \<Longrightarrow> client_inv api (rc_subscribe sid c)"
  "client_inv api c \<Longrightarrow> client_inv api (publish_to_peer env fid sid msg c)"
  "client_inv api c \<Longrightarrow> client_inv api (snd (send_push fid sealed title body level data c))"
  "client_inv api c \<Longrightarrow> client_inv api (snd (send_unpair_notice env fid reason c))"
  "client_inv api c \<Longrightarrow> client_inv api (snd (send_rename_notice env fid label c))"
  by (auto simp: send_unpair_notice_def send_rename_notice_def intro: client_inv_sends sends_only_ops dest: subscriptions_inv)

lemma notify_peers_inv:
  assumes "\<And>fid c. client_inv api c \<Longrightarrow> client_inv api (snd (send fid c))"
  shows "client_inv api c \<Longrightarrow> client_inv api (snd (notify_peers env send fids n c))"
proof (induction fids arbitrary: n c)
  case (Cons fid fids)
  have "client_inv api (snd (send fid c))" by (rule assms [OF Cons.prems])
  then show ?case by (cases "send fid c") (simp add: Cons.IH)
qed simp

lemma subscribe_all_inv: "client_inv api c \<Longrightarrow> client_inv api (subscribe_all env st c)"
  unfolding subscribe_all_def by (rule client_inv_fold) (simp_all add: client_inv_ops)

lemma find_client_range: "rm_inv api rm \<Longrightarrow> find_client did rm = Some i \<Longrightarrow> i < length (rm_objects rm) \<and> i \<in> set (rm_clients rm)"
  by (auto simp: find_client_def find_Some_iff rm_inv_def pool_ok_def)

lemma tokens_inv:
  "rm_inv api rm \<Longrightarrow> (\<And>s. store_inv (snd s) \<Longrightarrow> store_inv (snd (f s))) \<Longrightarrow> rm_inv api (with_tokens f rm)"
  by (auto simp: with_tokens_def rm_inv_def pool_ok_def split: prod.split) (metis snd_conv)

lemma token_ops_inv:
  "store_inv (snd s) \<Longrightarrow> store_inv (snd (register_sealed_token (store_persist_token env) fid did sealed platform s))"
  "store_inv (snd s) \<Longrightarrow> store_inv (snd (handle_unseal_failed (store_delete_token env) fid s))"
  "store_inv (snd s) \<Longrightarrow> store_inv (snd (handle_token_dead (store_delete_token env) fid s))"
  by (auto simp: register_sealed_token_def handle_unseal_failed_def handle_token_dead_def store_persist_token_def
      store_delete_token_def store_inv_meta_ops Let_def split: option.split)

lemma rc_connect_inv:
  assumes "client_inv (ce_crypto env) c"
  shows "client_inv (ce_crypto env) (rc_connect env accepted c)"
proof (cases "rc_disposed c")
  case False
  let ?c = "connect_start env c"
  have inv: "client_inv (ce_crypto env) ?c" by (rule connect_start_inv [OF assms])
  have pending: "(rc_generation ?c, False) \<in> set (rc_connecting ?c)" "\<not> rc_disposed ?c"
    using False by (simp_all add: connect_start_def cleanup_def Let_def)
  then have "(rc_generation ?c, True) \<in> set (rc_connecting (connect_check (rc_generation ?c) ?c))" by (simp add: connect_check_def Let_def)
  with connect_check_inv [OF inv pending(1)] False show ?thesis
    by (simp add: rc_connect_def Let_def connect_open_inv connect_failed_inv [OF inv])
qed (use assms in \<open>simp add: rc_connect_def\<close>)

lemma add_client_inv: "ce_crypto (me_client env) = api \<Longrightarrow> rm_inv api rm \<Longrightarrow> rm_inv api (snd (add_client env cfg rm))"
proof -
  assume api: "ce_crypto (me_client env) = api" and inv: "rm_inv api rm"
  let ?c = "subscribe_all (me_store env) (rm_store rm) (rc_connect (me_client env) (me_handshake env (cf_relay_url cfg)) (client_new cfg))"
  have c: "client_inv api ?c" "client_inv api (dispose ?c)"
    using api rc_connect_inv [of "me_client env" "client_new cfg"] by (simp_all add: client_inv_new subscribe_all_inv dispose_inv)
  have "store_inv (snd (save_pairing (me_store env) d (rm_store rm)))" for d
    using inv by (simp add: rm_inv_def store_inv_meta_ops)
  then show ?thesis using inv c
    by (auto simp: add_client_def Let_def rm_inv_def pool_ok_def less_Suc_eq split: prod.split sum.split) (metis snd_conv)+
qed

lemma notify_unpair_inv:
  assumes "rm_inv api rm"
  shows "rm_inv api (snd (notify_unpair env notify client rm))"
proof -
  have "rm_inv api (rm_update i (\<lambda>_. snd (notify_peers env (\<lambda>fid. send_unpair_notice (me_client env) fid UserInitiated) fids n (rm_client i rm))) rm)"
    for i fids n
  proof (cases "i < length (rm_objects rm)")
    case True
    then show ?thesis using rm_inv_client [OF assms] by (intro rm_inv_update_const [OF assms] notify_peers_inv client_inv_ops)
  qed (use assms in \<open>simp add: rm_update_def rm_inv_def pool_ok_def list_update_beyond\<close>)
  with assms show ?thesis by (simp add: notify_unpair_def case_prod_beta split: option.split)
qed

lemma drop_client_inv: "rm_inv api rm \<Longrightarrow> rm_inv api (drop_client client rm)"
  using rm_inv_update [of api rm dispose] dispose_inv
  by (auto simp: drop_client_def rm_inv_def pool_ok_def rm_update_def distinct_remove1 dest: notin_set_remove1 split: option.split)

lemma remove_rest_inv:
  assumes "rm_inv api rm"
  shows "rm_inv api (snd (remove_rest env did notify client rm))"
proof -
  obtain n rm1 where rm1: "notify_unpair env notify client rm = (n, rm1)" by fastforce
  then have "rm_inv api rm1" using notify_unpair_inv [OF assms, of env notify client] by simp
  then have "rm_inv api (rm1\<lparr>rm_store := snd (delete_pairing (me_store env) did (rm_store rm1))\<rparr>)"
    by (intro rm_inv_store) (simp_all add: rm_inv_def store_inv_delete_pairing)
  then show ?thesis by (simp add: remove_rest_def rm1 Let_def rm_inv_fields drop_client_inv)
qed

lemma rename_inv:
  assumes "ce_crypto (me_client env) = api" "rm_inv api rm"
  shows "rm_inv api (snd (rename_pairing env did label rm))"
proof -
  let ?rm = "rm\<lparr>rm_store := snd (update_pairing_label (me_store env) did label (rm_store rm))\<rparr>"
  have inv: "rm_inv api ?rm"
    using assms(2) by (intro rm_inv_store) (simp_all add: rm_inv_def store_inv_meta_ops)
  have "rm_inv api (rm_update i (\<lambda>_. snd (notify_peers env (\<lambda>fid. send_rename_notice (me_client env) fid label) fids n (rm_client i ?rm))) ?rm)"
    if "find_client did ?rm = Some i" for i fids n
    using rm_inv_client [OF inv] find_client_range [OF inv that]
    by (intro rm_inv_update_const [OF inv] notify_peers_inv client_inv_ops) simp_all
  with inv show ?thesis by (simp add: rename_pairing_def Let_def case_prod_beta split: option.split)
qed

lemma remove_begin_inv: "rm_inv api rm \<Longrightarrow> rm_inv api (snd (remove_begin env did rm))"
  by (auto simp: remove_begin_def rm_inv_fields intro!: rm_inv_store) (simp add: rm_inv_def store_inv_delete_pairing)

lemma remove_pairing_inv: "rm_inv api rm \<Longrightarrow> rm_inv api (snd (remove_pairing env did notify rm))"
  using remove_begin_inv [of api rm env did] remove_rest_inv
  by (auto simp: remove_pairing_def split: prod.split sum.split)

lemma build_events_inv:
  assumes "ce_crypto (me_client env) = api" "rm_inv api rm"
  shows "rm_inv api (build_events env label did ev rm)"
proof (cases ev)
  case (On_input kind sid data fid)
  then show ?thesis using assms(2)
    by (auto simp: on_input_def Let_def rm_inv_fields intro!: rm_inv_update client_inv_ops split: option.split)
next
  case (On_frontend_joined fid)
  then show ?thesis using assms(2)
    by (auto simp: handle_frontend_joined_def intro!: rm_inv_update client_inv_fold client_inv_ops split: option.split)
next
  case (On_peer_confirmed fid pct pk)
  then show ?thesis using assms(2)
    by (auto simp: on_peer_confirmed_def rm_inv_def store_inv_meta_ops pool_ok_def)
next
  case (On_rename fid lbl)
  then show ?thesis using assms(2) by (auto simp: rm_inv_def store_inv_meta_ops pool_ok_def)
qed (use assms in \<open>auto simp: on_control_message_def rm_inv_fields remove_pairing_inv token_ops_inv intro!: tokens_inv split: option.split\<close>)

lemma reconnect_inv:
  assumes "ce_crypto (me_client env) = api" "rm_inv api rm"
  shows "rm_inv api (snd (reconnect_saved env rm))"
proof -
  have "rm_inv api rm \<Longrightarrow> rm_inv api (snd (reconnect_loop env ps n rm))" for ps n rm
    using add_client_inv [OF assms(1)]
    by (induction ps arbitrary: n rm) (auto simp: Let_def case_prod_beta)
  with assms(2) show ?thesis by (simp add: reconnect_saved_def)
qed

lemma register_client_inv:
  assumes "rm_inv api rm" "i < length (rm_objects rm)" "i \<notin> set (rm_clients rm)"
  shows "rm_inv api (register_client env i rm)"
  unfolding register_client_def using assms
  by (intro rm_inv_update subscribe_all_inv) (auto simp: rm_inv_def pool_ok_def)

lemma rm_step_inv: "rm_step api rm rm' \<Longrightarrow> rm_inv api rm \<Longrightarrow> rm_inv api rm'"
proof (induction rule: rm_step.induct)
  case (client_acts i rm c)
  then show ?case using client_step_inv [OF _ rm_inv_client] by (blast intro: rm_inv_update_const)
next
  case (creates c rm)
  then show ?case by (auto simp: rm_inv_def pool_ok_def less_Suc_eq)
next
  case (registers i rm env)
  then show ?case by (simp add: register_client_inv)
next
  case (routes rm fid sealed title body level data)
  then show ?case unfolding dispatch_push_def by (auto intro!: rm_inv_fold rm_inv_update client_inv_ops)
next
  case (stops rm)
  then have "rm_inv api (rm\<lparr>rm_clients := []\<rparr>)" by (simp add: rm_inv_def pool_ok_def)
  then show ?case unfolding rm_stop_def by (auto intro!: rm_inv_fold rm_inv_update dispose_inv)
next
  case (store_acts rm st)
  then show ?case using store_step_inv by (auto simp: rm_inv_def pool_ok_def)
qed (simp_all add: build_events_inv add_client_inv reconnect_inv remove_begin_inv remove_rest_inv rename_inv)

definition rm_init :: "relay_manager \<Rightarrow> bool" where
  "rm_init rm \<longleftrightarrow> (\<exists>st tokens. store_inv st \<and> rm = relay_manager_new st tokens)"

interpretation rm_sys: step_system rm_init "rm_step api" "rm_inv api" for api
proof unfold_locales
  show "rm_inv api rm" if "rm_init rm" for rm
    using that by (auto simp: rm_init_def rm_inv_def pool_ok_def relay_manager_new_def)
qed (rule rm_step_inv)

section \<open>Unpairing and reconnecting\<close>

lemma rm_update_fields [simp]:
  "rm_store (rm_update i f rm) = rm_store rm" "rm_clients (rm_update i f rm) = rm_clients rm"
  "rm_removing (rm_update i f rm) = rm_removing rm" "rm_tokens (rm_update i f rm) = rm_tokens rm"
  "length (rm_objects (rm_update i f rm)) = length (rm_objects rm)"
  "i < length (rm_objects rm) \<Longrightarrow> rm_client i (rm_update i f rm) = f (rm_client i rm)"
  by (simp_all add: rm_update_def rm_client_def)

lemma rm_client_other: "j \<noteq> i \<Longrightarrow> rm_client j (rm_update i f rm) = rm_client j rm"
  by (simp add: rm_update_def rm_client_def)

lemma rm_client_fields [simp]:
  "rm_client j (rm\<lparr>rm_store := st\<rparr>) = rm_client j rm" "rm_client j (rm\<lparr>rm_clients := cs\<rparr>) = rm_client j rm"
  "rm_client j (rm\<lparr>rm_removing := r\<rparr>) = rm_client j rm"
  by (simp_all add: rm_client_def)

lemma notify_unpair_keeps:
  fixes env notify client rm
  defines "rm' \<equiv> snd (notify_unpair env notify client rm)"
  shows "rm_store rm' = rm_store rm" "rm_clients rm' = rm_clients rm" "rm_removing rm' = rm_removing rm" "rm_tokens rm' = rm_tokens rm"
    "length (rm_objects rm') = length (rm_objects rm)" "client \<noteq> Some j \<Longrightarrow> rm_client j rm' = rm_client j rm"
  by (auto simp: rm'_def notify_unpair_def case_prod_beta Let_def split: option.split)
    (metis rm_client_other)

lemma dispose_disposed: "rc_disposed (dispose c)"
  by (simp add: dispose_def cleanup_def)

text \<open>What a removal that owns the guard does, whether or not the row can be deleted.\<close>

lemma remove_pairing_effect:
  fixes env notify rm
  assumes "rm_inv api rm" "did \<notin> set (rm_removing rm)" "find_client did rm = Some i"
  defines "rm' \<equiv> snd (remove_pairing env did notify rm)"
  shows "rm_store rm' = snd (delete_pairing (me_store env) did (rm_store rm))" "rc_disposed (rm_client i rm')"
    "rm_clients rm' = remove1 i (rm_clients rm)" "i \<notin> set (rm_clients rm')"
    "j \<noteq> i \<Longrightarrow> rm_client j rm' = rm_client j rm" "rm_removing rm' = rm_removing rm" "rm_tokens rm' = rm_tokens rm"
proof -
  let ?rm = "rm\<lparr>rm_removing := did # rm_removing rm\<rparr>"
  obtain n rm1 where rm1: "notify_unpair env notify (Some i) ?rm = (n, rm1)" by fastforce
  have keeps: "rm_store rm1 = rm_store rm" "rm_clients rm1 = rm_clients rm" "rm_removing rm1 = did # rm_removing rm"
    "rm_tokens rm1 = rm_tokens rm" "length (rm_objects rm1) = length (rm_objects rm)" "j \<noteq> i \<Longrightarrow> rm_client j rm1 = rm_client j rm" for j
    using notify_unpair_keeps [where env = env and notify = notify and client = "Some i" and rm = ?rm] by (simp_all add: rm1)
  have range: "i < length (rm_objects rm)" "distinct (rm_clients rm)"
    using find_client_range [OF assms(1,3)] assms(1) by (simp_all add: rm_inv_def pool_ok_def)
  have rm': "rm' = (drop_client (Some i) (rm1\<lparr>rm_store := snd (delete_pairing (me_store env) did (rm_store rm1))\<rparr>))\<lparr>rm_removing := rm_removing rm\<rparr>"
    using assms(2) by (simp add: rm'_def remove_pairing_def remove_begin_def assms(3) remove_rest_def rm1 Let_def drop_client_def keeps)
  show "rm_store rm' = snd (delete_pairing (me_store env) did (rm_store rm))" "rc_disposed (rm_client i rm')"
    "rm_clients rm' = remove1 i (rm_clients rm)" "i \<notin> set (rm_clients rm')"
    "j \<noteq> i \<Longrightarrow> rm_client j rm' = rm_client j rm" "rm_removing rm' = rm_removing rm" "rm_tokens rm' = rm_tokens rm"
    using range by (simp_all add: rm' drop_client_def keeps dispose_disposed rm_client_other)
qed



text \<open>A failed deletion rolls back.\<close>

lemma delete_pairing_fails: "delete_pairing env did st = (Inl e, st') \<Longrightarrow> st' = st"
  by (auto simp: delete_pairing_def transaction_def store_unit_def split: sum.splits)

lemma notify_peers_env: "notify_peers env send fids n c = notify_peers env' send fids n c"
  by (induction fids arbitrary: n c) (auto split: prod.split)

lemma remove_count_env: "fst (remove_pairing (env\<lparr>me_store := s\<rparr>) did notify rm) = fst (remove_pairing env did notify rm)"
  using notify_peers_env [of "env\<lparr>me_store := s\<rparr>" _ _ _ _ env]
  by (simp add: remove_pairing_def remove_begin_def remove_rest_def notify_unpair_def case_prod_beta Let_def split: option.split)

text \<open>A deletion that the database refuses is not noticed. The row stays, so that the pairing is
  loaded again at the next start, while the client is disposed of and out of the pool, and the caller is
  told the same number of notified peers as if the deletion had worked.\<close>

theorem failed_deletion_is_swallowed:
  fixes env notify rm
  assumes "rm_inv api rm" "did \<notin> set (rm_removing rm)" "find_client did rm = Some i"
    "delete_pairing (me_store env) did (rm_store rm) = (Inl e, st)"
  defines "rm' \<equiv> snd (remove_pairing env did notify rm)"
  shows "rm_store rm' = rm_store rm \<and> rc_disposed (rm_client i rm') \<and> i \<notin> set (rm_clients rm') \<and>
    fst (remove_pairing env did notify rm) = fst (remove_pairing (env\<lparr>me_store := working\<rparr>) did notify rm)"
  using delete_pairing_fails [OF assms(4)] remove_pairing_effect [OF assms(1-3), where env = env and notify = notify] remove_count_env [where env = env and s = working and did = did and notify = notify and rm = rm]
  unfolding rm'_def by (simp add: assms(4))

text \<open>
  The push tokens of a removed pairing stay in the notifier, and with its client gone a push for them is
  routed to every other pairing's relay.
\<close>

lemma removed_pairing_is_still_notified:
  fixes env notify rm
  assumes "rm_inv api rm" "did \<notin> set (rm_removing rm)" "find_client did rm = Some i"
    "\<forall>j \<in> set (rm_clients rm). client_daemon_id rm j = did \<longrightarrow> j = i"
  defines "rm' \<equiv> snd (remove_pairing env did notify rm)"
  shows "rm_tokens rm' = rm_tokens rm" "push_targets (Some did) rm' = remove1 i (rm_clients rm)"
proof -
  note effect = remove_pairing_effect [OF assms(1-3), where env = env and notify = notify, folded rm'_def]
  then show "rm_tokens rm' = rm_tokens rm" by simp
  have "client_daemon_id rm' j \<noteq> did" if "j \<in> set (rm_clients rm')" for j
    using that assms(4) effect(3,4) effect(5) [of j] notin_set_remove1 [of j "rm_clients rm" i]
    by (cases "j = i") (auto simp: client_daemon_id_def)
  then have "find_client did rm' = None" by (simp add: find_client_def find_None_iff)
  then show "push_targets (Some did) rm' = remove1 i (rm_clients rm)" by (simp add: push_targets_def effect(3))
qed

lemma config_of_client:
  "rc_config (rc_subscribe sid c) = rc_config c" "rc_config (rc_connect env ok c) = rc_config c" "rc_config (client_new cfg) = cfg"
  by (simp_all add: rc_subscribe_def rc_send_def rc_connect_def connect_open_def on_open_def connect_check_def connect_failed_def
      schedule_reconnect_def connect_start_def cleanup_def client_new_def Let_def split: option.split prod.split)

lemma config_subscribe_all: "rc_config (subscribe_all env st c) = rc_config c"
proof -
  have "rc_config (fold rc_subscribe sids c) = rc_config c" for sids c
    by (induction sids arbitrary: c) (simp_all add: config_of_client)
  then show ?thesis by (simp add: subscribe_all_def config_of_client)
qed

lemma save_pairing_works:
  assumes "\<forall>stmt. se_sql env stmt = None"
  shows "fst (save_pairing env data st) = Inr ()"
  using assms by (simp add: save_pairing_def sql_run_def store_unit_def Let_def split: option.split)

lemma add_client_adds:
  assumes "rm_inv api rm" "\<forall>stmt. se_sql (me_store env) stmt = None"
  shows "\<exists>i. fst (add_client env cfg rm) = Inr i" "list_daemon_ids (snd (add_client env cfg rm)) = list_daemon_ids rm @ [cf_daemon_id cfg]"
proof -
  let ?d = "pairing_input cfg (existing_label (me_store env) (cf_daemon_id cfg) (rm_store rm))"
  obtain st where st: "save_pairing (me_store env) ?d (rm_store rm) = (Inr (), st)"
    using save_pairing_works [OF assms(2), of ?d "rm_store rm"] by (metis prod.collapse)
  then show "\<exists>i. fst (add_client env cfg rm) = Inr i" by (simp add: add_client_def Let_def)
  have "\<forall>i \<in> set (rm_clients rm). i < length (rm_objects rm)" using assms(1) by (simp add: rm_inv_def pool_ok_def)
  then show "list_daemon_ids (snd (add_client env cfg rm)) = list_daemon_ids rm @ [cf_daemon_id cfg]"
    by (simp add: add_client_def st Let_def list_daemon_ids_def client_daemon_id_def rm_client_def nth_append
        config_subscribe_all config_of_client)
qed

lemma reconnect_loop_adds:
  assumes "\<forall>stmt. se_sql (me_store env) stmt = None"
  shows "rm_inv (ce_crypto (me_client env)) rm \<Longrightarrow>
    list_daemon_ids (snd (reconnect_loop env ps n rm)) = list_daemon_ids rm @ map spd_daemon_id ps \<and>
    fst (reconnect_loop env ps n rm) = n + length ps"
proof (induction ps arbitrary: n rm)
  case (Cons p ps)
  obtain r rm' where r: "add_client env (saved_config p) rm = (r, rm')" by fastforce
  with add_client_adds [OF Cons.prems assms, of "saved_config p"] obtain i where
    i: "r = Inr i" "list_daemon_ids rm' = list_daemon_ids rm @ [spd_daemon_id p]" by (auto simp: saved_config_def)
  have "rm_inv (ce_crypto (me_client env)) rm'"
    using add_client_inv [OF refl Cons.prems, of "saved_config p"] by (simp add: r)
  from Cons.IH [OF this, of "Suc n"] show ?case by (simp add: r i)
qed simp

text \<open>A restart brings every saved pairing back. With a working database, reconnecting opens exactly one
  client for each stored pairing, in the stored order and after the clients that are already in the pool,
  and reports their number.\<close>

theorem restart_reconnects_every_pairing:
  assumes "rm_inv (ce_crypto (me_client env)) rm" "\<forall>stmt. se_sql (me_store env) stmt = None"
  shows "\<exists>ps. load_pairings (me_store env) (rm_store rm) = Inr ps \<and>
    list_daemon_ids (snd (reconnect_saved env rm)) = list_daemon_ids rm @ map spd_daemon_id ps \<and>
    fst (reconnect_saved env rm) = length ps \<and> client_count (snd (reconnect_saved env rm)) = client_count rm + length ps"
proof -
  obtain ps where ps: "load_pairings (me_store env) (rm_store rm) = Inr ps"
    using assms(2) by (auto simp: load_pairings_def sql_run_def)
  have adds: "list_daemon_ids (snd (reconnect_saved env rm)) = list_daemon_ids rm @ map spd_daemon_id ps" "fst (reconnect_saved env rm) = length ps"
    using reconnect_loop_adds [OF assms(2,1), of ps 0] by (simp_all add: reconnect_saved_def ok_or_nil_def ps)
  have "client_count rm = length (list_daemon_ids rm)" for rm by (simp add: client_count_def list_daemon_ids_def)
  with ps adds show ?thesis by simp
qed

section \<open>A pool with one pairing\<close>

definition demo_env :: "store_env \<Rightarrow> manager_env" where
  "demo_env s = \<lparr>me_store = s, me_client = demo_client_env JNull, me_now = 5, me_runner = (\<lambda>_. None), me_handshake = (\<lambda>_. True)\<rparr>"

definition demo_pool :: relay_manager where
  "demo_pool = snd (add_client (demo_env (no_faults 5)) (demo_config\<lparr>cf_pairing_secret := replicate 32 3\<rparr>) (relay_manager_new demo_store []))"

definition busy_delete :: store_env where
  "busy_delete = (no_faults 6)\<lparr>se_sql := (\<lambda>s. if s = Delete_pairing_row then Some ''database is locked'' else None)\<rparr>"

lemma demo_pool_inv: "rm_inv demo_api demo_pool"
proof -
  have "rm_inv demo_api (relay_manager_new demo_store [])"
    using demo_store_inv by (simp add: rm_inv_def pool_ok_def relay_manager_new_def)
  then show ?thesis unfolding demo_pool_def by (intro add_client_inv) (simp_all add: demo_env_def demo_client_env_def)
qed

lemma demo_pool_facts: "''daemon-1'' \<notin> set (rm_removing demo_pool)" "find_client ''daemon-1'' demo_pool = Some 0" "rm_clients demo_pool = [0]"
  by code_simp+


theorem failed_deletion_is_swallowed_witness:
  "map rp_daemon_id (md_pairings (st_meta (rm_store (snd (remove_pairing (demo_env busy_delete) ''daemon-1'' True demo_pool))))) = [Some ''daemon-1''] \<and>
    rc_disposed (rm_client 0 (snd (remove_pairing (demo_env busy_delete) ''daemon-1'' True demo_pool)))"
proof -
  have "fst (delete_pairing (me_store (demo_env busy_delete)) ''daemon-1'' (rm_store demo_pool)) = Inl (Sqlite ''database is locked'')" by code_simp
  then have "delete_pairing (me_store (demo_env busy_delete)) ''daemon-1'' (rm_store demo_pool) =
      (Inl (Sqlite ''database is locked''), snd (delete_pairing (me_store (demo_env busy_delete)) ''daemon-1'' (rm_store demo_pool)))"
    by (metis prod.collapse)
  note swallowed = failed_deletion_is_swallowed [OF demo_pool_inv demo_pool_facts(1,2) this, where notify = True]
  have "map rp_daemon_id (md_pairings (st_meta (rm_store demo_pool))) = [Some ''daemon-1'']" by code_simp
  with swallowed show ?thesis by auto
qed

theorem restart_reconnects_every_pairing_witness:
  "list_daemon_ids (snd (reconnect_saved (demo_env (no_faults 9)) (relay_manager_new (rm_store demo_pool) []))) = [''daemon-1'']"
proof -
  let ?env = "demo_env (no_faults 9)" and ?rm = "relay_manager_new (rm_store demo_pool) []"
  have "rm_inv (ce_crypto (me_client ?env)) ?rm"
    using demo_pool_inv by (simp add: rm_inv_def pool_ok_def relay_manager_new_def)
  moreover have "\<forall>stmt. se_sql (me_store ?env) stmt = None" by (simp add: demo_env_def no_faults_def)
  ultimately obtain ps where ps: "load_pairings (me_store ?env) (rm_store ?rm) = Inr ps"
    "list_daemon_ids (snd (reconnect_saved ?env ?rm)) = list_daemon_ids ?rm @ map spd_daemon_id ps"
    using restart_reconnects_every_pairing by blast
  have "map spd_daemon_id (ok_or_nil (load_pairings (me_store ?env) (rm_store ?rm))) = [''daemon-1'']" by code_simp
  with ps show ?thesis by (simp add: ok_or_nil_def list_daemon_ids_def relay_manager_new_def)
qed

end
