(* ===== verification/Dispatcher_Props.thy ===== *)
theory Dispatcher_Props
  imports Relay_Manager
begin

text \<open>
  What the command dispatcher guarantees: an invariant of its store, runners and tasks under any
  interleaving, and the behaviour of recording, the end of a runner, deletion, restart, export, resume and
  the removal of worktrees.

  The pairing operations it is given are described by the locale \<open>pairing_runtime\<close>, which the pool of relay
  connections provides.
\<close>

section \<open>Invariant\<close>

definition child_count :: "dispatcher \<Rightarrow> nat" where
  "child_count ds = length (mg_children (ds_mgr ds))"

text \<open>A task only waits for a child that exists.\<close>

fun step_ok :: "nat \<Rightarrow> task_step \<Rightarrow> bool" where
  "step_ok n (Restart_wait (Some p) _ _ _ _) = (p < n)"
| "step_ok n (Wt_wait _ _ _ _ _ _ (Some p) _ _) = (p < n)"
| "step_ok n _ = True"

definition ds_inv :: "dispatcher \<Rightarrow> bool" where
  "ds_inv ds \<longleftrightarrow> store_inv (ds_store ds) \<and> mgr_inv (ds_mgr ds) \<and> list_all (list_all (step_ok (child_count ds))) (ds_tasks ds)"

text \<open>The outcome of a step of a task: the steps it leaves and the state.\<close>

definition good_step :: "dispatcher \<Rightarrow> task_step list \<times> dispatcher \<Rightarrow> bool" where
  "good_step ds r \<longleftrightarrow> ds_inv (snd r) \<and> child_count ds \<le> child_count (snd r) \<and> list_all (step_ok (child_count (snd r))) (fst r)"

text \<open>
  What the dispatcher expects of the pairing operations it is given: they keep the store consistent and
  leave the runners and the tasks alone.
\<close>

locale pairing_runtime =
  fixes remove :: "string \<Rightarrow> dispatcher \<Rightarrow> (string + u64) \<times> dispatcher"
    and rename :: "string \<Rightarrow> label \<Rightarrow> dispatcher \<Rightarrow> (string + u64) \<times> dispatcher"
  assumes remove_store: "store_inv (ds_store ds) \<Longrightarrow> store_inv (ds_store (snd (remove did ds)))"
    and rename_store: "store_inv (ds_store ds) \<Longrightarrow> store_inv (ds_store (snd (rename did label ds)))"
    and remove_leaves: "ds_mgr (snd (remove did ds)) = ds_mgr ds" "ds_tasks (snd (remove did ds)) = ds_tasks ds"
    and rename_leaves: "ds_mgr (snd (rename did label ds)) = ds_mgr ds" "ds_tasks (snd (rename did label ds)) = ds_tasks ds"
begin

lemma pairing_ops_inv:
  "ds_inv ds \<Longrightarrow> ds_inv (snd (remove did ds))" "ds_inv ds \<Longrightarrow> ds_inv (snd (rename did label ds))"
  by (simp_all add: ds_inv_def child_count_def remove_store rename_store remove_leaves rename_leaves)

end

abbreviation lawful :: "denv \<Rightarrow> bool" where
  "lawful env \<equiv> pairing_runtime (de_remove_pairing env) (de_rename_pairing env)"

section \<open>Every operation keeps it\<close>

lemma step_ok_mono: "m \<le> n \<Longrightarrow> step_ok m s \<Longrightarrow> step_ok n s"
  by (cases "(m, s)" rule: step_ok.cases) auto

lemma steps_ok_mono: "m \<le> n \<Longrightarrow> list_all (step_ok m) ss \<Longrightarrow> list_all (step_ok n) ss"
  by (auto simp: list_all_iff intro: step_ok_mono)

lemma ds_inv_store: "ds_inv ds \<Longrightarrow> store_inv st \<Longrightarrow> ds_inv (set_store st ds)"
  by (simp add: ds_inv_def set_store_def child_count_def)

lemma ds_inv_mgr:
  "ds_inv ds \<Longrightarrow> mgr_inv mg \<Longrightarrow> child_count ds \<le> length (mg_children mg) \<Longrightarrow> ds_inv (ds\<lparr>ds_mgr := mg\<rparr>)"
  by (auto simp: ds_inv_def child_count_def list_all_iff intro: step_ok_mono)

lemma ds_inv_task: "ds_inv ds \<Longrightarrow> list_all (step_ok (child_count ds)) ss \<Longrightarrow> ds_inv (spawn_task ss ds)"
  by (simp add: ds_inv_def spawn_task_def child_count_def)

lemma ds_inv_fields:
  "ds_inv (ds\<lparr>ds_ipc := srv\<rparr>) = ds_inv ds" "ds_inv (ds\<lparr>ds_observed := ob\<rparr>) = ds_inv ds" "ds_inv (ds\<lparr>ds_pushes := ps\<rparr>) = ds_inv ds"
  "ds_inv (ds\<lparr>ds_calls := cs\<rparr>) = ds_inv ds" "ds_inv (ds\<lparr>ds_git := g\<rparr>) = ds_inv ds" "ds_inv (ds\<lparr>ds_pair_calls := pc\<rparr>) = ds_inv ds"
  "ds_inv (ds\<lparr>ds_tokens := t\<rparr>) = ds_inv ds" "ds_inv (send_ipc c msg ds) = ds_inv ds"
  by (simp_all add: ds_inv_def child_count_def send_ipc_def)

lemma child_count_fields [simp]:
  "child_count (set_store st ds) = child_count ds" "child_count (send_ipc c msg ds) = child_count ds"
  "child_count (spawn_task ss ds) = child_count ds" "child_count (ds\<lparr>ds_git := g\<rparr>) = child_count ds"
  "child_count (ds\<lparr>ds_calls := cs\<rparr>) = child_count ds" "child_count (ds\<lparr>ds_mgr := mg\<rparr>) = length (mg_children mg)"
  by (simp_all add: child_count_def set_store_def send_ipc_def spawn_task_def)

lemma mgr_children:
  "length (mg_children (register_runner now sid pid cwd wp cv mg)) = length (mg_children mg)"
  "length (mg_children (unregister_runner sid mg)) = length (mg_children mg)"
  "length (mg_children (snd (kill_runner sid mg))) = length (mg_children mg)"
  "length (mg_children mg) \<le> length (mg_children (snd (spawn_runner env sid cwd opts mg)))"
  "wait_for_exit process mg = Some mg' \<Longrightarrow> length (mg_children mg') = length (mg_children mg)"
  by (auto simp: register_runner_def unregister_runner_def kill_runner_def spawn_runner_def wait_for_exit_def poll_child_def Let_def
      split: option.splits sum.splits list.splits prod.splits child_status.splits)

lemma mgr_step_children: "mgr_step mg mg' \<Longrightarrow> length (mg_children mg) \<le> length (mg_children mg')"
proof (induction rule: mgr_step.induct)
  case (monitor sid p mg code mg' notify mg'')
  then show ?case by (auto simp: poll_child_def monitor_guard_def Let_def split: child_status.splits if_splits)
qed (simp_all add: mgr_children call_handler_def)

lemma ds_inv_mgr_step: "ds_inv ds \<Longrightarrow> mgr_step (ds_mgr ds) mg \<Longrightarrow> ds_inv (ds\<lparr>ds_mgr := mg\<rparr>)"
  using mgr_step_inv mgr_step_children by (intro ds_inv_mgr) (auto simp: child_count_def ds_inv_def)

lemma ds_inv_update_mgr: "ds_inv ds \<Longrightarrow> mgr_step (ds_mgr ds) (f (ds_mgr ds)) \<Longrightarrow> ds_inv (update_mgr f ds)"
  unfolding update_mgr_def by (rule ds_inv_mgr_step)

lemma update_mgr_count: "length (mg_children (f (ds_mgr ds))) = child_count ds \<Longrightarrow> child_count (update_mgr f ds) = child_count ds"
  by (simp add: update_mgr_def)

lemma ds_inv_parts: "ds_inv ds \<Longrightarrow> store_inv (ds_store ds)" "ds_inv ds \<Longrightarrow> mgr_inv (ds_mgr ds)"
  by (simp_all add: ds_inv_def)

lemma tracked_in_range: "mgr_inv mg \<Longrightarrow> tracked_process sid mg = Some p \<Longrightarrow> p < length (mg_children mg)"
  by (fastforce simp: mgr_inv_def tracked_process_def bind_eq_Some_conv)

lemma emits_ok [simp]: "list_all (step_ok n) (map (\<lambda>l. Emit l (f l)) ls)"
  by (simp add: list_all_iff)

lemma stop_runner_inv: "ds_inv ds \<Longrightarrow> ds_inv (stop_runner sid ds)" "child_count (stop_runner sid ds) = child_count ds"
proof -
  assume "ds_inv ds"
  then have "ds_inv (update_mgr (unregister_runner sid) (update_mgr (\<lambda>mg. snd (kill_runner sid mg)) ds))"
    by (intro ds_inv_update_mgr mgr_step.unregister mgr_step.kill)
  then show "ds_inv (stop_runner sid ds)" by (simp add: stop_runner_def update_mgr_def)
next
  show "child_count (stop_runner sid ds) = child_count ds"
    unfolding stop_runner_def by (rule update_mgr_count) (simp add: mgr_children child_count_def)
qed

lemma create_session_good:
  assumes "ds_inv ds"
  shows "ds_inv (snd (ds_create_session env sid cwd opts ds))" "child_count ds \<le> child_count (snd (ds_create_session env sid cwd opts ds))"
proof -
  obtain r mg where r: "spawn_runner (de_spawn env) sid cwd (opts\<lparr>so_socket_path := de_socket_path env\<rparr>) (ds_mgr ds) = (r, mg)" by fastforce
  then have "mgr_step (ds_mgr ds) mg" by (metis mgr_step.spawn snd_conv)
  then show "ds_inv (snd (ds_create_session env sid cwd opts ds))" "child_count ds \<le> child_count (snd (ds_create_session env sid cwd opts ds))"
    using ds_inv_mgr_step [OF assms] mgr_step_children by (simp_all add: ds_create_session_def r child_count_def)
qed
lemma good_stepI:
  assumes "ds_inv ds'" "child_count ds \<le> child_count ds'" "list_all (step_ok (child_count ds')) ss"
  shows "good_step ds (ss, ds')"
  using assms by (simp add: good_step_def)

lemma good_reply: "ds_inv ds \<Longrightarrow> good_step ds ([reply relay fid sid msg], ds)" "ds_inv ds \<Longrightarrow> good_step ds ([reply_error relay fid sid e m], ds)"
  by (simp_all add: good_step_def reply_def reply_error_def)

lemma with_records_read:
  "ds_inv ds \<Longrightarrow> with_records (de_store env) sid (\<lambda>t. (f t, t)) (ds_store ds) = (r, st) \<Longrightarrow> ds_inv (set_store st ds)"
  using store_inv_with_records [of "ds_store ds" "\<lambda>t. (f t, t)" "de_store env" sid] by (auto intro: ds_inv_store ds_inv_parts)

lemma delete_session_read:
  "ds_inv ds \<Longrightarrow> delete_session env sid (ds_store ds) = (r, st) \<Longrightarrow> ds_inv (set_store st ds)"
  using store_inv_delete_session [of "ds_store ds" env sid] by (auto intro: ds_inv_store ds_inv_parts)




lemma ds_inv_runner:
  "ds_inv ds \<Longrightarrow> ds_inv (update_mgr (unregister_runner sid) ds)" "ds_inv ds \<Longrightarrow> ds_inv (update_mgr (\<lambda>mg. snd (kill_runner sid mg)) ds)"
  "child_count (update_mgr (unregister_runner sid) ds) = child_count ds" "child_count (update_mgr (\<lambda>mg. snd (kill_runner sid mg)) ds) = child_count ds"
  by (simp_all add: ds_inv_update_mgr mgr_step.unregister mgr_step.kill update_mgr_def mgr_children child_count_def)
    (simp_all add: ds_inv_mgr_step mgr_step.unregister mgr_step.kill)

lemma restart_good:
  assumes "ds_inv ds" "\<And>p. process = Some p \<Longrightarrow> p < child_count ds"
  shows "good_step ds (restart_wait env process relay fid sid session ds)"
proof (cases "wait_for_exit process (ds_mgr ds)")
  case None
  with assms show ?thesis by (cases process) (simp_all add: restart_wait_def good_step_def)
next
  case (Some mg)
  let ?ds = "update_mgr (unregister_runner sid) (ds\<lparr>ds_mgr := mg\<rparr>)"
  have step: "ds_inv (ds\<lparr>ds_mgr := mg\<rparr>)" by (rule ds_inv_mgr_step [OF assms(1) mgr_step.wait [OF Some]])
  have inv: "ds_inv ?ds" by (rule ds_inv_runner(1) [OF step])
  have n: "child_count ?ds = child_count ds" using mgr_children(5) [OF Some] by (simp add: ds_inv_runner(3)) (simp add: child_count_def)
  show ?thesis
    using create_session_good [OF inv, of env sid "sm_cwd session" "default_options\<lparr>so_worktree_path := sm_worktree_path session\<rparr>"] n
    by (auto simp: restart_wait_def Some restart_finish_def Let_def good_step_def reply_error_def reply_def split: prod.split sum.split)
qed

lemma session_handlers_good:
  assumes "ds_inv ds"
  shows "good_step ds (relay_session_create env relay fid msg ds)" "good_step ds (relay_session_stop relay fid sid ds)"
    "good_step ds (handle_relay_session_restart env relay fid sid ds)" "good_step ds (relay_session_delete env relay fid sid ds)"
proof -
  show "good_step ds (relay_session_create env relay fid msg ds)"
  proof -
    have "good_step ds (map (\<lambda>l. Emit l (SubscribeTo s)) ls @ [reply relay fid s m], snd (ds_create_session env s cwd opts ds))"
      "good_step ds ([reply_error relay fid s e m'], snd (ds_create_session env s cwd opts ds))" for s ls m cwd opts e m'
      using create_session_good [OF assms] by (simp_all add: good_step_def reply_def reply_error_def)
    then show ?thesis
      using good_reply(2) [OF assms] by (auto simp: relay_session_create_def Let_def split: sum.splits prod.splits) (metis snd_conv)+
  qed
  have kill: "ds_inv (update_mgr (\<lambda>mg. snd (kill_runner sid mg)) ds)" "child_count (update_mgr (\<lambda>mg. snd (kill_runner sid mg)) ds) = child_count ds"
    by (rule ds_inv_runner(2) [OF assms]) (rule ds_inv_runner(4))
  then show "good_step ds (relay_session_stop relay fid sid ds)"
    by (auto simp: relay_session_stop_def update_mgr_def good_step_def reply_error_def reply_def Let_def split: prod.split)
  let ?ds = "update_mgr (\<lambda>mg. snd (kill_runner sid mg)) ds"
  have "good_step ds (restart_wait env (tracked_process sid (ds_mgr ?ds)) relay fid sid session ?ds)" for session
  proof -
    have "p < child_count ?ds" if "tracked_process sid (ds_mgr ?ds) = Some p" for p
      using tracked_in_range [OF ds_inv_parts(2) [OF kill(1)] that] by (simp add: child_count_def)
    from restart_good [OF kill(1) this] show ?thesis by (auto simp: good_step_def kill(2))
  qed
  then show "good_step ds (handle_relay_session_restart env relay fid sid ds)"
    using good_reply(2) [OF assms] by (auto simp: handle_relay_session_restart_def Let_def split: option.split)
  have del: "ds_inv (set_store st ds')" if "delete_session (de_store env) sid (ds_store ds') = (r, st)"
    "ds' = ds \<or> ds' = stop_runner sid ds" for r st ds'
    using that delete_session_read [of ds'] stop_runner_inv(1) [OF assms] assms by blast
  show "good_step ds (relay_session_delete env relay fid sid ds)"
    using good_reply(1) [OF assms]
    by (auto simp: relay_session_delete_def Let_def good_step_def reply_def stop_runner_inv split: option.split prod.split sum.split intro!: del)
qed

lemma query_handlers_good:
  assumes "ds_inv ds"
  shows "good_step ds (relay_hello env relay fid ds)" "good_step ds (relay_attach env relay fid sid ds)"
    "good_step ds (handle_relay_resume env relay fid sid cursor ds)" "good_step ds (relay_resize relay fid msg ds)"
    "good_step ds (handle_relay_session_export env relay fid msg ds)"
proof -
  show "good_step ds (relay_hello env relay fid ds)" "good_step ds (relay_attach env relay fid sid ds)" "good_step ds (relay_resize relay fid msg ds)"
    using assms good_reply [OF assms]
    by (auto simp: relay_hello_def relay_attach_def relay_resize_def good_step_def ds_inv_fields Let_def split: option.split)
  have read: "good_step ds ([reply relay fid sid m], set_store st ds)" "good_step ds ([reply_error relay fid sid e m'], set_store st ds)"
    if "with_records (de_store env) sid (\<lambda>t. (f t, t)) (ds_store ds) = (r, st)" for f r st m e m' sid
    using with_records_read [OF assms that] by (simp_all add: good_step_def reply_def reply_error_def)
  show "good_step ds (handle_relay_resume env relay fid sid cursor ds)"
    unfolding handle_relay_resume_def Let_def by (auto split: prod.split option.split intro: read)
  show "good_step ds (handle_relay_session_export env relay fid msg ds)"
    unfolding handle_relay_session_export_def export_session_def Let_def
    by (auto split: prod.split option.split intro: read good_reply [OF assms])
qed

lemma git_step_fields: "ds_inv (snd (git_step r ds)) = ds_inv ds" "child_count (snd (git_step r ds)) = child_count ds"
  by (simp_all add: git_step_def ds_inv_fields)

lemma wt_error_ok [simp]: "step_ok n (wt_error relay fid m f)" "step_ok n (reply relay fid sid msg)" "step_ok n (reply_error relay fid sid e m)"
  by (simp_all add: wt_error_def reply_def reply_error_def)

lemma wt_finish_good: "ds_inv ds \<Longrightarrow> good_step ds (wt_finish env wm relay fid path force ds)"
  using git_step_fields [of "worktree_remove (de_git env) wm path force" ds]
  by (auto simp: wt_finish_def good_step_def Let_def split: prod.split sum.split)

lemma wt_stopped_inv: "ds_inv ds \<Longrightarrow> ds_inv (wt_stopped env sid ds)" "child_count (wt_stopped env sid ds) = child_count ds"
proof -
  assume "ds_inv ds"
  then have "ds_inv (update_mgr (unregister_runner sid) ds)" by (rule ds_inv_runner(1))
  then show "ds_inv (wt_stopped env sid ds)"
    unfolding wt_stopped_def Let_def by (intro ds_inv_store store_inv_meta_ops ds_inv_parts) simp_all
next
  show "child_count (wt_stopped env sid ds) = child_count ds"
    by (simp add: wt_stopped_def Let_def update_mgr_def mgr_children child_count_def set_store_def)
qed

lemma wt_kill_good: "ds_inv ds \<Longrightarrow> good_step ds (wt_kill env wm relay fid path force all sids ds)"
proof (induction sids arbitrary: ds)
  case Nil
  then show ?case by (auto simp: good_step_def list_all_iff)
next
  case (Cons sid sids)
  let ?ds = "update_mgr (\<lambda>mg. snd (kill_runner sid mg)) ds"
  have inv: "ds_inv ?ds" and n: "child_count ?ds = child_count ds"
    by (rule ds_inv_runner(2) [OF Cons.prems]) (rule ds_inv_runner(4))
  show ?case
  proof (cases "wait_for_exit (tracked_process sid (ds_mgr ?ds)) (ds_mgr ?ds)")
    case None
    have "p < child_count ds" if "tracked_process sid (ds_mgr ?ds) = Some p" for p
      using tracked_in_range [OF ds_inv_parts(2) [OF inv] that] n by (simp add: child_count_def)
    with None show ?thesis by (cases "tracked_process sid (ds_mgr ?ds)") (simp_all add: good_step_def inv n Let_def)
  next
    case (Some mg)
    have "ds_inv (?ds\<lparr>ds_mgr := mg\<rparr>)" by (rule ds_inv_mgr_step [OF inv mgr_step.wait [OF Some]])
    moreover have "child_count (?ds\<lparr>ds_mgr := mg\<rparr>) = child_count ds"
      using mgr_children(5) [OF Some] n by (simp add: child_count_def)
    ultimately show ?thesis
      using Cons.IH [OF wt_stopped_inv(1), of "?ds\<lparr>ds_mgr := mg\<rparr>" env sid] Some by (simp add: good_step_def wt_stopped_inv(2) Let_def)
  qed
qed
lemma worktree_handlers_good:
  assumes "ds_inv ds"
  shows "good_step ds (worktree_list_run env relay fid wm ds)" "good_step ds (worktree_create_run env relay fid branch base path wm ds)"
    "good_step ds (worktree_remove_run env relay fid target force wm ds)"
proof -
  show "good_step ds (worktree_list_run env relay fid wm ds)" using good_reply(1) [OF assms] by (simp add: worktree_list_run_def)
  show "good_step ds (worktree_remove_run env relay fid target force wm ds)"
    using assms wt_finish_good [OF assms] wt_kill_good [OF assms]
    by (simp add: worktree_remove_run_def Let_def) (simp add: good_step_def)
  let ?sid = "sanitize_for_sid branch @ ''-'' @ to_base36 (de_now env)"
  obtain r ds1 where r: "git_step (worktree_add (de_git env) wm (case path of Some p \<Rightarrow> p | None \<Rightarrow> ?sid) branch base) ds = (r, ds1)" by fastforce
  have ds1: "ds_inv ds1" "child_count ds1 = child_count ds"
    using git_step_fields [of "worktree_add (de_git env) wm (case path of Some p \<Rightarrow> p | None \<Rightarrow> ?sid) branch base" ds] assms by (simp_all add: r)
  show "good_step ds (worktree_create_run env relay fid branch base path wm ds)"
  proof (cases r)
    case (Inl e)
    with ds1 show ?thesis by (simp add: worktree_create_run_def Let_def r good_step_def del: append.simps)
  next
    case (Inr wt)
    obtain created ds2 where c: "ds_create_session env ?sid (wt_path wt) (default_options\<lparr>so_worktree_path := Some (wt_path wt)\<rparr>) ds1 = (created, ds2)"
      by fastforce
    then have "ds_inv ds2" "child_count ds \<le> child_count ds2"
      using create_session_good [OF ds1(1), of env ?sid "wt_path wt" "default_options\<lparr>so_worktree_path := Some (wt_path wt)\<rparr>"] ds1(2) by simp_all
    then show ?thesis using Inr
      by (auto simp: worktree_create_run_def Let_def r c good_step_def git_step_fields simp del: append.simps split: sum.split)
  qed
qed

lemma dispatch_relay_good:
  assumes "ds_inv ds"
  shows "good_step ds (dispatch_relay_control env relay msg fid ds)"
proof -
  have wm: "(\<And>wm. good_step ds (run wm ds)) \<Longrightarrow> good_step ds (with_worktree_manager env relay fid run ds)" for run
    using good_reply(1) [OF assms] by (simp add: with_worktree_manager_def split: option.split)
  show ?thesis unfolding dispatch_relay_control_def Let_def
    by (auto intro: wm session_handlers_good query_handlers_good worktree_handlers_good good_reply assms)
      (use assms in \<open>simp add: good_step_def\<close>)
qed

lemma broadcasts_ok: "list_all (step_ok n) (broadcast_session_state env sid ds)" "list_all (step_ok n) (broadcast_session_removed env sid)"
  by (simp_all add: broadcast_session_state_def broadcast_session_removed_def split: option.split)

lemma run_step_good:
  assumes "ds_inv ds" "step_ok (child_count ds) s" "lawful env"
  shows "good_step ds (run_step env s ds)"
proof -
  have waits: "good_step ds (wt_wait env wm relay fid path force all process sid sids ds)" if "\<And>p. process = Some p \<Longrightarrow> p < child_count ds"
    for wm relay fid path force all process sid sids
  proof (cases "wait_for_exit process (ds_mgr ds)")
    case None
    with assms(1) that show ?thesis by (cases process) (simp_all add: wt_wait_def good_step_def)
  next
    case (Some mg)
    have "ds_inv (ds\<lparr>ds_mgr := mg\<rparr>)" by (rule ds_inv_mgr_step [OF assms(1) mgr_step.wait [OF Some]])
    from wt_kill_good [OF wt_stopped_inv(1) [OF this, of env sid], of env wm relay fid path force all sids] mgr_children(5) [OF Some]
    show ?thesis by (simp add: wt_wait_def Some good_step_def wt_stopped_inv(2)) (simp add: child_count_def)
  qed
  show ?thesis
  proof (cases s)
    case (Restart_wait process relay fid sid session)
    with assms(2) show ?thesis by (cases process) (auto intro!: restart_good [OF assms(1)])
  next
    case (Wt_wait wm relay fid path force all process sid sids)
    with assms(2) show ?thesis by (cases process) (auto intro!: waits)
  next
    case (Pair_remove_reply c did)
    with pairing_runtime.pairing_ops_inv(1) [OF assms(3,1), of did] pairing_runtime.remove_leaves(1) [OF assms(3), of did ds]
    show ?thesis by (auto simp: good_step_def ds_inv_fields child_count_def send_ipc_def split: prod.split)
  next
    case (Pair_rename_reply c did label)
    with pairing_runtime.pairing_ops_inv(2) [OF assms(3,1), of did label] pairing_runtime.rename_leaves(1) [OF assms(3), of did label ds]
    show ?thesis by (auto simp: good_step_def ds_inv_fields child_count_def send_ipc_def split: prod.split)
  qed (use assms(1) in \<open>simp_all add: good_step_def ds_inv_fields broadcasts_ok dispatch_relay_good [unfolded good_step_def] wt_finish_good [unfolded good_step_def]\<close>)
qed

lemma run_task_inv:
  assumes "ds_inv ds" "i < length (ds_tasks ds)" "lawful env"
  shows "ds_inv (run_task env i ds)"
proof (cases "ds_tasks ds ! i")
  case (Cons s rest)
  then have ok: "step_ok (child_count ds) s" "list_all (step_ok (child_count ds)) rest"
    using nth_mem [OF assms(2)] assms(1) by (auto simp: ds_inv_def list_all_iff)
  obtain new ds' where r: "run_step env s ds = (new, ds')" by fastforce
  with run_step_good [OF assms(1) ok(1) assms(3)] have
    ds': "ds_inv ds'" "child_count ds \<le> child_count ds'" "list_all (step_ok (child_count ds')) new" by (simp_all add: good_step_def)
  have "list_all (step_ok (child_count ds')) (new @ rest)" using steps_ok_mono [OF ds'(2) ok(2)] ds'(3) by simp
  then have "list_all (list_all (step_ok (child_count ds'))) ((ds_tasks ds')[i := new @ rest])"
    using ds'(1) set_update_subset_insert [of "ds_tasks ds'" i "new @ rest"] by (auto simp: ds_inv_def list_all_iff)
  with ds'(1) show ?thesis by (simp add: run_task_def Cons r ds_inv_def child_count_def)
qed (simp add: run_task_def assms(1))
section \<open>The dispatcher as a transition system\<close>


definition dispatcher_new :: "store \<Rightarrow> notifier \<Rightarrow> ipc_server \<Rightarrow> dispatcher" where
  "dispatcher_new st tokens srv = \<lparr>ds_store = st, ds_mgr = manager_new, ds_tokens = tokens, ds_ipc = srv, ds_tasks = [],
     ds_calls = [], ds_observed = [], ds_pushes = [], ds_git = [], ds_pair_calls = []\<rparr>"

lemma ds_inv_new: "store_inv st \<Longrightarrow> ds_inv (dispatcher_new st tokens srv)"
  by (simp add: ds_inv_def dispatcher_new_def mgr_inv_new)



section \<open>Records\<close>

lemma run_emits:
  assumes "i < length (ds_tasks ds)" "ds_tasks ds ! i = map (\<lambda>(l, call). Emit l call) calls @ rest"
  shows "(run_task env i ^^ length calls) ds = ds\<lparr>ds_tasks := (ds_tasks ds)[i := rest], ds_calls := ds_calls ds @ calls\<rparr>"
  using assms
proof (induction calls arbitrary: ds)
  case (Cons c calls)
  obtain l call where c: "c = (l, call)" by fastforce
  let ?ds = "ds\<lparr>ds_calls := ds_calls ds @ [c], ds_tasks := (ds_tasks ds)[i := map (\<lambda>(l, call). Emit l call) calls @ rest]\<rparr>"
  have "run_task env i ds = ?ds" using Cons.prems by (simp add: run_task_def c)
  then have "(run_task env i ^^ length (c # calls)) ds = (run_task env i ^^ length calls) ?ds" by (simp add: funpow_swap1)
  also have "\<dots> = ?ds\<lparr>ds_tasks := (ds_tasks ?ds)[i := rest], ds_calls := ds_calls ?ds @ calls\<rparr>"
    using Cons.prems by (intro Cons.IH) simp_all
  finally show ?case by simp
qed (auto simp: list_update_same_conv)

lemma update_last_seq_disk: "st_disk (snd (update_last_seq env sid seq st)) = st_disk st" "st_session_dbs (snd (update_last_seq env sid seq st)) = st_session_dbs st"
  by (simp_all add: update_last_seq_def store_unit_def sql_run_def update_sessions_def split: option.split)

text \<open>The records a session has on disk, when its database is open.\<close>

definition open_records :: "store \<Rightarrow> string \<Rightarrow> records_table option" where
  "open_records st sid =
    Option.bind (hm_get (st_session_dbs st) sid) (\<lambda>db. case hm_get (st_disk st) (sdb_path db) of Some (Records_file t) \<Rightarrow> Some t | _ \<Rightarrow> None)"

lemma open_records_Some:
  "open_records st sid = Some t \<longleftrightarrow>
    (\<exists>db. hm_get (st_session_dbs st) sid = Some db \<and> hm_get (st_disk st) (sdb_path db) = Some (Records_file t))"
proof (cases "hm_get (st_session_dbs st) sid")
  case (Some db)
  then show ?thesis by (cases "hm_get (st_disk st) (sdb_path db)") (auto simp: open_records_def split: dir_file.split)
qed (simp add: open_records_def)

lemma with_records_open:
  assumes "open_records st sid = Some t"
  shows "fst (with_records env sid f st) = Some (fst (f t))" "open_records (snd (with_records env sid f st)) sid = Some (snd (f t))"
proof -
  from assms obtain db where db: "hm_get (st_session_dbs st) sid = Some db" "hm_get (st_disk st) (sdb_path db) = Some (Records_file t)"
    by (auto simp: open_records_Some)
  have "get_session_db env sid st = (Some db, touch sid st)" using db(1) by (simp add: get_session_db_def ensure_session_db_def touch_def)
  moreover have "st_disk (touch sid st) = st_disk st" "st_session_dbs (touch sid st) = st_session_dbs st" by (simp_all add: touch_def)
  ultimately show "fst (with_records env sid f st) = Some (fst (f t))" "open_records (snd (with_records env sid f st)) sid = Some (snd (f t))"
    using db by (simp_all add: with_records_def open_records_Some case_prod_beta)
qed

lemma open_records_ok: "store_inv st \<Longrightarrow> open_records st sid = Some t \<Longrightarrow> records_ok t"
  by (auto simp: open_records_Some store_inv_def disk_ok_def)

lemma handle_rec_stored:
  fixes env c sid kind ts payload ns name binary ds
  assumes "rec_payload_bytes (de_crypto env) payload binary = (bytes, ws)"
    "with_records (de_store env) sid (sdb_append (de_db env) (record_kind_str kind) (f64_as_i64 ts) bytes (map_option namespace_str ns) name)
       (ds_store ds) = (Some (Inr seq), st)"
  defines "ds' \<equiv> handle_rec env c sid kind ts payload ns name binary ds"
  shows "ds_store ds' = snd (update_last_seq (de_store env) sid seq st)" "ds_calls ds' = ds_calls ds"
    "ds_tasks ds' = ds_tasks ds @ [map (\<lambda>l. Emit l (PublishRecord sid (seq_u64 seq) (rec_wire sid seq kind ns name ws ts))) (de_links env)]"
    "ds_ipc ds' = snd (ipc_send c (IpcAck sid (seq_u64 seq)) (ds_ipc ds))"
    "ds_pushes ds' = ds_pushes ds @ on_record (ds_tokens ds)
        \<lparr>rec_sid = sid, rec_kind = kind, rec_name = name, rec_payload = rec_push_payload env kind bytes\<rparr>"
  by (simp_all add: ds'_def handle_rec_def assms(1,2) set_store_def send_ipc_def spawn_task_def Let_def)

text \<open>C6: What a runner records reaches the disk, the runner and every relay, in that order of causes. For a
  session whose database is open and accepts writes, the record is appended under the next sequence
  number with the decoded payload, the runner is acknowledged with that number, and the task the handler
  leaves, run to its end with nothing in between, publishes the record under that number once on every relay client; the pushes
  are those the notifier decides for the record.\<close>

theorem record_is_stored_acked_and_published:
  fixes env ds kind ts payload ns name binary
  assumes "ds_inv ds" "open_records (ds_store ds) sid = Some t" "de_db env = None" "rt_sequence t < i64_max"
    "hm_get (is_conns (ds_ipc ds)) c = Some conn" "cr_open conn" "length (cr_outbound conn) < OUTBOUND_CAPACITY"
  defines "ds' \<equiv> handle_rec env c sid kind ts payload ns name binary ds" and "seq \<equiv> rt_sequence t + 1"
    and "bytes \<equiv> fst (rec_payload_bytes (de_crypto env) payload binary)"
    and "wire \<equiv> rec_wire sid (rt_sequence t + 1) kind ns name (snd (rec_payload_bytes (de_crypto env) payload binary)) ts"
  shows "open_records (ds_store ds') sid = Some (t\<lparr>rt_rows := rt_rows t @ [\<lparr>sr_seq = seq, sr_kind = record_kind_str kind, sr_ts = f64_as_i64 ts,
        sr_ns = map_option namespace_str ns, sr_name = name, sr_payload = bytes\<rparr>], rt_sequence := seq\<rparr>) \<and>
    map_option cr_outbound (hm_get (is_conns (ds_ipc ds')) c) = Some (cr_outbound conn @ [IpcAck sid (seq_u64 seq)]) \<and>
    ds_calls ((run_task env (length (ds_tasks ds)) ^^ length (de_links env)) ds') =
      ds_calls ds @ map (\<lambda>l. (l, PublishRecord sid (seq_u64 seq) wire)) (de_links env) \<and>
    ds_pushes ds' = ds_pushes ds @ on_record (ds_tokens ds)
      \<lparr>rec_sid = sid, rec_kind = kind, rec_name = name, rec_payload = rec_push_payload env kind bytes\<rparr>"
proof -
  have ok: "records_ok t" using open_records_ok [OF ds_inv_parts(1) [OF assms(1)] assms(2)] .
  let ?append = "sdb_append (de_db env) (record_kind_str kind) (f64_as_i64 ts) bytes (map_option namespace_str ns) name"
  let ?t = "t\<lparr>rt_rows := rt_rows t @ [\<lparr>sr_seq = seq, sr_kind = record_kind_str kind, sr_ts = f64_as_i64 ts,
        sr_ns = map_option namespace_str ns, sr_name = name, sr_payload = bytes\<rparr>], rt_sequence := seq\<rparr>"
  have append: "?append t = (Inr seq, ?t)" using assms(3,4) next_seq_ok [OF ok] by (simp add: sdb_append_def seq_def Let_def)
  obtain st where st: "with_records (de_store env) sid ?append (ds_store ds) = (Some (Inr seq), st)" "open_records st sid = Some ?t"
    using with_records_open [OF assms(2), of "de_store env" ?append] append by (metis fst_conv prod.collapse snd_conv)
  have disk: "open_records (snd (update_last_seq (de_store env) sid seq st)) sid = Some ?t"
    using st(2) by (simp add: open_records_def update_last_seq_disk)
  let ?calls = "map (\<lambda>l. (l, PublishRecord sid (seq_u64 seq) wire)) (de_links env)"
  note ds' = handle_rec_stored [OF prod.collapse [symmetric] st(1) [unfolded bytes_def], where c = c, folded ds'_def bytes_def wire_def [folded seq_def]]
  have tasks: "ds_tasks ds' = ds_tasks ds @ [map (\<lambda>(l, call). Emit l call) ?calls @ []]" by (simp add: ds'(3) comp_def)
  have "ds_calls ((run_task env (length (ds_tasks ds)) ^^ length (de_links env)) ds') = ds_calls ds @ ?calls"
    using run_emits [of "length (ds_tasks ds)" ds' ?calls "[]" env] by (simp add: ds'(2) tasks)
  then show ?thesis using disk assms(5-7) by (simp add: ds'(1,4,5) ipc_send_def)
qed
section \<open>Sessions\<close>

lemma lookup_session_eq: "se_sql (de_store env) Select_session = None \<Longrightarrow> lookup_session env sid ds = session_of (ds_store ds) sid"
  by (simp add: lookup_session_def get_session_eq ok_flatten_def)

lemma find_map_key:
  assumes "\<And>r. key (f r) = key r"
  shows "find (\<lambda>r. key r = k) (map (\<lambda>r. if key r = k' then f r else r) rows) =
    map_option (\<lambda>r. if key r = k' then f r else r) (find (\<lambda>r. key r = k) rows)"
  by (induction rows) (auto simp: assms)

lemma session_of_update_state:
  assumes "se_sql env Update_state = None"
  shows "session_of (snd (update_session_state env sid state st)) sid =
      map_option (\<lambda>r. r\<lparr>sm_state := state, sm_updated_at := se_now env\<rparr>) (session_of st sid)"
    "other \<noteq> sid \<Longrightarrow> session_of (snd (update_session_state env sid state st)) other = session_of st other"
proof -
  let ?f = "\<lambda>r. r\<lparr>sm_state := state, sm_updated_at := se_now env\<rparr>"
  have eq: "session_of (snd (update_session_state env sid state st)) k =
      map_option (\<lambda>r. if sm_sid r = sid then ?f r else r) (session_of st k)" for k
    using find_map_key [of sm_sid ?f k sid "md_sessions (st_meta st)"] assms
    by (simp add: session_of_def update_session_state_def update_sessions_def store_unit_def sql_run_def sql_update_def)
  have key: "session_of st k = Some r \<Longrightarrow> sm_sid r = k" for k r by (auto simp: session_of_def find_Some_iff)
  show "session_of (snd (update_session_state env sid state st)) sid = map_option ?f (session_of st sid)"
    "other \<noteq> sid \<Longrightarrow> session_of (snd (update_session_state env sid state st)) other = session_of st other"
    by (cases "session_of st sid"; simp add: eq key) (cases "session_of st other"; auto simp: eq dest: key)
qed

text \<open>C10: The goodbye of an old generation never touches the new one. A \<open>bye\<close> that names a process other than
  the runner registered for the session changes nothing at all. Any other \<open>bye\<close> takes the session out of
  the runner map and, when the database accepts it, leaves its row \<open>stopped\<close> when the exit code is zero or
  the process was signalled and \<open>error\<close> otherwise, every other row as it was.\<close>

theorem bye_of_an_old_runner_is_ignored:
  fixes env sid code pid reason ds
  defines "ds' \<equiv> handle_bye env sid code pid reason ds"
    and "stale \<equiv> (\<exists>p info. pid = Some p \<and> get_runner sid (ds_mgr ds) = Some info \<and> unat (ri_pid info) \<noteq> unat p)"
  assumes "se_sql (de_store env) Update_state = None"
  shows "(stale \<longrightarrow> ds' = ds) \<and>
    (\<not> stale \<longrightarrow> get_runner sid (ds_mgr ds') = None \<and>
      map_option sm_state (session_of (ds_store ds') sid) =
        map_option (\<lambda>_. if f64_mant code = 0 \<or> reason = Some ByeSignal then ''stopped'' else ''error'') (session_of (ds_store ds) sid) \<and>
      (\<forall>other. other \<noteq> sid \<longrightarrow> session_of (ds_store ds') other = session_of (ds_store ds) other \<and>
        get_runner other (ds_mgr ds') = get_runner other (ds_mgr ds)))"
proof (intro conjI impI)
  assume stale
  then show "ds' = ds" by (auto simp: stale_def ds'_def handle_bye_def)
next
  assume "\<not> stale"
  then have fresh: "\<not> (case (pid, get_runner sid (ds_mgr ds)) of (Some p, Some current) \<Rightarrow> unat (ri_pid current) \<noteq> unat p | _ \<Rightarrow> False)"
    by (auto simp: stale_def split: option.splits)
  have ds': "ds_mgr ds' = unregister_runner sid (ds_mgr ds)"
    "ds_store ds' = snd (update_session_state (de_store env) sid (bye_state reason code) (ds_store ds))"
    using fresh by (simp_all add: ds'_def handle_bye_def spawn_task_def update_mgr_def set_store_def)
  show "get_runner sid (ds_mgr ds') = None" by (simp add: ds'(1) get_runner_def unregister_runner_def)
  show "map_option sm_state (session_of (ds_store ds') sid) =
      map_option (\<lambda>_. if f64_mant code = 0 \<or> reason = Some ByeSignal then ''stopped'' else ''error'') (session_of (ds_store ds) sid)"
    using session_of_update_state(1) [OF assms(3)] by (simp add: ds'(2) bye_state_def option.map_comp comp_def disj_commute)
  show "\<forall>other. other \<noteq> sid \<longrightarrow> session_of (ds_store ds') other = session_of (ds_store ds) other \<and>
      get_runner other (ds_mgr ds') = get_runner other (ds_mgr ds)"
    using session_of_update_state(2) [OF assms(3)] by (simp add: ds' get_runner_def unregister_runner_def)
qed

section \<open>Deleting a session\<close>

lemma relay_session_delete_ok:
  assumes "lookup_session env sid ds = Some meta" "delete_session (de_store env) sid (ds_store ds) = (Inr (), st)"
  shows "\<exists>ds'. relay_session_delete env relay fid sid ds = ([Broadcast_removed sid, Unsubscribe_all sid,
      Emit relay (PublishToPeer fid sid (JObject [(''t'', JString ''session.delete.ok''), (''sid'', JString sid),
        (''wasRunning'', JBool (sm_state meta = ''running''))]))], ds') \<and>
    ds_store ds' = st \<and> ds_tasks ds' = ds_tasks ds \<and> ds_calls ds' = ds_calls ds"
proof -
  let ?ds = "if sm_state meta = ''running'' then stop_runner sid ds else ds"
  have "ds_store ?ds = ds_store ds" "ds_tasks ?ds = ds_tasks ds" "ds_calls ?ds = ds_calls ds"
    by (simp_all add: stop_runner_def update_mgr_def)
  then show ?thesis using assms
    by (intro exI [of _ "set_store st ?ds"]) (simp add: relay_session_delete_def Let_def reply_def set_store_def del: if_split)
qed

text \<open>C20: Deleting a session tells the frontends before they are cut off. When the deletion over the relay
  works, the row is gone and the task, run to its end with nothing in between, first announces the removal
  on every relay client, then unsubscribes every one of them, and only then answers the frontend.\<close>

theorem deletion_is_announced_first:
  fixes env relay fid sid ds msg i
  assumes "lookup_session env sid ds = Some meta" "fst (delete_session (de_store env) sid (ds_store ds)) = Inr ()"
    "i < length (ds_tasks ds)" "ds_tasks ds ! i = [Relay_control relay msg fid]" "msg_str msg ''t'' = Some ''session.delete''" "sid_of msg = sid"
  defines "ds' \<equiv> (run_task env i ^^ (2 * length (de_links env) + 4)) ds"
  shows "ds_calls ds' = ds_calls ds
      @ map (\<lambda>l. (l, PublishRemoved sid (JObject [(''t'', JString ''session.removed''), (''sid'', JString sid)]))) (de_links env)
      @ map (\<lambda>l. (l, UnsubscribeFrom sid)) (de_links env)
      @ [(relay, PublishToPeer fid sid (JObject [(''t'', JString ''session.delete.ok''), (''sid'', JString sid),
            (''wasRunning'', JBool (sm_state meta = ''running''))]))] \<and>
    ds_tasks ds' ! i = [] \<and> session_of (ds_store ds') sid = None"
proof -
  let ?R = "run_task env i" and ?n = "length (de_links env)"
  let ?ok = "PublishToPeer fid sid (JObject [(''t'', JString ''session.delete.ok''), (''sid'', JString sid),
            (''wasRunning'', JBool (sm_state meta = ''running''))])"
  let ?removed = "map (\<lambda>l. (l, PublishRemoved sid (JObject [(''t'', JString ''session.removed''), (''sid'', JString sid)]))) (de_links env)"
  let ?off = "map (\<lambda>l. (l, UnsubscribeFrom sid)) (de_links env)"
  obtain st where st: "delete_session (de_store env) sid (ds_store ds) = (Inr (), st)"
    using assms(2) by (cases "delete_session (de_store env) sid (ds_store ds)") simp
  obtain ds1 where ds1: "relay_session_delete env relay fid sid ds = ([Broadcast_removed sid, Unsubscribe_all sid, Emit relay ?ok], ds1)"
    "ds_store ds1 = st" "ds_tasks ds1 = ds_tasks ds" "ds_calls ds1 = ds_calls ds"
    using relay_session_delete_ok [OF assms(1) st] by blast
  have 1: "?R ds = ds1\<lparr>ds_tasks := (ds_tasks ds)[i := [Broadcast_removed sid, Unsubscribe_all sid, Emit relay ?ok]]\<rparr>"
    using assms(3-6) ds1 by (simp add: run_task_def dispatch_relay_control_def)
  let ?ds2 = "ds1\<lparr>ds_tasks := (ds_tasks ds)[i := map (\<lambda>(l, call). Emit l call) ?removed @ [Unsubscribe_all sid, Emit relay ?ok]]\<rparr>"
  have 2: "?R (?R ds) = ?ds2"
    using assms(3) by (simp add: 1, simp add: run_task_def broadcast_session_removed_def comp_def)
  let ?ds3 = "ds1\<lparr>ds_tasks := (ds_tasks ds)[i := [Unsubscribe_all sid, Emit relay ?ok]], ds_calls := ds_calls ds @ ?removed\<rparr>"
  have 3: "(?R ^^ ?n) ?ds2 = ?ds3"
    using run_emits [of i ?ds2 ?removed "[Unsubscribe_all sid, Emit relay ?ok]" env] assms(3) by (simp add: ds1(4))
  let ?ds4 = "?ds3\<lparr>ds_tasks := (ds_tasks ds)[i := map (\<lambda>(l, call). Emit l call) (?off @ [(relay, ?ok)]) @ []]\<rparr>"
  have 4: "?R ?ds3 = ?ds4" using assms(3) by (simp add: run_task_def comp_def)
  have 5: "(?R ^^ Suc ?n) ?ds4 = ds1\<lparr>ds_tasks := (ds_tasks ds)[i := []], ds_calls := ds_calls ds @ ?removed @ ?off @ [(relay, ?ok)]\<rparr>"
    using run_emits [of i ?ds4 "?off @ [(relay, ?ok)]" "[]" env] assms(3) by simp
  have "(?R ^^ (Suc ?n + Suc (?n + 2))) ds = (?R ^^ Suc ?n) (?R ((?R ^^ ?n) (?R (?R ds))))"
    by (simp only: funpow_add funpow.simps numeral_2_eq_2 o_apply id_apply)
  also have "\<dots> = ds1\<lparr>ds_tasks := (ds_tasks ds)[i := []], ds_calls := ds_calls ds @ ?removed @ ?off @ [(relay, ?ok)]\<rparr>"
    unfolding 2 3 4 by (rule 5)
  also have "Suc ?n + Suc (?n + 2) = 2 * ?n + 4" by simp
  finally have ds': "ds' = ds1\<lparr>ds_tasks := (ds_tasks ds)[i := []], ds_calls := ds_calls ds @ ?removed @ ?off @ [(relay, ?ok)]\<rparr>"
    unfolding ds'_def .
  have "session_of st sid = None"
    using delete_session_rows [OF st] by (auto simp: session_of_def find_None_iff)
  with assms(3) show ?thesis by (simp add: ds' ds1(2))
qed
section \<open>Restarting\<close>

text \<open>A restart waits while the child it signalled runs.\<close>

lemma restart_suspends:
  assumes "lookup_session env sid ds = Some session" "tracked_process sid (ds_mgr ds) = Some p" "cd_status (mg_children (ds_mgr ds) ! p) = Running"
  shows "fst (handle_relay_session_restart env relay fid sid ds) = [Restart_wait (Some p) relay fid sid session]"
    "tracked_process sid (ds_mgr (snd (handle_relay_session_restart env relay fid sid ds))) = Some p"
proof -
  obtain info where info: "get_runner sid (ds_mgr ds) = Some info" "ri_process info = Some p"
    using assms(2) by (auto simp: tracked_process_def get_runner_def bind_eq_Some_conv)
  have kill: "tracked_process sid (snd (kill_runner sid (ds_mgr ds))) = Some p"
    "mg_children (snd (kill_runner sid (ds_mgr ds))) = mg_children (ds_mgr ds)"
    using assms(2) by (simp_all add: kill_runner_def tracked_process_def)
  have "wait_for_exit (Some p) (snd (kill_runner sid (ds_mgr ds))) = None"
    using assms(3) by (simp add: wait_for_exit_def poll_child_def kill(2) Let_def)
  then show "fst (handle_relay_session_restart env relay fid sid ds) = [Restart_wait (Some p) relay fid sid session]"
    "tracked_process sid (ds_mgr (snd (handle_relay_session_restart env relay fid sid ds))) = Some p"
    by (simp_all add: handle_relay_session_restart_def assms(1) info restart_wait_def update_mgr_def kill(1))
qed

text \<open>Spawning the runner again once the child has ended.\<close>

definition spawns :: "spawn_env \<Rightarrow> bool" where
  "spawns sv \<longleftrightarrow> sv_injected sv \<noteq> None \<and> (\<forall>args. \<exists>pid. sv_spawn sv args = Inr pid)"

lemma spawn_runner_spawns:
  assumes "spawns sv"
  shows "\<exists>pid. fst (spawn_runner sv sid cwd opts mg) = Inr pid"
    "length (mg_children (snd (spawn_runner sv sid cwd opts mg))) = Suc (length (mg_children mg))"
    "mg_children (snd (spawn_runner sv sid cwd opts mg)) ! length (mg_children mg) = \<lparr>cd_pid = cd_pid (mg_children (snd (spawn_runner sv sid cwd opts mg)) ! length (mg_children mg)), cd_status = Running, cd_reaped = False\<rparr>"
    "j < length (mg_children mg) \<Longrightarrow> mg_children (snd (spawn_runner sv sid cwd opts mg)) ! j = mg_children mg ! j"
    "tracked_process s (snd (spawn_runner sv sid cwd opts mg)) = (if s = sid then Some (length (mg_children mg)) else tracked_process s mg)"
proof -
  obtain cmd where cmd: "sv_injected sv = Some cmd" using assms by (auto simp: spawns_def)
  obtain prog rest where args: "spawn_args cmd sid cwd opts = prog # rest" by (cases "spawn_args cmd sid cwd opts") (simp_all add: spawn_args_def)
  obtain pid where "sv_spawn sv (prog # rest) = Inr pid" using assms by (auto simp: spawns_def)
  with cmd args show "\<exists>pid. fst (spawn_runner sv sid cwd opts mg) = Inr pid"
    "length (mg_children (snd (spawn_runner sv sid cwd opts mg))) = Suc (length (mg_children mg))"
    "mg_children (snd (spawn_runner sv sid cwd opts mg)) ! length (mg_children mg) = \<lparr>cd_pid = cd_pid (mg_children (snd (spawn_runner sv sid cwd opts mg)) ! length (mg_children mg)), cd_status = Running, cd_reaped = False\<rparr>"
    "j < length (mg_children mg) \<Longrightarrow> mg_children (snd (spawn_runner sv sid cwd opts mg)) ! j = mg_children mg ! j"
    "tracked_process s (snd (spawn_runner sv sid cwd opts mg)) = (if s = sid then Some (length (mg_children mg)) else tracked_process s mg)"
    by (simp_all add: spawn_runner_def Let_def nth_append tracked_process_def)
qed
lemma restart_respawns:
  fixes env p relay fid sid session ds
  assumes "cd_status (mg_children (ds_mgr ds) ! p) = Exited code" "p < child_count ds" "spawns (de_spawn env)"
  defines "ds' \<equiv> snd (restart_wait env (Some p) relay fid sid session ds)"
  shows "fst (restart_wait env (Some p) relay fid sid session ds) = []" "child_count ds' = Suc (child_count ds)"
    "cd_status (mg_children (ds_mgr ds') ! child_count ds) = Running"
    "k < child_count ds \<Longrightarrow> cd_status (mg_children (ds_mgr ds') ! k) = cd_status (mg_children (ds_mgr ds) ! k)"
    "tracked_process s (ds_mgr ds') = (if s = sid then Some (child_count ds) else tracked_process s (ds_mgr ds))" "ds_tasks ds' = ds_tasks ds"
proof -
  let ?c = "mg_children (ds_mgr ds) ! p"
  let ?mg = "(ds_mgr ds)\<lparr>mg_children := (mg_children (ds_mgr ds))[p := ?c\<lparr>cd_reaped := True\<rparr>]\<rparr>"
  let ?opts = "default_options\<lparr>so_worktree_path := sm_worktree_path session, so_socket_path := de_socket_path env\<rparr>"
  let ?un = "unregister_runner sid ?mg"
  have wait: "wait_for_exit (Some p) (ds_mgr ds) = Some ?mg"
    using assms(1) by (simp add: wait_for_exit_def poll_child_def Let_def)
  obtain pid mg' where sp: "spawn_runner (de_spawn env) sid (sm_cwd session) ?opts ?un = (Inr pid, mg')"
    using spawn_runner_spawns(1) [OF assms(3), of sid "sm_cwd session" ?opts ?un] by (metis prod.collapse)
  have run: "restart_wait env (Some p) relay fid sid session ds = ([], ds\<lparr>ds_mgr := mg'\<rparr>)"
    using sp by (simp add: restart_wait_def wait restart_finish_def update_mgr_def ds_create_session_def Let_def)
  note spawned = spawn_runner_spawns [OF assms(3), where sid = sid and cwd = "sm_cwd session" and opts = ?opts and mg = ?un, unfolded sp]
  have un: "length (mg_children ?un) = child_count ds" "\<And>k. cd_status (mg_children ?un ! k) = cd_status (mg_children (ds_mgr ds) ! k)"
    "\<And>s. s \<noteq> sid \<Longrightarrow> tracked_process s ?un = tracked_process s (ds_mgr ds)"
    using assms(2) by (simp_all add: unregister_runner_def child_count_def nth_list_update tracked_process_def)
  show "fst (restart_wait env (Some p) relay fid sid session ds) = []" "ds_tasks ds' = ds_tasks ds" "child_count ds' = Suc (child_count ds)"
    using spawned(2) un(1) by (simp_all add: ds'_def run)
  show "cd_status (mg_children (ds_mgr ds') ! child_count ds) = Running"
    using arg_cong [OF spawned(3), of cd_status] un(1) by (simp add: ds'_def run)
  show "k < child_count ds \<Longrightarrow> cd_status (mg_children (ds_mgr ds') ! k) = cd_status (mg_children (ds_mgr ds) ! k)"
    using spawned(4) [of k] un(1,2) by (simp add: ds'_def run)
  show "tracked_process s (ds_mgr ds') = (if s = sid then Some (child_count ds) else tracked_process s (ds_mgr ds))"
    using spawned(5) [of s] un(1,3) by (simp add: ds'_def run)
qed

text \<open>Two restarts of one session leave a runner nobody can stop. When two control messages for the same
  session both wait for the same child and it ends, each of their tasks spawns a runner: both new children
  run, the session is bound to the second one, and no session is bound to the first, which therefore no
  \<open>kill_runner\<close> can reach.\<close>

theorem concurrent_restarts_orphan_a_runner:
  fixes env ds i j
  assumes "ds_inv ds" "tracked_process sid (ds_mgr ds) = Some p" "cd_status (mg_children (ds_mgr ds) ! p) = Exited code"
    "i < length (ds_tasks ds)" "j < length (ds_tasks ds)" "i \<noteq> j" "spawns (de_spawn env)"
    "ds_tasks ds ! i = [Restart_wait (Some p) relay1 fid1 sid session1]" "ds_tasks ds ! j = [Restart_wait (Some p) relay2 fid2 sid session2]"
  defines "ds' \<equiv> run_task env j (run_task env i ds)" and "n \<equiv> length (mg_children (ds_mgr ds))"
  shows "length (mg_children (ds_mgr ds')) = n + 2 \<and> cd_status (mg_children (ds_mgr ds') ! n) = Running \<and>
    cd_status (mg_children (ds_mgr ds') ! (n + 1)) = Running \<and> tracked_process sid (ds_mgr ds') = Some (n + 1) \<and>
    (\<forall>s. tracked_process s (ds_mgr ds') \<noteq> Some n)"
proof -
  have p: "p < child_count ds" using tracked_in_range [OF ds_inv_parts(2) [OF assms(1)] assms(2)] by (simp add: child_count_def)
  let ?ds1 = "snd (restart_wait env (Some p) relay1 fid1 sid session1 ds)"
  note first = restart_respawns [OF assms(3) p assms(7), where relay = relay1 and fid = fid1 and sid = sid and session = session1]
  define ds1 where "ds1 = run_task env i ds"
  have ds1: "ds1 = ?ds1\<lparr>ds_tasks := (ds_tasks ds)[i := []]\<rparr>"
    using assms(4,8) first(1,6) by (simp add: ds1_def run_task_def case_prod_beta Let_def)
  have st: "cd_status (mg_children (ds_mgr ds1) ! p) = Exited code" using first(4) [OF p] assms(3) by (simp add: ds1)
  have n1: "child_count ds1 = Suc n" using first(2) by (simp add: ds1 n_def child_count_def)
  have p1: "p < child_count ds1" using p n1 by (simp add: n_def child_count_def)
  note second = restart_respawns [OF st p1 assms(7), where relay = relay2 and fid = fid2 and sid = sid and session = session2]
  have ds': "ds_mgr ds' = ds_mgr (snd (restart_wait env (Some p) relay2 fid2 sid session2 ds1))"
  proof -
    have "ds_tasks ds1 ! j = [Restart_wait (Some p) relay2 fid2 sid session2]" using assms(5,6,9) by (simp add: ds1)
    then have "ds_mgr (run_task env j ds1) = ds_mgr (snd (restart_wait env (Some p) relay2 fid2 sid session2 ds1))"
      by (simp add: run_task_def case_prod_beta Let_def)
    then show ?thesis by (simp add: ds'_def ds1_def)
  qed
  have "tracked_process s (ds_mgr ds) \<noteq> Some n" for s
    using tracked_in_range [OF ds_inv_parts(2) [OF assms(1)], of s n] by (auto simp: n_def)
  then have "tracked_process s (ds_mgr ds') \<noteq> Some n" for s
    using second(5) [of s] first(5) [of s] n1 by (auto simp: ds' ds1 split: if_splits)
  moreover have "cd_status (mg_children (ds_mgr ds') ! n) = Running"
    using second(4) [of n] first(3) n1 by (simp add: ds', simp add: ds1 n_def child_count_def)
  ultimately show ?thesis
    using second(2,3) second(5) [of sid] n1 by (simp add: ds' child_count_def)
qed

section \<open>Reading records\<close>

text \<open>The export reports truncation below its maximum and never at it. With a limit under 50000 the export
  is marked truncated exactly when more records match than the limit; with no limit, or with one of
  50000 or more, it is never marked, however many records were left out.\<close>

theorem export_at_its_maximum_is_never_truncated:
  fixes msg t
  assumes "get_records_filtered fault (export_filter msg) t = Inr fetched"
    "\<forall>l. Option.bind (json_get msg ''limit'') as_i64 = Some l \<longrightarrow> 0 < l"
  defines "limit \<equiv> Option.bind (json_get msg ''limit'') as_i64"
    and "matching \<equiv> length (filter (\<lambda>r. list_all (\<lambda>c. c r) (filter_conditions (export_filter msg))) (rt_rows t))"
  shows "(\<forall>l. limit = Some l \<and> l < 50000 \<longrightarrow> (export_truncated msg fetched \<longleftrightarrow> int matching > l)) \<and>
    (limit = None \<or> (\<exists>l. limit = Some l \<and> 50000 \<le> l) \<longrightarrow> \<not> export_truncated msg fetched \<and> length fetched = min matching 50000)"
proof -
  have len: "length fetched = min matching (nat (min (export_limit limit + 1) 50000))"
    using assms(1,2) by (auto simp: get_records_filtered_def filter_limit_def export_filter_def sql_limit_def limit_def matching_def
        export_limit_def Let_def split: option.splits if_splits)
  show ?thesis
  proof (cases limit)
    case None
    then show ?thesis using len by (simp add: export_truncated_def limit_def [symmetric] export_limit_def)
  next
    case (Some l)
    then have "0 < l" using assms(2) by (simp add: limit_def)
    with Some show ?thesis using len by (auto simp: export_truncated_def limit_def [symmetric] export_limit_def min_def)
  qed
qed
lemma track_tracks:
  assumes "cache_ok st"
  shows "hm_get (st_session_dbs (track_session_db sid db st)) sid = Some db"
proof -
  let ?order = "remove1 sid (st_order st) @ [sid]"
  define kept where "kept = (if st_max_open st = 0 then ?order else lastn (st_max_open st) ?order)"
  have "hm_get (st_session_dbs (track_session_db sid db st)) = (hm_get (st_session_dbs st))(sid \<mapsto> db) |` set kept"
    using track_session_db_spec [OF assms, of sid db] unfolding kept_def by blast
  moreover have "sid \<in> set kept" by (rule last_kept(3) [OF kept_def])
  ultimately show ?thesis by (simp only: restrict_in fun_upd_same)
qed

lemma with_records_new:
  assumes "store_inv st" "\<not> hm_contains (st_session_dbs st) sid" "hm_get (st_disk st) (session_db_path sid) = None"
    "se_open env (session_db_path sid) = None"
  shows "fst (with_records env sid (\<lambda>t. (f t, t)) st) = Some (f records_table_new)"
    "hm_get (st_disk (snd (with_records env sid (\<lambda>t. (f t, t)) st))) (session_db_path sid) = Some (Records_file records_table_new)"
    "st_meta (snd (with_records env sid (\<lambda>t. (f t, t)) st)) = st_meta st"
proof -
  let ?db = "\<lparr>sdb_path = session_db_path sid\<rparr>"
  let ?st = "st\<lparr>st_disk := hm_insert (session_db_path sid) (Records_file records_table_new) (st_disk st)\<rparr>"
  have cache: "cache_ok ?st" using assms(1) by (simp add: store_inv_def cache_ok_def)
  have "hm_get (st_session_dbs (track_session_db sid ?db ?st)) sid = Some ?db" by (rule track_tracks [OF cache])
  moreover have "ensure_session_db env sid st = (True, track_session_db sid ?db ?st)"
    using assms(2-4) by (simp add: ensure_session_db_def session_db_open_def)
  ultimately show "fst (with_records env sid (\<lambda>t. (f t, t)) st) = Some (f records_table_new)"
    "hm_get (st_disk (snd (with_records env sid (\<lambda>t. (f t, t)) st))) (session_db_path sid) = Some (Records_file records_table_new)"
    "st_meta (snd (with_records env sid (\<lambda>t. (f t, t)) st)) = st_meta st"
    by (simp_all add: with_records_def get_session_db_def)
qed

text \<open>Asking for the records of a session that does not exist creates its database. A \<open>resume\<close> with an
  unknown session id, whatever characters it holds, is not answered \<open>NOT_FOUND\<close>: it leaves a new, empty
  records file under that id and answers with an empty batch, while there is still no such session.\<close>

theorem resume_of_unknown_session_creates_it:
  fixes env ds relay fid cursor
  assumes "ds_inv ds" "session_of (ds_store ds) sid = None" "\<not> hm_contains (st_session_dbs (ds_store ds)) sid"
    "hm_get (st_disk (ds_store ds)) (session_db_path sid) = None" "se_open (de_store env) (session_db_path sid) = None"
  defines "r \<equiv> handle_relay_resume env relay fid sid cursor ds"
  shows "fst r = [Emit relay (PublishToPeer fid sid (JObject [(''t'', JString ''batch''), (''sid'', JString sid), (''d'', JArray [])]))] \<and>
    hm_get (st_disk (ds_store (snd r))) (session_db_path sid) = Some (Records_file records_table_new) \<and>
    session_of (ds_store (snd r)) sid = None"
proof -
  let ?f = "\<lambda>t. case get_records_from (de_db env) cursor 1000 t of Inr rs \<Rightarrow> rs | Inl _ \<Rightarrow> []"
  note opened = with_records_new [OF ds_inv_parts(1) [OF assms(1)] assms(3-5), of ?f]
  obtain st where st: "with_records (de_store env) sid (\<lambda>t. (?f t, t)) (ds_store ds) = (Some (?f records_table_new), st)"
    using opened(1) by (cases "with_records (de_store env) sid (\<lambda>t. (?f t, t)) (ds_store ds)") simp
  have "?f records_table_new = []"
    by (simp add: get_records_from_def records_table_new_def sql_limit_def split: option.split)
  with st opened(2,3) assms(2) show ?thesis
    by (simp add: r_def handle_relay_resume_def reply_def set_store_def session_of_def)
qed

section \<open>Removing a worktree\<close>

lemma wt_kill_waits:
  "ds_git (snd (wt_kill env wm relay fid path force all sids ds)) = ds_git ds"
  "Wt_finish wm' relay' fid' path' force' \<in> set (fst (wt_kill env wm relay fid path force all sids ds)) \<Longrightarrow> s \<in> set sids \<Longrightarrow>
    get_runner s (ds_mgr (snd (wt_kill env wm relay fid path force all sids ds))) = None"
proof -
  have git: "ds_git (update_mgr f ds) = ds_git ds" "ds_git (wt_stopped env sid ds) = ds_git ds" for f ds sid
    by (simp_all add: update_mgr_def wt_stopped_def set_store_def Let_def)
  show "ds_git (snd (wt_kill env wm relay fid path force all sids ds)) = ds_git ds"
    by (induction sids arbitrary: ds) (auto simp: Let_def git split: option.split)
  have gone: "get_runner s (ds_mgr ds) = None \<Longrightarrow> get_runner s (ds_mgr (snd (wt_kill env wm relay fid path force all sids ds))) = None" for s ds sids
  proof (induction sids arbitrary: ds)
    case (Cons sid sids)
    have kill: "get_runner s (ds_mgr (update_mgr (\<lambda>mg. snd (kill_runner sid mg)) ds)) = None"
      using Cons.prems by (auto simp: update_mgr_def kill_runner_def get_runner_def split: option.split)
    have "get_runner s (ds_mgr (wt_stopped env sid (ds'\<lparr>ds_mgr := mg\<rparr>))) = None"
      if "get_runner s (ds_mgr ds') = None" "wait_for_exit process (ds_mgr ds') = Some mg" for ds' process mg
      using that by (auto simp: wt_stopped_def set_store_def update_mgr_def unregister_runner_def get_runner_def wait_for_exit_def poll_child_def Let_def
          split: option.splits child_status.splits)
    from this [OF kill] kill show ?case by (auto simp: Let_def intro: Cons.IH split: option.split)
  qed simp
  show "Wt_finish wm' relay' fid' path' force' \<in> set (fst (wt_kill env wm relay fid path force all sids ds)) \<Longrightarrow> s \<in> set sids \<Longrightarrow>
      get_runner s (ds_mgr (snd (wt_kill env wm relay fid path force all sids ds))) = None"
  proof (induction sids arbitrary: ds)
    case (Cons sid sids)
    have "get_runner sid (ds_mgr (wt_stopped env sid ds)) = None" for ds
      by (simp add: wt_stopped_def set_store_def update_mgr_def unregister_runner_def get_runner_def Let_def)
    with Cons show ?case by (auto simp: Let_def gone split: option.splits)
  qed simp
qed

text \<open>A worktree is not removed under a running session. When sessions run in the worktree, the handler
  runs no git command; without \<open>force\<close>, or when one of them is not managed by this daemon, it only answers
  an error and changes nothing; and with \<open>force\<close> the removal is put off until each of them has been
  stopped and is out of the runner map.\<close>

theorem worktree_in_use_is_not_removed:
  fixes env wm path ds force relay fid
  defines "bs \<equiv> blockers env wm path ds" and "r \<equiv> worktree_remove_run env relay fid path force wm ds"
  assumes "bs \<noteq> []"
  shows "ds_git (snd r) = ds_git ds \<and>
    (\<not> force \<or> (\<exists>sid. (sid, False) \<in> set bs) \<longrightarrow> snd r = ds \<and> (\<exists>m. fst r = [wt_error relay fid m ''Failed to remove worktree''])) \<and>
    ((\<exists>wm relay fid path force. Wt_finish wm relay fid path force \<in> set (fst r)) \<longrightarrow> (\<forall>(sid, tracked) \<in> set bs. get_runner sid (ds_mgr (snd r)) = None))"
proof (cases "force \<and> (\<forall>b \<in> set bs. snd b)")
  case True
  then have run: "r = wt_kill env wm relay fid path force (map fst bs) (map fst bs) ds"
    using assms(3) by (auto simp: r_def worktree_remove_run_def bs_def [symmetric] Let_def filter_empty_conv)
  have "get_runner sid (ds_mgr (snd r)) = None" if "Wt_finish wm' relay' fid' path' force' \<in> set (fst r)" "(sid, t) \<in> set bs"
    for wm' relay' fid' path' force' sid t
    using wt_kill_waits(2) [OF that(1) [unfolded run], of sid] that(2) by (force simp: run)
  with True show ?thesis by (auto simp: run wt_kill_waits(1) [of env])
next
  case False
  then have "snd r = ds \<and> (\<exists>m. fst r = [wt_error relay fid m ''Failed to remove worktree''])"
    using assms(3) by (auto simp: r_def worktree_remove_run_def bs_def [symmetric] Let_def filter_empty_conv)
  then show ?thesis by (auto simp: wt_error_def reply_def)
qed

section \<open>The pairing operations of the pool\<close>

text \<open>
  The two operations as \<open>Daemon::new\<close> wires them: the relay manager removes and renames pairings in the
  store it shares with the dispatcher.
\<close>

definition pool_remove :: "manager_env \<Rightarrow> relay_manager \<Rightarrow> string \<Rightarrow> dispatcher \<Rightarrow> (string + u64) \<times> dispatcher" where
  "pool_remove env rm daemon_id ds =
    (let (notified, rm) = remove_pairing env daemon_id True (rm\<lparr>rm_store := ds_store ds\<rparr>)
     in (Inr (word_of_nat notified), set_store (rm_store rm) ds))"

definition pool_rename :: "manager_env \<Rightarrow> relay_manager \<Rightarrow> string \<Rightarrow> label \<Rightarrow> dispatcher \<Rightarrow> (string + u64) \<times> dispatcher" where
  "pool_rename env rm daemon_id label ds =
    (let (notified, rm) = rename_pairing env daemon_id label (rm\<lparr>rm_store := ds_store ds\<rparr>)
     in (Inr (word_of_nat notified), set_store (rm_store rm) ds))"

lemma notify_unpair_store: "rm_store (snd (notify_unpair env notify client rm)) = rm_store rm"
  by (rule notify_unpair_keeps)

lemma drop_client_store: "rm_store (drop_client client rm) = rm_store rm"
  by (simp add: drop_client_def split: option.split)

lemma remove_pairing_store: "store_inv (rm_store rm) \<Longrightarrow> store_inv (rm_store (snd (remove_pairing env did notify rm)))"
  using notify_unpair_store [of env notify "find_client did rm" "rm\<lparr>rm_removing := did # rm_removing rm\<rparr>"]
  by (auto simp: remove_pairing_def remove_begin_def remove_rest_def Let_def case_prod_beta store_inv_delete_pairing drop_client_store)

lemma rename_pairing_store: "store_inv (rm_store rm) \<Longrightarrow> store_inv (rm_store (snd (rename_pairing env did label rm)))"
  by (auto simp: rename_pairing_def Let_def case_prod_beta store_inv_meta_ops split: option.split)

interpretation pool: pairing_runtime "pool_remove env rm" "pool_rename env rm" for env rm
proof unfold_locales
  fix ds :: dispatcher and did label
  show "store_inv (ds_store ds) \<Longrightarrow> store_inv (ds_store (snd (pool_remove env rm did ds)))"
    using remove_pairing_store [of "rm\<lparr>rm_store := ds_store ds\<rparr>" env did True] by (simp add: pool_remove_def case_prod_beta set_store_def)
  show "store_inv (ds_store ds) \<Longrightarrow> store_inv (ds_store (snd (pool_rename env rm did label ds)))"
    using rename_pairing_store [of "rm\<lparr>rm_store := ds_store ds\<rparr>" env did label] by (simp add: pool_rename_def case_prod_beta set_store_def)
qed (simp_all add: pool_remove_def pool_rename_def case_prod_beta set_store_def)

section \<open>A dispatcher with one session\<close>

definition demo_server :: ipc_server where
  "demo_server = snd (ipc_accept ipc_server_new)"

definition demo_denv :: "worktree_manager option \<Rightarrow> denv" where
  "demo_denv wm = \<lparr>de_store = no_faults 9, de_db = None, de_now = 5, de_spawn = demo_spawn, de_socket_path = None, de_links = [0, 1],
     de_label = (\<lambda>_. None), de_pct = (\<lambda>_ _. None), de_json = \<lparr>ja_from_str = (\<lambda>_. None), ja_pretty = (\<lambda>_. []), ja_to_string = (\<lambda>_. [])\<rparr>,
     de_from_slice = (\<lambda>_. None), de_crypto = demo_api, de_observer = False, de_worktrees = wm, de_git = demo_git, de_relay_health = [],
     de_remove_pairing = pool_remove (demo_env (no_faults 9)) demo_pool, de_rename_pairing = pool_rename (demo_env (no_faults 9)) demo_pool\<rparr>"

lemma demo_denv_lawful: "lawful (demo_denv wm)"
  unfolding demo_denv_def by (simp add: pool.pairing_runtime_axioms)

text \<open>Session \<open>b\<close> is open; its runner has said hello and its child runs.\<close>

definition demo_ds :: dispatcher where
  "demo_ds = (dispatcher_new demo_store [] demo_server)\<lparr>ds_mgr := snd (spawn_runner demo_spawn ''b'' ''/w'' default_options manager_new)\<rparr>"

lemma demo_ds_inv: "ds_inv demo_ds"
  unfolding demo_ds_def by (rule ds_inv_mgr_step [OF ds_inv_new [OF demo_store_inv]]) (simp add: dispatcher_new_def mgr_step.spawn)



theorem record_is_stored_acked_and_published_witness:
  "ds_calls ((run_task (demo_denv None) 0 ^^ 2) (handle_rec (demo_denv None) 1 ''b'' KindIo (F64 7 0) [] None None (Some [1, 2]) demo_ds)) =
    map (\<lambda>l. (l, PublishRecord ''b'' 1 (rec_wire ''b'' 1 KindIo None None (b64_std_enc demo_api [1, 2]) (F64 7 0)))) [0, 1]"
proof -
  let ?conn = "\<lparr>cr_outbound = [], cr_open = True, cr_sid = None, cr_decoder = decoder_new\<rparr>"
  have conn: "hm_get (is_conns (ds_ipc demo_ds)) 1 = Some ?conn" by (simp add: demo_ds_def dispatcher_new_def demo_server_def ipc_accept_def ipc_server_new_def)
  have t: "open_records (ds_store demo_ds) ''b'' = Some records_table_new" by code_simp
  have "de_db (demo_denv None) = None" "rt_sequence records_table_new < i64_max" "cr_open ?conn" "length (cr_outbound ?conn) < OUTBOUND_CAPACITY"
    by (simp_all add: demo_denv_def records_table_new_def i64_max_def OUTBOUND_CAPACITY_def)
  from record_is_stored_acked_and_published [OF demo_ds_inv t this(1,2) conn this(3,4), of KindIo "F64 7 0" "[]" None None "Some [1, 2]"]
  show ?thesis
    by (simp add: demo_ds_def dispatcher_new_def demo_denv_def records_table_new_def rec_payload_bytes_def seq_u64_def numeral_2_eq_2)
qed

theorem bye_of_an_old_runner_is_ignored_witness:
  "handle_bye (demo_denv None) ''b'' (F64 1 0) (Some 7) None demo_ds = demo_ds \<and>
    get_runner ''b'' (ds_mgr (handle_bye (demo_denv None) ''b'' (F64 1 0) (Some 42) None demo_ds)) = None"
proof -
  have sql: "se_sql (de_store (demo_denv None)) Update_state = None" by (simp add: demo_denv_def no_faults_def)
  obtain info where info: "get_runner ''b'' (ds_mgr demo_ds) = Some info" "ri_pid info = 42"
    by (simp add: demo_ds_def demo_spawn_def spawn_runner_def spawn_args_def get_runner_def Let_def manager_new_def)
  then have "\<exists>p info. Some (7 :: u64) = Some p \<and> get_runner ''b'' (ds_mgr demo_ds) = Some info \<and> unat (ri_pid info) \<noteq> unat p"
    "\<not> (\<exists>p info. Some (42 :: u64) = Some p \<and> get_runner ''b'' (ds_mgr demo_ds) = Some info \<and> unat (ri_pid info) \<noteq> unat p)" by simp_all
  with bye_of_an_old_runner_is_ignored [OF sql, where pid = "Some 7" and sid = "''b''" and ds = demo_ds and code = "F64 1 0" and reason = None]
    bye_of_an_old_runner_is_ignored [OF sql, where pid = "Some 42" and sid = "''b''" and ds = demo_ds and code = "F64 1 0" and reason = None]
  show ?thesis by blast
qed

definition delete_request :: json where
  "delete_request = JObject [(''t'', JString ''session.delete''), (''sid'', JString ''b'')]"

theorem deletion_is_announced_first_witness:
  "map snd (ds_calls ((run_task (demo_denv None) 0 ^^ 8) (spawn_task [Relay_control 0 delete_request ''f''] demo_ds))) =
    replicate 2 (PublishRemoved ''b'' (JObject [(''t'', JString ''session.removed''), (''sid'', JString ''b'')])) @ replicate 2 (UnsubscribeFrom ''b'')
    @ [PublishToPeer ''f'' ''b'' (JObject [(''t'', JString ''session.delete.ok''), (''sid'', JString ''b''), (''wasRunning'', JBool True)])]"
proof -
  let ?ds = "spawn_task [Relay_control 0 delete_request ''f''] demo_ds"
  have "map_option sm_state (lookup_session (demo_denv None) ''b'' ?ds) = Some ''running''" by code_simp
  then obtain meta where meta: "lookup_session (demo_denv None) ''b'' ?ds = Some meta" "sm_state meta = ''running''" by auto
  have del: "fst (delete_session (de_store (demo_denv None)) ''b'' (ds_store ?ds)) = Inr ()" by code_simp
  have tasks: "ds_tasks ?ds = [[Relay_control 0 delete_request ''f'']]" and calls: "ds_calls ?ds = []"
    by (simp_all add: spawn_task_def demo_ds_def dispatcher_new_def)
  have req: "msg_str delete_request ''t'' = Some ''session.delete''" "sid_of delete_request = ''b''" by code_simp+
  have "0 < length (ds_tasks ?ds)" "ds_tasks ?ds ! 0 = [Relay_control 0 delete_request ''f'']" by (simp_all add: tasks)
  from deletion_is_announced_first [OF meta(1) del this req]
  show ?thesis by (simp add: calls meta(2) demo_denv_def numeral_2_eq_2)
qed

text \<open>Two frontends restart session \<open>b\<close> while its child runs; then the child exits.\<close>

definition restart_request :: json where
  "restart_request = JObject [(''t'', JString ''session.restart''), (''sid'', JString ''b'')]"

definition demo_restarts :: dispatcher where
  "demo_restarts = run_task (demo_denv None) 1 (run_task (demo_denv None) 0
     (spawn_task [Relay_control 0 restart_request ''g''] (spawn_task [Relay_control 0 restart_request ''f''] demo_ds)))"

definition child_exits_in :: "dispatcher \<Rightarrow> dispatcher" where
  "child_exits_in ds = ds\<lparr>ds_mgr := (ds_mgr ds)\<lparr>mg_children := (mg_children (ds_mgr ds))[0 :=
     (mg_children (ds_mgr ds) ! 0)\<lparr>cd_status := Exited (Some 0)\<rparr>]\<rparr>\<rparr>"

definition demo_exited :: dispatcher where
  "demo_exited = child_exits_in demo_restarts"

lemma demo_exited_inv: "ds_inv demo_exited"
proof -
  let ?ds = "spawn_task [Relay_control 0 restart_request ''g''] (spawn_task [Relay_control 0 restart_request ''f''] demo_ds)"
  have inv: "ds_inv ?ds" by (simp add: ds_inv_task demo_ds_inv)
  have n: "0 < length (ds_tasks ?ds)" by (simp add: spawn_task_def)
  have "1 < length (ds_tasks (run_task (demo_denv None) 0 ?ds))" by code_simp
  then have r: "ds_inv demo_restarts" unfolding demo_restarts_def by (rule run_task_inv [OF run_task_inv [OF inv n demo_denv_lawful] _ demo_denv_lawful])
  have "0 < length (mg_children (ds_mgr demo_restarts)) \<and> cd_status (mg_children (ds_mgr demo_restarts) ! 0) = Running" by code_simp
  then show ?thesis unfolding demo_exited_def child_exits_in_def by (intro ds_inv_mgr_step [OF r] mgr_step.child_exits) simp_all
qed

fun restart_target :: "task_step \<Rightarrow> (nat option \<times> nat \<times> string \<times> string) option" where
  "restart_target (Restart_wait process relay fid sid _) = Some (process, relay, fid, sid)"
| "restart_target _ = None"

lemma restart_target_single: "map restart_target steps = [Some (p, relay, fid, sid)] \<Longrightarrow> \<exists>m. steps = [Restart_wait p relay fid sid m]"
  by (auto simp: map_eq_Cons_conv elim: restart_target.elims)

theorem concurrent_restarts_orphan_a_runner_witness:
  "tracked_process ''b'' (ds_mgr (run_task (demo_denv None) 1 (run_task (demo_denv None) 0 demo_exited))) = Some 2 \<and>
    cd_status (mg_children (ds_mgr (run_task (demo_denv None) 1 (run_task (demo_denv None) 0 demo_exited))) ! 1) = Running"
proof -
  have n: "length (ds_tasks demo_exited) = 2 \<and> length (mg_children (ds_mgr demo_exited)) = 1" by code_simp
  have p: "tracked_process ''b'' (ds_mgr demo_exited) = Some 0" by code_simp
  have e: "cd_status (mg_children (ds_mgr demo_exited) ! 0) = Exited (Some 0)" by code_simp
  have sp: "spawns (de_spawn (demo_denv None))" by (simp add: spawns_def demo_denv_def demo_spawn_def)
  have w: "map restart_target (ds_tasks demo_exited ! 0) = [Some (Some 0, 0, ''f'', ''b'')]"
    "map restart_target (ds_tasks demo_exited ! 1) = [Some (Some 0, 0, ''g'', ''b'')]" by code_simp+
  obtain m1 where m1: "ds_tasks demo_exited ! 0 = [Restart_wait (Some 0) 0 ''f'' ''b'' m1]" using restart_target_single [OF w(1)] by blast
  obtain m2 where m2: "ds_tasks demo_exited ! 1 = [Restart_wait (Some 0) 0 ''g'' ''b'' m2]" using restart_target_single [OF w(2)] by blast
  from concurrent_restarts_orphan_a_runner [OF demo_exited_inv p e _ _ _ sp m1 m2] n show ?thesis by simp
qed

theorem export_at_its_maximum_is_never_truncated_witness:
  "\<not> export_truncated JNull [] \<and> export_truncated (JObject [(''limit'', JNumber (PosInt 1))]) (rt_rows demo_records)"
proof -
  have "get_records_filtered None (export_filter JNull) records_table_new = Inr []" by code_simp
  moreover have "Option.bind (json_get JNull ''limit'') as_i64 = None" by code_simp
  ultimately have 1: "\<not> export_truncated JNull []" using export_at_its_maximum_is_never_truncated [of None JNull records_table_new "[]"] by simp
  let ?msg = "JObject [(''limit'', JNumber (PosInt 1))]"
  have "json_get ?msg ''limit'' = Some (JNumber (PosInt 1))" by code_simp
  then have "Option.bind (json_get ?msg ''limit'') as_i64 = Some 1" by simp
  then have "export_truncated ?msg (rt_rows demo_records) \<longleftrightarrow> 1 < int (length (rt_rows demo_records))"
    by (simp add: export_truncated_def export_limit_def)
  moreover have "1 < int (length (rt_rows demo_records))" by code_simp
  ultimately show ?thesis using 1 by simp
qed

theorem resume_of_unknown_session_creates_it_witness:
  "hm_get (st_disk (ds_store (snd (handle_relay_resume (demo_denv None) 0 ''f'' ''../../evil'' 0 demo_ds)))) (session_db_path ''../../evil'') =
    Some (Records_file records_table_new)"
proof -
  let ?sid = "''../../evil''"
  have "session_of (ds_store demo_ds) ?sid = None" by code_simp
  moreover have "\<not> hm_contains (st_session_dbs (ds_store demo_ds)) ?sid" by code_simp
  moreover have "hm_get (st_disk (ds_store demo_ds)) (session_db_path ?sid) = None" by code_simp
  moreover have "se_open (de_store (demo_denv None)) (session_db_path ?sid) = None" by (simp add: demo_denv_def no_faults_def)
  ultimately show ?thesis using resume_of_unknown_session_creates_it [OF demo_ds_inv] by blast
qed

definition demo_wt_ds :: dispatcher where
  "demo_wt_ds = demo_ds\<lparr>ds_mgr := snd (spawn_runner demo_spawn ''b'' ''/w'' (default_options\<lparr>so_worktree_path := Some ''/w/x''\<rparr>) manager_new)\<rparr>"

theorem worktree_in_use_is_not_removed_witness:
  "snd (worktree_remove_run (demo_denv (Some demo_manager_wt)) 0 ''f'' ''../x'' False demo_manager_wt demo_wt_ds) = demo_wt_ds"
proof -
  have "blockers (demo_denv (Some demo_manager_wt)) demo_manager_wt ''../x'' demo_wt_ds = [(''b'', True)]" by code_simp
  then have "blockers (demo_denv (Some demo_manager_wt)) demo_manager_wt ''../x'' demo_wt_ds \<noteq> []" by simp
  from worktree_in_use_is_not_removed [OF this] show ?thesis by blast
qed

end
