(* ===== verification/Pairing.thy ===== *)
theory Pairing
  imports Crypto Rust_Strings
begin

text \<open>
  The QR pairing link (\<open>tp-core/src/pairing.rs\<close>): \<open>tp://p?d=<base64url(binary)>\<close>, always written in
  version 4 and read in versions 2 to 4.

  Indexing a buffer out of range panics in Rust; a decoder's result is an \<open>option\<close> around its
  \<open>Result\<close>, with \<open>None\<close> for the panic. Slices are taken after a length check and cannot fail.
\<close>

section \<open>Data\<close>

definition PAIRING_URL_SCHEME :: string where
  "PAIRING_URL_SCHEME = ''tp://p''"

definition MAX_PAIRING_B64_LEN :: nat where
  "MAX_PAIRING_B64_LEN = 2048"

definition PAIRING_BINARY_MAGIC :: "u8 list" where
  "PAIRING_BINARY_MAGIC = as_bytes ''tp''"

definition PAIRING_BINARY_VERSION :: u8 where
  "PAIRING_BINARY_VERSION = 4"

definition DAEMON_ID_PREFIX :: string where
  "DAEMON_ID_PREFIX = ''daemon-''"

definition DEFAULT_PAIRING_RELAY_URL :: string where
  "DEFAULT_PAIRING_RELAY_URL = ''wss://relay.tpmt.dev''"

record pairing_data =
  pa_ps :: string
  pa_pk :: string
  pa_relay :: string
  pa_did :: string
  pa_v :: u8
  pa_pairing_id :: string
  pa_hostname :: string

text \<open>
  \<open>to_lowercase\<close> on the ASCII letters. The result is only compared with the default relay, and the
  one character outside ASCII that lowercases to ASCII, U+212A, gives a \<open>k\<close>, which the default
  relay does not contain.
\<close>

definition normalize_relay_for_default_match :: "string \<Rightarrow> string" where
  "normalize_relay_for_default_match url = map ascii_lower (trim_end_matches (CHR ''/'') (str_trim url))"

section \<open>Encoding helpers\<close>

definition pairing_error :: tp_error where
  "pairing_error = Pairing_error ''Invalid pairing data format''"

definition b64_std_encode :: "crypto_api \<Rightarrow> u8 list \<Rightarrow> string" where
  "b64_std_encode api bytes = b64_std_enc api bytes"

definition b64_std_decode :: "crypto_api \<Rightarrow> string \<Rightarrow> tp_error + u8 list" where
  "b64_std_decode api s = (case b64_std_dec api s of Inl _ \<Rightarrow> Inl pairing_error | Inr bs \<Rightarrow> Inr bs)"

definition str_replace :: "char \<Rightarrow> char \<Rightarrow> string \<Rightarrow> string" where
  "str_replace a b s = map (\<lambda>c. if c = a then b else c) s"

definition b64url_encode :: "crypto_api \<Rightarrow> u8 list \<Rightarrow> string" where
  "b64url_encode api bytes =
    trim_end_matches (CHR ''='') (str_replace (CHR ''/'') (CHR ''_'')
      (str_replace (CHR ''+'') (CHR ''-'') (b64_std_encode api bytes)))"

definition b64url_decode :: "crypto_api \<Rightarrow> string \<Rightarrow> tp_error + u8 list" where
  "b64url_decode api b64url =
    (let pad_len = (4 - length b64url mod 4) mod 4;
         b64 = str_replace (CHR ''_'') (CHR ''/'') (str_replace (CHR ''-'') (CHR ''+'') b64url)
     in b64_std_decode api (b64 @ replicate pad_len (CHR ''='')))"

definition parse_uuid_16 :: "crypto_api \<Rightarrow> string \<Rightarrow> tp_error + u8 list" where
  "parse_uuid_16 api s =
    (let hex_only = filter (\<lambda>c. c \<noteq> CHR ''-'') s;
         err = Inl (Pairing_error ''pairing id must be a 16-byte UUID'')
     in if length hex_only \<noteq> 32 then err
        else case hex_decode api hex_only of
            Inl _ \<Rightarrow> err
          | Inr raw \<Rightarrow> if length raw = 16 then Inr raw else err)"

section \<open>Encoder\<close>

definition pairing_buf :: "u8 list \<Rightarrow> u8 list \<Rightarrow> u8 list \<Rightarrow> u8 list \<Rightarrow> u8 list \<Rightarrow> u8 list \<Rightarrow> u8 list" where
  "pairing_buf did relay ps pk pairing_id hostname =
    PAIRING_BINARY_MAGIC @ [PAIRING_BINARY_VERSION] @ [word_of_nat (length did)] @ did
      @ [word_of_nat (length relay)] @ relay @ ps @ pk @ pairing_id @ [word_of_nat (length hostname)] @ hostname"

definition encode_pairing_data :: "crypto_api \<Rightarrow> pairing_data \<Rightarrow> tp_error + string" where
  "encode_pairing_data api data =
    (if \<not> starts_with (pa_did data) DAEMON_ID_PREFIX
     then Inl (Pairing_error (''daemon id must start with \"'' @ DAEMON_ID_PREFIX @ ''\"''))
     else
       let did = as_bytes (drop (length DAEMON_ID_PREFIX) (pa_did data));
           use_default = (normalize_relay_for_default_match (pa_relay data)
             = normalize_relay_for_default_match DEFAULT_PAIRING_RELAY_URL);
           relay = (if use_default then [] else as_bytes (pa_relay data))
       in (case b64_std_decode api (pa_ps data) of Inl e \<Rightarrow> Inl e | Inr ps \<Rightarrow>
          (case b64_std_decode api (pa_pk data) of Inl e \<Rightarrow> Inl e | Inr pk \<Rightarrow>
          (case parse_uuid_16 api (pa_pairing_id data) of Inl e \<Rightarrow> Inl e | Inr pairing_id \<Rightarrow>
            let hostname = as_bytes (pa_hostname data) in
            if did = [] then Inl (Pairing_error ''daemon id suffix must not be empty'')
            else if length did > 255 then Inl (Pairing_error ''daemon id exceeds 255 bytes'')
            else if length relay > 255 then Inl (Pairing_error ''relay url exceeds 255 bytes'')
            else if length hostname > 255 then Inl (Pairing_error ''hostname exceeds 255 bytes'')
            else if length ps \<noteq> 32 then Inl (Pairing_error ''pairing secret must be 32 bytes'')
            else if length pk \<noteq> 32 then Inl (Pairing_error ''daemon public key must be 32 bytes'')
            else Inr (PAIRING_URL_SCHEME @ ''?d='' @
              b64url_encode api (pairing_buf did relay ps pk pairing_id hostname))))))"

section \<open>Decoder\<close>

text \<open>\<open>buf[o]\<close>: \<open>None\<close> is the panic of an index out of range.\<close>

definition byte_at :: "u8 list \<Rightarrow> nat \<Rightarrow> nat option" where
  "byte_at buf off = (if off < length buf then Some (unat (buf ! off)) else None)"

definition buf_slice :: "u8 list \<Rightarrow> nat \<Rightarrow> nat \<Rightarrow> u8 list" where
  "buf_slice buf off n = take n (drop off buf)"

text \<open>The fields after the public key: pairing id and hostname.\<close>

definition decode_tail :: "crypto_api \<Rightarrow> nat \<Rightarrow> u8 list \<Rightarrow> nat \<Rightarrow> (tp_error + string \<times> string) option" where
  "decode_tail api version buf off =
    (if version = 2 then
       if off \<ge> length buf then Some (Inl pairing_error)
       else (case byte_at buf off of
           None \<Rightarrow> None
         | Some label_len \<Rightarrow>
             if off + 1 + label_len > length buf then Some (Inl pairing_error) else Some (Inr ([], [])))
     else if version = 3 then Some (Inr ([], []))
     else if version = 4 then
       if off + 16 + 1 > length buf then Some (Inl pairing_error)
       else (case byte_at buf (off + 16) of
           None \<Rightarrow> None
         | Some host_len \<Rightarrow>
             if off + 17 + host_len > length buf then Some (Inl pairing_error)
             else (case from_utf8 (buf_slice buf (off + 17) host_len) of
                 None \<Rightarrow> Some (Inl pairing_error)
               | Some hostname \<Rightarrow> Some (Inr (format_uuid api (buf_slice buf off 16), hostname))))
     else Some (Inl pairing_error))"

text \<open>The relay, the two keys and the tail, from the offset of \<open>relay_len\<close>.\<close>

definition decode_rest :: "crypto_api \<Rightarrow> nat \<Rightarrow> string \<Rightarrow> u8 list \<Rightarrow> nat \<Rightarrow> (tp_error + pairing_data) option" where
  "decode_rest api version did buf off =
    (case byte_at buf off of
       None \<Rightarrow> None
     | Some relay_len \<Rightarrow>
         let off = off + 1 in
         if off + relay_len > length buf then Some (Inl pairing_error)
         else (case (if relay_len = 0 then Some DEFAULT_PAIRING_RELAY_URL else from_utf8 (buf_slice buf off relay_len)) of
             None \<Rightarrow> Some (Inl pairing_error)
           | Some relay \<Rightarrow>
               let off = off + relay_len in
               if off + 32 + 32 > length buf then Some (Inl pairing_error)
               else
                 let ps = buf_slice buf off 32; pk = buf_slice buf (off + 32) 32 in
                 (case decode_tail api version buf (off + 64) of
                    None \<Rightarrow> None
                  | Some (Inl e) \<Rightarrow> Some (Inl e)
                  | Some (Inr (pairing_id, hostname)) \<Rightarrow>
                      Some (Inr \<lparr>pa_ps = b64_std_encode api ps, pa_pk = b64_std_encode api pk, pa_relay = relay,
                        pa_did = did, pa_v = word_of_nat version, pa_pairing_id = pairing_id, pa_hostname = hostname\<rparr>))))"

definition decode_pairing_buf :: "crypto_api \<Rightarrow> u8 list \<Rightarrow> (tp_error + pairing_data) option" where
  "decode_pairing_buf api buf =
    (if length buf < 2 + 1 + 1 + 1 + 32 + 32 then Some (Inl pairing_error)
     else if buf_slice buf 0 2 \<noteq> PAIRING_BINARY_MAGIC then Some (Inl pairing_error)
     else (case byte_at buf 2 of
         None \<Rightarrow> None
       | Some version \<Rightarrow>
           if \<not> (2 \<le> version \<and> version \<le> 4) then Some (Inl pairing_error)
           else (case byte_at buf 3 of
               None \<Rightarrow> None
             | Some did_len \<Rightarrow>
                 if did_len = 0 \<or> 4 + did_len > length buf then Some (Inl pairing_error)
                 else (case from_utf8 (buf_slice buf 4 did_len) of
                     None \<Rightarrow> Some (Inl pairing_error)
                   | Some wire_did \<Rightarrow>
                       decode_rest api version (if version = 2 then wire_did else DAEMON_ID_PREFIX @ wire_did)
                         buf (4 + did_len)))))"

definition decode_binary_pairing :: "crypto_api \<Rightarrow> string \<Rightarrow> (tp_error + pairing_data) option" where
  "decode_binary_pairing api b64 =
    (if length b64 > MAX_PAIRING_B64_LEN then Some (Inl pairing_error)
     else (case b64url_decode api b64 of
         Inl e \<Rightarrow> Some (Inl e)
       | Inr buf \<Rightarrow> decode_pairing_buf api buf))"

text \<open>\<open>trim_start_matches\<close> of the byte order mark, three bytes in UTF-8.\<close>

definition trim_bom :: "string \<Rightarrow> string" where
  "trim_bom s = strip_codes [bytes_to_string [0xEF, 0xBB, 0xBF]] s"

definition query_d :: "string \<Rightarrow> string option" where
  "query_d query =
    (case find (\<lambda>kv. case split_once (CHR ''='') kv of Some (k, v) \<Rightarrow> k = ''d'' | None \<Rightarrow> False)
            (str_split (CHR ''&'') query) of
       Some kv \<Rightarrow> map_option snd (split_once (CHR ''='') kv)
     | None \<Rightarrow> None)"

definition decode_pairing_data :: "crypto_api \<Rightarrow> string \<Rightarrow> (tp_error + pairing_data) option" where
  "decode_pairing_data api raw =
    (let trimmed = trim_bom (str_trim raw) in
     if \<not> starts_with trimmed PAIRING_URL_SCHEME then Some (Inl pairing_error)
     else (case split_once (CHR ''?'') trimmed of
         None \<Rightarrow> Some (Inl pairing_error)
       | Some (_, query) \<Rightarrow>
           (case query_d query of
              None \<Rightarrow> Some (Inl pairing_error)
            | Some d \<Rightarrow> decode_binary_pairing api d)))"

section \<open>Laws of the base64 crate\<close>

text \<open>
  What the link relies on: the standard encoding has padded length, uses the 64-character alphabet
  with at most two padding characters at the end, and does not blow up.
\<close>

definition is_b64_char :: "char \<Rightarrow> bool" where
  "is_b64_char c \<longleftrightarrow> (let n = of_char c :: nat in
     48 \<le> n \<and> n \<le> 57 \<or> 65 \<le> n \<and> n \<le> 90 \<or> 97 \<le> n \<and> n \<le> 122 \<or> c = CHR ''+'' \<or> c = CHR ''/'')"

definition b64_shape :: "crypto_api \<Rightarrow> bool" where
  "b64_shape api \<longleftrightarrow> (\<forall>bs. length (b64_std_enc api bs) mod 4 = 0 \<and> length (b64_std_enc api bs) \<le> 2 * length bs + 4
     \<and> (bs \<noteq> [] \<longrightarrow> b64_std_enc api bs \<noteq> [])
     \<and> (\<exists>body k. b64_std_enc api bs = body @ replicate k (CHR ''='') \<and> k \<le> 2 \<and> list_all is_b64_char body))"

section \<open>Lemmas\<close>

lemma b64_shapeD:
  assumes "b64_shape api"
  shows "length (b64_std_enc api bs) mod 4 = 0" "length (b64_std_enc api bs) \<le> 2 * length bs + 4"
    "bs \<noteq> [] \<Longrightarrow> b64_std_enc api bs \<noteq> []"
    "\<exists>body k. b64_std_enc api bs = body @ replicate k (CHR ''='') \<and> k \<le> 2 \<and> list_all is_b64_char body"
  using assms unfolding b64_shape_def by simp_all

lemma is_b64_char_not:
  "is_b64_char c \<Longrightarrow> c \<noteq> CHR ''=''" "is_b64_char c \<Longrightarrow> c \<noteq> CHR ''-''" "is_b64_char c \<Longrightarrow> c \<noteq> CHR ''_''"
  "is_b64_char c \<Longrightarrow> c \<noteq> CHR ''?''" "is_b64_char c \<Longrightarrow> c \<noteq> CHR ''&''"
  by (auto simp: is_b64_char_def Let_def)

abbreviation url_safe :: "char \<Rightarrow> char" where
  "url_safe c \<equiv> (if c = CHR ''+'' then CHR ''-'' else if c = CHR ''/'' then CHR ''_'' else c)"

lemma pad_len: "n mod 4 = 0 \<Longrightarrow> k \<le> 2 \<Longrightarrow> k \<le> n \<Longrightarrow> (4 - (n - k) mod 4) mod 4 = (k :: nat)"
proof -
  assume "n mod 4 = 0" "k \<le> 2" "k \<le> n"
  then obtain q where n: "n = 4 * q" by (auto simp: mod_eq_0_iff_dvd)
  have "(4 * p + 3) mod 4 = 3" "(4 * p + 2) mod 4 = 2" for p :: nat by presburger+
  moreover have "k = 0 \<or> k = 1 \<and> n - k = 4 * (q - 1) + 3 \<or> k = 2 \<and> n - k = 4 * (q - 1) + 2"
    using n \<open>k \<le> 2\<close> \<open>k \<le> n\<close> by auto
  ultimately show ?thesis using n by auto
qed

lemma trim_end_matches_replicate:
  "\<forall>d \<in> set body. d \<noteq> c \<Longrightarrow> trim_end_matches c (body @ replicate k c) = body"
proof -
  assume a: "\<forall>d \<in> set body. d \<noteq> c"
  have "dropWhile (\<lambda>d. d = c) (replicate k c @ rev body) = dropWhile (\<lambda>d. d = c) (rev body)" by (induction k) auto
  also have "\<dots> = rev body" using a by (simp add: dropWhile_eq_self_iff) (metis hd_in_set rev_is_Nil_conv set_rev)
  finally show ?thesis by (simp add: trim_end_matches_def)
qed

lemma b64url_encode_body:
  assumes "b64_std_enc api bs = body @ replicate k (CHR ''='')" "list_all is_b64_char body"
  shows "b64url_encode api bs = map url_safe body"
proof -
  have "\<forall>d \<in> set (map url_safe body). d \<noteq> CHR ''=''"
    using assms(2) is_b64_char_not(1) by (auto simp: list_all_iff)
  moreover have "str_replace (CHR ''/'') (CHR ''_'') (str_replace (CHR ''+'') (CHR ''-'') (body @ replicate k (CHR ''='')))
      = map url_safe body @ replicate k (CHR ''='')"
    by (auto simp: str_replace_def)
  ultimately show ?thesis
    by (simp only: b64url_encode_def b64_std_encode_def assms(1) trim_end_matches_replicate)
qed

lemma url_safe_inverse:
  assumes "is_b64_char c"
  shows "(if (if url_safe c = CHR ''-'' then CHR ''+'' else url_safe c) = CHR ''_'' then CHR ''/''
    else if url_safe c = CHR ''-'' then CHR ''+'' else url_safe c) = c"
  using is_b64_char_not(2,3) [OF assms] by simp

lemma b64url_roundtrip:
  assumes "b64_lawful api" "b64_shape api"
  shows "b64url_decode api (b64url_encode api bs) = Inr bs"
proof -
  obtain body k where body: "b64_std_enc api bs = body @ replicate k (CHR ''='')" "k \<le> 2" "list_all is_b64_char body"
    using b64_shapeD(4) [OF assms(2)] by metis
  note len = b64_shapeD(1) [OF assms(2), of bs]
  have pad: "(4 - length body mod 4) mod 4 = k"
    using pad_len [OF len body(2)] body(1) by simp
  have "str_replace (CHR ''_'') (CHR ''/'') (str_replace (CHR ''-'') (CHR ''+'') (map url_safe body)) = body"
    unfolding str_replace_def map_map comp_def
    by (rule map_idI, rule url_safe_inverse) (use body(3) in \<open>simp add: list_all_iff\<close>)
  moreover have "length (map url_safe body) = length body" by (rule length_map)
  ultimately have "b64url_decode api (map url_safe body) = b64_std_decode api (b64_std_enc api bs)"
    unfolding b64url_decode_def Let_def body(1) by (simp only: pad)
  also have "\<dots> = Inr bs" using assms(1) by (simp add: b64_std_decode_def b64_lawful_def)
  finally show ?thesis by (simp only: b64url_encode_body [OF body(1,3)])
qed

lemma url_safe_visible:
  assumes "is_b64_char c"
  shows "32 < (of_char (url_safe c) :: nat)" "(of_char (url_safe c) :: nat) < 128" "url_safe c \<noteq> CHR ''&''"
  using assms by (auto simp: is_b64_char_def Let_def)

lemma decode_link:
  assumes "b64_shape api"
  shows "decode_pairing_data api (PAIRING_URL_SCHEME @ ''?d='' @ b64url_encode api bs) =
    decode_binary_pairing api (b64url_encode api bs)"
proof -
  obtain body k where body: "b64_std_enc api bs = body @ replicate k (CHR ''='')" "list_all is_b64_char body"
    using b64_shapeD(4) [OF assms] by metis
  define d where "d = map url_safe body"
  have d: "b64url_encode api bs = d" by (simp only: d_def b64url_encode_body [OF body])
  have vis: "32 < (of_char c :: nat) \<and> (of_char c :: nat) < 128 \<and> c \<noteq> CHR ''&''" if "c \<in> set d" for c
    using that body(2) url_safe_visible by (auto simp only: d_def list_all_iff set_map)
  let ?link = "''tp://p?d='' @ d"
  have last: "32 < (of_char (last ?link) :: nat) \<and> (of_char (last ?link) :: nat) < 128"
    using vis [OF last_in_set] by (cases "d = []") auto
  have "str_trim ?link = ?link" by (rule str_trim_visible) (use last in auto)
  moreover have "CHR ''t'' \<noteq> char_of (239 :: nat)"
    by (rule notI) (drule arg_cong [where f = "of_char :: char \<Rightarrow> nat"], simp add: of_char_of take_bit_eq_mod)
  then have "trim_bom ?link = ?link"
    unfolding trim_bom_def by (intro strip_codes_id) (simp add: starts_with_def bytes_to_string_def)
  moreover have "split_once (CHR ''?'') ?link = Some (''tp://p'', ''d='' @ d)" by simp
  moreover have "query_d (''d='' @ d) = Some d"
  proof -
    have "CHR ''&'' \<notin> set d" using vis by blast
    then have "str_split (CHR ''&'') d = [d]" by (rule str_split_single)
    then show ?thesis by (simp add: query_d_def)
  qed
  ultimately show ?thesis
    by (simp add: decode_pairing_data_def d PAIRING_URL_SCHEME_def starts_with_def)
qed

section \<open>Offsets\<close>

lemma byte_at_append [simp]: "byte_at (pre @ rest) (length pre + k) = byte_at rest k"
  by (simp add: byte_at_def)

lemma buf_slice_append [simp]: "buf_slice (pre @ rest) (length pre + k) n = buf_slice rest k n"
  by (simp add: buf_slice_def)

lemma decode_tail_append: "decode_tail api v (pre @ rest) (length pre + k) = decode_tail api v rest k"
  using byte_at_append [of pre rest "k + 16"] buf_slice_append [of pre rest "k + 17"]
  by (simp add: decode_tail_def add.assoc cong: option.case_cong if_cong)

lemma decode_rest_append: "decode_rest api v did (pre @ rest) (length pre + k) = decode_rest api v did rest k"
proof -
  have "buf_slice (pre @ rest) (length pre + k + 1 + n) m = buf_slice rest (k + 1 + n) m" for n m
    using buf_slice_append [of pre rest "k + 1 + n"] by (simp only: add.assoc)
  note slices = this [of 0, simplified] this
  have tail: "decode_tail api v (pre @ rest) (length pre + k + 1 + n + 64) = decode_tail api v rest (k + 1 + n + 64)" for n
    using decode_tail_append [of api v pre rest "k + 1 + n + 64"] by (simp only: add.assoc)
  have "buf_slice (pre @ rest) (length pre + k + 1 + n + 32) m = buf_slice rest (k + 1 + n + 32) m" for n m
    using slices(2) [of "n + 32"] by (simp only: add.assoc)
  with slices tail show ?thesis
    by (simp add: decode_rest_def Let_def del: buf_slice_append cong: option.case_cong if_cong sum.case_cong prod.case_cong)
qed

lemma utf8_valid_ascii_append: "(\<And>b. b \<in> set pre \<Longrightarrow> b \<le> 127) \<Longrightarrow> utf8_valid (pre @ bs) = utf8_valid bs"
  by (induction pre) auto

lemma rust_string_drop_prefix:
  assumes "rust_string (DAEMON_ID_PREFIX @ s)"
  shows "rust_string s"
proof -
  have "as_bytes (DAEMON_ID_PREFIX @ s) = as_bytes DAEMON_ID_PREFIX @ as_bytes s" by (simp add: as_bytes_def)
  with assms show ?thesis
    using utf8_valid_ascii_append [of "as_bytes DAEMON_ID_PREFIX" "as_bytes s"]
    by (auto simp: rust_string_def as_bytes_def DAEMON_ID_PREFIX_def)
qed

lemma unat_len_byte: "n \<le> 255 \<Longrightarrow> unat (word_of_nat n :: u8) = n"
  by (simp add: unsigned_of_nat take_bit_eq_mod)

lemma byte_at_0 [simp]: "byte_at (b # rest) 0 = Some (unat b)"
  by (simp add: byte_at_def)

lemma decode_tail_v4:
  assumes "length pid = 16" "length host \<le> 255" "from_utf8 host = Some h"
  shows "decode_tail api 4 (pid @ [word_of_nat (length host)] @ host) 0 = Some (Inr (format_uuid api pid, h))"
  using byte_at_append [of pid "[word_of_nat (length host)] @ host" 0] assms
  by (simp add: decode_tail_def buf_slice_def unat_len_byte)

lemma decode_rest_fields:
  assumes "byte_at buf 0 = Some n" "1 + n + 64 \<le> length buf"
    and "(if n = 0 then Some DEFAULT_PAIRING_RELAY_URL else from_utf8 (buf_slice buf 1 n)) = Some r"
    and "decode_tail api v buf (1 + n + 64) = Some (Inr (pid, h))"
  shows "decode_rest api v did buf 0 =
    Some (Inr \<lparr>pa_ps = b64_std_encode api (buf_slice buf (1 + n) 32), pa_pk = b64_std_encode api (buf_slice buf (1 + n + 32) 32),
      pa_relay = r, pa_did = did, pa_v = word_of_nat v, pa_pairing_id = pid, pa_hostname = h\<rparr>)"
  using assms by (cases "n = 0"; cases buf) (simp_all add: decode_rest_def Let_def)

lemma decode_rest_v4:
  assumes "length relay \<le> 255" "length ps = 32" "length pk = 32" "length pid = 16" "length host \<le> 255"
    and "(if relay = [] then Some DEFAULT_PAIRING_RELAY_URL else from_utf8 relay) = Some r" "from_utf8 host = Some h"
  shows "decode_rest api 4 did ([word_of_nat (length relay)] @ relay @ ps @ pk @ pid @ [word_of_nat (length host)] @ host) 0 =
    Some (Inr \<lparr>pa_ps = b64_std_encode api ps, pa_pk = b64_std_encode api pk, pa_relay = r, pa_did = did, pa_v = 4,
      pa_pairing_id = format_uuid api pid, pa_hostname = h\<rparr>)"
proof -
  let ?tail = "pid @ [word_of_nat (length host)] @ host"
  let ?buf = "[word_of_nat (length relay)] @ relay @ ps @ pk @ ?tail"
  have tail: "decode_tail api 4 ?buf (1 + length relay + 64) = Some (Inr (format_uuid api pid, h))"
    using decode_tail_append [of api 4 "[word_of_nat (length relay)] @ relay @ ps @ pk" ?tail 0]
      decode_tail_v4 [OF assms(4,5,7), of api] assms(2,3) by simp
  have slices: "buf_slice ?buf 1 (length relay) = relay" "buf_slice ?buf (1 + length relay) 32 = ps"
      "buf_slice ?buf (1 + length relay + 32) 32 = pk"
    using assms(2,3) buf_slice_append [of "[word_of_nat (length relay)] @ relay @ ps" "pk @ ?tail" 0 32]
    by (simp_all add: buf_slice_def)
  have len: "byte_at ?buf 0 = Some (length relay)" "1 + length relay + 64 \<le> length ?buf"
    using assms(1-4) by (simp_all add: unat_len_byte)
  have r: "(if length relay = 0 then Some DEFAULT_PAIRING_RELAY_URL else from_utf8 (buf_slice ?buf 1 (length relay))) = Some r"
    using assms(6) by (simp only: slices(1) length_0_conv)
  show ?thesis
    using decode_rest_fields [OF len r tail, of did] by (simp only: slices(2,3) of_nat_numeral)
qed

lemma decode_pairing_buf_head:
  assumes "3 \<le> v" "v \<le> 4" "did \<noteq> []" "length did \<le> 255" "from_utf8 did = Some w" "65 \<le> length rest"
  shows "decode_pairing_buf api (PAIRING_BINARY_MAGIC @ [word_of_nat v] @ [word_of_nat (length did)] @ did @ rest) =
    decode_rest api v (DAEMON_ID_PREFIX @ w) rest 0"
proof -
  let ?pre = "PAIRING_BINARY_MAGIC @ [word_of_nat v] @ [word_of_nat (length did)] @ did"
  let ?buf = "PAIRING_BINARY_MAGIC @ [word_of_nat v] @ [word_of_nat (length did)] @ did @ rest"
  have magic: "length PAIRING_BINARY_MAGIC = 2" by (simp add: PAIRING_BINARY_MAGIC_def as_bytes_def)
  have "length ?pre = 4 + length did" using magic by simp
  then have rest: "decode_rest api v u ?buf (4 + length did) = decode_rest api v u rest 0" for u
    using decode_rest_append [of api v u ?pre rest 0] by (simp only: append_assoc add_0_right)
  have "unat (word_of_nat v :: u8) = v" using assms(2) by (intro unat_len_byte) simp
  then have bytes: "byte_at ?buf 2 = Some v" "byte_at ?buf 3 = Some (length did)"
    using magic unat_len_byte [OF assms(4)]
    byte_at_append [of PAIRING_BINARY_MAGIC "[word_of_nat v] @ [word_of_nat (length did)] @ did @ rest" 0]
    byte_at_append [of "PAIRING_BINARY_MAGIC @ [word_of_nat v]" "[word_of_nat (length did)] @ did @ rest" 0]
    by simp_all
  have slices: "buf_slice ?buf 0 2 = PAIRING_BINARY_MAGIC" "buf_slice ?buf 4 (length did) = did"
    using magic buf_slice_append [of "PAIRING_BINARY_MAGIC @ [word_of_nat v] @ [word_of_nat (length did)]" "did @ rest" 0 "length did"]
    by (simp_all add: buf_slice_def)
  have len: "length ?buf = 4 + length did + length rest" "0 < length did" using magic assms(3) by simp_all
  define buf where "buf = ?buf"
  show ?thesis
    unfolding buf_def [symmetric]
    using assms(1,2,5,6) rest bytes slices len unfolding buf_def [symmetric]
    by (simp add: decode_pairing_buf_def)
qed

text \<open>The relay bytes of a link: nothing for the default relay.\<close>

definition wire_relay :: "string \<Rightarrow> u8 list" where
  "wire_relay relay =
    (if normalize_relay_for_default_match relay = normalize_relay_for_default_match DEFAULT_PAIRING_RELAY_URL
     then [] else as_bytes relay)"

text \<open>What the reader of a link is told about the relay.\<close>

definition relay_read_back :: "string \<Rightarrow> string" where
  "relay_read_back relay = (if wire_relay relay = [] then DEFAULT_PAIRING_RELAY_URL else relay)"

lemma as_bytes_eq_Nil [simp]: "as_bytes s = [] \<longleftrightarrow> s = []"
  by (simp add: as_bytes_def)

lemma encode_pairing_data_ok:
  assumes "encode_pairing_data api data = Inr link"
  obtains did ps pk pid where "pa_did data = DAEMON_ID_PREFIX @ did" "did \<noteq> []"
    "b64_std_dec api (pa_ps data) = Inr ps" "b64_std_dec api (pa_pk data) = Inr pk" "parse_uuid_16 api (pa_pairing_id data) = Inr pid"
    "length did \<le> 255" "length (wire_relay (pa_relay data)) \<le> 255" "length (pa_hostname data) \<le> 255"
    "length ps = 32" "length pk = 32"
    "link = PAIRING_URL_SCHEME @ ''?d='' @ b64url_encode api
      (pairing_buf (as_bytes did) (wire_relay (pa_relay data)) ps pk pid (as_bytes (pa_hostname data)))"
proof -
  from assms have "starts_with (pa_did data) DAEMON_ID_PREFIX"
    by (auto simp: encode_pairing_data_def split: if_splits)
  then obtain did where did: "pa_did data = DAEMON_ID_PREFIX @ did"
    by (auto simp: starts_with_iff)
  from assms obtain ps pk pid where dec: "b64_std_dec api (pa_ps data) = Inr ps" "b64_std_dec api (pa_pk data) = Inr pk"
      "parse_uuid_16 api (pa_pairing_id data) = Inr pid"
    by (auto simp: encode_pairing_data_def did b64_std_decode_def Let_def split: if_splits sum.splits)
  show thesis
    using assms by (intro that [OF did _ dec])
      (auto simp: encode_pairing_data_def did dec Let_def b64_std_decode_def wire_relay_def split: if_splits)
qed

lemma wire_relay_read_back:
  "rust_string relay \<Longrightarrow>
    (if wire_relay relay = [] then Some DEFAULT_PAIRING_RELAY_URL else from_utf8 (wire_relay relay)) = Some (relay_read_back relay)"
  by (auto simp: relay_read_back_def wire_relay_def)

lemma parse_uuid_16_length: "parse_uuid_16 api s = Inr pid \<Longrightarrow> length pid = 16"
  by (auto simp: parse_uuid_16_def Let_def split: if_splits sum.splits)

lemma pairing_link_decodes:
  assumes "b64_lawful api" "b64_shape api" "encode_pairing_data api data = Inr link"
    and "rust_string (pa_did data)" "rust_string (pa_relay data)" "rust_string (pa_hostname data)"
  shows "\<exists>ps pk pid. b64_std_dec api (pa_ps data) = Inr ps \<and> b64_std_dec api (pa_pk data) = Inr pk \<and>
    parse_uuid_16 api (pa_pairing_id data) = Inr pid \<and>
    decode_pairing_data api link = Some (Inr \<lparr>pa_ps = b64_std_enc api ps, pa_pk = b64_std_enc api pk,
      pa_relay = relay_read_back (pa_relay data), pa_did = pa_did data, pa_v = 4,
      pa_pairing_id = format_uuid api pid, pa_hostname = pa_hostname data\<rparr>)"
  using assms(3)
proof (cases rule: encode_pairing_data_ok)
  case (1 did ps pk pid)
  let ?relay = "wire_relay (pa_relay data)" and ?host = "as_bytes (pa_hostname data)"
  let ?rest = "[word_of_nat (length ?relay)] @ ?relay @ ps @ pk @ pid @ [word_of_nat (length ?host)] @ ?host"
  let ?buf = "pairing_buf (as_bytes did) ?relay ps pk pid ?host"
  note pid = parse_uuid_16_length [OF 1(5)]
  have "rust_string did" using assms(4) 1(1) rust_string_drop_prefix by simp
  then have "decode_pairing_buf api ?buf = decode_rest api 4 (pa_did data) ?rest 0"
    using decode_pairing_buf_head [of 4 "as_bytes did" did ?rest api] 1 pid
    by (simp add: pairing_buf_def PAIRING_BINARY_VERSION_def)
  moreover have "length (b64url_encode api ?buf) \<le> MAX_PAIRING_B64_LEN"
  proof -
    have "length ?buf \<le> 851" using 1 pid by (simp add: pairing_buf_def PAIRING_BINARY_MAGIC_def as_bytes_def)
    then have "length (b64_std_enc api ?buf) \<le> 2048" using b64_shapeD(2) [OF assms(2), of ?buf] by linarith
    moreover obtain body k where "b64_std_enc api ?buf = body @ replicate k (CHR ''='')" "list_all is_b64_char body"
      using b64_shapeD(4) [OF assms(2)] by metis
    ultimately show ?thesis using b64url_encode_body [of api ?buf body k] by (simp add: MAX_PAIRING_B64_LEN_def)
  qed
  ultimately have "decode_pairing_data api link = decode_rest api 4 (pa_did data) ?rest 0"
    unfolding 1(11) decode_link [OF assms(2)] by (simp add: decode_binary_pairing_def b64url_roundtrip [OF assms(1,2)])
  also have "\<dots> = Some (Inr \<lparr>pa_ps = b64_std_enc api ps, pa_pk = b64_std_enc api pk,
      pa_relay = relay_read_back (pa_relay data), pa_did = pa_did data, pa_v = 4,
      pa_pairing_id = format_uuid api pid, pa_hostname = pa_hostname data\<rparr>)"
    using decode_rest_v4 [OF _ 1(9,10) pid _ wire_relay_read_back [OF assms(5)], of ?host "pa_hostname data" api "pa_did data"]
      1(7,8) assms(6) by (simp add: b64_std_encode_def)
  finally show ?thesis using 1(3-5) by blast
qed

text \<open>C25: A pairing link reads back as the data it was made from. Whenever \<open>encode_pairing_data\<close>
  accepts a bundle, \<open>decode_pairing_data\<close> of the link neither fails nor panics; it returns the same
  daemon id and hostname, the two keys in canonical base64, the pairing id in canonical UUID form,
  version 4, and the same relay, except that a relay equivalent to the default one (or an empty one)
  comes back as the default URL.\<close>

theorem pairing_link_roundtrip:
  assumes "b64_lawful api" "b64_shape api" "encode_pairing_data api data = Inr link"
    and "rust_string (pa_did data)" "rust_string (pa_relay data)" "rust_string (pa_hostname data)"
  shows "\<exists>ps pk pid. b64_std_dec api (pa_ps data) = Inr ps \<and> b64_std_dec api (pa_pk data) = Inr pk \<and>
    parse_uuid_16 api (pa_pairing_id data) = Inr pid \<and>
    decode_pairing_data api link = Some (Inr \<lparr>pa_ps = b64_std_enc api ps, pa_pk = b64_std_enc api pk,
      pa_relay = relay_read_back (pa_relay data), pa_did = pa_did data, pa_v = 4,
      pa_pairing_id = format_uuid api pid, pa_hostname = pa_hostname data\<rparr>)"
  by (rule pairing_link_decodes [OF assms])

section \<open>Panics\<close>

lemma decode_tail_no_panic [simp]: "decode_tail api v buf off = None \<longleftrightarrow> False"
  by (auto simp: decode_tail_def byte_at_def split: option.splits)

lemma decode_rest_panics_iff: "decode_rest api v did buf off = None \<longleftrightarrow> length buf \<le> off"
  by (auto simp: decode_rest_def byte_at_def Let_def split: option.splits sum.splits if_splits)

text \<open>C27: The decoder panics on some links, and exactly on these: the payload is at least 69 bytes
  with the right magic and a version from 2 to 4, and its daemon id, valid UTF-8, ends where the
  payload ends, so that the unchecked read of \<open>relay_len\<close> is out of range. Every other payload,
  whatever it holds, gets a result.\<close>

theorem pairing_decoder_panics_iff:
  "decode_pairing_buf api buf = None \<longleftrightarrow>
    69 \<le> length buf \<and> take 2 buf = PAIRING_BINARY_MAGIC \<and> 2 \<le> unat (buf ! 2) \<and> unat (buf ! 2) \<le> 4 \<and>
    length buf = 4 + unat (buf ! 3) \<and> from_utf8 (drop 4 buf) \<noteq> None"
  by (auto simp: decode_pairing_buf_def decode_rest_panics_iff byte_at_def buf_slice_def not_le not_less
      split: option.splits if_splits)

text \<open>The shortest such payload: 69 bytes with a daemon id of 65 bytes.\<close>

lemma pairing_decoder_panic_example:
  "decode_pairing_buf api (PAIRING_BINARY_MAGIC @ [4, 65] @ replicate 65 97) = None"
proof -
  have "from_utf8 (replicate 65 97) \<noteq> None"
    using utf8_valid_ascii [of "replicate 65 (97 :: u8)"] by (simp add: from_utf8_def)
  then show ?thesis
    by (simp add: decode_pairing_buf_def decode_rest_panics_iff byte_at_def buf_slice_def
        PAIRING_BINARY_MAGIC_def as_bytes_def nth_Cons' split: option.split)
qed

section \<open>A codec that satisfies the laws\<close>

definition demo_pad_enc :: "u8 list \<Rightarrow> string" where
  "demo_pad_enc bs = demo_enc bs @ (if odd (length bs) then ''=='' else [])"

definition demo_pad_dec :: "string \<Rightarrow> string + u8 list" where
  "demo_pad_dec s = demo_dec (filter (\<lambda>c. c \<noteq> CHR ''='') s)"

definition demo_pad_api :: crypto_api where
  "demo_pad_api = demo_api\<lparr>b64_std_enc := demo_pad_enc, b64_std_dec := demo_pad_dec\<rparr>"

lemma demo_enc_chars: "list_all is_b64_char (demo_enc bs)"
proof -
  have "is_b64_char (char_of (97 + n))" if "n < 16" for n :: nat
    using that by (simp add: is_b64_char_def Let_def of_char_of take_bit_eq_mod)
  moreover have "unat b div 16 < 16" "unat b mod 16 < 16" for b :: u8
    using unsigned_less [where ?'a = nat, of b] by auto
  ultimately show ?thesis by (induction bs) (simp_all add: demo_enc_def)
qed

lemma length_demo_enc: "length (demo_enc bs) = 2 * length bs"
  by (induction bs) (simp_all add: demo_enc_def)

lemma demo_pad_lawful: "b64_lawful demo_pad_api"
proof -
  have "filter (\<lambda>c. c \<noteq> CHR ''='') (demo_pad_enc bs) = demo_enc bs" for bs
    using demo_enc_chars [of bs] is_b64_char_not(1) by (auto simp: demo_pad_enc_def list_all_iff filter_id_conv)
  then show ?thesis by (simp add: b64_lawful_def demo_pad_api_def demo_pad_dec_def demo_dec_enc)
qed

lemma demo_pad_shape: "b64_shape demo_pad_api"
proof -
  have "length (demo_pad_enc bs) mod 4 = 0" for bs
    by (auto simp: demo_pad_enc_def length_demo_enc elim!: oddE evenE)
  moreover have "bs \<noteq> [] \<Longrightarrow> demo_pad_enc bs \<noteq> []" for bs
    using length_demo_enc [of bs] by (auto simp: demo_pad_enc_def)
  moreover have "demo_pad_enc bs = demo_enc bs @ replicate (if odd (length bs) then 2 else 0) (CHR ''='')" for bs
    by (simp add: demo_pad_enc_def numeral_2_eq_2)
  then have "\<exists>body k. demo_pad_enc bs = body @ replicate k (CHR ''='') \<and> k \<le> 2 \<and> list_all is_b64_char body" for bs
    using demo_enc_chars [of bs] by (intro exI [of _ "demo_enc bs"] exI [of _ "if odd (length bs) then 2 else 0"]) simp
  ultimately show ?thesis
    by (simp add: b64_shape_def demo_pad_api_def demo_pad_enc_def length_demo_enc)
qed

definition demo_pairing :: pairing_data where
  "demo_pairing = \<lparr>pa_ps = demo_enc (replicate 32 1), pa_pk = demo_enc (replicate 32 2), pa_relay = ''wss://relay.tpmt.dev/'',
    pa_did = ''daemon-abc123'', pa_v = 4, pa_pairing_id = format_uuid demo_api (replicate 16 7), pa_hostname = ''my-macbook''\<rparr>"

lemma demo_relay_is_default:
  "normalize_relay_for_default_match (pa_relay demo_pairing) = DEFAULT_PAIRING_RELAY_URL"
  "normalize_relay_for_default_match DEFAULT_PAIRING_RELAY_URL = DEFAULT_PAIRING_RELAY_URL"
  by (simp_all add: normalize_relay_for_default_match_def demo_pairing_def DEFAULT_PAIRING_RELAY_URL_def str_trim_visible
      trim_end_matches_def ascii_lower_def)

lemma demo_pairing_ps: "b64_std_dec demo_pad_api (pa_ps demo_pairing) = Inr (replicate 32 1)" by code_simp

lemma demo_pairing_pk: "b64_std_dec demo_pad_api (pa_pk demo_pairing) = Inr (replicate 32 2)" by code_simp

lemma demo_pairing_uuid: "parse_uuid_16 demo_pad_api (pa_pairing_id demo_pairing) = Inr (replicate 16 7)" by code_simp

lemmas demo_pairing_decodes = demo_pairing_ps demo_pairing_pk demo_pairing_uuid

lemma demo_pairing_names:
  "pa_did demo_pairing = DAEMON_ID_PREFIX @ ''abc123''" "length (pa_hostname demo_pairing) = 10"
  by (simp_all add: demo_pairing_def DAEMON_ID_PREFIX_def)

lemma demo_pairing_encodes: "\<exists>link. encode_pairing_data demo_pad_api demo_pairing = Inr link"
  by (simp add: encode_pairing_data_def demo_relay_is_default demo_pairing_decodes demo_pairing_names b64_std_decode_def)

lemma demo_pairing_did: "rust_string (pa_did demo_pairing)" by code_simp

lemma demo_pairing_relay: "rust_string (pa_relay demo_pairing)" by code_simp

lemma demo_pairing_host: "rust_string (pa_hostname demo_pairing)" by code_simp

lemmas demo_pairing_strings = demo_pairing_did demo_pairing_relay demo_pairing_host

theorem pairing_link_roundtrip_witness:
  "\<exists>link. encode_pairing_data demo_pad_api demo_pairing = Inr link \<and>
    decode_pairing_data demo_pad_api link = Some (Inr (demo_pairing\<lparr>pa_relay := ''wss://relay.tpmt.dev''\<rparr>))"
proof -
  obtain link where link: "encode_pairing_data demo_pad_api demo_pairing = Inr link"
    using demo_pairing_encodes by blast
  note pairing_link_roundtrip [OF demo_pad_lawful demo_pad_shape link demo_pairing_strings]
  moreover have "relay_read_back (pa_relay demo_pairing) = ''wss://relay.tpmt.dev''"
    by (simp add: relay_read_back_def wire_relay_def demo_relay_is_default) (simp add: DEFAULT_PAIRING_RELAY_URL_def)
  moreover have "\<lparr>pa_ps = b64_std_enc demo_pad_api (replicate 32 1), pa_pk = b64_std_enc demo_pad_api (replicate 32 2),
      pa_relay = ''wss://relay.tpmt.dev'', pa_did = pa_did demo_pairing, pa_v = 4,
      pa_pairing_id = format_uuid demo_pad_api (replicate 16 7), pa_hostname = pa_hostname demo_pairing\<rparr> =
      demo_pairing\<lparr>pa_relay := ''wss://relay.tpmt.dev''\<rparr>"
    by (simp add: demo_pairing_def demo_pad_api_def demo_api_def demo_pad_enc_def format_uuid_def)
  ultimately show ?thesis using link demo_pairing_decodes(1-3) by auto
qed

end
