(* ===== verification/Pairing_Flow.thy ===== *)
theory Pairing_Flow
  imports Pairing Relay_Manager
begin

text \<open>
  Pairing a phone, on the daemon's side: the material of a pairing
  (\<open>tp-daemon/src/pairing/random_pairing_bundle.rs\<close>), the single pending pairing
  (\<open>pending_pairing.rs\<close>), its orchestrator (\<open>orchestrator.rs\<close>) and the runtime that ties it to the command
  line (\<open>PairingRuntime\<close> in \<open>daemon.rs\<close>).

  \<^item> Randomness and the clock are given by \<open>pair_env\<close>. The test factory is not modelled.
  \<^item> The pending client is an object of the pool's \<open>rm_objects\<close> that is not in \<open>rm_clients\<close>. A join signal is
    an entry of \<open>pf_signals\<close>; the client's callback keeps the number of its signal.
  \<^item> The orchestrator's lock is held over the whole of \<open>begin\<close> and of a poll, so each is one step. A spawned
    future is a \<open>pair_task\<close>, cut where it waits for the lock or awaits without it.
\<close>

section \<open>The bundle\<close>

record pair_env =
  pe_manager :: manager_env
  pe_hostname :: "string option"
  pe_now :: nat
  pe_suffix :: u32
  pe_secret_key :: "u8 list"
  pe_pairing_secret :: "u8 list"
  pe_uuid :: "u8 list"

abbreviation pe_crypto :: "pair_env \<Rightarrow> crypto_api" where
  "pe_crypto env \<equiv> ce_crypto (me_client (pe_manager env))"

record pairing_bundle =
  pb_qr_string :: string
  pb_key_pair :: kx_key_pair
  pb_pairing_secret :: "u8 list"
  pb_relay_token :: string
  pb_pairing_id :: string
  pb_hostname :: string

definition kx_random_keypair :: "pair_env \<Rightarrow> kx_key_pair" where
  "kx_random_keypair env = \<lparr>public_key = x25519_base (pe_crypto env) (pe_secret_key env), secret_key = pe_secret_key env\<rparr>"

definition random_uuid_string :: "pair_env \<Rightarrow> string" where
  "random_uuid_string env =
    (let hex = hex_encode (pe_crypto env) (pe_uuid env)
     in take 8 hex @ ''-'' @ take 4 (drop 8 hex) @ ''-'' @ take 4 (drop 12 hex) @ ''-'' @ take 4 (drop 16 hex) @ ''-'' @ take 12 (drop 20 hex))"

definition random_pairing_bundle :: "pair_env \<Rightarrow> string \<Rightarrow> string \<Rightarrow> string \<Rightarrow> tp_error + pairing_bundle" where
  "random_pairing_bundle env relay_url daemon_id hostname =
    (let key_pair = kx_random_keypair env;
         pairing_secret = pe_pairing_secret env;
         pairing_id = random_uuid_string env
     in case encode_pairing_data (pe_crypto env)
            \<lparr>pa_ps = b64_std_enc (pe_crypto env) pairing_secret, pa_pk = b64_std_enc (pe_crypto env) (public_key key_pair),
             pa_relay = relay_url, pa_did = daemon_id, pa_v = 4, pa_pairing_id = pairing_id, pa_hostname = hostname\<rparr> of
          Inl e \<Rightarrow> Inl e
        | Inr qr_string \<Rightarrow> Inr \<lparr>pb_qr_string = qr_string, pb_key_pair = key_pair, pb_pairing_secret = pairing_secret,
            pb_relay_token = derive_relay_token (pe_crypto env) pairing_secret, pb_pairing_id = pairing_id, pb_hostname = hostname\<rparr>)"

section \<open>The pending pairing\<close>

record completed =
  cp_frontend_id :: string
  cp_daemon_id :: string
  cp_relay_url :: string
  cp_relay_token :: string
  cp_registration_proof :: string
  cp_key_pair :: kx_key_pair
  cp_pairing_secret :: "u8 list"
  cp_label :: label
  cp_pairing_id :: string
  cp_hostname :: string

datatype pairing_result = Completed completed | Cancelled

record pending_pairing =
  pp_pairing_id :: string
  pp_relay_url :: string
  pp_daemon_id :: string
  pp_label :: label
  pp_hostname :: string
  pp_relay :: "nat option"
  pp_key_pair :: "kx_key_pair option"
  pp_pairing_secret :: "u8 list option"
  pp_relay_token :: string
  pp_registration_proof :: string
  pp_qr_string :: string
  pp_wire_pairing_id :: string
  pp_wire_hostname :: string
  pp_settled :: bool
  pp_resolved :: "pairing_result option"

definition hex_digit :: "nat \<Rightarrow> char" where
  "hex_digit d = (if d < 10 then char_of (48 + d) else char_of (87 + d))"

fun hex_loop :: "nat \<Rightarrow> string" where
  "hex_loop n = (if n = 0 then [] else hex_loop (n div 16) @ [hex_digit (n mod 16)])"

declare hex_loop.simps [simp del]

text \<open>Rust's \<open>{:x}\<close>.\<close>

definition show_hex :: "nat \<Rightarrow> string" where
  "show_hex n = (if n = 0 then ''0'' else hex_loop n)"

definition pending_new :: "pair_env \<Rightarrow> string \<Rightarrow> string \<Rightarrow> label \<Rightarrow> string \<Rightarrow> pending_pairing" where
  "pending_new env relay_url daemon_id label hostname =
    \<lparr>pp_pairing_id = ''pp-'' @ show_hex (pe_now env) @ ''-'' @ show_hex (unat (pe_suffix env)), pp_relay_url = relay_url,
     pp_daemon_id = daemon_id, pp_label = label, pp_hostname = hostname, pp_relay = None, pp_key_pair = None, pp_pairing_secret = None,
     pp_relay_token = [], pp_registration_proof = [], pp_qr_string = [], pp_wire_pairing_id = [], pp_wire_hostname = [],
     pp_settled = False, pp_resolved = None\<rparr>"

definition pending_config :: "pending_pairing \<Rightarrow> pairing_bundle \<Rightarrow> relay_client_config" where
  "pending_config pp b = \<lparr>cf_relay_url = pp_relay_url pp, cf_daemon_id = pp_daemon_id pp, cf_token = pp_relay_token pp,
     cf_registration_proof = pp_registration_proof pp, cf_key_pair = pb_key_pair b, cf_pairing_secret = pb_pairing_secret b,
     cf_label = Some (pp_label pp), cf_pairing_id = pp_wire_pairing_id pp, cf_hostname = pp_wire_hostname pp\<rparr>"

definition with_bundle :: "crypto_api \<Rightarrow> pairing_bundle \<Rightarrow> pending_pairing \<Rightarrow> pending_pairing" where
  "with_bundle api b pp =
    pp\<lparr>pp_key_pair := Some (pb_key_pair b), pp_pairing_secret := Some (pb_pairing_secret b), pp_relay_token := pb_relay_token b,
       pp_wire_pairing_id := pb_pairing_id b, pp_wire_hostname := pb_hostname b,
       pp_registration_proof := derive_registration_proof api (pb_pairing_secret b), pp_qr_string := pb_qr_string b\<rparr>"

definition pending_begin ::
  "pair_env \<Rightarrow> pending_pairing \<Rightarrow> relay_manager \<Rightarrow> (string + string \<times> string \<times> string) \<times> pending_pairing \<times> relay_manager" where
  "pending_begin env pp rm =
    (case random_pairing_bundle env (pp_relay_url pp) (pp_daemon_id pp) (pp_hostname pp) of
       Inl e \<Rightarrow> (Inl (show_tp_error e), pp, rm)
     | Inr b \<Rightarrow>
         let pp = with_bundle (pe_crypto env) b pp
         in if pp_settled pp then (Inl ''pairing cancelled before relay creation'', pp, rm)
            else
              let i = length (rm_objects rm);
                  client = rc_connect (me_client (pe_manager env)) (me_handshake (pe_manager env) (pp_relay_url pp)) (client_new (pending_config pp b));
                  pp = pp\<lparr>pp_relay := Some i\<rparr>
              in if pp_settled pp
                 then (Inl ''pairing cancelled during relay connect'', pp, rm\<lparr>rm_objects := rm_objects rm @ [client]\<rparr>)
                 else (Inr (pp_pairing_id pp, pp_qr_string pp, pp_daemon_id pp), pp,
                       rm\<lparr>rm_objects := rm_objects rm @ [rc_subscribe RELAY_CHANNEL_CONTROL (rc_subscribe RELAY_CHANNEL_META client)]\<rparr>))"

definition mark_completed :: "string \<Rightarrow> pending_pairing \<Rightarrow> pending_pairing" where
  "mark_completed frontend_id pp =
    (if pp_settled pp then pp
     else (case (pp_key_pair pp, pp_pairing_secret pp) of
             (Some key_pair, Some pairing_secret) \<Rightarrow>
               pp\<lparr>pp_settled := True, pp_resolved := Some (Completed \<lparr>cp_frontend_id = frontend_id, cp_daemon_id = pp_daemon_id pp,
                 cp_relay_url = pp_relay_url pp, cp_relay_token = pp_relay_token pp, cp_registration_proof = pp_registration_proof pp,
                 cp_key_pair = key_pair, cp_pairing_secret = pairing_secret, cp_label = pp_label pp,
                 cp_pairing_id = pp_wire_pairing_id pp, cp_hostname = pp_wire_hostname pp\<rparr>)\<rparr>
           | _ \<Rightarrow> pp))"

definition pending_completed :: "pending_pairing \<Rightarrow> bool" where
  "pending_completed pp = (case pp_resolved pp of Some (Completed _) \<Rightarrow> True | _ \<Rightarrow> False)"

definition dispose_opt :: "nat option \<Rightarrow> relay_manager \<Rightarrow> relay_manager" where
  "dispose_opt relay rm = (case relay of Some i \<Rightarrow> rm_update i dispose rm | None \<Rightarrow> rm)"

definition pending_cancel :: "pending_pairing \<Rightarrow> relay_manager \<Rightarrow> pending_pairing \<times> relay_manager" where
  "pending_cancel pp rm =
    (if pp_settled pp then (pp, rm)
     else (pp\<lparr>pp_settled := True, pp_relay := None, pp_key_pair := None, pp_pairing_secret := None, pp_resolved := Some Cancelled\<rparr>,
           dispose_opt (pp_relay pp) rm))"

definition release_relay :: "pending_pairing \<Rightarrow> nat option \<times> pending_pairing" where
  "release_relay pp = (pp_relay pp, pp\<lparr>pp_relay := None\<rparr>)"

section \<open>The orchestrator\<close>

datatype begin_error = AlreadyPending | DaemonIdTaken | RelayUnreachable string

fun begin_error_message :: "begin_error \<Rightarrow> string" where
  "begin_error_message AlreadyPending = ''already-pending''"
| "begin_error_message DaemonIdTaken = ''daemon-id-taken''"
| "begin_error_message (RelayUnreachable e) = ''relay-unreachable: '' @ e"

fun begin_error_reason :: "begin_error \<Rightarrow> pair_begin_err_reason" where
  "begin_error_reason AlreadyPending = BeginErrAlreadyPending"
| "begin_error_reason DaemonIdTaken = BeginErrDaemonIdTaken"
| "begin_error_reason (RelayUnreachable _) = BeginErrRelayUnreachable"

record begin_result =
  br_pairing_id :: string
  br_qr_string :: string
  br_daemon_id :: string

datatype pair_task =
    Begin nat string "string option" "label option"
  | Begun nat begin_result
  | Watch nat string string
  | Cancel "string option"
  | Rollback nat string string string
  | Clear_slot nat string string
  | Finished

record pairing_flow =
  pf_rm :: relay_manager
  pf_pending :: "pending_pairing option"
  pf_join :: "nat option"
  pf_signals :: "string option list"
  pf_owner :: "nat option"
  pf_save_error :: "string option"
  pf_ipc :: ipc_server
  pf_tasks :: "pair_task list"

definition flow_new :: "relay_manager \<Rightarrow> ipc_server \<Rightarrow> pairing_flow" where
  "flow_new rm srv = \<lparr>pf_rm = rm, pf_pending = None, pf_join = None, pf_signals = [], pf_owner = None, pf_save_error = None,
     pf_ipc = srv, pf_tasks = []\<rparr>"

definition safe_hostname :: "pair_env \<Rightarrow> string" where
  "safe_hostname env = (case pe_hostname env of Some h \<Rightarrow> if length h \<le> 255 then h else [] | None \<Rightarrow> [])"

definition daemon_id_taken :: "pair_env \<Rightarrow> string \<Rightarrow> pairing_flow \<Rightarrow> bool" where
  "daemon_id_taken env daemon_id pf \<longleftrightarrow>
    (\<exists>p \<in> set (ok_or_nil (list_pairings (me_store (pe_manager env)) (rm_store (pf_rm pf)))). psm_daemon_id p = daemon_id)"

definition orch_begin ::
  "pair_env \<Rightarrow> string \<Rightarrow> string option \<Rightarrow> label option \<Rightarrow> pairing_flow \<Rightarrow> (begin_error + begin_result) \<times> pairing_flow" where
  "orch_begin env relay_url daemon_id label pf =
    (if pf_pending pf \<noteq> None then (Inl AlreadyPending, pf)
     else
       let daemon_id = (case daemon_id of Some d \<Rightarrow> d | None \<Rightarrow> ''daemon-'' @ show_hex (pe_now env))
       in if daemon_id_taken env daemon_id pf then (Inl DaemonIdTaken, pf)
          else
            let label = (case label of Some l \<Rightarrow> l | None \<Rightarrow> LUnset);
                signal = length (pf_signals pf);
                pf = pf\<lparr>pf_signals := pf_signals pf @ [None]\<rparr>;
                (r, pp, rm) = pending_begin env (pending_new env relay_url daemon_id label (safe_hostname env)) (pf_rm pf)
            in case r of
                 Inr (pairing_id, qr_string, daemon_id) \<Rightarrow>
                   (Inr \<lparr>br_pairing_id = pairing_id, br_qr_string = qr_string, br_daemon_id = daemon_id\<rparr>,
                    pf\<lparr>pf_rm := rm, pf_pending := Some pp, pf_join := Some signal\<rparr>)
               | Inl err \<Rightarrow> (Inl (RelayUnreachable err), pf\<lparr>pf_rm := snd (pending_cancel pp rm)\<rparr>))"

text \<open>The wrapped \<open>on_frontend_joined\<close> of the client with signal \<open>k\<close>: the pool's handler, then the record.\<close>

definition frontend_joined :: "pair_env \<Rightarrow> nat \<Rightarrow> label \<Rightarrow> string \<Rightarrow> string \<Rightarrow> pairing_flow \<Rightarrow> pairing_flow" where
  "frontend_joined env k label daemon_id frontend_id pf =
    (let pf = pf\<lparr>pf_rm := build_events (pe_manager env) (Some label) daemon_id (On_frontend_joined frontend_id) (pf_rm pf)\<rparr>
     in if pf_signals pf ! k = None then pf\<lparr>pf_signals := (pf_signals pf)[k := Some frontend_id]\<rparr> else pf)"

text \<open>\<open>wait_for_join\<close> within the poll window: a join that has been recorded settles the pairing.\<close>

definition wait_for_join :: "pairing_flow \<Rightarrow> pairing_flow" where
  "wait_for_join pf =
    (case Option.bind (pf_join pf) (\<lambda>k. pf_signals pf ! k) of
       Some frontend_id \<Rightarrow> pf\<lparr>pf_pending := map_option (mark_completed frontend_id) (pf_pending pf)\<rparr>
     | None \<Rightarrow> pf)"

definition orch_cancel :: "string option \<Rightarrow> pairing_flow \<Rightarrow> pairing_flow" where
  "orch_cancel pairing_id pf =
    (case pf_pending pf of
       None \<Rightarrow> pf
     | Some pp \<Rightarrow>
         if (case pairing_id of Some pid \<Rightarrow> pp_pairing_id pp \<noteq> pid | None \<Rightarrow> False) then pf
         else if pending_completed pp then pf
         else pf\<lparr>pf_rm := snd (pending_cancel pp (pf_rm pf)), pf_pending := None, pf_join := None\<rparr>)"

definition completed_input :: "completed \<Rightarrow> save_pairing_input" where
  "completed_input c = \<lparr>sp_daemon_id = cp_daemon_id c, sp_relay_url = cp_relay_url c, sp_relay_token = cp_relay_token c,
     sp_registration_proof = cp_registration_proof c, sp_public_key = public_key (cp_key_pair c), sp_secret_key = secret_key (cp_key_pair c),
     sp_pairing_secret = cp_pairing_secret c, sp_label = Some (cp_label c), sp_pairing_id = cp_pairing_id c, sp_hostname = cp_hostname c\<rparr>"

definition flow_save_pairing :: "pair_env \<Rightarrow> completed \<Rightarrow> pairing_flow \<Rightarrow> pairing_flow" where
  "flow_save_pairing env c pf =
    (let (r, st) = save_pairing (me_store (pe_manager env)) (completed_input c) (rm_store (pf_rm pf));
         pf = pf\<lparr>pf_rm := (pf_rm pf)\<lparr>rm_store := st\<rparr>\<rparr>
     in case r of Inl e \<Rightarrow> pf\<lparr>pf_save_error := Some (store_error_message e)\<rparr> | Inr _ \<Rightarrow> pf)"

definition orch_promote :: "pair_env \<Rightarrow> completed \<Rightarrow> pairing_flow \<Rightarrow> pairing_flow" where
  "orch_promote env c pf =
    (let pf = flow_save_pairing env c pf;
         pf = (case Option.bind (pf_pending pf) (\<lambda>pp. fst (release_relay pp)) of
                 Some i \<Rightarrow> pf\<lparr>pf_rm := register_client (pe_manager env) i (pf_rm pf)\<rparr>
               | None \<Rightarrow> pf)
     in pf\<lparr>pf_pending := None, pf_join := None\<rparr>)"

definition clear_pending :: "pairing_flow \<Rightarrow> pairing_flow" where
  "clear_pending pf =
    (let relay = Option.bind (pf_pending pf) (\<lambda>pp. fst (release_relay pp))
     in pf\<lparr>pf_join := None, pf_pending := None, pf_rm := dispose_opt relay (pf_rm pf)\<rparr>)"

definition orch_stop :: "pairing_flow \<Rightarrow> pairing_flow" where
  "orch_stop pf =
    (case pf_pending pf of
       None \<Rightarrow> pf\<lparr>pf_join := None\<rparr>
     | Some pp \<Rightarrow>
         let (pp, rm) = pending_cancel pp (pf_rm pf)
         in pf\<lparr>pf_join := None, pf_pending := None, pf_rm := dispose_opt (fst (release_relay pp)) rm\<rparr>)"

section \<open>The runtime\<close>

definition flow_send :: "nat \<Rightarrow> ipc_message \<Rightarrow> pairing_flow \<Rightarrow> pairing_flow" where
  "flow_send runner msg pf = pf\<lparr>pf_ipc := snd (ipc_send runner msg (pf_ipc pf))\<rparr>"

definition flow_spawn :: "pair_task \<Rightarrow> pairing_flow \<Rightarrow> pairing_flow" where
  "flow_spawn t pf = pf\<lparr>pf_tasks := pf_tasks pf @ [t]\<rparr>"

definition clear_owner_if :: "nat \<Rightarrow> pairing_flow \<Rightarrow> pairing_flow" where
  "clear_owner_if runner pf = (if pf_owner pf = Some runner then pf\<lparr>pf_owner := None\<rparr> else pf)"

definition on_pair_begin :: "nat \<Rightarrow> string \<Rightarrow> string option \<Rightarrow> label option \<Rightarrow> pairing_flow \<Rightarrow> pairing_flow" where
  "on_pair_begin runner relay_url daemon_id label pf = flow_spawn (Begin runner relay_url daemon_id label) pf"

definition handle_pair_cancel :: "nat \<Rightarrow> string \<Rightarrow> pairing_flow \<Rightarrow> pairing_flow" where
  "handle_pair_cancel runner pairing_id pf =
    (if pf_owner pf \<noteq> None \<and> pf_owner pf \<noteq> Some runner then pf else flow_spawn (Cancel (Some pairing_id)) pf)"

definition handle_cli_disconnect :: "nat \<Rightarrow> pairing_flow \<Rightarrow> pairing_flow" where
  "handle_cli_disconnect runner pf =
    (if pf_owner pf = Some runner then flow_spawn (Cancel None) (pf\<lparr>pf_owner := None\<rparr>) else pf)"

definition begin_step :: "pair_env \<Rightarrow> nat \<Rightarrow> string \<Rightarrow> string option \<Rightarrow> label option \<Rightarrow> pairing_flow \<Rightarrow> pair_task \<times> pairing_flow" where
  "begin_step env runner relay_url daemon_id label pf =
    (let (r, pf) = orch_begin env relay_url daemon_id label pf
     in case r of
          Inr info \<Rightarrow> (Begun runner info, pf)
        | Inl err \<Rightarrow> (Finished, flow_send runner (IpcPairBeginErr (begin_error_reason err) (Some (begin_error_message err))) pf))"

definition begun_step :: "nat \<Rightarrow> begin_result \<Rightarrow> pairing_flow \<Rightarrow> pair_task \<times> pairing_flow" where
  "begun_step runner info pf =
    (Watch runner (br_pairing_id info) (br_daemon_id info),
     flow_send runner (IpcPairBeginOk (br_pairing_id info) (br_qr_string info) (br_daemon_id info)) (pf\<lparr>pf_owner := Some runner\<rparr>))"

text \<open>One turn of the loop of \<open>watch_pending\<close>: the poll under the lock and what it leads to.\<close>

definition watch_step :: "pair_env \<Rightarrow> nat \<Rightarrow> string \<Rightarrow> string \<Rightarrow> pairing_flow \<Rightarrow> pair_task \<times> pairing_flow" where
  "watch_step env runner pairing_id daemon_id pf =
    (let pf = wait_for_join pf;
         cancelled = (Finished, flow_send runner (IpcPairCancelled pairing_id) (clear_owner_if runner pf))
     in case Option.bind (pf_pending pf) pp_resolved of
          Some (Completed c) \<Rightarrow>
            let pf = clear_owner_if runner (orch_promote env c pf)
            in (case pf_save_error pf of
                  Some message \<Rightarrow> (Rollback runner pairing_id daemon_id message, pf\<lparr>pf_save_error := None\<rparr>)
                | None \<Rightarrow> (Finished, flow_send runner (IpcPairCompleted pairing_id daemon_id (cp_label c)) pf))
        | Some Cancelled \<Rightarrow> cancelled
        | None \<Rightarrow> if pf_pending pf \<noteq> None then (Watch runner pairing_id daemon_id, pf) else cancelled)"

fun pair_step :: "pair_env \<Rightarrow> pair_task \<Rightarrow> pairing_flow \<Rightarrow> pair_task \<times> pairing_flow" where
  "pair_step env (Begin runner relay_url daemon_id label) pf = begin_step env runner relay_url daemon_id label pf"
| "pair_step env (Begun runner info) pf = begun_step runner info pf"
| "pair_step env (Watch runner pairing_id daemon_id) pf = watch_step env runner pairing_id daemon_id pf"
| "pair_step env (Cancel pairing_id) pf = (Finished, orch_cancel pairing_id pf)"
| "pair_step env (Rollback runner pairing_id daemon_id message) pf =
    (Clear_slot runner pairing_id message, pf\<lparr>pf_rm := snd (remove_pairing (pe_manager env) daemon_id False (pf_rm pf))\<rparr>)"
| "pair_step env (Clear_slot runner pairing_id message) pf =
    (Finished, flow_send runner (IpcPairError pairing_id PairErrInternal (Some message)) (clear_pending pf))"
| "pair_step env Finished pf = (Finished, pf)"

definition pair_run :: "pair_env \<Rightarrow> nat \<Rightarrow> pairing_flow \<Rightarrow> pairing_flow" where
  "pair_run env i pf = (let (t, pf) = pair_step env (pf_tasks pf ! i) pf in pf\<lparr>pf_tasks := (pf_tasks pf)[i := t]\<rparr>)"

section \<open>The flow as a transition system\<close>

lemma rm_objects_length [simp]:
  "length (rm_objects (drop_client client rm)) = length (rm_objects rm)" "length (rm_objects (register_client env i rm)) = length (rm_objects rm)"
  "length (rm_objects (dispose_opt relay rm)) = length (rm_objects rm)" "length (rm_objects (on_control_message msg fid rm)) = length (rm_objects rm)"
  "length (rm_objects (handle_frontend_joined menv fid label rm)) = length (rm_objects rm)" "length (rm_objects (with_tokens f rm)) = length (rm_objects rm)"
  "length (rm_objects (on_input menv kind sid data fid rm)) = length (rm_objects rm)" "length (rm_objects (on_peer_confirmed menv did fid pct pk rm)) = length (rm_objects rm)"
  by (auto simp: drop_client_def register_client_def dispose_opt_def on_control_message_def handle_frontend_joined_def with_tokens_def on_input_def
      on_peer_confirmed_def Let_def split: option.split prod.split)

lemma remove_pairing_objects [simp]:
  "length (rm_objects (snd (remove_begin env did rm))) = length (rm_objects rm)"
  "length (rm_objects (snd (remove_rest env did notify client rm))) = length (rm_objects rm)"
  "length (rm_objects (snd (remove_pairing env did notify rm))) = length (rm_objects rm)"
proof -
  show head: "length (rm_objects (snd (remove_begin env did rm))) = length (rm_objects rm)" for rm by (simp add: remove_begin_def)
  have rest: "length (rm_objects (snd (remove_rest env did notify client rm))) = length (rm_objects rm)" for client rm
    using notify_unpair_keeps(5) [of env notify client rm] by (simp add: remove_rest_def case_prod_beta Let_def)
  then show "length (rm_objects (snd (remove_rest env did notify client rm))) = length (rm_objects rm)" .
  show "length (rm_objects (snd (remove_pairing env did notify rm))) = length (rm_objects rm)"
    using head [of rm] by (auto simp: remove_pairing_def rest split: prod.split sum.split)
qed

lemma build_events_objects [simp]: "length (rm_objects (build_events env label did ev rm)) = length (rm_objects rm)"
  by (cases ev) simp_all

lemma fold_update_objects [simp]: "length (rm_objects (fold (\<lambda>i. rm_update i (f i)) is rm)) = length (rm_objects rm)"
  by (induction "is" arbitrary: rm) simp_all

lemma reconnect_loop_objects: "length (rm_objects rm) \<le> length (rm_objects (snd (reconnect_loop env ps n rm)))"
proof (induction ps arbitrary: n rm)
  case (Cons p ps)
  have "length (rm_objects rm) \<le> length (rm_objects (snd (add_client env (saved_config p) rm)))"
    by (auto simp: add_client_def Let_def split: prod.split sum.split)
  with Cons.IH show ?case by (auto simp: case_prod_beta Let_def intro: le_trans)
qed simp

lemma rm_step_objects: "rm_step api rm rm' \<Longrightarrow> length (rm_objects rm) \<le> length (rm_objects rm')"
  by (induction rule: rm_step.induct)
    (auto simp: add_client_def reconnect_saved_def reconnect_loop_objects rename_pairing_def dispatch_push_def rm_stop_def Let_def case_prod_beta
      split: prod.split sum.split option.split)

text \<open>The slot: its client is an object outside the pool, and it is settled only by completion.\<close>

definition slot_ok :: "pairing_flow \<Rightarrow> pending_pairing \<Rightarrow> bool" where
  "slot_ok pf pp \<longleftrightarrow> (\<exists>i. pp_relay pp = Some i \<and> i < length (rm_objects (pf_rm pf)) \<and> i \<notin> set (rm_clients (pf_rm pf))) \<and>
     (\<exists>k. pf_join pf = Some k \<and> k < length (pf_signals pf)) \<and> pp_key_pair pp \<noteq> None \<and> pp_pairing_secret pp \<noteq> None \<and>
     (if pp_settled pp then pending_completed pp else pp_resolved pp = None)"

definition pf_inv :: "crypto_api \<Rightarrow> pairing_flow \<Rightarrow> bool" where
  "pf_inv api pf \<longleftrightarrow> rm_inv api (pf_rm pf) \<and> (case pf_pending pf of None \<Rightarrow> pf_join pf = None | Some pp \<Rightarrow> slot_ok pf pp)"

inductive pf_step :: "crypto_api \<Rightarrow> pairing_flow \<Rightarrow> pairing_flow \<Rightarrow> bool" for api where
  runs: "pe_crypto env = api \<Longrightarrow> i < length (pf_tasks pf) \<Longrightarrow> pf_step api pf (pair_run env i pf)"
| begins: "pf_step api pf (on_pair_begin runner url did label pf)"
| cancels: "pf_step api pf (handle_pair_cancel runner pid pf)"
| disconnects: "pf_step api pf (handle_cli_disconnect runner pf)"
| joins: "pe_crypto env = api \<Longrightarrow> k < length (pf_signals pf) \<Longrightarrow> pf_step api pf (frontend_joined env k label did fid pf)"
| stops: "pf_step api pf (orch_stop pf)"
| pool_acts: "rm_step api (pf_rm pf) rm \<Longrightarrow> (\<And>pp i. pf_pending pf = Some pp \<Longrightarrow> pp_relay pp = Some i \<Longrightarrow> i \<notin> set (rm_clients rm)) \<Longrightarrow>
    pf_step api pf (pf\<lparr>pf_rm := rm\<rparr>)"
| server_acts: "pf_step api pf (pf\<lparr>pf_ipc := srv\<rparr>)"

lemma pf_inv_fields:
  "pf_inv api (pf\<lparr>pf_owner := ow\<rparr>) = pf_inv api pf" "pf_inv api (pf\<lparr>pf_ipc := srv\<rparr>) = pf_inv api pf" "pf_inv api (pf\<lparr>pf_tasks := ts\<rparr>) = pf_inv api pf"
  "pf_inv api (pf\<lparr>pf_save_error := e\<rparr>) = pf_inv api pf" "pf_inv api (flow_send r m pf) = pf_inv api pf" "pf_inv api (flow_spawn t pf) = pf_inv api pf"
  "pf_inv api (clear_owner_if r pf) = pf_inv api pf"
  by (simp_all add: pf_inv_def slot_ok_def flow_send_def flow_spawn_def clear_owner_if_def split: option.split)

lemma pf_inv_rm:
  assumes "pf_inv api pf" "rm_inv api rm" "length (rm_objects (pf_rm pf)) \<le> length (rm_objects rm)"
    "\<And>pp i. pf_pending pf = Some pp \<Longrightarrow> pp_relay pp = Some i \<Longrightarrow> i \<notin> set (rm_clients rm)"
  shows "pf_inv api (pf\<lparr>pf_rm := rm\<rparr>)"
  using assms by (auto simp: pf_inv_def slot_ok_def split: option.splits)

lemma pf_inv_free: "rm_inv api rm \<Longrightarrow> pf_inv api (pf\<lparr>pf_rm := rm, pf_pending := None, pf_join := None\<rparr>)"
  by (simp add: pf_inv_def)

lemma dispose_opt_inv: "rm_inv api rm \<Longrightarrow> rm_inv api (dispose_opt relay rm)"
  by (simp add: dispose_opt_def rm_inv_update dispose_inv split: option.split)

lemma pending_cancel_inv: "rm_inv api rm \<Longrightarrow> rm_inv api (snd (pending_cancel pp rm))"
  by (simp add: pending_cancel_def dispose_opt_inv)

lemma clients_keep [simp]:
  "rm_clients (dispose_opt relay rm) = rm_clients rm" "rm_clients (handle_frontend_joined menv fid label rm) = rm_clients rm"
  by (auto simp: dispose_opt_def handle_frontend_joined_def split: option.split)

lemma remove_pairing_clients: "set (rm_clients (snd (remove_pairing env did notify rm))) \<subseteq> set (rm_clients rm)"
proof -
  have rest: "set (rm_clients (snd (remove_rest env did notify client rm))) \<subseteq> set (rm_clients rm)" for client rm
    using notify_unpair_keeps(2) [of env notify client rm]
    by (auto simp: remove_rest_def case_prod_beta Let_def drop_client_def split: option.split dest: subsetD [OF set_remove1_subset])
  show ?thesis
    using rest [of "find_client did rm" "rm\<lparr>rm_removing := did # rm_removing rm\<rparr>"]
    by (auto simp: remove_pairing_def remove_begin_def)
qed
lemma pending_begin_ok:
  assumes "rm_inv (pe_crypto env) rm" "\<not> pp_settled pp"
  defines "r \<equiv> pending_begin env pp rm"
  shows "rm_inv (pe_crypto env) (snd (snd r))" "rm_clients (snd (snd r)) = rm_clients rm" "length (rm_objects rm) \<le> length (rm_objects (snd (snd r)))"
    "fst r = Inr info \<Longrightarrow> \<exists>b. random_pairing_bundle env (pp_relay_url pp) (pp_daemon_id pp) (pp_hostname pp) = Inr b \<and>
      fst (snd r) = (with_bundle (pe_crypto env) b pp)\<lparr>pp_relay := Some (length (rm_objects rm))\<rparr> \<and>
      length (rm_objects (snd (snd r))) = Suc (length (rm_objects rm)) \<and> info = (pp_pairing_id pp, pb_qr_string b, pp_daemon_id pp) \<and>
      rc_config (rm_client (length (rm_objects rm)) (snd (snd r))) = pending_config (with_bundle (pe_crypto env) b pp) b"
proof -
  have settled: "pp_settled (with_bundle api b pp) = pp_settled pp" for api b by (simp add: with_bundle_def)
  let ?c = "\<lambda>b. rc_connect (me_client (pe_manager env)) (me_handshake (pe_manager env) (pp_relay_url (with_bundle (pe_crypto env) b pp)))
      (client_new (pending_config (with_bundle (pe_crypto env) b pp) b))"
  have "client_inv (pe_crypto env) (rc_subscribe RELAY_CHANNEL_CONTROL (rc_subscribe RELAY_CHANNEL_META (?c b)))" for b
    by (intro client_inv_ops rc_connect_inv client_inv_new)
  then have "rm_inv (pe_crypto env) (rm\<lparr>rm_objects := rm_objects rm @ [rc_subscribe RELAY_CHANNEL_CONTROL (rc_subscribe RELAY_CHANNEL_META (?c b))]\<rparr>)" for b
    using assms(1) by (auto simp: rm_inv_def pool_ok_def less_Suc_eq)
  then show "rm_inv (pe_crypto env) (snd (snd r))"
    using assms(1,2) by (simp add: r_def pending_begin_def Let_def settled split: sum.split)
  show "rm_clients (snd (snd r)) = rm_clients rm" "length (rm_objects rm) \<le> length (rm_objects (snd (snd r)))"
    by (simp_all add: r_def pending_begin_def Let_def split: sum.split)
  assume "fst r = Inr info"
  then show "\<exists>b. random_pairing_bundle env (pp_relay_url pp) (pp_daemon_id pp) (pp_hostname pp) = Inr b \<and>
      fst (snd r) = (with_bundle (pe_crypto env) b pp)\<lparr>pp_relay := Some (length (rm_objects rm))\<rparr> \<and>
      length (rm_objects (snd (snd r))) = Suc (length (rm_objects rm)) \<and> info = (pp_pairing_id pp, pb_qr_string b, pp_daemon_id pp) \<and>
      rc_config (rm_client (length (rm_objects rm)) (snd (snd r))) = pending_config (with_bundle (pe_crypto env) b pp) b"
    using assms(2)
    by (auto simp: r_def pending_begin_def Let_def settled config_of_client rm_client_def split: sum.splits) (simp_all add: with_bundle_def)
qed

text \<open>The pending pairing right after \<open>begin\<close>, with the bundle it was given.\<close>

definition begun_with :: "crypto_api \<Rightarrow> string \<Rightarrow> string \<Rightarrow> pairing_bundle \<Rightarrow> pending_pairing \<Rightarrow> bool" where
  "begun_with api url did b pp \<longleftrightarrow> pp_relay_url pp = url \<and> pp_daemon_id pp = did \<and> pp_relay_token pp = pb_relay_token b \<and>
     pp_registration_proof pp = derive_registration_proof api (pb_pairing_secret b) \<and> pp_wire_pairing_id pp = pb_pairing_id b \<and>
     pp_wire_hostname pp = pb_hostname b \<and> \<not> pp_settled pp"

lemma orch_begin_ok:
  assumes "pf_inv (pe_crypto env) pf"
  shows "pf_inv (pe_crypto env) (snd (orch_begin env url did label pf))"
    "fst (orch_begin env url did label pf) = Inr info \<Longrightarrow> \<exists>pp b i. pf_pending (snd (orch_begin env url did label pf)) = Some pp \<and> pp_pairing_id pp = br_pairing_id info \<and>
      begun_with (pe_crypto env) url (br_daemon_id info) b pp \<and> pp_relay pp = Some i \<and> pb_qr_string b = br_qr_string info \<and>
      random_pairing_bundle env url (br_daemon_id info) (safe_hostname env) = Inr b \<and>
      rc_config (rm_client i (pf_rm (snd (orch_begin env url did label pf)))) = pending_config pp b"
proof -
  let ?did = "case did of Some d \<Rightarrow> d | None \<Rightarrow> ''daemon-'' @ show_hex (pe_now env)" and ?label = "case label of Some l \<Rightarrow> l | None \<Rightarrow> LUnset"
  let ?pp = "pending_new env url ?did ?label (safe_hostname env)"
  obtain r pp rm where b: "pending_begin env ?pp (pf_rm pf) = (r, pp, rm)" by (metis prod_cases3)
  have fresh: "\<not> pp_settled ?pp" "pp_resolved ?pp = None" "pp_relay_url ?pp = url" "pp_daemon_id ?pp = ?did" "pp_hostname ?pp = safe_hostname env"
    by (simp_all add: pending_new_def)
  have rm0: "rm_inv (pe_crypto env) (pf_rm pf)" using assms by (simp add: pf_inv_def)
  note begun = pending_begin_ok [OF rm0 fresh(1), unfolded b fst_conv snd_conv fresh(3-5)]
  have run: "orch_begin env url did label pf = (if pf_pending pf \<noteq> None then (Inl AlreadyPending, pf)
      else if daemon_id_taken env ?did pf then (Inl DaemonIdTaken, pf)
      else case r of Inr (pairing_id, qr, d) \<Rightarrow> (Inr \<lparr>br_pairing_id = pairing_id, br_qr_string = qr, br_daemon_id = d\<rparr>,
               pf\<lparr>pf_signals := pf_signals pf @ [None], pf_rm := rm, pf_pending := Some pp, pf_join := Some (length (pf_signals pf))\<rparr>)
           | Inl err \<Rightarrow> (Inl (RelayUnreachable err), pf\<lparr>pf_signals := pf_signals pf @ [None], pf_rm := snd (pending_cancel pp rm)\<rparr>))"
    using b by (simp add: orch_begin_def Let_def del: append.simps)
  show "pf_inv (pe_crypto env) (snd (orch_begin env url did label pf))"
  proof (cases r)
    case (Inl err)
    then show ?thesis using assms pending_cancel_inv [OF begun(1), of pp] by (auto simp: run pf_inv_def)
  next
    case (Inr info)
    from begun(4) [OF Inr] fresh(1,2) rm0 begun(1,2) show ?thesis using Inr assms
      by (auto simp: run pf_inv_def slot_ok_def with_bundle_def rm_inv_def pool_ok_def split: prod.split)
  qed
  assume "fst (orch_begin env url did label pf) = Inr info"
  then obtain qr where r: "r = Inr (br_pairing_id info, qr, br_daemon_id info)" "qr = br_qr_string info"
    "snd (orch_begin env url did label pf) = pf\<lparr>pf_signals := pf_signals pf @ [None], pf_rm := rm, pf_pending := Some pp, pf_join := Some (length (pf_signals pf))\<rparr>"
    by (auto simp: run split: if_splits sum.splits prod.splits)
  from begun(4) [OF r(1)] show "\<exists>pp b i. pf_pending (snd (orch_begin env url did label pf)) = Some pp \<and> pp_pairing_id pp = br_pairing_id info \<and>
      begun_with (pe_crypto env) url (br_daemon_id info) b pp \<and> pp_relay pp = Some i \<and> pb_qr_string b = br_qr_string info \<and>
      random_pairing_bundle env url (br_daemon_id info) (safe_hostname env) = Inr b \<and>
      rc_config (rm_client i (pf_rm (snd (orch_begin env url did label pf)))) = pending_config pp b"
    using r(2) fresh(1,3,4) by (auto simp: r(3) with_bundle_def pending_config_def begun_with_def)
qed
lemma mark_completed_slot: "slot_ok pf pp \<Longrightarrow> slot_ok pf (mark_completed fid pp)"
  by (auto simp: slot_ok_def mark_completed_def pending_completed_def split: option.split)

lemma slot_ok_pending: "slot_ok (pf\<lparr>pf_pending := p\<rparr>) pp = slot_ok pf pp"
  by (simp add: slot_ok_def)

lemma wait_for_join_inv: "pf_inv api pf \<Longrightarrow> pf_inv api (wait_for_join pf)"
  by (auto simp: wait_for_join_def pf_inv_def mark_completed_slot slot_ok_pending split: option.split)

lemma orch_promote_inv:
  assumes "pf_inv api pf"
  shows "pf_inv api (orch_promote env c pf)"
proof -
  obtain r st where s: "save_pairing (me_store (pe_manager env)) (completed_input c) (rm_store (pf_rm pf)) = (r, st)" by fastforce
  have rm: "rm_inv api (pf_rm pf)" using assms by (simp add: pf_inv_def)
  then have "store_inv st" using store_inv_meta_ops(3) [of "rm_store (pf_rm pf)" "me_store (pe_manager env)" "completed_input c"] s by (simp add: rm_inv_def)
  then have saved: "rm_inv api ((pf_rm pf)\<lparr>rm_store := st\<rparr>)" by (rule rm_inv_store [OF rm])
  have "rm_inv api (register_client (pe_manager env) i ((pf_rm pf)\<lparr>rm_store := st\<rparr>))"
    if "pf_pending pf = Some pp" "pp_relay pp = Some i" for pp i
    using assms that by (intro register_client_inv [OF saved]) (auto simp: pf_inv_def slot_ok_def)
  with saved show ?thesis
    by (auto simp: orch_promote_def flow_save_pairing_def s release_relay_def pf_inv_def Let_def bind_eq_Some_conv split: sum.split option.split)
qed

lemma slot_removal_inv:
  assumes "pf_inv api pf"
  shows "pf_inv api (orch_cancel pid pf)" "pf_inv api (clear_pending pf)" "pf_inv api (orch_stop pf)"
proof -
  have rm: "rm_inv api (pf_rm pf)" using assms by (simp add: pf_inv_def)
  show "pf_inv api (orch_cancel pid pf)"
    using assms pending_cancel_inv [OF rm] by (auto simp: orch_cancel_def pf_inv_def split: option.split)
  show "pf_inv api (clear_pending pf)" by (simp add: clear_pending_def pf_inv_def dispose_opt_inv rm)
  show "pf_inv api (orch_stop pf)"
    using assms pending_cancel_inv [OF rm] by (auto simp: orch_stop_def pf_inv_def dispose_opt_inv case_prod_beta Let_def split: option.split)
qed

lemma watch_step_inv: "pf_inv api pf \<Longrightarrow> pf_inv api (snd (watch_step env runner pid did pf))"
  using wait_for_join_inv [of api pf] orch_promote_inv [of api "wait_for_join pf"]
  by (auto simp: watch_step_def pf_inv_fields Let_def split: option.split pairing_result.split)

lemma pair_step_inv:
  assumes "pf_inv (pe_crypto env) pf"
  shows "pf_inv (pe_crypto env) (snd (pair_step env t pf))"
proof (cases t)
  case (Begin runner url did label)
  then show ?thesis using orch_begin_ok(1) [OF assms, of url did label]
    by (auto simp: begin_step_def pf_inv_fields split: prod.split sum.split)
next
  case (Rollback runner pid did message)
  have rm: "rm_inv (pe_crypto env) (snd (remove_pairing (pe_manager env) did False (pf_rm pf)))"
    using assms by (simp add: pf_inv_def remove_pairing_inv)
  have "i \<notin> set (rm_clients (snd (remove_pairing (pe_manager env) did False (pf_rm pf))))"
    if "pf_pending pf = Some pp" "pp_relay pp = Some i" for pp i
    using assms that remove_pairing_clients [of "pe_manager env" did False "pf_rm pf"] by (auto simp: pf_inv_def slot_ok_def)
  from pf_inv_rm [OF assms rm _ this] show ?thesis by (simp add: Rollback)
qed (use assms in \<open>simp_all add: begun_step_def pf_inv_fields watch_step_inv slot_removal_inv\<close>)

lemma frontend_joined_inv:
  assumes "pf_inv (pe_crypto env) pf"
  shows "pf_inv (pe_crypto env) (frontend_joined env k label did fid pf)"
proof -
  let ?rm = "build_events (pe_manager env) (Some label) did (On_frontend_joined fid) (pf_rm pf)"
  have "pf_inv (pe_crypto env) (pf\<lparr>pf_rm := ?rm\<rparr>)"
    using assms by (intro pf_inv_rm build_events_inv) (auto simp: pf_inv_def slot_ok_def split: option.splits)
  then show ?thesis by (auto simp: frontend_joined_def pf_inv_def slot_ok_def Let_def split: option.splits)
qed

lemma pf_step_inv: "pf_step api pf pf' \<Longrightarrow> pf_inv api pf \<Longrightarrow> pf_inv api pf'"
proof (induction rule: pf_step.induct)
  case (runs env i pf)
  then show ?case using pair_step_inv [of env pf "pf_tasks pf ! i"] by (auto simp: pair_run_def case_prod_beta pf_inv_fields Let_def)
next
  case (joins env k pf label did fid)
  then show ?case using frontend_joined_inv [of env pf] by simp
next
  case (pool_acts pf rm)
  then show ?case using rm_step_inv [OF pool_acts.hyps(1)] rm_step_objects [OF pool_acts.hyps(1)]
    by (intro pf_inv_rm) (auto simp: pf_inv_def)
qed (simp_all add: on_pair_begin_def handle_pair_cancel_def handle_cli_disconnect_def pf_inv_fields slot_removal_inv)

lemma pf_inv_new: "rm_inv api rm \<Longrightarrow> pf_inv api (flow_new rm srv)"
  by (simp add: pf_inv_def flow_new_def)

interpretation pf_sys: step_system "\<lambda>pf. \<exists>rm srv. rm_inv api rm \<and> pf = flow_new rm srv" "pf_step api" "pf_inv api" for api
  by unfold_locales (auto simp: pf_inv_new pf_step_inv)

text \<open>There is at most one pairing in progress and its connection belongs to it alone. In every state
  reachable by the command line's requests, disconnections, joins, the watchers and the pool's own work,
  the client of the pending pairing exists, is not in the pool, has its key material and a join signal of
  its own, and the pairing is unresolved until a frontend completes it; without a pending pairing there is
  no signal, and the pool is consistent throughout.\<close>

theorem pairing_slot_stays_consistent:
  assumes "rm_inv api rm" "(pf_step api)\<^sup>*\<^sup>* (flow_new rm srv) pf"
  shows "rm_inv api (pf_rm pf) \<and> (pf_pending pf = None \<longrightarrow> pf_join pf = None) \<and>
    (\<forall>pp. pf_pending pf = Some pp \<longrightarrow> (\<exists>i. pp_relay pp = Some i \<and> i < length (rm_objects (pf_rm pf)) \<and> i \<notin> set (rm_clients (pf_rm pf))) \<and>
      (\<exists>k. pf_join pf = Some k \<and> k < length (pf_signals pf)) \<and> pp_key_pair pp \<noteq> None \<and> pp_resolved pp \<noteq> Some Cancelled \<and>
      (pp_settled pp \<longleftrightarrow> pending_completed pp))"
proof -
  have "pf_inv api pf" by (rule pf_sys.reachable_inv [OF _ assms(2)]) (use assms(1) in blast)
  then show ?thesis by (auto simp: pf_inv_def slot_ok_def pending_completed_def split: option.splits if_splits)
qed
section \<open>Completing a pairing\<close>

lemma ipc_send_outbound:
  assumes "hm_get (is_conns srv) c = Some conn" "cr_open conn" "length (cr_outbound conn) < OUTBOUND_CAPACITY"
  shows "hm_get (is_conns (snd (ipc_send c msg srv))) c = Some (conn\<lparr>cr_outbound := cr_outbound conn @ [msg]\<rparr>)"
    "d \<noteq> c \<Longrightarrow> hm_get (is_conns (snd (ipc_send c msg srv))) d = hm_get (is_conns srv) d"
  using assms by (simp_all add: ipc_send_def)

text \<open>What a completed pairing hands over.\<close>

definition completion :: "string \<Rightarrow> pending_pairing \<Rightarrow> completed" where
  "completion fid pp = \<lparr>cp_frontend_id = fid, cp_daemon_id = pp_daemon_id pp, cp_relay_url = pp_relay_url pp, cp_relay_token = pp_relay_token pp,
     cp_registration_proof = pp_registration_proof pp, cp_key_pair = the (pp_key_pair pp), cp_pairing_secret = the (pp_pairing_secret pp),
     cp_label = pp_label pp, cp_pairing_id = pp_wire_pairing_id pp, cp_hostname = pp_wire_hostname pp\<rparr>"

text \<open>A poll that finds the join of the pending pairing, with a database that accepts the row.\<close>

lemma watch_completes:
  assumes "slot_ok pf pp" "pf_pending pf = Some pp" "\<not> pp_settled pp" "pf_join pf = Some k" "pf_signals pf ! k = Some fid"
    "pp_relay pp = Some i" "pf_save_error pf = None"
    "save_pairing (me_store (pe_manager env)) (completed_input (completion fid pp)) (rm_store (pf_rm pf)) = (Inr (), st)"
  shows "watch_step env runner pid did pf = (Finished, flow_send runner (IpcPairCompleted pid did (pp_label pp)) (clear_owner_if runner
    (pf\<lparr>pf_rm := register_client (pe_manager env) i ((pf_rm pf)\<lparr>rm_store := st\<rparr>), pf_pending := None, pf_join := None\<rparr>)))"
proof -
  obtain kp ps where keys: "pp_key_pair pp = Some kp" "pp_pairing_secret pp = Some ps" using assms(1) by (auto simp: slot_ok_def)
  let ?pp = "pp\<lparr>pp_settled := True, pp_resolved := Some (Completed (completion fid pp))\<rparr>"
  have "mark_completed fid pp = ?pp" using assms(3) by (simp add: mark_completed_def keys completion_def)
  then have join: "wait_for_join pf = pf\<lparr>pf_pending := Some ?pp\<rparr>" using assms(2,4,5) by (simp add: wait_for_join_def)
  have "orch_promote env (completion fid pp) (pf\<lparr>pf_pending := Some ?pp\<rparr>) =
      pf\<lparr>pf_rm := register_client (pe_manager env) i ((pf_rm pf)\<lparr>rm_store := st\<rparr>), pf_pending := None, pf_join := None\<rparr>"
    using assms(6,8) by (simp add: orch_promote_def flow_save_pairing_def release_relay_def Let_def)
  moreover have "pf_save_error (clear_owner_if runner pf) = pf_save_error pf" for pf by (simp add: clear_owner_if_def)
  ultimately show ?thesis
    using assms(7) by (simp add: watch_step_def join Let_def) (simp add: completion_def)
qed



lemma flow_send_fields [simp]:
  "pf_rm (flow_send r m pf) = pf_rm pf" "pf_pending (flow_send r m pf) = pf_pending pf" "pf_tasks (flow_send r m pf) = pf_tasks pf"
  "pf_ipc (flow_send r m pf) = snd (ipc_send r m (pf_ipc pf))" "pf_join (flow_send r m pf) = pf_join pf" "pf_owner (flow_send r m pf) = pf_owner pf"
  "pf_rm (clear_owner_if r pf) = pf_rm pf" "pf_pending (clear_owner_if r pf) = pf_pending pf" "pf_tasks (clear_owner_if r pf) = pf_tasks pf"
  "pf_ipc (clear_owner_if r pf) = pf_ipc pf" "pf_join (clear_owner_if r pf) = pf_join pf"
  by (simp_all add: flow_send_def clear_owner_if_def)

lemma register_client_fields [simp]:
  "rm_clients (register_client env i rm) = rm_clients rm @ [i]" "rm_store (register_client env i rm) = rm_store rm"
  by (simp_all add: register_client_def)

section \<open>What the phone reads\<close>

text \<open>C14: The code on the screen carries exactly the pairing the daemon waits for. When a pairing begins, the
  link it returns decodes, and the secret, public key, daemon id, host name, relay and pairing id read
  from it are those of the configuration of the pending client; the token and the registration proof of
  that client are the ones derived from this secret.\<close>

theorem qr_carries_the_pairing:
  assumes "b64_lawful (pe_crypto env)" "b64_shape (pe_crypto env)" "pf_inv (pe_crypto env) pf"
    "orch_begin env url did label pf = (Inr info, pf')" "rust_string (br_daemon_id info)" "rust_string url" "rust_string (safe_hostname env)"
  shows "\<exists>data pp i cfg pid. decode_pairing_data (pe_crypto env) (br_qr_string info) = Some (Inr data) \<and>
    pf_pending pf' = Some pp \<and> pp_relay pp = Some i \<and> cfg = rc_config (rm_client i (pf_rm pf')) \<and>
    b64_std_dec (pe_crypto env) (pa_ps data) = Inr (cf_pairing_secret cfg) \<and>
    b64_std_dec (pe_crypto env) (pa_pk data) = Inr (public_key (cf_key_pair cfg)) \<and>
    pa_did data = cf_daemon_id cfg \<and> pa_hostname data = cf_hostname cfg \<and> cf_relay_url cfg = url \<and> pa_relay data = relay_read_back url \<and>
    parse_uuid_16 (pe_crypto env) (cf_pairing_id cfg) = Inr pid \<and> pa_pairing_id data = format_uuid (pe_crypto env) pid \<and>
    cf_token cfg = derive_relay_token (pe_crypto env) (cf_pairing_secret cfg) \<and>
    cf_registration_proof cfg = derive_registration_proof (pe_crypto env) (cf_pairing_secret cfg)"
proof -
  let ?api = "pe_crypto env"
  have dec: "b64_std_dec ?api (b64_std_enc ?api bs) = Inr bs" for bs using assms(1) by (simp add: b64_lawful_def)
  from orch_begin_ok(2) [OF assms(3), of url did label info] obtain pp b i where p: "pf_pending pf' = Some pp" "pp_relay pp = Some i"
    "pb_qr_string b = br_qr_string info" "random_pairing_bundle env url (br_daemon_id info) (safe_hostname env) = Inr b"
    "rc_config (rm_client i (pf_rm pf')) = pending_config pp b" "begun_with (pe_crypto env) url (br_daemon_id info) b pp"
    by (auto simp: assms(4))
  let ?data = "\<lparr>pa_ps = b64_std_enc ?api (pe_pairing_secret env), pa_pk = b64_std_enc ?api (public_key (kx_random_keypair env)),
       pa_relay = url, pa_did = br_daemon_id info, pa_v = 4, pa_pairing_id = random_uuid_string env, pa_hostname = safe_hostname env\<rparr>"
  from p(3,4) have enc: "encode_pairing_data ?api ?data = Inr (br_qr_string info)"
    and b: "pb_key_pair b = kx_random_keypair env" "pb_pairing_secret b = pe_pairing_secret env" "pb_pairing_id b = random_uuid_string env"
      "pb_hostname b = safe_hostname env" "pb_relay_token b = derive_relay_token ?api (pe_pairing_secret env)"
    by (auto simp: random_pairing_bundle_def Let_def split: sum.splits)
  from pairing_link_decodes [OF assms(1,2) enc] assms(5-7) dec obtain pid where
    "parse_uuid_16 ?api (random_uuid_string env) = Inr pid"
    "decode_pairing_data ?api (br_qr_string info) = Some (Inr (?data\<lparr>pa_relay := relay_read_back url, pa_pairing_id := format_uuid ?api pid\<rparr>))"
    by auto
  with p b dec show ?thesis
    by (intro exI [of _ "?data\<lparr>pa_relay := relay_read_back url, pa_pairing_id := format_uuid ?api pid\<rparr>"] exI [of _ pp] exI [of _ i]
        exI [of _ "pending_config pp b"] exI [of _ pid]) (simp add: begun_with_def pending_config_def)
qed
section \<open>Two command lines\<close>

text \<open>A watcher that lost its pairing can take the next one. Suppose the pairing of one command line was
  cancelled and another command line has begun its own before the first watcher polls again. When a phone
  joins the second pairing and the first watcher polls first, it promotes the second pairing, tells the
  first command line that its cancelled pairing is complete, under its own ids, and the second command
  line is told that its pairing, now stored and in the pool, was cancelled.\<close>

theorem stale_watcher_takes_the_next_pairing:
  assumes "pf_inv api pf" "pf_pending pf = Some pp" "\<not> pp_settled pp" "pf_join pf = Some k" "pf_signals pf ! k = Some fid" "pf_save_error pf = None"
    "save_pairing (me_store (pe_manager env)) (completed_input (completion fid pp)) (rm_store (pf_rm pf)) = (Inr (), st)"
    "a < length (pf_tasks pf)" "b < length (pf_tasks pf)" "a \<noteq> b" "pf_tasks pf ! a = Watch runner_a pid_a did_a"
    "pf_tasks pf ! b = Watch runner_b (pp_pairing_id pp) (pp_daemon_id pp)" "runner_a \<noteq> runner_b" "pid_a \<noteq> pp_pairing_id pp"
    "hm_get (is_conns (pf_ipc pf)) runner_a = Some conn_a" "cr_open conn_a" "length (cr_outbound conn_a) < OUTBOUND_CAPACITY"
    "hm_get (is_conns (pf_ipc pf)) runner_b = Some conn_b" "cr_open conn_b" "length (cr_outbound conn_b) < OUTBOUND_CAPACITY"
  shows "\<exists>i. pp_relay pp = Some i \<and> i \<in> set (rm_clients (pf_rm (pair_run env b (pair_run env a pf)))) \<and>
    rm_store (pf_rm (pair_run env b (pair_run env a pf))) = st \<and>
    map_option cr_outbound (hm_get (is_conns (pf_ipc (pair_run env b (pair_run env a pf)))) runner_a) =
      Some (cr_outbound conn_a @ [IpcPairCompleted pid_a did_a (pp_label pp)]) \<and>
    map_option cr_outbound (hm_get (is_conns (pf_ipc (pair_run env b (pair_run env a pf)))) runner_b) =
      Some (cr_outbound conn_b @ [IpcPairCancelled (pp_pairing_id pp)])"
proof -
  have slot: "slot_ok pf pp" using assms(1,2) by (simp add: pf_inv_def)
  then obtain i where i: "pp_relay pp = Some i" by (auto simp: slot_ok_def)
  define pf1 where "pf1 = pair_run env a pf"
  have pf1: "pf1 = (flow_send runner_a (IpcPairCompleted pid_a did_a (pp_label pp)) (clear_owner_if runner_a
      (pf\<lparr>pf_rm := register_client (pe_manager env) i ((pf_rm pf)\<lparr>rm_store := st\<rparr>), pf_pending := None, pf_join := None\<rparr>)))
      \<lparr>pf_tasks := (pf_tasks pf)[a := Finished]\<rparr>"
    using watch_completes [OF slot assms(2-5) i assms(6,7), of runner_a pid_a did_a] assms(11) by (simp add: pf1_def pair_run_def)
  have tb: "pf_tasks pf1 ! b = Watch runner_b (pp_pairing_id pp) (pp_daemon_id pp)" using assms(10,12) by (simp add: pf1)
  have free: "pf_pending pf1 = None" "pf_join pf1 = None" by (simp_all add: pf1)
  then have watch: "watch_step env runner_b (pp_pairing_id pp) (pp_daemon_id pp) pf1 =
      (Finished, flow_send runner_b (IpcPairCancelled (pp_pairing_id pp)) (clear_owner_if runner_b pf1))"
    by (simp add: watch_step_def wait_for_join_def)
  have run: "pair_run env b pf1 = (flow_send runner_b (IpcPairCancelled (pp_pairing_id pp)) (clear_owner_if runner_b pf1))\<lparr>pf_tasks := (pf_tasks pf1)[b := Finished]\<rparr>"
    by (simp add: pair_run_def tb watch)
  have conns: "hm_get (is_conns (pf_ipc pf1)) runner_a = Some (conn_a\<lparr>cr_outbound := cr_outbound conn_a @ [IpcPairCompleted pid_a did_a (pp_label pp)]\<rparr>)"
    "hm_get (is_conns (pf_ipc pf1)) runner_b = Some conn_b"
    using ipc_send_outbound [OF assms(15-17)] assms(13,18) by (simp_all add: pf1)
  show ?thesis
    using i conns ipc_send_outbound [OF conns(2) assms(19,20), where msg = "IpcPairCancelled (pp_pairing_id pp)"] assms(13)
    by (intro exI [of _ i]) (simp add: pf1_def [symmetric] run, simp add: pf1)
qed

text \<open>A command line that disconnects while its pairing begins leaves pairing blocked. The disconnection
  finds no owner and does nothing; the pairing then records the vanished command line as its owner. From
  then on no other command line can cancel it, every attempt to begin another pairing is refused, and no
  cancellation is under way.\<close>

theorem disconnect_during_begin_blocks_pairing:
  fixes env i pf
  assumes "pf_owner pf = None" "i < length (pf_tasks pf)" "pf_tasks pf ! i = Begin runner url did label" "\<forall>t \<in> set (pf_tasks pf). \<forall>p. t \<noteq> Cancel p"
    "fst (orch_begin env url did label pf) = Inr info" "pf_inv (pe_crypto env) pf"
  defines "pf' \<equiv> pair_run env i (handle_cli_disconnect runner (pair_run env i pf))"
  shows "pf_pending pf' \<noteq> None \<and> pf_owner pf' = Some runner \<and>
    (\<forall>other pid. other \<noteq> runner \<longrightarrow> handle_pair_cancel other pid pf' = pf') \<and>
    (\<forall>env' url' did' label'. orch_begin env' url' did' label' pf' = (Inl AlreadyPending, pf')) \<and>
    (\<forall>t \<in> set (pf_tasks pf'). \<forall>p. t \<noteq> Cancel p)"
proof -
  obtain pf1 where b: "orch_begin env url did label pf = (Inr info, pf1)" using assms(5) by (metis prod.collapse)
  have keep: "pf_owner pf1 = pf_owner pf" "pf_tasks pf1 = pf_tasks pf"
    using b by (auto simp: orch_begin_def Let_def split: if_splits sum.splits prod.splits)
  let ?pf1 = "pf1\<lparr>pf_tasks := (pf_tasks pf)[i := Begun runner info]\<rparr>"
  have 1: "pair_run env i pf = ?pf1" using b keep(2) by (simp add: pair_run_def assms(3) begin_step_def)
  have 2: "handle_cli_disconnect runner ?pf1 = ?pf1" using assms(1) keep(1) by (simp add: handle_cli_disconnect_def)
  have 3: "pf' = (snd (begun_step runner info ?pf1))\<lparr>pf_tasks := (pf_tasks pf)[i := Watch runner (br_pairing_id info) (br_daemon_id info)]\<rparr>"
    unfolding pf'_def 1 2 using assms(2) by (simp add: pair_run_def begun_step_def)
  have "pf_pending pf1 \<noteq> None" using orch_begin_ok(2) [OF assms(6), of url did label info] by (auto simp: b)
  then have "pf_pending pf' \<noteq> None" "pf_owner pf' = Some runner" by (simp_all add: 3 begun_step_def)
  moreover have "t \<in> set (pf_tasks pf') \<Longrightarrow> t \<noteq> Cancel p" for t p
    using assms(4) set_update_subset_insert [of "pf_tasks pf" i "Watch runner (br_pairing_id info) (br_daemon_id info)"] by (auto simp: 3)
  ultimately show ?thesis by (auto simp: handle_pair_cancel_def orch_begin_def)
qed

text \<open>
  A relay that cannot be reached is not reported: \<open>connect\<close> only schedules a retry, so that a pairing begins
  whenever its link can be encoded.
\<close>

lemma begin_ignores_the_relay:
  assumes "pf_pending pf = None" "\<not> daemon_id_taken env d pf" "random_pairing_bundle env url d (safe_hostname env) = Inr b"
  shows "\<exists>info. fst (orch_begin env url (Some d) label pf) = Inr info"
  using assms by (simp add: orch_begin_def pending_begin_def pending_new_def with_bundle_def Let_def)

section \<open>A pairing\<close>

definition demo_pair_env :: pair_env where
  "demo_pair_env = \<lparr>pe_manager = (demo_env (no_faults 5))\<lparr>me_client := (demo_client_env JNull)\<lparr>ce_crypto := demo_pad_api\<rparr>\<rparr>,
     pe_hostname = Some (pa_hostname demo_pairing), pe_now = 5, pe_suffix = 1, pe_secret_key = replicate 32 2,
     pe_pairing_secret = replicate 32 1, pe_uuid = replicate 16 7\<rparr>"

definition demo_flow :: pairing_flow where
  "demo_flow = flow_new (relay_manager_new demo_store []) (snd (ipc_accept (snd (ipc_accept ipc_server_new))))"

abbreviation demo_begin :: "(begin_error + begin_result) \<times> pairing_flow" where
  "demo_begin \<equiv> orch_begin demo_pair_env (pa_relay demo_pairing) (Some (pa_did demo_pairing)) None demo_flow"

lemma demo_pair_crypto [simp]: "pe_crypto demo_pair_env = demo_pad_api"
  by (simp add: demo_pair_env_def)

lemma demo_flow_inv: "pf_inv demo_pad_api demo_flow"
  unfolding demo_flow_def by (rule pf_inv_new) (simp add: rm_inv_def pool_ok_def relay_manager_new_def demo_store_inv)

lemma demo_hostname: "safe_hostname demo_pair_env = pa_hostname demo_pairing"
  by (simp add: safe_hostname_def demo_pair_env_def demo_pairing_names)

lemma demo_bundle: "\<exists>b. random_pairing_bundle demo_pair_env (pa_relay demo_pairing) (pa_did demo_pairing) (pa_hostname demo_pairing) = Inr b"
proof -
  have "\<lparr>pa_ps = b64_std_enc demo_pad_api (pe_pairing_secret demo_pair_env), pa_pk = b64_std_enc demo_pad_api (public_key (kx_random_keypair demo_pair_env)),
      pa_relay = pa_relay demo_pairing, pa_did = pa_did demo_pairing, pa_v = 4, pa_pairing_id = random_uuid_string demo_pair_env,
      pa_hostname = pa_hostname demo_pairing\<rparr> = demo_pairing"
    by (simp add: demo_pairing_def kx_random_keypair_def random_uuid_string_def format_uuid_def demo_pad_api_def demo_api_def demo_pad_enc_def demo_pair_env_def)
  then show ?thesis using demo_pairing_encodes by (auto simp: random_pairing_bundle_def Let_def)
qed

lemma demo_begins:
  obtains info pf pp i where "demo_begin = (Inr info, pf)" "pf_inv demo_pad_api pf" "pf_pending pf = Some pp" "\<not> pp_settled pp" "pp_relay pp = Some i"
    "pf_join pf = Some 0" "pf_signals pf = [None]" "pf_ipc pf = pf_ipc demo_flow" "pf_save_error pf = None" "pf_owner pf = None" "pf_tasks pf = []"
    "rm_clients (pf_rm pf) = []" "pp_daemon_id pp = pa_did demo_pairing"
proof -
  obtain b where b: "random_pairing_bundle demo_pair_env (pa_relay demo_pairing) (pa_did demo_pairing) (safe_hostname demo_pair_env) = Inr b"
    using demo_bundle by (auto simp: demo_hostname)
  have free: "pf_pending demo_flow = None" by (simp add: demo_flow_def flow_new_def)
  have "md_pairings (st_meta demo_store) = []" by code_simp
  then have "\<not> daemon_id_taken demo_pair_env (pa_did demo_pairing) demo_flow"
    by (simp add: daemon_id_taken_def list_pairings_def demo_flow_def flow_new_def relay_manager_new_def sort_by_created_at_def ok_or_nil_def sql_run_def split: option.split)
  from begin_ignores_the_relay [OF free this b] obtain info where "fst demo_begin = Inr info" by blast
  then obtain pf where pf: "demo_begin = (Inr info, pf)" by (metis prod.collapse)
  have inv: "pf_inv demo_pad_api pf" using orch_begin_ok(1) [of demo_pair_env demo_flow] demo_flow_inv by (metis demo_pair_crypto pf snd_conv)
  have did: "br_daemon_id info = pa_did demo_pairing"
    using pf by (auto simp: orch_begin_def pending_begin_def Let_def pending_new_def with_bundle_def split: if_splits sum.splits)
  from orch_begin_ok(2) [of demo_pair_env demo_flow] demo_flow_inv pf obtain pp b i where pp: "pf_pending pf = Some pp" "pp_relay pp = Some i"
    "begun_with demo_pad_api (pa_relay demo_pairing) (br_daemon_id info) b pp" by (metis demo_pair_crypto fst_conv snd_conv)
  have "pf_join pf = Some 0" "pf_signals pf = [None]" "pf_ipc pf = pf_ipc demo_flow" "pf_save_error pf = None" "pf_owner pf = None" "pf_tasks pf = []"
    "rm_clients (pf_rm pf) = []"
    using pf by (auto simp: orch_begin_def pending_begin_def Let_def demo_flow_def flow_new_def relay_manager_new_def split: if_splits sum.splits)
  with that pf inv pp did show thesis by (auto simp: begun_with_def)
qed

lemma demo_conns:
  "hm_get (is_conns (pf_ipc demo_flow)) 1 = Some \<lparr>cr_outbound = [], cr_open = True, cr_sid = None, cr_decoder = decoder_new\<rparr>"
  "hm_get (is_conns (pf_ipc demo_flow)) 2 = Some \<lparr>cr_outbound = [], cr_open = True, cr_sid = None, cr_decoder = decoder_new\<rparr>"
  by (simp_all add: demo_flow_def flow_new_def ipc_accept_def ipc_server_new_def)

lemma demo_saves: "\<exists>st. save_pairing (me_store (pe_manager demo_pair_env)) data st0 = (Inr (), st)"
proof -
  have "\<forall>stmt. se_sql (me_store (pe_manager demo_pair_env)) stmt = None" by (simp add: demo_pair_env_def demo_env_def no_faults_def)
  from save_pairing_works [OF this] show ?thesis by (metis prod.collapse)
qed

theorem pairing_slot_stays_consistent_witness:
  "\<exists>pf pp i. (pf_step demo_pad_api)\<^sup>*\<^sup>* demo_flow pf \<and> pf_pending pf = Some pp \<and> pp_relay pp = Some i \<and> i \<notin> set (rm_clients (pf_rm pf))"
proof -
  let ?req = "on_pair_begin 1 (pa_relay demo_pairing) (Some (pa_did demo_pairing)) None demo_flow"
  have s1: "pf_step demo_pad_api demo_flow ?req" by (rule pf_step.begins)
  have s2: "pf_step demo_pad_api ?req (pair_run demo_pair_env 0 ?req)"
    by (rule pf_step.runs) (simp_all add: on_pair_begin_def flow_spawn_def)
  have reach: "(pf_step demo_pad_api)\<^sup>*\<^sup>* demo_flow (pair_run demo_pair_env 0 ?req)"
    by (rule converse_rtranclp_into_rtranclp [of "pf_step demo_pad_api", OF s1] r_into_rtranclp [of "pf_step demo_pad_api", OF s2])+
  have rm: "rm_inv demo_pad_api (relay_manager_new demo_store [])"
    using demo_flow_inv by (simp add: demo_flow_def pf_inv_def flow_new_def)
  note consistent = pairing_slot_stays_consistent [OF rm reach [unfolded demo_flow_def]]
  have "orch_begin demo_pair_env (pa_relay demo_pairing) (Some (pa_did demo_pairing)) None ?req =
      (fst demo_begin, (snd demo_begin)\<lparr>pf_tasks := pf_tasks ?req\<rparr>)"
    by (simp add: orch_begin_def Let_def on_pair_begin_def flow_spawn_def daemon_id_taken_def split: sum.split prod.split)
  moreover obtain info pf pp where "demo_begin = (Inr info, pf)" "pf_pending pf = Some pp" by (rule demo_begins)
  ultimately have "pf_pending (pair_run demo_pair_env 0 ?req) = Some pp"
    by (simp add: pair_run_def on_pair_begin_def flow_spawn_def begin_step_def demo_flow_def flow_new_def)
  with consistent reach show ?thesis unfolding demo_flow_def by blast
qed


theorem qr_carries_the_pairing_witness:
  "\<exists>info pf data. demo_begin = (Inr info, pf) \<and> decode_pairing_data demo_pad_api (br_qr_string info) = Some (Inr data) \<and> pf_pending pf \<noteq> None"
proof -
  obtain info pf where pf: "demo_begin = (Inr info, pf)" by (rule demo_begins)
  have did: "br_daemon_id info = pa_did demo_pairing"
    using pf by (auto simp: orch_begin_def pending_begin_def Let_def pending_new_def with_bundle_def split: if_splits sum.splits)
  have "\<exists>data pp. decode_pairing_data demo_pad_api (br_qr_string info) = Some (Inr data) \<and> pf_pending pf = Some pp"
    using qr_carries_the_pairing [of demo_pair_env demo_flow "pa_relay demo_pairing" "Some (pa_did demo_pairing)" None info pf]
      demo_pad_lawful demo_pad_shape demo_flow_inv pf demo_pairing_strings did demo_hostname by auto
  with pf show ?thesis by blast
qed

theorem stale_watcher_takes_the_next_pairing_witness:
  "\<exists>pf pid. map_option cr_outbound (hm_get (is_conns (pf_ipc (pair_run demo_pair_env 1 (pair_run demo_pair_env 0 pf)))) 2) = Some [IpcPairCancelled pid] \<and>
    map_option cr_outbound (hm_get (is_conns (pf_ipc (pair_run demo_pair_env 1 (pair_run demo_pair_env 0 pf)))) 1) = Some [IpcPairCompleted ''pp-old'' ''daemon-old'' LUnset]"
proof -
  obtain info pf pp i where d: "demo_begin = (Inr info, pf)" "pf_inv demo_pad_api pf" "pf_pending pf = Some pp" "\<not> pp_settled pp" "pp_relay pp = Some i"
    "pf_join pf = Some 0" "pf_signals pf = [None]" "pf_ipc pf = pf_ipc demo_flow" "pf_save_error pf = None" "pf_owner pf = None" "pf_tasks pf = []"
    "rm_clients (pf_rm pf) = []" "pp_daemon_id pp = pa_did demo_pairing" by (rule demo_begins)
  have pp: "pp_label pp = LUnset" "pp_pairing_id pp = ''pp-'' @ show_hex 5 @ ''-'' @ show_hex 1"
    using d(1,3) by (auto simp: orch_begin_def pending_begin_def Let_def pending_new_def with_bundle_def demo_pair_env_def split: if_splits sum.splits)
  have other: "''pp-old'' \<noteq> pp_pairing_id pp" unfolding pp(2) by code_simp
  let ?pf = "pf\<lparr>pf_signals := [Some ''f''], pf_tasks := [Watch 1 ''pp-old'' ''daemon-old'', Watch 2 (pp_pairing_id pp) (pp_daemon_id pp)]\<rparr>"
  let ?conn = "\<lparr>cr_outbound = [], cr_open = True, cr_sid = None, cr_decoder = decoder_new\<rparr>"
  have inv: "pf_inv demo_pad_api ?pf" using d(2,3,7) by (simp add: pf_inv_def slot_ok_def)
  obtain st where st: "save_pairing (me_store (pe_manager demo_pair_env)) (completed_input (completion ''f'' pp)) (rm_store (pf_rm ?pf)) = (Inr (), st)"
    using demo_saves by blast
  have "map_option cr_outbound (hm_get (is_conns (pf_ipc (pair_run demo_pair_env 1 (pair_run demo_pair_env 0 ?pf)))) 2) = Some [IpcPairCancelled (pp_pairing_id pp)] \<and>
    map_option cr_outbound (hm_get (is_conns (pf_ipc (pair_run demo_pair_env 1 (pair_run demo_pair_env 0 ?pf)))) 1) = Some [IpcPairCompleted ''pp-old'' ''daemon-old'' LUnset]"
    using stale_watcher_takes_the_next_pairing [OF inv, of pp 0 "''f''" demo_pair_env st 0 1 1 "''pp-old''" "''daemon-old''" 2 ?conn ?conn] d st demo_conns other pp(1)
    by (simp add: OUTBOUND_CAPACITY_def)
  then show ?thesis by blast
qed

theorem disconnect_during_begin_blocks_pairing_witness:
  "\<exists>pf. pf_owner pf = Some 1 \<and> handle_pair_cancel 2 ''pp-5-1'' pf = pf \<and> fst (orch_begin demo_pair_env ''wss://r'' None None pf) = Inl AlreadyPending"
proof -
  let ?req = "on_pair_begin 1 (pa_relay demo_pairing) (Some (pa_did demo_pairing)) None demo_flow"
  have t: "pf_owner ?req = None" "0 < length (pf_tasks ?req)" "pf_tasks ?req ! 0 = Begin 1 (pa_relay demo_pairing) (Some (pa_did demo_pairing)) None"
    "\<forall>t \<in> set (pf_tasks ?req). \<forall>p. t \<noteq> Cancel p"
    by (simp_all add: on_pair_begin_def flow_spawn_def demo_flow_def flow_new_def)
  have inv: "pf_inv (pe_crypto demo_pair_env) ?req" using demo_flow_inv by (simp add: on_pair_begin_def pf_inv_fields)
  have "fst (orch_begin demo_pair_env (pa_relay demo_pairing) (Some (pa_did demo_pairing)) None ?req) = fst demo_begin"
    by (simp add: orch_begin_def Let_def on_pair_begin_def flow_spawn_def daemon_id_taken_def split: sum.split prod.split)
  moreover obtain info pf where "demo_begin = (Inr info, pf)" by (rule demo_begins)
  ultimately have "fst (orch_begin demo_pair_env (pa_relay demo_pairing) (Some (pa_did demo_pairing)) None ?req) = Inr info" by simp
  from disconnect_during_begin_blocks_pairing [OF t this inv] show ?thesis by (metis fst_conv one_eq_numeral_iff semiring_norm(85))
qed

end
