(* ===== verification/Daemon.thy ===== *)
theory Daemon
  imports Dispatcher_Props Pairing_Flow
begin

text \<open>
  The daemon (\<open>tp-daemon/src/daemon.rs\<close>): what it does when a runner exits, at its start, in its cleanups
  and at its end, and the operations a program that embeds it calls. The wiring of the components is in the
  theories they are modelled in: the dispatcher's pairing operations are those of the pool
  (\<open>Dispatcher_Props\<close>), the pairing runtime is in \<open>Pairing_Flow\<close>.
\<close>

section \<open>Runners\<close>




definition send_input :: "crypto_api \<Rightarrow> string \<Rightarrow> u8 list \<Rightarrow> dispatcher \<Rightarrow> dispatcher" where
  "send_input api sid data ds =
    (case find_runner_by_sid sid (ds_ipc ds) of
       Some runner \<Rightarrow> send_ipc runner (IpcInput sid (b64_std_enc api data)) ds
     | None \<Rightarrow> ds)"

definition resize_session :: "string \<Rightarrow> u64 \<Rightarrow> u64 \<Rightarrow> dispatcher \<Rightarrow> dispatcher" where
  "resize_session sid cols rows ds =
    (case find_runner_by_sid sid (ds_ipc ds) of
       Some runner \<Rightarrow> send_ipc runner (IpcResize sid cols rows) ds
     | None \<Rightarrow> ds)"

definition get_records_since :: "denv \<Rightarrow> string \<Rightarrow> int \<Rightarrow> int \<Rightarrow> dispatcher \<Rightarrow> stored_record list \<times> dispatcher" where
  "get_records_since env sid after_seq limit ds =
    (let (records, st) = with_records (de_store env) sid
           (\<lambda>t. (case get_records_from (de_db env) after_seq limit t of Inr rs \<Rightarrow> rs | Inl _ \<Rightarrow> [], t)) (ds_store ds)
     in (case records of Some rs \<Rightarrow> rs | None \<Rightarrow> [], set_store st ds))"

section \<open>Start and stop\<close>

definition stale_sids :: "denv \<Rightarrow> dispatcher \<Rightarrow> string list" where
  "stale_sids env ds = map sm_sid (filter (\<lambda>s. sm_state s = ''running'') (ok_or_nil (list_sessions (de_store env) (ds_store ds))))"

definition mark_stopped :: "denv \<Rightarrow> string \<Rightarrow> store \<Rightarrow> store" where
  "mark_stopped env sid st = snd (update_session_state (de_store env) sid ''stopped'' st)"

text \<open>\<open>bind\<close> is what binding the socket gives: an error or the path.\<close>

definition daemon_start :: "denv \<Rightarrow> string + string \<Rightarrow> dispatcher \<Rightarrow> (string + string) \<times> dispatcher" where
  "daemon_start env bind ds = (bind, set_store (fold (mark_stopped env) (stale_sids env ds) (ds_store ds)) ds)"

definition daemon_stop :: "dispatcher \<Rightarrow> pairing_flow \<Rightarrow> dispatcher \<times> pairing_flow" where
  "daemon_stop ds pf =
    (let ds = update_mgr (\<lambda>mg. fold (\<lambda>info mg. snd (kill_runner (ri_sid info) mg)) (list_runners mg) mg) ds;
         pf = orch_stop pf
     in (ds\<lparr>ds_ipc := ipc_stop (ds_ipc ds)\<rparr>, pf\<lparr>pf_rm := rm_stop (pf_rm pf)\<rparr>))"

definition reconnect_saved_relays :: "manager_env \<Rightarrow> relay_manager \<Rightarrow> nat \<times> relay_manager" where
  "reconnect_saved_relays env rm =
    reconnect_saved env (rm\<lparr>rm_store := snd (migrate_pairing_ids (ce_crypto (me_client env)) (me_store env) (rm_store rm))\<rparr>)"

text \<open>The push closure: an empty owner id counts as none.\<close>

definition push_dispatch :: "sent_push \<Rightarrow> relay_manager \<Rightarrow> relay_manager" where
  "push_dispatch p rm =
    dispatch_push (snt_frontend_id p) (snt_sealed p) (snt_title p) (snt_body p) (Some (snt_level p))
      (Some (snt_sid p, if snt_daemon_id p = [] then None else Some (snt_daemon_id p), snt_event p)) rm"

definition relay_health :: "relay_manager \<Rightarrow> doctor_relay_status list" where
  "relay_health rm = map (\<lambda>i. let c = rm_client i rm
     in \<lparr>dr_daemon_id = client_daemon_id rm i, dr_relay_url = cf_relay_url (rc_config c), dr_connected = is_connected c,
         dr_peer_count = word_of_nat (get_peer_count c), dr_throttled = Some (is_throttled c)\<rparr>) (rm_clients rm)"

section \<open>Cleanup\<close>

definition DEFAULT_PRUNE_TTL_DAYS :: f64 where "DEFAULT_PRUNE_TTL_DAYS = F64 7 0"

text \<open>
  A number of days is \<open>None\<close> when it is not finite. \<open>parse\<close> is \<open>str::parse::<f64>\<close> and \<open>show_days\<close> the formatting of
  a float.
\<close>

definition js_number :: "(string \<Rightarrow> f64 option) \<Rightarrow> string \<Rightarrow> f64 option" where
  "js_number parse raw = (let t = str_trim raw in if t = [] then Some (F64 0 0) else parse t)"

definition resolve_prune_ttl_days ::
  "(string \<Rightarrow> f64 option) \<Rightarrow> (f64 option \<Rightarrow> string) \<Rightarrow> f64 option option \<Rightarrow> string option \<Rightarrow> string + f64" where
  "resolve_prune_ttl_days parse show_days ttl_days env_val =
    (let checked = (\<lambda>days raw. case days of Some d \<Rightarrow> if f64_lt (F64 0 0) d then Inr d else Inl raw | None \<Rightarrow> Inl raw)
     in case ttl_days of
          Some d \<Rightarrow> checked d (show_days d)
        | None \<Rightarrow> (case env_val of
              Some raw \<Rightarrow> if raw = [] then Inr DEFAULT_PRUNE_TTL_DAYS else checked (js_number parse raw) raw
            | None \<Rightarrow> Inr DEFAULT_PRUNE_TTL_DAYS))"

definition run_startup_cleanup :: "store_env \<Rightarrow> int \<Rightarrow> store \<Rightarrow> store" where
  "run_startup_cleanup env max_age_ms st =
    (case prune_old_sessions env max_age_ms st of
       (Inl _, st) \<Rightarrow> st
     | (Inr _, st) \<Rightarrow>
         (case sweep_orphaned_sidecars env st of
            (Inl _, st) \<Rightarrow> st
          | (Inr _, st) \<Rightarrow> snd (sweep_orphaned_confirmations env st)))"

definition run_periodic_prune :: "store_env \<Rightarrow> int \<Rightarrow> store \<Rightarrow> store" where
  "run_periodic_prune env max_age_ms st = snd (prune_old_sessions env max_age_ms st)"

section \<open>Crashes and restarts of the daemon\<close>



lemma mark_stopped_rows:
  assumes "se_sql (de_store env) Update_state = None"
  shows "md_sessions (st_meta (mark_stopped env sid st)) =
    map (\<lambda>r. if sm_sid r = sid then r\<lparr>sm_state := ''stopped'', sm_updated_at := se_now (de_store env)\<rparr> else r) (md_sessions (st_meta st))"
  using assms by (simp add: mark_stopped_def update_session_state_def update_sessions_def store_unit_def sql_run_def sql_update_def)

lemma mark_all_rows:
  assumes "se_sql (de_store env) Update_state = None"
  shows "md_sessions (st_meta (fold (mark_stopped env) sids st)) =
    map (\<lambda>r. if sm_sid r \<in> set sids then r\<lparr>sm_state := ''stopped'', sm_updated_at := se_now (de_store env)\<rparr> else r) (md_sessions (st_meta st))"
  by (induction sids arbitrary: st) (auto simp: mark_stopped_rows [OF assms])

text \<open>Nothing runs before the daemon does. With a working database, \<open>start\<close> leaves no session \<open>running\<close>:
  each row that a previous daemon left so becomes \<open>stopped\<close>, every other row is as it was, whether or not
  the socket can be bound.\<close>

theorem start_leaves_no_session_running:
  assumes "store_inv (ds_store ds)" "se_sql (de_store env) Select_sessions = None" "se_sql (de_store env) Update_state = None"
  shows "md_sessions (st_meta (ds_store (snd (daemon_start env bind ds)))) =
      map (\<lambda>r. if sm_state r = ''running'' then r\<lparr>sm_state := ''stopped'', sm_updated_at := se_now (de_store env)\<rparr> else r) (md_sessions (st_meta (ds_store ds))) \<and>
    (\<forall>r \<in> set (md_sessions (st_meta (ds_store (snd (daemon_start env bind ds))))). sm_state r \<noteq> ''running'')"
proof -
  let ?rows = "md_sessions (st_meta (ds_store ds))"
  have sids: "set (stale_sids env ds) = sm_sid ` {r \<in> set ?rows. sm_state r = ''running''}"
    using assms(2) by (auto simp: stale_sids_def list_sessions_def ok_or_nil_def sql_run_def)
  have "r \<in> set ?rows \<Longrightarrow> sm_sid r \<in> set (stale_sids env ds) \<longleftrightarrow> sm_state r = ''running''" for r
    using store_inv_keys(1) [OF assms(1)] unfolding sids by (auto simp: distinct_map inj_on_def)
  then have "md_sessions (st_meta (ds_store (snd (daemon_start env bind ds)))) =
      map (\<lambda>r. if sm_state r = ''running'' then r\<lparr>sm_state := ''stopped'', sm_updated_at := se_now (de_store env)\<rparr> else r) ?rows"
    by (simp add: daemon_start_def set_store_def mark_all_rows [OF assms(3)])
  then show ?thesis by auto
qed

lemma cleanup_inv: "store_inv st \<Longrightarrow> store_inv (run_startup_cleanup env age st)" "store_inv st \<Longrightarrow> store_inv (run_periodic_prune env age st)"
proof -
  assume inv: "store_inv st"
  obtain r st1 where prune: "prune_old_sessions env age st = (r, st1)" by fastforce
  then have 1: "store_inv st1" using store_inv_prune [OF inv, of env age] by simp
  obtain r2 st2 where sweep: "sweep_orphaned_sidecars env st1 = (r2, st2)" by fastforce
  then have 2: "store_inv st2" using store_inv_sweep [OF 1, of env] by simp
  show "store_inv (run_startup_cleanup env age st)"
    using 1 2 store_inv_meta_ops(6) [OF 2] by (simp add: run_startup_cleanup_def prune sweep split: sum.split)
  show "store_inv (run_periodic_prune env age st)" using 1 by (simp add: run_periodic_prune_def prune)
qed

text \<open>The time to live is a positive finite number whenever one is accepted.\<close>

lemma resolved_ttl_is_positive: "resolve_prune_ttl_days parse show_days ttl_days env_val = Inr d \<Longrightarrow> f64_lt (F64 0 0) d"
  by (auto simp: resolve_prune_ttl_days_def DEFAULT_PRUNE_TTL_DAYS_def f64_lt_def f64_le_def Let_def split: option.splits if_splits)





theorem start_leaves_no_session_running_witness:
  "let rows = md_sessions (st_meta (ds_store (snd (daemon_start (demo_denv None) (Inr ''/s'') demo_ds))))
   in length rows = 2 \<and> ''running'' \<notin> set (map sm_state rows)"
proof -
  have inv: "store_inv (ds_store demo_ds)" by (rule ds_inv_parts [OF demo_ds_inv])
  have env: "se_sql (de_store (demo_denv None)) Select_sessions = None" "se_sql (de_store (demo_denv None)) Update_state = None"
    by (simp_all add: demo_denv_def no_faults_def)
  note start = start_leaves_no_session_running [OF inv env, of "Inr ''/s''"]
  have "length (md_sessions (st_meta (ds_store demo_ds))) = 2" by code_simp
  then have "length (md_sessions (st_meta (ds_store (snd (daemon_start (demo_denv None) (Inr ''/s'') demo_ds))))) = 2"
    unfolding conjunct1 [OF start] by simp
  moreover have "''running'' \<notin> set (map sm_state (md_sessions (st_meta (ds_store (snd (daemon_start (demo_denv None) (Inr ''/s'') demo_ds))))))"
    using conjunct2 [OF start] by fastforce
  ultimately show ?thesis unfolding Let_def ..
qed

end
