(* ===== verification/Spec2Isabelle.thy ===== *)
theory Spec2Isabelle
  imports Relay_Conn Daemon
begin

text \<open>
  Verification of teleprompter's Rust core.

  \<^bold>\<open>The program.\<close> Teleprompter lets a phone or web frontend drive coding sessions that run on a
  developer machine. A \<^emph>\<open>daemon\<close> (\<open>tp-daemon\<close>) and its \<^emph>\<open>frontends\<close> meet at an untrusted \<^emph>\<open>relay\<close>
  (\<open>tp-relay\<close>). They pair over a QR link, run a key exchange through the relay and then exchange
  sealed frames, which the relay fans out to subscribers, caches for replay and, when a frontend is
  away, announces by push notification. On its machine the daemon spawns one \<^emph>\<open>runner\<close> process per
  session, takes its records over a local socket (IPC), stores them in SQLite and publishes them.
  \<open>tp-core\<close> holds the codec, the cryptography and the pairing link, \<open>tp-proto\<close> the message types and
  their parsers. All paths below are under \<open>src/rust\<close>.

  \<^bold>\<open>Shared theories.\<close>
  \<^item> \<open>Prelude\<close>, \<open>Bytes\<close>, \<open>Utf8\<close>, \<open>Json\<close>, \<open>Rust_Strings\<close>: hash maps as association lists with an arbitrary
    iteration order, saturating arithmetic, decimal numbers, big-endian integers, UTF-8 and its
    characters, IEEE doubles and JSON values as serde_json has them, trimming and splitting of strings.
    \<open>Prelude\<close> has the locale \<open>step_system\<close>, initial states and steps with an invariant, which every
    step relation below interprets.
  \<^item> \<open>Frame_Codec\<close> (\<open>tp-core/src/codec.rs\<close>): encoder and streaming decoder; any chunking of encoded
    frames decodes to them, and an oversized header is refused for good.
  \<^item> \<open>Crypto\<close> (\<open>tp-core/src/crypto.rs\<close>): key derivations, session keys, sealing; both ends of an exchange
    understand each other. \<open>Pairing\<close> (\<open>tp-core/src/pairing.rs\<close>): the pairing link, its round trip and the
    payloads on which its decoder panics.
  \<^item> \<open>Messages\<close> (\<open>tp-proto/src/relay_client.rs\<close>, \<open>tp-relay/src/messages.rs\<close>), \<open>Label\<close>
    (\<open>tp-proto/src/label.rs\<close>, \<open>control.rs\<close>), \<open>Ipc_Messages\<close> (\<open>ipc.rs\<close>), \<open>Sid\<close> (\<open>socket_path.rs\<close>): message
    types, their JSON forms and the parsers with all their guards; round trips.

  \<^bold>\<open>The relay\<close> (\<open>tp-relay/src\<close>).
  \<^item> \<open>Recent_Frames\<close> (\<open>ring.rs\<close>): the replay cache, shown to refine the history of published frames
    through the locale \<open>replay_cache\<close>. \<open>Registry\<close> (\<open>registry.rs\<close>): registrations, tokens and daemon
    states. \<open>Resume_Token\<close> (\<open>resume_token.rs\<close>), \<open>Handshake\<close> (\<open>handshake.rs\<close>), \<open>Push_Seal\<close>
    (\<open>push_seal.rs\<close>), \<open>Push_Service\<close> (\<open>push.rs\<close>).
  \<^item> \<open>Relay_Core\<close> (\<open>server.rs\<close>, \<open>rate.rs\<close>): shared state, groups, limiters and the routes, each a function
    of one critical section.
  \<^item> \<open>Relay_Conn\<close> (\<open>conn.rs\<close>, \<open>metrics.rs\<close>): one connection from the first frame to the teardown and
    the step relation \<open>sys_step\<close> of the whole relay, in which critical sections of different
    connections interleave: the turns of a read loop, of a write task, of a delivery (choosing a sender
    under the lock and sending after it are two steps), of a push (rate check, resolution, guard, the
    APNs call and commit are separate steps) and of the sweep.

  \<^bold>\<open>The daemon\<close> (\<open>tp-daemon/src\<close>).
  \<^item> \<open>Session_Db\<close>, \<open>Store\<close>, \<open>Store_Inv\<close>, \<open>Store_Props\<close> (\<open>store/\<close>): the tables as row lists, the record files as
    a map from paths, the cache of open databases; every operation with the errors SQLite and the file
    system may report. Their invariant holds whatever the environment answers; the properties say what
    an operation keeps.
  \<^item> \<open>Session_Manager\<close> (\<open>session/manager.rs\<close>): runners, their children and the monitors of their exits
    (\<open>mgr_step\<close>). \<open>Push_Notifier\<close> (\<open>push/notifier.rs\<close>) with the locale \<open>push_deps\<close> for its persistence.
    \<open>Export_Formatter\<close> (\<open>export_formatter.rs\<close>), \<open>Worktree\<close> (\<open>worktree/manager.rs\<close>), \<open>Ipc_Server\<close>
    (\<open>ipc/server.rs\<close>).
  \<^item> \<open>Dispatcher\<close>, \<open>Relay_Control\<close>, \<open>Dispatcher_Props\<close> (\<open>ipc/command_dispatcher.rs\<close>): every IPC and control
    message; a spawned task is a list of steps between its awaits, and \<open>ds_step\<close> interleaves handlers,
    tasks, exits and the other users of the store. The dispatcher's pairing operations are the locale
    \<open>pairing_runtime\<close>.
  \<^item> \<open>Relay_Client\<close> (\<open>transport/relay_client.rs\<close>): the connection to a relay with its generations, reconnect
    delays, key exchange and pings (\<open>client_step\<close>). \<open>Relay_Manager\<close> (\<open>transport/relay_manager.rs\<close>): the pool of
    these clients (\<open>rm_step\<close>).
  \<^item> \<open>Pairing_Flow\<close> (\<open>pairing/\<close> and the pairing runtime of \<open>daemon.rs\<close>): the single pending pairing, its
    watchers and the command lines that start, cancel or abandon it (\<open>pf_step\<close>).
  \<^item> \<open>Daemon\<close> (\<open>daemon.rs\<close>): the reaction to a runner's exit, start, stop and clean-up, built from the parts
    above.

  \<^bold>\<open>How state and effects are modelled.\<close> A struct behind a lock is a record, a critical section a
  function on it, and what may happen between two sections is a choice of the step relation. Messages
  to the outside (sockets, relay clients, runners, git) are recorded in the order they are sent.
  Integers have their width where the code can wrap or saturate; timestamps that are only stored are
  \<open>int\<close>. Errors are values of a sum or option type, panics the value \<open>None\<close> of the pairing decoder.
  Loops are structural recursion, functions with a measure, or runs of a step function: the
  termination measure of \<open>delivery_terminates\<close> bounds the mutual recursion of delivery and closing, and
  the fuel of \<open>paging_reads_every_record\<close> and of the runs of tasks is given in the statements.

  \<^bold>\<open>Parameters.\<close> The cryptographic primitives, base64 and hex (\<open>crypto_api\<close>), the JSON text parser and
  printer, git and \<open>realpath\<close> (\<open>git_api\<close>), the answers of SQLite, of the file system and of the clock
  (\<open>store_env\<close>), the answer of APNs, random bytes and the admission of the rate limiters are arguments;
  their laws (\<open>aead_lawful\<close>, \<open>b64_lawful\<close>, \<open>dh_lawful\<close>, \<open>realpath_lawful\<close> and so on) are named hypotheses,
  each with a lawful instance in the witnesses. The budget inside a rate limiter is not part of the
  state: a check may answer anything at any time, which covers every real sequence of answers.

  \<^bold>\<open>Not modelled.\<close> The WebSocket transport, TLS and the APNs client with its JWT; the HTTP endpoints,
  configuration from the environment, the lock file and the binaries; the UniFFI surface; the runner's
  PTY and hooks; the command line; the identity of a file that was unlinked while it was open. The
  components are listed with their status in the manifest.
\<close>

end
